(* ===== verification/BTree.thy ===== *)
theory BTree
  imports Prelude
begin

text \<open>
  \<open>std::collections::BTreeMap\<close> and \<open>BTreeSet\<close>, which the program uses everywhere and
  whose iteration order (ascending keys) its behaviour depends on: a map is the list of its
  entries in ascending key order, a set the list of its elements.  The locale
  \<open>keyed_map\<close> is the interface the clients rely on.
\<close>

section \<open>The interface of a map\<close>

locale keyed_map =
  fixes get :: "'m \<Rightarrow> 'k \<Rightarrow> 'v option"
    and put :: "'k \<Rightarrow> 'v \<Rightarrow> 'm \<Rightarrow> 'm"
    and del :: "'k \<Rightarrow> 'm \<Rightarrow> 'm"
    and ok :: "'m \<Rightarrow> bool"
    and keyed :: "'k \<Rightarrow> 'v \<Rightarrow> bool"
  assumes get_put: "keyed k v \<Longrightarrow> get (put k v m) k' = (if k' = k then Some v else get m k')"
    and get_del: "get (del k m) k' = (if k' = k then None else get m k')"
    and ok_put: "ok m \<Longrightarrow> keyed k v \<Longrightarrow> ok (put k v m)"
    and ok_del: "ok m \<Longrightarrow> ok (del k m)"
    and ext: "ok m \<Longrightarrow> ok m' \<Longrightarrow> (\<And>k. get m k = get m' k) \<Longrightarrow> m = m'"
    and get_keyed: "ok m \<Longrightarrow> get m k = Some v \<Longrightarrow> keyed k v"
begin

text \<open>Undoing an insertion: restoring the previous entry, or removing the new one.\<close>

lemma undo_put_Some:
  assumes "ok m" "keyed k v" "get m k = Some v'"
  shows "put k v' (put k v m) = m"
proof (rule ext)
  have "keyed k v'" using assms get_keyed by blast
  then show "ok (put k v' (put k v m))" using assms ok_put by simp
  show "get (put k v' (put k v m)) k' = get m k'" for k'
    using assms \<open>keyed k v'\<close> by (simp add: get_put)
qed (rule assms)

lemma undo_put_None:
  assumes "ok m" "keyed k v" "get m k = None"
  shows "del k (put k v m) = m"
proof (rule ext)
  show "ok (del k (put k v m))" using assms ok_put ok_del by simp
  show "get (del k (put k v m)) k' = get m k'" for k'
    using assms by (simp add: get_put get_del)
qed (rule assms)

lemma del_put_same: "ok m \<Longrightarrow> keyed k v \<Longrightarrow> del k (put k v m) = del k m"
  by (rule ext) (simp_all add: ok_put ok_del get_put get_del)

lemma del_absent: "ok m \<Longrightarrow> get m k = None \<Longrightarrow> del k m = m"
  by (rule ext) (simp_all add: ok_del get_del)

end

section \<open>Ordered maps\<close>

type_synonym ('k, 'v) btree = "('k \<times> 'v) list"

definition bt_get :: "('k, 'v) btree \<Rightarrow> 'k \<Rightarrow> 'v option" where
  "bt_get m k = map_of m k"

fun bt_insert :: "'k::linorder \<Rightarrow> 'v \<Rightarrow> ('k, 'v) btree \<Rightarrow> ('k, 'v) btree" where
  "bt_insert k v [] = [(k, v)]"
| "bt_insert k v ((k', v') # m) =
     (if k < k' then (k, v) # (k', v') # m
      else if k = k' then (k, v) # m
      else (k', v') # bt_insert k v m)"

definition bt_remove :: "'k \<Rightarrow> ('k, 'v) btree \<Rightarrow> ('k, 'v) btree" where
  "bt_remove k m = filter (\<lambda>e. fst e \<noteq> k) m"

definition bt_contains :: "('k, 'v) btree \<Rightarrow> 'k \<Rightarrow> bool" where
  "bt_contains m k = (bt_get m k \<noteq> None)"

definition bt_keys :: "('k, 'v) btree \<Rightarrow> 'k list" where
  "bt_keys m = map fst m"

definition bt_values :: "('k, 'v) btree \<Rightarrow> 'v list" where
  "bt_values m = map snd m"

definition bt_retain :: "('k \<Rightarrow> 'v \<Rightarrow> bool) \<Rightarrow> ('k, 'v) btree \<Rightarrow> ('k, 'v) btree" where
  "bt_retain p m = filter (\<lambda>(k, v). p k v) m"

definition bt_extend :: "('k::linorder \<times> 'v) list \<Rightarrow> ('k, 'v) btree \<Rightarrow> ('k, 'v) btree" where
  "bt_extend es m = fold (\<lambda>(k, v). bt_insert k v) es m"

definition bt_wf :: "('k::linorder, 'v) btree \<Rightarrow> bool" where
  "bt_wf m = sorted_wrt (<) (map fst m)"

lemma bt_get_Nil [simp]: "bt_get [] k = None"
  by (simp add: bt_get_def)

lemma bt_get_insert [btree_simps]:
  "bt_get (bt_insert k v m) k' = (if k' = k then Some v else bt_get m k')"
  unfolding bt_get_def by (induction k v m rule: bt_insert.induct) auto

lemma bt_get_remove [btree_simps]:
  "bt_get (bt_remove k m) k' = (if k' = k then None else bt_get m k')"
  unfolding bt_get_def bt_remove_def by (induction m) auto

lemma bt_keys_insert [btree_simps]: "set (bt_keys (bt_insert k v m)) = insert k (set (bt_keys m))"
  unfolding bt_keys_def by (induction k v m rule: bt_insert.induct) (simp_all add: insert_commute)

lemma fst_set_insert [simp]: "fst ` set (bt_insert k v m) = insert k (fst ` set m)"
  by (induction k v m rule: bt_insert.induct) (simp_all add: insert_commute)

lemma set_bt_insert: "set (bt_insert k v m) \<subseteq> insert (k, v) (set m)"
  by (induction k v m rule: bt_insert.induct) auto

lemma in_bt_insert: "(k, v) \<in> set (bt_insert k v m)"
  by (induction k v m rule: bt_insert.induct) auto

lemma set_bt_remove [btree_simps]: "set (bt_remove k m) = {e \<in> set m. fst e \<noteq> k}"
  by (auto simp: bt_remove_def)

lemma bt_wf_Nil [simp, wf_intros]: "bt_wf []"
  by (simp add: bt_wf_def)

lemma bt_wf_Cons: "bt_wf ((k, v) # m) \<longleftrightarrow> (\<forall>k'\<in>fst ` set m. k < k') \<and> bt_wf m"
  by (auto simp: bt_wf_def)

lemma bt_wf_insert [wf_intros]: "bt_wf m \<Longrightarrow> bt_wf (bt_insert k v m)"
proof (induction k v m rule: bt_insert.induct)
  case (2 k v k' v' m)
  then show ?case by (cases k k' rule: linorder_cases) (auto simp: bt_wf_Cons)
qed (simp add: bt_wf_Cons)

lemma sorted_wrt_map_filter: "sorted_wrt r (map f xs) \<Longrightarrow> sorted_wrt r (map f (filter p xs))"
  by (induction xs) auto

lemma bt_wf_remove [wf_intros]: "bt_wf m \<Longrightarrow> bt_wf (bt_remove k m)"
  unfolding bt_wf_def bt_remove_def by (rule sorted_wrt_map_filter)

lemma bt_wf_retain [wf_intros]: "bt_wf m \<Longrightarrow> bt_wf (bt_retain p m)"
  unfolding bt_wf_def bt_retain_def by (rule sorted_wrt_map_filter)

lemma bt_wf_distinct: "bt_wf m \<Longrightarrow> distinct (map fst m)"
  unfolding bt_wf_def by (induction m) auto

lemma bt_get_iff: "bt_wf m \<Longrightarrow> bt_get m k = Some v \<longleftrightarrow> (k, v) \<in> set m"
  unfolding bt_get_def by (simp add: bt_wf_distinct)

lemma bt_get_SomeD: "bt_get m k = Some v \<Longrightarrow> (k, v) \<in> set m"
  unfolding bt_get_def by (rule map_of_SomeD)

lemma bt_get_None_iff: "bt_get m k = None \<longleftrightarrow> k \<notin> fst ` set m"
  unfolding bt_get_def by (rule map_of_eq_None_iff)

lemma bt_contains_iff [btree_simps]: "bt_contains m k \<longleftrightarrow> k \<in> fst ` set m"
  by (simp add: bt_contains_def bt_get_None_iff)

lemma bt_ext:
  assumes "bt_wf m" "bt_wf m'" "\<And>k. bt_get m k = bt_get m' k"
  shows "m = m'"
proof -
  have "set m = set m'"
    using assms by (auto simp: bt_get_iff[symmetric])
  moreover have "inj_on fst (set m \<union> set m')"
    using calculation bt_wf_distinct[OF assms(1)] by (simp add: distinct_map)
  ultimately show ?thesis
    using assms(1,2) bt_wf_distinct[OF assms(1)] bt_wf_distinct[OF assms(2)]
    by (intro map_sorted_distinct_set_unique[where f = fst])
      (auto simp: bt_wf_def strict_sorted_imp_sorted)
qed

interpretation bt: keyed_map bt_get bt_insert bt_remove bt_wf "\<lambda>_ _. True"
  by unfold_locales (auto simp: btree_simps intro: wf_intros bt_ext)

section \<open>Ordered sets\<close>

fun bs_insert :: "'k::linorder \<Rightarrow> 'k list \<Rightarrow> 'k list" where
  "bs_insert k [] = [k]"
| "bs_insert k (x # xs) =
     (if k < x then k # x # xs else if k = x then x # xs else x # bs_insert k xs)"

definition bs_extend :: "'k::linorder list \<Rightarrow> 'k list \<Rightarrow> 'k list" where
  "bs_extend ks s = fold bs_insert ks s"

definition bs_from :: "'k::linorder list \<Rightarrow> 'k list" where
  "bs_from ks = bs_extend ks []"

definition bs_wf :: "'k::linorder list \<Rightarrow> bool" where
  "bs_wf s = sorted_wrt (<) s"

lemma set_bs_insert [simp]: "set (bs_insert k s) = insert k (set s)"
  by (induction s) auto

lemma bs_wf_Nil [simp, wf_intros]: "bs_wf []"
  by (simp add: bs_wf_def)

lemma bs_wf_insert [wf_intros]: "bs_wf s \<Longrightarrow> bs_wf (bs_insert k s)"
  unfolding bs_wf_def by (induction s) auto

lemma set_bs_extend [simp]: "set (bs_extend ks s) = set ks \<union> set s"
  unfolding bs_extend_def by (induction ks arbitrary: s) auto

lemma bs_wf_extend [wf_intros]: "bs_wf s \<Longrightarrow> bs_wf (bs_extend ks s)"
  unfolding bs_extend_def by (induction ks arbitrary: s) (auto intro: wf_intros)

lemma set_bs_from [simp]: "set (bs_from ks) = set ks"
  by (simp add: bs_from_def)

lemma bs_wf_from [wf_intros]: "bs_wf (bs_from ks)"
  unfolding bs_from_def by (intro wf_intros)

lemma bs_wf_distinct: "bs_wf s \<Longrightarrow> distinct s"
  unfolding bs_wf_def by (induction s) auto

lemma bs_ext: "bs_wf s \<Longrightarrow> bs_wf t \<Longrightarrow> set s = set t \<Longrightarrow> s = t"
  unfolding bs_wf_def by (rule strict_sorted_equal)

end
