(* ===== verification/Codec.thy ===== *)
theory Codec
  imports Prelude
begin

text \<open>
  The contract of the validated newtypes of the program (\<open>Name\<close>, \<open>GroupId\<close>,
  \<open>AbsPath\<close>): a parser that may reject, a printer, and the values the parser can
  produce.  The state file and the reports print such values and parse them back, so both
  rely on these laws and on nothing else.
\<close>

locale codec =
  fixes parse :: "string \<Rightarrow> 'e + 'a"
    and print :: "'a \<Rightarrow> string"
    and valid :: "'a \<Rightarrow> bool"
  assumes parse_valid: "parse s = Inr x \<Longrightarrow> valid x"
    and parse_print: "valid x \<Longrightarrow> parse (print x) = Inr x"
begin

lemma print_inject: "valid x \<Longrightarrow> valid y \<Longrightarrow> print x = print y \<longleftrightarrow> x = y"
  using parse_print by (metis sum.inject(2))

lemma valid_iff: "valid x \<longleftrightarrow> (\<exists>s. parse s = Inr x)"
  using parse_valid parse_print by blast

lemma reparse: "parse s = Inr x \<Longrightarrow> parse (print x) = Inr x"
  using parse_valid parse_print by blast

end

text \<open>A codec that keeps its text: printing what was parsed gives the input back.\<close>

locale exact_codec = codec +
  assumes print_parse: "parse s = Inr x \<Longrightarrow> print x = s"
begin

lemma parse_iff: "parse s = Inr x \<longleftrightarrow> valid x \<and> print x = s"
  using parse_valid parse_print print_parse by blast

lemma parse_inject: "parse s = Inr x \<Longrightarrow> parse t = Inr x \<Longrightarrow> s = t"
  using print_parse by metis

end

end
