(* ===== verification/Names.thy ===== *)
theory Names
  imports Codec BTree
begin

text \<open>
  \<open>src/src/name.rs\<close>: member and group names, group identifiers, and the rendering of
  untrusted bytes for logs.  Names come from the file names of a membership directory,
  which anyone who can write there chooses; the allowlist here is what keeps them from
  adding path components to a template.
\<close>

section \<open>Names\<close>

definition MAX_NAME_LEN :: nat where "MAX_NAME_LEN = 255"

datatype name = Name (as_str: string)

datatype name_error =
    Name_Empty
  | Name_TooLong nat
  | Name_LeadingDot
  | Name_InvalidByte char nat

text \<open>The \<open>#[error(...)]\<close> texts of \<open>NameError\<close>.\<close>

fun show_name_error :: "name_error \<Rightarrow> string" where
  "show_name_error Name_Empty = ''name is empty''"
| "show_name_error (Name_TooLong n) =
     ''name is '' @ show_nat n @ '' bytes long; the maximum is '' @ show_nat MAX_NAME_LEN"
| "show_name_error Name_LeadingDot = ''name begins with '' @ [CHR 0x27] @ ''.'' @ [CHR 0x27]"
| "show_name_error (Name_InvalidByte b off) =
     ''name contains disallowed byte 0x'' @ [digit_char (byte b div 16), digit_char (byte b mod 16)]
       @ '' at offset '' @ show_nat off"

definition is_allowed_byte :: "char \<Rightarrow> bool" where
  "is_allowed_byte b = (is_ascii_alphanumeric b \<or> b = CHR ''.'' \<or> b = CHR ''_'' \<or> b = CHR ''-'')"

definition from_bytes :: "string \<Rightarrow> name_error + name" where
  "from_bytes bytes =
     (if bytes = [] then Inl Name_Empty
      else if length bytes > MAX_NAME_LEN then Inl (Name_TooLong (length bytes))
      else if bytes ! 0 = CHR ''.'' then Inl Name_LeadingDot
      else (case position (\<lambda>b. \<not> is_allowed_byte b) bytes of
              Some offset \<Rightarrow> Inl (Name_InvalidByte (bytes ! offset) offset)
            | None \<Rightarrow> Inr (Name bytes)))"

definition name_new :: "string \<Rightarrow> name_error + name" where
  "name_new s = from_bytes s"

text \<open>The names the rules of the module documentation admit.\<close>

definition name_valid :: "name \<Rightarrow> bool" where
  "name_valid n =
     (1 \<le> length (as_str n) \<and> length (as_str n) \<le> 255 \<and> as_str n ! 0 \<noteq> CHR ''.''
      \<and> (\<forall>b\<in>set (as_str n). is_allowed_byte b))"

lemma from_bytes_Inr_iff: "from_bytes s = Inr n \<longleftrightarrow> name_valid n \<and> as_str n = s"
  by (cases n)
    (auto simp: from_bytes_def name_valid_def MAX_NAME_LEN_def position_None_iff Suc_le_eq
          dest: position_Some_ex split: option.splits)

interpretation nm: exact_codec name_new as_str name_valid
  by unfold_locales (auto simp: name_new_def from_bytes_Inr_iff)

lemma name_valid_facts:
  assumes "name_valid n"
  shows "as_str n \<noteq> []" "length (as_str n) \<le> 255" "SLASH \<notin> set (as_str n)"
    "NUL \<notin> set (as_str n)" "as_str n ! 0 \<noteq> CHR ''.''"
  using assms
  by (auto simp: name_valid_def is_allowed_byte_def is_ascii_alphanumeric_def
        is_ascii_digit_def byte_def)

lemma name_not_dots: "name_valid n \<Longrightarrow> as_str n \<noteq> ''.'' \<and> as_str n \<noteq> ''..''"
  using name_valid_facts(5)[of n] by (metis nth_Cons_0)

instantiation name :: linorder
begin

definition less_eq_name :: "name \<Rightarrow> name \<Rightarrow> bool" where
  "less_eq_name a b \<longleftrightarrow> as_str a \<le> as_str b"

definition less_name :: "name \<Rightarrow> name \<Rightarrow> bool" where
  "less_name a b \<longleftrightarrow> as_str a < as_str b"

instance
  by standard (auto simp: less_eq_name_def less_name_def name.expand)

end

section \<open>Group identifiers\<close>

definition MAX_SET_DEPTH :: nat where "MAX_SET_DEPTH = 2"

datatype group_id = GroupId (gid_set: "name option") (gid_path: "name list")

definition statically :: "name \<Rightarrow> group_id" where
  "statically g = GroupId None [g]"

text \<open>\<open>GroupId::in_set\<close> panics on an empty or too long path: \<open>None\<close>.\<close>

definition in_set :: "name \<Rightarrow> name list \<Rightarrow> group_id option" where
  "in_set st path =
     (if path \<noteq> [] \<and> length path \<le> MAX_SET_DEPTH then Some (GroupId (Some st) path) else None)"

definition gid_parse :: "string \<Rightarrow> name_error + group_id" where
  "gid_parse s =
     (let parts = split_on SLASH s in
      and_then (name_new (hd parts)) (\<lambda>first.
      and_then (collect_results (map name_new (tl parts))) (\<lambda>rest.
        if length rest = 0 then Inr (statically first)
        else if length rest \<le> MAX_SET_DEPTH then Inr (the (in_set first rest))
        else Inl (Name_InvalidByte SLASH
               (case rposition (\<lambda>c. c = SLASH) s of Some i \<Rightarrow> i | None \<Rightarrow> 0)))))"

text \<open>\<open>self\<close> lies at or beneath \<open>prefix\<close>.\<close>

definition gid_starts_with :: "group_id \<Rightarrow> group_id \<Rightarrow> bool" where
  "gid_starts_with g pre = (gid_set g = gid_set pre \<and> prefix (gid_path pre) (gid_path g))"

definition show_group_id :: "group_id \<Rightarrow> string" where
  "show_group_id g =
     (case gid_set g of Some st \<Rightarrow> as_str st @ ''/'' | None \<Rightarrow> [])
       @ join_with ''/'' (map as_str (gid_path g))"

definition gid_valid :: "group_id \<Rightarrow> bool" where
  "gid_valid g =
     ((case gid_set g of
         None \<Rightarrow> length (gid_path g) = 1
       | Some st \<Rightarrow> name_valid st \<and> 1 \<le> length (gid_path g) \<and> length (gid_path g) \<le> MAX_SET_DEPTH)
      \<and> (\<forall>n\<in>set (gid_path g). name_valid n))"

text \<open>The components of a group identifier's text: the set, if any, then the levels.\<close>

definition gid_names :: "group_id \<Rightarrow> name list" where
  "gid_names g = (case gid_set g of Some st \<Rightarrow> [st] | None \<Rightarrow> []) @ gid_path g"

lemma show_group_id_names:
  "gid_path g \<noteq> [] \<Longrightarrow> show_group_id g = join_with [SLASH] (map as_str (gid_names g))"
  by (cases "gid_path g")
    (auto simp: show_group_id_def gid_names_def join_with_Cons split: option.splits)

lemma gid_valid_path [simp]: "gid_valid g \<Longrightarrow> gid_path g \<noteq> []"
  by (auto simp: gid_valid_def split: option.splits)

lemma split_show_group_id:
  assumes "gid_valid g"
  shows "split_on SLASH (show_group_id g) = map as_str (gid_names g)"
proof -
  have "\<forall>p\<in>set (map as_str (gid_names g)). SLASH \<notin> set p"
    using assms name_valid_facts(3)
    by (fastforce simp: gid_valid_def gid_names_def split: option.splits)
  moreover have "map as_str (gid_names g) \<noteq> []"
    using assms by (auto simp: gid_names_def)
  ultimately show ?thesis
    using assms by (simp add: show_group_id_names split_join)
qed

lemma collect_names_iff:
  "collect_results (map name_new ps) = Inr ns \<longleftrightarrow>
     ps = map as_str ns \<and> (\<forall>n\<in>set ns. name_valid n)"
proof -
  have "map name_new ps = map Inr ns \<longleftrightarrow> ps = map as_str ns \<and> (\<forall>n\<in>set ns. name_valid n)"
    by (induction ps arbitrary: ns) (auto simp: nm.parse_iff Cons_eq_map_conv)
  then show ?thesis by (simp add: collect_results_Inr_iff)
qed

lemma gid_parse_iff:
  "gid_parse s = Inr g \<longleftrightarrow>
     (\<exists>first rest. split_on SLASH s = map as_str (first # rest)
        \<and> (\<forall>n\<in>set (first # rest). name_valid n) \<and> length rest \<le> MAX_SET_DEPTH
        \<and> g = (if rest = [] then statically first else GroupId (Some first) rest))"
proof -
  obtain p ps where sp: "split_on SLASH s = p # ps"
    by (cases "split_on SLASH s") auto
  show ?thesis
    by (auto simp: gid_parse_def sp and_then_Inr_iff in_set_def collect_names_iff nm.parse_iff
          split: if_splits)
qed

lemma gid_names_parse:
  "gid_names (if rest = [] then statically first else GroupId (Some first) rest) = first # rest"
  by (simp add: gid_names_def statically_def)

lemma gid_names_cases:
  assumes "gid_valid g"
  obtains first rest where "gid_names g = first # rest"
    "\<forall>n\<in>set (first # rest). name_valid n" "length rest \<le> MAX_SET_DEPTH"
    "g = (if rest = [] then statically first else GroupId (Some first) rest)"
proof (cases "gid_set g")
  case None
  with assms obtain n where "gid_path g = [n]" "name_valid n"
    by (auto simp: gid_valid_def length_Suc_conv)
  with None show ?thesis
    by (intro that[of n "[]"]) (auto simp: gid_names_def statically_def group_id.expand)
next
  case (Some st)
  with assms show ?thesis
    by (intro that[of st "gid_path g"]) (auto simp: gid_names_def gid_valid_def group_id.expand)
qed

interpretation gid: exact_codec gid_parse show_group_id gid_valid
proof unfold_locales
  show "gid_valid g" if "gid_parse s = Inr g" for s g
    using that unfolding gid_parse_iff
    by (auto simp: gid_valid_def statically_def Suc_le_eq split: if_splits)
  show "gid_parse (show_group_id g) = Inr g" if "gid_valid g" for g
  proof -
    note valid = that
    obtain first rest where "gid_names g = first # rest"
      "\<forall>n\<in>set (first # rest). name_valid n" "length rest \<le> MAX_SET_DEPTH"
      "g = (if rest = [] then statically first else GroupId (Some first) rest)"
      using valid by (rule gid_names_cases)
    then show ?thesis
      unfolding gid_parse_iff split_show_group_id[OF valid] by metis
  qed
  show "show_group_id g = s" if "gid_parse s = Inr g" for s g
  proof -
    from that obtain first rest where g: "split_on SLASH s = map as_str (first # rest)"
      "g = (if rest = [] then statically first else GroupId (Some first) rest)"
      unfolding gid_parse_iff by blast
    then have "gid_path g \<noteq> []" "gid_names g = first # rest"
      by (auto simp: gid_names_parse statically_def)
    then have "show_group_id g = join_with [SLASH] (split_on SLASH s)"
      using g(1) show_group_id_names[of g] by simp
    then show ?thesis by simp
  qed
qed

instantiation group_id :: linorder
begin

definition less_eq_group_id :: "group_id \<Rightarrow> group_id \<Rightarrow> bool" where
  "less_eq_group_id a b \<longleftrightarrow> (gid_set a, gid_path a) \<le> (gid_set b, gid_path b)"

definition less_group_id :: "group_id \<Rightarrow> group_id \<Rightarrow> bool" where
  "less_group_id a b \<longleftrightarrow> (gid_set a, gid_path a) < (gid_set b, gid_path b)"

instance
  by standard (auto simp: less_eq_group_id_def less_group_id_def group_id.expand)

end

section \<open>Rendering untrusted bytes\<close>

text \<open>\<open>[u8]::escape_ascii\<close>.\<close>

definition escape_byte :: "char \<Rightarrow> string" where
  "escape_byte c =
     (if c = CHR 0x09 then [CHR 0x5C, CHR ''t'']
      else if c = CHR 0x0D then [CHR 0x5C, CHR ''r'']
      else if c = CHR 0x0A then [CHR 0x5C, CHR ''n'']
      else if c = CHR 0x27 \<or> c = CHR 0x22 \<or> c = CHR 0x5C then [CHR 0x5C, c]
      else if 32 \<le> byte c \<and> byte c \<le> 126 then [c]
      else [CHR 0x5C, CHR ''x'', digit_char (byte c div 16), digit_char (byte c mod 16)])"

definition display_bytes :: "string \<Rightarrow> string" where
  "display_bytes bytes = concat (map escape_byte bytes)"

end
