(* ===== verification/Templates.thy ===== *)
theory Templates
  imports Names
begin

text \<open>
  \<open>src/src/template.rs\<close>: relative path templates such as \<open>{name}/workspace\<close>, their
  validation, the binding of group set levels and the interpolation of a member name.

  The parser works on bytes, as the source does (\<open>str::find\<close>, \<open>len\<close> and the offsets
  of the error are byte positions); the placeholders and separators are ASCII.
\<close>

definition MAX_PATH_LEN :: nat where "MAX_PATH_LEN = 4095"

definition PLACEHOLDER :: string where "PLACEHOLDER = ''{name}''"

definition LEVEL_PLACEHOLDERS :: "string list" where
  "LEVEL_PLACEHOLDERS = [''{group}'', ''{subgroup}'']"

datatype piece = Literal string | Piece_Name | Level nat

record template =
  raw :: string
  comps :: "piece list list"

datatype template_error =
    T_Empty
  | T_Absolute
  | T_TrailingSlash
  | T_EmptyComponent
  | T_DotComponent string
  | T_InvalidBrace string nat
  | T_Nul
  | T_MissingName
  | T_GroupNotAllowed
  | T_MissingLevel string
  | T_ComponentTooLong nat

datatype interpolate_error =
    I_ComponentTooLong nat
  | I_PathTooLong nat
  | I_InvalidComponent string

definition quoted :: "string \<Rightarrow> string" where
  "quoted s = [CHR 0x27] @ s @ [CHR 0x27]"

fun show_template_error :: "template_error \<Rightarrow> string" where
  "show_template_error T_Empty = ''template is empty''"
| "show_template_error T_Absolute =
     ''template must be relative (must not begin with '' @ quoted ''/'' @ '')''"
| "show_template_error T_TrailingSlash = ''template must not end with '' @ quoted ''/''"
| "show_template_error T_EmptyComponent = ''template contains an empty path component''"
| "show_template_error (T_DotComponent c) =
     ''template contains a '' @ quoted c @ '' path component''"
| "show_template_error (T_InvalidBrace found off) =
     ''template contains '' @ quoted found @ '' at byte '' @ show_nat off
       @ ''; the only placeholder is {name}''"
| "show_template_error T_Nul = ''template contains a NUL byte''"
| "show_template_error T_MissingName = ''template must contain {name}''"
| "show_template_error T_GroupNotAllowed =
     ''{group} and {subgroup} are only allowed in group set templates''"
| "show_template_error (T_MissingLevel p) = ''template must contain '' @ p"
| "show_template_error (T_ComponentTooLong n) =
     ''template component is '' @ show_nat n @ '' bytes long; the maximum is ''
       @ show_nat MAX_NAME_LEN"

fun show_interpolate_error :: "interpolate_error \<Rightarrow> string" where
  "show_interpolate_error (I_ComponentTooLong n) =
     ''interpolated path component is '' @ show_nat n @ '' bytes long; the maximum is ''
       @ show_nat MAX_NAME_LEN"
| "show_interpolate_error (I_PathTooLong n) =
     ''interpolated path is '' @ show_nat n @ '' bytes long; the maximum is ''
       @ show_nat MAX_PATH_LEN"
| "show_interpolate_error (I_InvalidComponent c) =
     ''interpolated path component '' @ quoted c @ '' is not a plain name''"

section \<open>Parsing one component\<close>

text \<open>
  The loop of \<open>parse_component\<close>: \<open>literal\<close> is the text read since the last
  placeholder, \<open>pieces\<close> what is already emitted.  Each turn of the loop consumes a
  placeholder, so \<open>rest\<close> shrinks.
\<close>

definition flush :: "string \<Rightarrow> piece list \<Rightarrow> piece list" where
  "flush literal pieces = (if literal = [] then pieces else pieces @ [Literal literal])"

fun find_level :: "nat \<Rightarrow> string list \<Rightarrow> string \<Rightarrow> (nat \<times> string) option" where
  "find_level level [] tail = None"
| "find_level level (p # ps) tail =
     (case strip_prefix p tail of
        Some after \<Rightarrow> Some (level, after)
      | None \<Rightarrow> find_level (Suc level) ps tail)"

definition bad_brace :: "string \<Rightarrow> string" where
  "bad_brace tail =
     (if starts_with ''{'' tail
      then (case position (\<lambda>c. c = CHR ''}'') tail of
              Some e \<Rightarrow> take (Suc e) tail | None \<Rightarrow> ''{'')
      else ''}'')"

lemma find_level_Some:
  assumes "find_level 0 LEVEL_PLACEHOLDERS s = Some (level, after)"
  shows "level < length LEVEL_PLACEHOLDERS" "s = LEVEL_PLACEHOLDERS ! level @ after"
    "length after < length s"
  using assms
  by (auto simp: LEVEL_PLACEHOLDERS_def strip_prefix_Some_iff split: option.splits)

lemma find_level_drop:
  "find_level 0 LEVEL_PLACEHOLDERS (drop n s) = Some (level, after) \<Longrightarrow> length after < length s"
  by (drule find_level_Some(3)) simp

definition is_brace :: "char \<Rightarrow> bool" where
  "is_brace c = (c = CHR ''{'' \<or> c = CHR ''}'')"

function parse_loop ::
  "bool \<Rightarrow> string \<Rightarrow> nat \<Rightarrow> string \<Rightarrow> piece list \<Rightarrow> template_error + piece list" where
  "parse_loop allow_group rest offset literal pieces =
     (case position is_brace rest of
        None \<Rightarrow> Inr (flush (literal @ rest) pieces)
      | Some pos \<Rightarrow>
          (let literal = literal @ take pos rest; tail = drop pos rest in
           case strip_prefix PLACEHOLDER tail of
             Some after \<Rightarrow>
               parse_loop allow_group after (offset + pos + length PLACEHOLDER) []
                 (flush literal pieces @ [Piece_Name])
           | None \<Rightarrow>
               (case find_level 0 LEVEL_PLACEHOLDERS tail of
                  Some (level, after) \<Rightarrow>
                    if \<not> allow_group then Inl T_GroupNotAllowed
                    else parse_loop allow_group after
                           (offset + pos + length (LEVEL_PLACEHOLDERS ! level)) []
                           (flush literal pieces @ [Level level])
                | None \<Rightarrow> Inl (T_InvalidBrace (bad_brace tail) (offset + pos)))))"
  by pat_completeness auto
termination
proof (relation "measure (\<lambda>(_, rest, _). length rest)", goal_cases)
  case (2 allow_group rest offset literal pieces pos l tail found)
  then show ?case by (auto intro: find_level_drop)
next
  case (3 allow_group rest offset literal pieces pos l tail after)
  then show ?case by (auto dest: arg_cong[of _ _ length] simp: strip_prefix_Some_iff PLACEHOLDER_def)
qed simp

declare parse_loop.simps [simp del]

definition parse_component :: "string \<Rightarrow> nat \<Rightarrow> bool \<Rightarrow> template_error + piece list" where
  "parse_component component base_offset allow_group =
     parse_loop allow_group component base_offset [] []"

section \<open>Parsing a template\<close>

definition is_literal :: "piece \<Rightarrow> bool" where
  "is_literal p = (case p of Literal _ \<Rightarrow> True | _ \<Rightarrow> False)"

text \<open>The loop over the components, with \<open>has_name\<close> and \<open>offset\<close> threaded through.\<close>

fun parse_components ::
  "bool \<Rightarrow> string list \<Rightarrow> nat \<Rightarrow> bool \<Rightarrow> piece list list \<Rightarrow>
   template_error + bool \<times> piece list list" where
  "parse_components allow_group [] offset has_name acc = Inr (has_name, acc)"
| "parse_components allow_group (component # rest) offset has_name acc =
     (if component = [] then Inl T_EmptyComponent
      else if component = ''.'' \<or> component = ''..'' then Inl (T_DotComponent component)
      else and_then (parse_component component offset allow_group) (\<lambda>pieces.
        let has_placeholder = list_ex (\<lambda>p. \<not> is_literal p) pieces in
        if \<not> has_placeholder \<and> length component > MAX_NAME_LEN
        then Inl (T_ComponentTooLong (length component))
        else parse_components allow_group rest (offset + length component + 1)
               (has_name \<or> Piece_Name \<in> set pieces) (acc @ [pieces])))"

definition parse_inner :: "string \<Rightarrow> bool \<Rightarrow> template_error + template" where
  "parse_inner s allow_group =
     (if s = [] then Inl T_Empty
      else if NUL \<in> set s then Inl T_Nul
      else if starts_with ''/'' s then Inl T_Absolute
      else if ends_with ''/'' s then Inl T_TrailingSlash
      else and_then (parse_components allow_group (split_on SLASH s) 0 False [])
        (\<lambda>(has_name, components).
           if \<not> has_name then Inl T_MissingName
           else Inr \<lparr>raw = s, comps = components\<rparr>))"

definition template_parse :: "string \<Rightarrow> template_error + template" where
  "template_parse s = parse_inner s False"

definition template_parse_for_set :: "string \<Rightarrow> template_error + template" where
  "template_parse_for_set s = parse_inner s True"

section \<open>Levels\<close>

definition depth :: "template \<Rightarrow> nat" where
  "depth t =
     (let ls = [Suc l. Level l \<leftarrow> concat (comps t)] in
      if ls = [] then 0 else Max (set ls))"

definition has_level :: "template \<Rightarrow> nat \<Rightarrow> bool" where
  "has_level t level = (Level level \<in> set (concat (comps t)))"

definition level_placeholder :: "nat \<Rightarrow> string" where
  "level_placeholder level = LEVEL_PLACEHOLDERS ! level"

section \<open>Interpolation\<close>

text \<open>
  Rendering one component.  A level that is still unbound is the \<open>unreachable!\<close> of the
  source, \<open>None\<close> here.
\<close>

fun render_piece :: "name \<Rightarrow> piece \<Rightarrow> string option" where
  "render_piece n (Literal s) = Some s"
| "render_piece n Piece_Name = Some (as_str n)"
| "render_piece n (Level _) = None"

fun render_pieces :: "name \<Rightarrow> piece list \<Rightarrow> string option" where
  "render_pieces n [] = Some []"
| "render_pieces n (p # ps) =
     (case render_piece n p of
        None \<Rightarrow> None
      | Some s \<Rightarrow> map_option (\<lambda>r. s @ r) (render_pieces n ps))"

fun components_loop ::
  "name \<Rightarrow> piece list list \<Rightarrow> nat \<Rightarrow> string list \<Rightarrow> (interpolate_error + string list) option" where
  "components_loop n [] tot out =
     Some (if tot > MAX_PATH_LEN then Inl (I_PathTooLong tot) else Inr out)"
| "components_loop n (pieces # cs) tot out =
     (case render_pieces n pieces of
        None \<Rightarrow> None
      | Some component \<Rightarrow>
          if length component > MAX_NAME_LEN
          then Some (Inl (I_ComponentTooLong (length component)))
          else if component = [] \<or> component = ''.'' \<or> component = ''..'' \<or> SLASH \<in> set component
          then Some (Inl (I_InvalidComponent component))
          else components_loop n cs
                 (tot + length component + (if out = [] then 0 else 1)) (out @ [component]))"

definition components :: "template \<Rightarrow> name \<Rightarrow> (interpolate_error + string list) option" where
  "components t n = components_loop n (comps t) 0 []"

definition interpolate :: "template \<Rightarrow> name \<Rightarrow> (interpolate_error + string) option" where
  "interpolate t n =
     map_option (\<lambda>r. and_then r (\<lambda>cs. Inr (join_with ''/'' cs))) (components t n)"

text \<open>
  \<open>bind_levels\<close>: one component.  \<open>bound\<close> is the list of pieces emitted so far, whose
  last literal grows; indexing a level beyond \<open>levels\<close> panics (\<open>None\<close>).
\<close>

definition push_text :: "string \<Rightarrow> piece list \<Rightarrow> piece list" where
  "push_text text bound =
     (if bound = [] then [Literal text]
      else (case last bound of
              Literal l \<Rightarrow> butlast bound @ [Literal (l @ text)]
            | _ \<Rightarrow> bound @ [Literal text]))"

fun bind_pieces ::
  "name list \<Rightarrow> piece list \<Rightarrow> piece list \<Rightarrow> string \<Rightarrow> (piece list \<times> string) option" where
  "bind_pieces levels [] bound r = Some (bound, r)"
| "bind_pieces levels (Piece_Name # ps) bound r =
     bind_pieces levels ps (bound @ [Piece_Name]) (r @ PLACEHOLDER)"
| "bind_pieces levels (Literal text # ps) bound r =
     bind_pieces levels ps (push_text text bound) (r @ text)"
| "bind_pieces levels (Level l # ps) bound r =
     (if l < length levels
      then bind_pieces levels ps (push_text (as_str (levels ! l)) bound) (r @ as_str (levels ! l))
      else None)"

fun bind_components ::
  "name list \<Rightarrow> piece list list \<Rightarrow> piece list list \<Rightarrow> string list \<Rightarrow>
   (interpolate_error + piece list list \<times> string list) option" where
  "bind_components levels [] cs raws = Some (Inr (cs, raws))"
| "bind_components levels (pieces # rest) cs raws =
     (case bind_pieces levels pieces [] [] of
        None \<Rightarrow> None
      | Some (bound, r) \<Rightarrow>
          if Piece_Name \<notin> set bound \<and> length r > MAX_NAME_LEN
          then Some (Inl (I_ComponentTooLong (length r)))
          else bind_components levels rest (cs @ [bound]) (raws @ [r]))"

definition bind_levels :: "template \<Rightarrow> name list \<Rightarrow> (interpolate_error + template) option" where
  "bind_levels t levels =
     map_option (\<lambda>r. and_then r (\<lambda>(cs, raws). Inr \<lparr>raw = join_with ''/'' raws, comps = cs\<rparr>))
       (bind_components levels (comps t) [] [])"

end
