(* ===== verification/Template_Props.thy ===== *)
theory Template_Props
  imports Templates
begin

text \<open>
  What the templates guarantee: a parsed template is exactly its text, interpolation with a
  valid name only ever produces plain path components beneath the root, different members
  get different paths, and binding the levels of a group set is plain substitution.
\<close>

section \<open>The text of the pieces\<close>

fun piece_text :: "piece \<Rightarrow> string" where
  "piece_text (Literal s) = s"
| "piece_text Piece_Name = PLACEHOLDER"
| "piece_text (Level l) = LEVEL_PLACEHOLDERS ! l"

definition pieces_text :: "piece list \<Rightarrow> string" where
  "pieces_text ps = concat (map piece_text ps)"

lemma pieces_text_simps [simp]:
  "pieces_text [] = []" "pieces_text (p # ps) = piece_text p @ pieces_text ps"
  "pieces_text (ps @ qs) = pieces_text ps @ pieces_text qs"
  by (simp_all add: pieces_text_def)

lemma piece_text_subset: "p \<in> set ps \<Longrightarrow> set (piece_text p) \<subseteq> set (pieces_text ps)"
  by (auto simp: pieces_text_def)

lemma pieces_text_flush [simp]: "pieces_text (flush l ps) = pieces_text ps @ l"
  by (simp add: flush_def)

lemma set_flush: "set (flush l ps) = set ps \<union> (if l = [] then {} else {Literal l})"
  by (simp add: flush_def)

text \<open>What every emitted piece looks like.\<close>

definition piece_ok :: "bool \<Rightarrow> string \<Rightarrow> piece \<Rightarrow> bool" where
  "piece_ok allow_group s p =
     (case p of
        Literal l \<Rightarrow> l \<noteq> [] \<and> set l \<subseteq> {c \<in> set s. \<not> is_brace c}
      | Piece_Name \<Rightarrow> True
      | Level k \<Rightarrow> allow_group \<and> k < MAX_SET_DEPTH)"

lemma piece_ok_nonliteral: "piece_ok False s p \<Longrightarrow> \<not> is_literal p \<Longrightarrow> p = Piece_Name"
  by (cases p) (auto simp: piece_ok_def is_literal_def)

lemma parse_loop_text:
  "parse_loop ag rest off lit ps = Inr qs \<Longrightarrow> pieces_text qs = pieces_text ps @ lit @ rest"
proof (induction ag rest off lit ps rule: parse_loop.induct)
  case (1 ag rest off lit ps)
  show ?case
  proof (cases "position is_brace rest")
    case None
    with 1 show ?thesis by (auto simp: parse_loop.simps[of ag rest])
  next
    case pos: (Some pos)
    note IH = 1(1,2)[OF pos refl refl]
    have split: "rest = take pos rest @ drop pos rest" by simp
    show ?thesis
    proof (cases "strip_prefix PLACEHOLDER (drop pos rest)")
      case (Some after)
      then have "drop pos rest = PLACEHOLDER @ after" by (simp add: strip_prefix_Some_iff)
      then show ?thesis
        using IH(2)[OF Some] 1(3) pos Some by (subst split) (simp add: parse_loop.simps[of ag rest])
    next
      case None
      show ?thesis
      proof (cases "find_level 0 LEVEL_PLACEHOLDERS (drop pos rest)")
        case None': None
        with None pos 1(3) show ?thesis by (simp add: parse_loop.simps[of ag rest])
      next
        case (Some r)
        obtain level after where r: "r = (level, after)" by force
        then have "drop pos rest = LEVEL_PLACEHOLDERS ! level @ after"
          using Some find_level_Some by blast
        then show ?thesis
          using IH(1)[OF None Some[unfolded r] refl] 1(3) pos None Some r
          by (subst split) (simp add: parse_loop.simps[of ag rest] split: if_splits)
      qed
    qed
  qed
qed

lemma parse_loop_pieces:
  assumes "parse_loop ag rest off lit ps = Inr qs"
    and "set rest \<subseteq> set s" "set lit \<subseteq> {c \<in> set s. \<not> is_brace c}" "\<forall>p\<in>set ps. piece_ok ag s p"
  shows "\<forall>p\<in>set qs. piece_ok ag s p"
  using assms
proof (induction ag rest off lit ps rule: parse_loop.induct)
  case (1 ag rest off lit ps)
  show ?case
  proof (cases "position is_brace rest")
    case None
    with 1 show ?thesis
      by (auto simp: parse_loop.simps[of ag rest] set_flush piece_ok_def position_None_iff
            subset_iff split: if_splits)
  next
    case pos: (Some pos)
    note IH = 1(1,2)[OF pos refl refl]
    have lit: "set (lit @ take pos rest) \<subseteq> {c \<in> set s. \<not> is_brace c}"
      using 1(4,5) position_SomeD[OF pos] by (auto dest: in_set_takeD)
    have after: "set (drop pos rest) \<subseteq> set s"
      using 1(4) by (auto dest: in_set_dropD)
    have flushed: "\<forall>p\<in>set (flush (lit @ take pos rest) ps). piece_ok ag s p"
      using 1(6) lit unfolding set_flush by (auto simp only: piece_ok_def piece.case split: if_splits)
    show ?thesis
    proof (cases "strip_prefix PLACEHOLDER (drop pos rest)")
      case (Some after)
      then have a: "set after \<subseteq> set s" using after by (simp add: strip_prefix_Some_iff)
      have b: "parse_loop ag after (off + pos + length PLACEHOLDER) []
          (flush (lit @ take pos rest) ps @ [Piece_Name]) = Inr qs"
        using 1(3) pos Some by (simp add: parse_loop.simps[of ag rest])
      have c: "\<forall>p\<in>set (flush (lit @ take pos rest) ps @ [Piece_Name]). piece_ok ag s p"
        using flushed by (simp add: ball_Un) (simp add: piece_ok_def)
      show ?thesis by (rule IH(2)[OF Some b a _ c]) simp
    next
      case None
      show ?thesis
      proof (cases "find_level 0 LEVEL_PLACEHOLDERS (drop pos rest)")
        case None': None
        with None pos 1(3) show ?thesis by (simp add: parse_loop.simps[of ag rest])
      next
        case (Some r)
        obtain level rem where r: "r = (level, rem)" by force
        note fl = Some[unfolded r]
        have level: "level < MAX_SET_DEPTH" and "drop pos rest = LEVEL_PLACEHOLDERS ! level @ rem"
          using find_level_Some(1,2)[OF fl] by (simp_all add: MAX_SET_DEPTH_def LEVEL_PLACEHOLDERS_def)
        then have a: "set rem \<subseteq> set s" using after by simp
        have ag: "ag" and b: "parse_loop ag rem (off + pos + length (LEVEL_PLACEHOLDERS ! level)) []
            (flush (lit @ take pos rest) ps @ [Level level]) = Inr qs"
          using 1(3) pos None fl by (simp_all add: parse_loop.simps[of ag rest] split: if_splits)
        have c: "\<forall>p\<in>set (flush (lit @ take pos rest) ps @ [Level level]). piece_ok ag s p"
          using flushed level ag by (simp add: ball_Un) (simp add: piece_ok_def)
        show ?thesis by (rule IH(1)[OF None fl refl _ b a _ c]) (simp_all add: ag)
      qed
    qed
  qed
qed

section \<open>Parsed templates\<close>

text \<open>
  The invariant of a template: every component is made of well-formed pieces over the
  template's own characters; one without a placeholder is a plain name as it stands; and
  the name occurs.
\<close>

definition component_ok :: "bool \<Rightarrow> piece list \<Rightarrow> bool" where
  "component_ok ag ps =
     ((\<forall>p\<in>set ps. piece_ok ag (filter (\<lambda>c. c \<noteq> SLASH \<and> c \<noteq> NUL) (pieces_text ps)) p)
      \<and> (list_all is_literal ps \<longrightarrow> pieces_text ps \<notin> {[], ''.'', ''..''}))"

definition template_ok :: "bool \<Rightarrow> template \<Rightarrow> bool" where
  "template_ok ag t =
     (comps t \<noteq> [] \<and> (\<forall>ps\<in>set (comps t). component_ok ag ps)
      \<and> Piece_Name \<in> set (concat (comps t)))"

lemma parse_component_ok:
  assumes "parse_component c off ag = Inr ps" "SLASH \<notin> set c" "NUL \<notin> set c"
    "c \<notin> {[], ''.'', ''..''}"
  shows "component_ok ag ps \<and> pieces_text ps = c"
proof -
  have t: "pieces_text ps = c"
    using assms(1) parse_loop_text by (fastforce simp: parse_component_def)
  moreover have "filter (\<lambda>x. x \<noteq> SLASH \<and> x \<noteq> NUL) c = c"
    using assms(2,3) by (auto simp: filter_id_conv)
  moreover have "\<forall>p\<in>set ps. piece_ok ag c p"
    using assms(1) unfolding parse_component_def by (rule parse_loop_pieces) auto
  ultimately show ?thesis using assms(4) by (simp add: component_ok_def)
qed

lemma parse_components_ok:
  assumes "parse_components ag cs off hn acc = Inr (hn', out)"
    "\<forall>c\<in>set cs. SLASH \<notin> set c \<and> NUL \<notin> set c"
  shows "\<exists>new. out = acc @ new \<and> map pieces_text new = cs \<and> (\<forall>ps\<in>set new. component_ok ag ps)
     \<and> (hn' \<longleftrightarrow> hn \<or> Piece_Name \<in> set (concat new))
     \<and> (\<forall>ps\<in>set new. list_all is_literal ps \<longrightarrow> length (pieces_text ps) \<le> MAX_NAME_LEN)"
  using assms
proof (induction ag cs off hn acc rule: parse_components.induct)
  case (1 ag off hn acc)
  then show ?case by auto
next
  case (2 ag c rest off hn acc)
  then obtain ps where ps: "parse_component c off ag = Inr ps" and c: "c \<notin> {[], ''.'', ''..''}"
    and len: "list_all is_literal ps \<longrightarrow> length c \<le> MAX_NAME_LEN"
    and tl: "parse_components ag rest (off + length c + 1) (hn \<or> Piece_Name \<in> set ps) (acc @ [ps])
        = Inr (hn', out)"
    by (auto simp: and_then_Inr_iff list_all_iff list_ex_iff split: if_splits)
  have ok: "component_ok ag ps \<and> pieces_text ps = c"
    using ps c 2(3) by (intro parse_component_ok[of c off]) auto
  from 2(1)[OF _ _ refl _ tl] obtain new where
    "out = (acc @ [ps]) @ new" "map pieces_text new = rest" "\<forall>ps\<in>set new. component_ok ag ps"
    "hn' \<longleftrightarrow> (hn \<or> Piece_Name \<in> set ps) \<or> Piece_Name \<in> set (concat new)"
    "\<forall>ps\<in>set new. list_all is_literal ps \<longrightarrow> length (pieces_text ps) \<le> MAX_NAME_LEN"
    using c len 2(3) by (auto simp: list_all_iff list_ex_iff)
  then show ?case using ok len by (intro exI[of _ "ps # new"]) auto
qed

lemma parse_inner_ok:
  assumes "parse_inner s ag = Inr t"
  shows "template_ok ag t" "raw t = s" "map pieces_text (comps t) = split_on SLASH s"
proof -
  from assms obtain hn cs where hn: "hn" and nul: "NUL \<notin> set s"
    and pc: "parse_components ag (split_on SLASH s) 0 False [] = Inr (hn, cs)"
    and t: "t = \<lparr>raw = s, comps = cs\<rparr>"
    by (auto simp: parse_inner_def and_then_Inr_iff split: if_splits)
  have "\<forall>c\<in>set (split_on SLASH s). SLASH \<notin> set c \<and> NUL \<notin> set c"
    using nul split_on_sep_free split_on_subset by fastforce
  from parse_components_ok[OF pc this] hn
  have "map pieces_text cs = split_on SLASH s" "\<forall>ps\<in>set cs. component_ok ag ps"
    "Piece_Name \<in> set (concat cs)"
    by auto
  then show "template_ok ag t" "raw t = s" "map pieces_text (comps t) = split_on SLASH s"
    by (auto simp: t template_ok_def)
qed

section \<open>Interpolation\<close>

text \<open>The text of a component with names put in: total, for level-free pieces.\<close>

definition plain_component :: "string \<Rightarrow> bool" where
  "plain_component c =
     (c \<noteq> [] \<and> c \<noteq> ''.'' \<and> c \<noteq> ''..'' \<and> SLASH \<notin> set c \<and> NUL \<notin> set c \<and> length c \<le> 255)"

lemma render_piece_ok:
  assumes "piece_ok False (filter (\<lambda>c. c \<noteq> SLASH \<and> c \<noteq> NUL) s) p" "name_valid n"
  obtains r where "render_piece n p = Some r" "r \<noteq> []" "SLASH \<notin> set r" "NUL \<notin> set r"
  using assms name_valid_facts[OF assms(2)]
  by (cases p) (auto simp: piece_ok_def)

lemma render_pieces_Some:
  assumes "\<forall>p\<in>set ps. piece_ok False (filter (\<lambda>c. c \<noteq> SLASH \<and> c \<noteq> NUL) s) p" "name_valid n"
  shows "\<exists>r. render_pieces n ps = Some r \<and> (ps \<noteq> [] \<longrightarrow> r \<noteq> []) \<and> SLASH \<notin> set r \<and> NUL \<notin> set r"
  using assms(1)
proof (induction ps)
  case (Cons p ps)
  obtain r where "render_piece n p = Some r" "r \<noteq> []" "SLASH \<notin> set r" "NUL \<notin> set r"
    using Cons.prems assms(2) by (auto intro: render_piece_ok)
  with Cons show ?case by auto
qed simp

lemma render_literals:
  "list_all is_literal ps \<Longrightarrow> render_pieces n ps = Some (pieces_text ps)"
  by (induction ps) (auto simp: is_literal_def split: piece.splits)

lemma render_contains_name:
  "render_pieces n ps = Some r \<Longrightarrow> Piece_Name \<in> set ps \<Longrightarrow> set (as_str n) \<subseteq> set r"
proof (induction ps arbitrary: r)
  case (Cons p ps)
  then show ?case by (cases p) (auto split: option.splits)
qed simp

lemma name_has_no_dots:
  assumes "name_valid n" "set (as_str n) \<subseteq> set r"
  shows "r \<noteq> ''.''" "r \<noteq> ''..''"
proof -
  obtain c where "c \<in> set (as_str n)" "c \<noteq> CHR ''.''"
    using name_valid_facts(1,5)[OF assms(1)] by (metis length_greater_0_conv nth_mem)
  then show "r \<noteq> ''.''" "r \<noteq> ''..''" using assms(2) by auto
qed

lemma render_component_ok:
  assumes "component_ok False ps" "name_valid n"
  obtains r where "render_pieces n ps = Some r" "r \<noteq> []" "r \<noteq> ''.''" "r \<noteq> ''..''"
    "SLASH \<notin> set r" "NUL \<notin> set r"
proof -
  from assms obtain r where r: "render_pieces n ps = Some r" "ps \<noteq> [] \<longrightarrow> r \<noteq> []"
    "SLASH \<notin> set r" "NUL \<notin> set r"
    using render_pieces_Some unfolding component_ok_def by blast
  show ?thesis
  proof (cases "list_all is_literal ps")
    case True
    with assms(1) r render_literals[OF True, of n] show ?thesis
      by (intro that[OF r(1)]) (auto simp: component_ok_def)
  next
    case False
    then obtain p where "p \<in> set ps" "\<not> is_literal p" by (auto simp: list_all_iff)
    moreover have "piece_ok False (filter (\<lambda>c. c \<noteq> SLASH \<and> c \<noteq> NUL) (pieces_text ps)) p"
      using assms(1) calculation by (auto simp: component_ok_def)
    ultimately have "Piece_Name \<in> set ps"
      using piece_ok_nonliteral by blast
    then have "set (as_str n) \<subseteq> set r" using render_contains_name[OF r(1)] by simp
    moreover have "ps \<noteq> []" using \<open>p \<in> set ps\<close> by auto
    ultimately show ?thesis
      using r name_has_no_dots[OF assms(2)] by (intro that[OF r(1)]) auto
  qed
qed

text \<open>The loop over the components succeeds or reports a length, and nothing else.\<close>

definition joined_length :: "string list \<Rightarrow> nat" where
  "joined_length cs = length (join_with ''/'' cs)"

lemma joined_length_snoc:
  "joined_length (cs @ [c]) = joined_length cs + length c + (if cs = [] then 0 else 1)"
  unfolding joined_length_def
proof (induction "''/''" cs rule: join_with.induct)
  case (3 x y zs)
  then show ?case by (cases zs) auto
qed auto

lemma components_loop_ok:
  assumes "\<forall>ps\<in>set pss. component_ok False ps" "name_valid n" "tot = joined_length out"
    "\<forall>c\<in>set out. plain_component c"
  shows "(\<exists>k. components_loop n pss tot out = Some (Inl (I_ComponentTooLong k)) \<and> k > MAX_NAME_LEN)
    \<or> (\<exists>k. components_loop n pss tot out = Some (Inl (I_PathTooLong k)) \<and> k > MAX_PATH_LEN)
    \<or> (\<exists>cs. components_loop n pss tot out = Some (Inr (out @ cs))
         \<and> list_all2 (\<lambda>ps c. render_pieces n ps = Some c) pss cs
         \<and> (\<forall>c\<in>set (out @ cs). plain_component c) \<and> joined_length (out @ cs) \<le> MAX_PATH_LEN)"
  using assms
proof (induction pss arbitrary: tot out)
  case Nil
  then show ?case by auto
next
  case (Cons ps pss)
  obtain r where r: "render_pieces n ps = Some r" "r \<noteq> []" "r \<noteq> ''.''" "r \<noteq> ''..''"
    "SLASH \<notin> set r" "NUL \<notin> set r"
    using Cons.prems(1,2) by (auto intro: render_component_ok)
  show ?case
  proof (cases "length r > MAX_NAME_LEN")
    case True
    with r show ?thesis by auto
  next
    case False
    let ?tot = "tot + length r + (if out = [] then 0 else 1)"
    have step: "components_loop n (ps # pss) tot out = components_loop n pss ?tot (out @ [r])"
      using r False by simp
    have "?tot = joined_length (out @ [r])"
      using Cons.prems(3) by (simp add: joined_length_snoc)
    moreover have "\<forall>c\<in>set (out @ [r]). plain_component c"
      using Cons.prems(4) r False by (auto simp: plain_component_def MAX_NAME_LEN_def)
    ultimately have IH: "(\<exists>k. components_loop n pss ?tot (out @ [r]) = Some (Inl (I_ComponentTooLong k))
          \<and> k > MAX_NAME_LEN)
      \<or> (\<exists>k. components_loop n pss ?tot (out @ [r]) = Some (Inl (I_PathTooLong k)) \<and> k > MAX_PATH_LEN)
      \<or> (\<exists>cs. components_loop n pss ?tot (out @ [r]) = Some (Inr ((out @ [r]) @ cs))
         \<and> list_all2 (\<lambda>ps c. render_pieces n ps = Some c) pss cs
         \<and> (\<forall>c\<in>set ((out @ [r]) @ cs). plain_component c)
         \<and> joined_length ((out @ [r]) @ cs) \<le> MAX_PATH_LEN)" (is "?A \<or> ?B \<or> (\<exists>cs. ?C cs)")
      using Cons.prems(1,2) by (intro Cons.IH) auto
    show ?thesis
    proof (cases "?A \<or> ?B")
      case True
      then show ?thesis unfolding step by blast
    next
      case False
      with IH obtain cs where cs: "?C cs" by blast
      then have "list_all2 (\<lambda>ps c. render_pieces n ps = Some c) (ps # pss) (r # cs)"
        using r(1) by simp
      moreover have "out @ r # cs = (out @ [r]) @ cs" by simp
      ultimately show ?thesis using cs unfolding step by metis
    qed
  qed
qed

lemma components_cases:
  assumes "template_ok False t" "name_valid n"
  obtains (component_long) k where "components t n = Some (Inl (I_ComponentTooLong k))"
      "k > MAX_NAME_LEN"
    | (path_long) k where "components t n = Some (Inl (I_PathTooLong k))" "k > MAX_PATH_LEN"
    | (ok) cs where "components t n = Some (Inr cs)" "cs \<noteq> []"
      "list_all2 (\<lambda>ps c. render_pieces n ps = Some c) (comps t) cs"
      "\<forall>c\<in>set cs. plain_component c" "joined_length cs \<le> MAX_PATH_LEN"
  using components_loop_ok[of "comps t" n 0 "[]"] assms
  by (auto simp: template_ok_def components_def joined_length_def)

section \<open>Different members get different paths\<close>

definition literal_length :: "piece list \<Rightarrow> nat" where
  "literal_length ps = sum_list (map (\<lambda>p. case p of Literal s \<Rightarrow> length s | _ \<Rightarrow> 0) ps)"

lemma render_length:
  "render_pieces n ps = Some r \<Longrightarrow>
   length r = literal_length ps + count_list ps Piece_Name * length (as_str n)"
proof (induction ps arbitrary: r)
  case (Cons p ps)
  then show ?case by (cases p) (auto simp: literal_length_def split: option.splits)
qed (simp add: literal_length_def)

lemma render_piece_length:
  "length (as_str n) = length (as_str m) \<Longrightarrow> render_piece n p = Some a \<Longrightarrow>
   render_piece m p = Some b \<Longrightarrow> length a = length b"
  by (cases p) auto

lemma render_inject:
  assumes "render_pieces n ps = Some r" "render_pieces m ps = Some r" "Piece_Name \<in> set ps"
  shows "n = m"
proof -
  have "count_list ps Piece_Name \<noteq> 0" using assms(3) by (simp add: count_list_0_iff)
  then have len: "length (as_str n) = length (as_str m)"
    using render_length[OF assms(1)] render_length[OF assms(2)] by simp
  have "as_str n = as_str m"
    using assms
  proof (induction ps arbitrary: r)
    case (Cons p ps)
    then obtain a b ra rb where *: "render_piece n p = Some a" "render_piece m p = Some b"
      "render_pieces n ps = Some ra" "render_pieces m ps = Some rb" "a @ ra = b @ rb"
      by (auto split: option.splits)
    then have "a = b" "ra = rb"
      using render_piece_length[OF len *(1,2)] by auto
    with * Cons show ?case by (cases "p = Piece_Name") auto
  qed simp
  then show ?thesis by (rule name.expand)
qed

lemma components_inject:
  assumes "template_ok False t" "name_valid n" "name_valid m"
    and "components t n = Some (Inr cs)" "components t m = Some (Inr cs)"
  shows "n = m"
proof -
  have n: "list_all2 (\<lambda>ps c. render_pieces n ps = Some c) (comps t) cs"
    using assms(1,2,4) by (auto elim: components_cases)
  have m: "list_all2 (\<lambda>ps c. render_pieces m ps = Some c) (comps t) cs"
    using assms(1,3,5) by (auto elim: components_cases)
  from assms(1) obtain ps where "ps \<in> set (comps t)" "Piece_Name \<in> set ps"
    by (auto simp: template_ok_def)
  then obtain i where "i < length (comps t)" "comps t ! i = ps" by (auto simp: in_set_conv_nth)
  then have "render_pieces n ps = Some (cs ! i)" "render_pieces m ps = Some (cs ! i)"
    using n m by (auto dest: list_all2_nthD)
  then show ?thesis using \<open>Piece_Name \<in> set ps\<close> by (rule render_inject)
qed

lemma interpolate_Inr:
  assumes "template_ok False t" "name_valid n" "interpolate t n = Some (Inr path)"
  obtains cs where "components t n = Some (Inr cs)" "path = join_with ''/'' cs" "cs \<noteq> []"
    "\<forall>c\<in>set cs. plain_component c" "length path \<le> MAX_PATH_LEN" "split_on SLASH path = cs"
  using assms(1,2)
proof (cases rule: components_cases)
  case (ok cs)
  with assms(3) have path: "path = join_with ''/'' cs" by (simp add: interpolate_def)
  moreover have "split_on SLASH (join_with ''/'' cs) = cs"
    using ok by (intro split_join) (auto simp: plain_component_def)
  ultimately show ?thesis
    using ok that by (simp add: joined_length_def)
qed (use assms(3) in \<open>simp_all add: interpolate_def\<close>)

section \<open>Binding the levels of a group set\<close>

definition subst_level :: "name list \<Rightarrow> piece \<Rightarrow> piece" where
  "subst_level levels p = (case p of Level l \<Rightarrow> Literal (as_str (levels ! l)) | _ \<Rightarrow> p)"

lemma subst_level_simps [simp]:
  "subst_level levels (Literal s) = Literal s" "subst_level levels Piece_Name = Piece_Name"
  "subst_level levels (Level l) = Literal (as_str (levels ! l))"
  by (simp_all add: subst_level_def)

definition clean_text :: "string \<Rightarrow> bool" where
  "clean_text l = (\<forall>c\<in>set l. \<not> is_brace c \<and> c \<noteq> SLASH \<and> c \<noteq> NUL)"

lemma component_ok_iff:
  "component_ok ag ps \<longleftrightarrow>
     (\<forall>l. Literal l \<in> set ps \<longrightarrow> l \<noteq> [] \<and> clean_text l)
     \<and> (\<forall>k. Level k \<in> set ps \<longrightarrow> ag \<and> k < MAX_SET_DEPTH)
     \<and> (list_all is_literal ps \<longrightarrow> pieces_text ps \<notin> {[], ''.'', ''..''})"
proof -
  have sub: "set l \<subseteq> set (pieces_text ps)" if "Literal l \<in> set ps" for l
    using that by (force simp: pieces_text_def)
  have "piece_ok ag (filter (\<lambda>c. c \<noteq> SLASH \<and> c \<noteq> NUL) (pieces_text ps)) p \<longleftrightarrow>
      (case p of Literal l \<Rightarrow> l \<noteq> [] \<and> clean_text l | Piece_Name \<Rightarrow> True | Level k \<Rightarrow> ag \<and> k < MAX_SET_DEPTH)"
    if "p \<in> set ps" for p
    using sub that by (cases p) (auto simp: piece_ok_def clean_text_def)
  then show ?thesis
    unfolding component_ok_def by (auto split: piece.splits)
qed

lemma name_clean: "name_valid n \<Longrightarrow> clean_text (as_str n)"
  by (auto simp: clean_text_def name_valid_def is_allowed_byte_def is_ascii_alphanumeric_def
        is_ascii_digit_def byte_def is_brace_def)

lemma render_append:
  "render_pieces n (ps @ qs) =
     Option.bind (render_pieces n ps) (\<lambda>a. map_option (\<lambda>b. a @ b) (render_pieces n qs))"
proof (induction ps)
  case Nil
  show ?case by (cases "render_pieces n qs") auto
next
  case (Cons p ps)
  then show ?case
    by (cases "render_piece n p"; cases "render_pieces n ps"; cases "render_pieces n qs") auto
qed

lemma render_push_text:
  "render_pieces n (push_text s b) = map_option (\<lambda>a. a @ s) (render_pieces n b)"
proof (cases b rule: rev_cases)
  case (snoc b' p)
  then show ?thesis
    by (cases "render_pieces n b'"; cases p) (auto simp: push_text_def render_append)
qed (simp add: push_text_def)

lemma pieces_text_push [simp]: "pieces_text (push_text s b) = pieces_text b @ s"
  by (cases b rule: rev_cases) (auto simp: push_text_def split: piece.splits)

lemma in_push_text:
  assumes "p \<in> set (push_text s b)"
  shows "p \<in> set b \<or> p = Literal s \<or> (\<exists>l. Literal l \<in> set b \<and> p = Literal (l @ s))"
  using assms
  by (cases b rule: rev_cases) (auto simp: push_text_def split: piece.splits if_splits)

lemma push_text_name [simp]: "Piece_Name \<in> set (push_text s b) \<longleftrightarrow> Piece_Name \<in> set b"
  by (cases b rule: rev_cases) (auto simp: push_text_def split: piece.splits)

text \<open>The accumulated pieces of a bound component hold only clean literals and the name.\<close>

definition bound_ok :: "piece list \<Rightarrow> bool" where
  "bound_ok b = (\<forall>p\<in>set b. p = Piece_Name \<or> (\<exists>l. p = Literal l \<and> l \<noteq> [] \<and> clean_text l))"

lemma bound_ok_push:
  assumes "bound_ok b" "s \<noteq> []" "clean_text s"
  shows "bound_ok (push_text s b)"
  unfolding bound_ok_def
proof
  fix p assume "p \<in> set (push_text s b)"
  then consider "p \<in> set b" | "p = Literal s" | l where "Literal l \<in> set b" "p = Literal (l @ s)"
    using in_push_text by blast
  then show "p = Piece_Name \<or> (\<exists>l. p = Literal l \<and> l \<noteq> [] \<and> clean_text l)"
  proof cases
    case 1
    then show ?thesis using assms(1) by (simp add: bound_ok_def)
  next
    case 2
    then show ?thesis using assms by simp
  next
    case 3
    then have "clean_text l" using assms(1) by (auto simp: bound_ok_def)
    then show ?thesis using 3 assms by (simp add: clean_text_def ball_Un)
  qed
qed

lemma bind_pieces_Some:
  assumes "\<forall>l. Literal l \<in> set ps \<longrightarrow> l \<noteq> [] \<and> clean_text l" "\<forall>n\<in>set levels. name_valid n"
    and "\<forall>k. Level k \<in> set ps \<longrightarrow> k < length levels" "bound_ok b" "pieces_text b = r"
  obtains b' where "bind_pieces levels ps b r = Some (b', pieces_text b')" "bound_ok b'"
proof -
  have "\<exists>b'. bind_pieces levels ps b r = Some (b', pieces_text b') \<and> bound_ok b'"
    using assms
  proof (induction levels ps b r rule: bind_pieces.induct)
    case (1 levels b r)
    then show ?case by simp
  next
    case (2 levels ps b r)
    have "bound_ok (b @ [Piece_Name])" using 2 by (simp add: bound_ok_def)
    then show ?case using 2 by simp
  next
    case (3 levels t ps b r)
    then have "bound_ok (push_text t b)" by (simp add: bound_ok_push)
    then show ?case using 3 by simp
  next
    case (4 levels l ps b r)
    then have l: "l < length levels" by simp
    then have "name_valid (levels ! l)" using 4 by simp
    then have "bound_ok (push_text (as_str (levels ! l)) b)"
      using 4 name_clean name_valid_facts by (simp add: bound_ok_push)
    then show ?case using 4 l by simp
  qed
  then show ?thesis using that by blast
qed

lemma bind_pieces_render:
  "bind_pieces levels ps b r = Some (b', r') \<Longrightarrow>
   render_pieces n b' = render_pieces n (b @ map (subst_level levels) ps)"
proof (induction levels ps b r rule: bind_pieces.induct)
  case (3 levels t ps b r)
  then show ?case
    by (cases "render_pieces n b"; cases "render_pieces n (map (subst_level levels) ps)")
      (auto simp: render_append render_push_text)
next
  case (4 levels l ps b r)
  then show ?case
    by (cases "render_pieces n b"; cases "render_pieces n (map (subst_level levels) ps)")
      (auto simp: render_append render_push_text split: if_splits)
qed auto

lemma bind_pieces_name:
  "bind_pieces levels ps b r = Some (b', r') \<Longrightarrow>
   Piece_Name \<in> set b' \<longleftrightarrow> Piece_Name \<in> set b \<or> Piece_Name \<in> set ps"
  by (induction levels ps b r rule: bind_pieces.induct) (auto split: if_splits)

lemma bind_pieces_text:
  "bind_pieces levels ps b r = Some (b', r') \<Longrightarrow>
   r' = r @ pieces_text (map (subst_level levels) ps)"
  by (induction levels ps b r rule: bind_pieces.induct)
    (auto split: if_splits)

lemma level_less_depth: "Level k \<in> set (concat (comps t)) \<Longrightarrow> k < depth t"
proof -
  assume "Level k \<in> set (concat (comps t))"
  then have mem: "Suc k \<in> set [Suc l. Level l \<leftarrow> concat (comps t)]" (is "_ \<in> set ?ls") by force
  then have "Suc k \<le> Max (set ?ls)" by (rule Max_ge[OF finite_set])
  moreover have "?ls \<noteq> []" using mem by (metis empty_iff empty_set)
  ultimately show "k < depth t" unfolding depth_def Let_def by simp
qed

text \<open>One bound component stands for the original one with the level names put in.\<close>

definition bound_for :: "name list \<Rightarrow> piece list \<Rightarrow> piece list \<Rightarrow> bool" where
  "bound_for levels ps b =
     (component_ok False b \<and> (Piece_Name \<in> set b \<longleftrightarrow> Piece_Name \<in> set ps)
      \<and> (\<forall>n. render_pieces n b = render_pieces n (map (subst_level levels) ps)))"

lemma bound_text_dots:
  assumes "component_ok True ps" "\<forall>n\<in>set levels. name_valid n"
    "\<forall>k. Level k \<in> set ps \<longrightarrow> k < length levels" "Piece_Name \<notin> set ps"
  shows "pieces_text (map (subst_level levels) ps) \<notin> {[], ''.'', ''..''}"
proof (cases "list_all is_literal ps")
  case True
  then have "map (subst_level levels) ps = ps"
    by (induction ps) (auto simp: is_literal_def split: piece.splits)
  then show ?thesis using True assms(1) unfolding component_ok_iff by simp
next
  case False
  then obtain p where "p \<in> set ps" "\<not> is_literal p" by (auto simp: list_all_iff)
  moreover have "p \<noteq> Piece_Name" using assms(4) calculation by auto
  ultimately have "\<exists>k. p = Level k" by (cases p rule: piece.exhaust) (auto simp: is_literal_def)
  then obtain k where k: "Level k \<in> set ps" using \<open>p \<in> set ps\<close> by blast
  then have v: "name_valid (levels ! k)" using assms by simp
  have "Literal (as_str (levels ! k)) \<in> set (map (subst_level levels) ps)"
    using k by force
  then have "set (as_str (levels ! k)) \<subseteq> set (pieces_text (map (subst_level levels) ps))"
    using piece_text_subset by fastforce
  then show ?thesis
    using name_has_no_dots[OF v] name_valid_facts(1)[OF v] by auto
qed

lemma bind_pieces_bound_for:
  assumes "component_ok True ps" "\<forall>n\<in>set levels. name_valid n"
    "\<forall>k. Level k \<in> set ps \<longrightarrow> k < length levels"
  obtains b where "bind_pieces levels ps [] [] = Some (b, pieces_text b)" "bound_for levels ps b"
proof -
  obtain b where b: "bind_pieces levels ps [] [] = Some (b, pieces_text b)" "bound_ok b"
    using assms by (auto simp: component_ok_iff bound_ok_def intro: bind_pieces_Some[of ps levels "[]" "[]"])
  have name: "Piece_Name \<in> set b \<longleftrightarrow> Piece_Name \<in> set ps"
    using bind_pieces_name[OF b(1)] by simp
  have "pieces_text b \<notin> {[], ''.'', ''..''}" if "list_all is_literal b"
  proof -
    have "Piece_Name \<notin> set ps" using that name by (auto simp: list_all_iff is_literal_def)
    then show ?thesis
      using bound_text_dots[OF assms] bind_pieces_text[OF b(1)] by simp
  qed
  then have "component_ok False b"
    using b(2) unfolding component_ok_iff bound_ok_def by fastforce
  then show ?thesis
    using that b(1) name bind_pieces_render[OF b(1)] by (simp add: bound_for_def)
qed

lemma bind_components_ok:
  assumes "\<forall>ps\<in>set pss. component_ok True ps" "\<forall>n\<in>set levels. name_valid n"
    "\<forall>k. Level k \<in> set (concat pss) \<longrightarrow> k < length levels"
  shows "(\<exists>k > MAX_NAME_LEN. bind_components levels pss cs raws = Some (Inl (I_ComponentTooLong k)))
    \<or> (\<exists>new. bind_components levels pss cs raws = Some (Inr (cs @ new, raws @ map pieces_text new))
         \<and> list_all2 (bound_for levels) pss new)"
  using assms(1,3)
proof (induction pss arbitrary: cs raws)
  case (Cons ps pss)
  obtain b where b: "bind_pieces levels ps [] [] = Some (b, pieces_text b)" "bound_for levels ps b"
    using Cons.prems assms(2) by (auto intro: bind_pieces_bound_for[of ps levels])
  show ?case
  proof (cases "Piece_Name \<notin> set b \<and> length (pieces_text b) > MAX_NAME_LEN")
    case True
    then show ?thesis using b by auto
  next
    case False
    have "\<forall>ps\<in>set pss. component_ok True ps" "\<forall>k. Level k \<in> set (concat pss) \<longrightarrow> k < length levels"
      using Cons.prems by auto
    from Cons.IH[OF this, of "cs @ [b]" "raws @ [pieces_text b]"] show ?thesis
    proof
      assume "\<exists>new. bind_components levels pss (cs @ [b]) (raws @ [pieces_text b])
          = Some (Inr ((cs @ [b]) @ new, (raws @ [pieces_text b]) @ map pieces_text new))
          \<and> list_all2 (bound_for levels) pss new"
      then obtain new where "bind_components levels pss (cs @ [b]) (raws @ [pieces_text b])
          = Some (Inr (cs @ b # new, raws @ map pieces_text (b # new)))"
        "list_all2 (bound_for levels) (ps # pss) (b # new)"
        using b(2) by auto
      then show ?thesis using b False by (intro disjI2 exI[of _ "b # new"]) auto
    qed (use b False in auto)
  qed
qed simp

section \<open>The guarantees\<close>

text \<open>Parsing a template keeps its text: the parsed pieces, printed with their placeholders
  and joined with slashes, are the string that was parsed, which is also what \<open>as_str\<close> returns;
  and the template names the member.\<close>

theorem template_parse_text:
  assumes "parse_inner s ag = Inr t"
  shows "raw t = s \<and> join_with ''/'' (map pieces_text (comps t)) = s
    \<and> Piece_Name \<in> set (concat (comps t))"
  using parse_inner_ok[OF assms] by (simp add: template_ok_def)

theorem template_parse_text_witness:
  "\<exists>t. parse_inner ''{group}/v-{name}/w'' True = Inr t \<and> raw t = ''{group}/v-{name}/w''
    \<and> join_with ''/'' (map pieces_text (comps t)) = ''{group}/v-{name}/w''"
proof -
  have "parse_inner ''{group}/v-{name}/w'' True = Inr \<lparr>raw = ''{group}/v-{name}/w'',
      comps = [[Level 0], [Literal ''v-'', Piece_Name], [Literal ''w'']]\<rparr>"
    by code_simp
  from template_parse_text[OF this] this show ?thesis by blast
qed

text \<open>C39. Interpolating a valid name into a template of a static group never reaches the
  unreachable branch and never produces a component that is not a plain file name: it either
  reports a component longer than NAME_MAX or a path longer than PATH_MAX, or returns a path of at
  most 4095 bytes whose components are non-empty, at most 255 bytes long and free of \<open>/\<close>, NUL,
  \<open>.\<close> and \<open>..\<close>.\<close>

theorem interpolate_confined:
  assumes "template_parse s = Inr t" "name_valid n"
  shows "(\<exists>k. interpolate t n = Some (Inl (I_ComponentTooLong k)) \<and> k > 255)
    \<or> (\<exists>k. interpolate t n = Some (Inl (I_PathTooLong k)) \<and> k > 4095)
    \<or> (\<exists>path. interpolate t n = Some (Inr path) \<and> path \<noteq> [] \<and> length path \<le> 4095
         \<and> list_all plain_component (split_on SLASH path))"
proof -
  have ok: "template_ok False t"
    using assms(1) parse_inner_ok by (simp add: template_parse_def)
  from ok assms(2) show ?thesis
  proof (cases rule: components_cases)
    case (component_long k)
    then show ?thesis by (simp add: interpolate_def MAX_NAME_LEN_def)
  next
    case (path_long k)
    then show ?thesis by (simp add: interpolate_def MAX_PATH_LEN_def)
  next
    case (ok cs)
    define path where "path = join_with ''/'' cs"
    from ok have i: "interpolate t n = Some (Inr path)" by (simp add: interpolate_def path_def)
    obtain cs' where c: "cs' \<noteq> []" "\<forall>c\<in>set cs'. plain_component c"
      "length path \<le> MAX_PATH_LEN" "split_on SLASH path = cs'"
      using interpolate_Inr[OF \<open>template_ok False t\<close> assms(2) i] by blast
    have "path \<noteq> []"
    proof
      assume "path = []"
      then have "cs' = [[]]" using c(4) by simp
      then show False using c(2) by (simp add: plain_component_def)
    qed
    moreover have "list_all plain_component (split_on SLASH path)"
      unfolding c(4) list_all_iff by (rule c(2))
    moreover have "length path \<le> 4095" using c(3) unfolding MAX_PATH_LEN_def .
    ultimately show ?thesis using i by blast
  qed
qed

theorem interpolate_confined_witness:
  "\<exists>t path. template_parse ''{name}/workspace'' = Inr t
     \<and> interpolate t (Name ''libcurl'') = Some (Inr path) \<and> path = ''libcurl/workspace''
     \<and> list_all plain_component (split_on SLASH path)"
proof -
  let ?t = "\<lparr>raw = ''{name}/workspace'', comps = [[Piece_Name], [Literal ''workspace'']]\<rparr>"
  have p: "template_parse ''{name}/workspace'' = Inr ?t" by code_simp
  have v: "name_valid (Name ''libcurl'')"
    by (simp add: name_valid_def is_allowed_byte_def is_ascii_alphanumeric_def byte_def)
  have i: "interpolate ?t (Name ''libcurl'') = Some (Inr ''libcurl/workspace'')" by code_simp
  show ?thesis using interpolate_confined[OF p v] p i by simp
qed



lemma bind_levels_cases:
  assumes "template_parse_for_set s = Inr t" "depth t \<le> length levels"
    "\<forall>n\<in>set levels. name_valid n"
  shows "(\<exists>k. bind_levels t levels = Some (Inl (I_ComponentTooLong k)) \<and> k > 255)
    \<or> (\<exists>t'. bind_levels t levels = Some (Inr t') \<and> template_ok False t'
         \<and> raw t' = join_with ''/'' (map pieces_text (comps t'))
         \<and> (\<forall>n. map (render_pieces n) (comps t')
                = map (\<lambda>ps. render_pieces n (map (subst_level levels) ps)) (comps t)))"
proof -
  have ok: "template_ok True t"
    using assms(1) parse_inner_ok by (simp add: template_parse_for_set_def)
  then have "\<forall>ps\<in>set (comps t). component_ok True ps" by (simp add: template_ok_def)
  moreover have "\<forall>k. Level k \<in> set (concat (comps t)) \<longrightarrow> k < length levels"
    using level_less_depth[of _ t] assms(2) by fastforce
  ultimately consider (long) k where "k > MAX_NAME_LEN"
      "bind_components levels (comps t) [] [] = Some (Inl (I_ComponentTooLong k))"
    | (ok) new where "bind_components levels (comps t) [] [] = Some (Inr (new, map pieces_text new))"
      "list_all2 (bound_for levels) (comps t) new"
    using bind_components_ok[of "comps t" levels "[]" "[]"] assms(3) by auto
  then show ?thesis
  proof cases
    case long
    then show ?thesis by (simp add: bind_levels_def MAX_NAME_LEN_def)
  next
    case ok': ok
    let ?t = "\<lparr>raw = join_with ''/'' (map pieces_text new), comps = new\<rparr>"
    have all: "\<forall>i<length new. bound_for levels (comps t ! i) (new ! i)"
      "length new = length (comps t)"
      using ok'(2) by (auto simp: list_all2_conv_all_nth)
    have "template_ok False ?t"
      using ok all unfolding template_ok_def bound_for_def
      by (auto simp: in_set_conv_nth) (metis nth_mem)+
    moreover have "map (render_pieces n) new
        = map (\<lambda>ps. render_pieces n (map (subst_level levels) ps)) (comps t)" for n
      using all by (auto simp: bound_for_def intro: nth_equalityI)
    ultimately show ?thesis
      using ok'(1) by (intro disjI2 exI[of _ ?t]) (simp add: bind_levels_def)
  qed
qed

text \<open>Binding the directory levels of a group set: with a valid name for every level the
  template uses, \<open>bind_levels\<close> never panics; it reports a literal component over NAME_MAX or
  returns a template that is as good as a parsed static one (so interpolation is confined) and
  whose components render, for every member, as the original's with the level names in place of
  the placeholders.\<close>

theorem bind_levels_sound:
  assumes "template_parse_for_set s = Inr t" "depth t \<le> length levels"
    "\<forall>n\<in>set levels. name_valid n"
  shows "(\<exists>k. bind_levels t levels = Some (Inl (I_ComponentTooLong k)) \<and> k > 255)
    \<or> (\<exists>t'. bind_levels t levels = Some (Inr t') \<and> template_ok False t'
         \<and> raw t' = join_with ''/'' (map pieces_text (comps t'))
         \<and> (\<forall>n. map (render_pieces n) (comps t')
                = map (\<lambda>ps. render_pieces n (map (subst_level levels) ps)) (comps t)))"
  using assms by (rule bind_levels_cases)

theorem bind_levels_sound_witness:
  "\<exists>t t'. template_parse_for_set ''{group}/p-{subgroup}/{name}'' = Inr t
     \<and> bind_levels t [Name ''acme'', Name ''x''] = Some (Inr t') \<and> raw t' = ''acme/p-x/{name}''
     \<and> template_ok False t'"
proof -
  let ?t = "\<lparr>raw = ''{group}/p-{subgroup}/{name}'',
    comps = [[Level 0], [Literal ''p-'', Level 1], [Piece_Name]]\<rparr>"
  let ?t' = "\<lparr>raw = ''acme/p-x/{name}'',
    comps = [[Literal ''acme''], [Literal ''p-x''], [Piece_Name]]\<rparr>"
  have p: "template_parse_for_set ''{group}/p-{subgroup}/{name}'' = Inr ?t" by code_simp
  have d: "depth ?t \<le> length [Name ''acme'', Name ''x'']" by code_simp
  have v: "\<forall>n\<in>set [Name ''acme'', Name ''x'']. name_valid n"
    by (simp add: name_valid_def is_allowed_byte_def is_ascii_alphanumeric_def byte_def)
  have b: "bind_levels ?t [Name ''acme'', Name ''x''] = Some (Inr ?t')" by code_simp
  from bind_levels_sound[OF p d v] have "template_ok False ?t'" unfolding b by (simp add: PLACEHOLDER_def)
  with p b show ?thesis by auto
qed

end
