(* ===== verification/Paths.thy ===== *)
theory Paths
  imports Names
begin

text \<open>
  The validated absolute paths and the mount attributes of \<open>src/src/config.rs\<close>.

  \<open>PathBuf\<close> compares, orders and tests prefixes by components, so an \<open>AbsPath\<close> is the
  list of its components; the root directory is the empty list.  \<open>show_abs_path\<close> is the
  text of the \<open>PathBuf\<close>.
\<close>

datatype abs_path = AbsPath (path_comps: "string list")

datatype abs_path_error =
    AP_NotAbsolute
  | AP_EmptyComponent
  | AP_DotComponent string
  | AP_Nul

fun show_abs_path_error :: "abs_path_error \<Rightarrow> string" where
  "show_abs_path_error AP_NotAbsolute = ''path must be absolute''"
| "show_abs_path_error AP_EmptyComponent = ''path contains an empty component''"
| "show_abs_path_error (AP_DotComponent c) =
     ''path contains a '' @ [CHR 0x27] @ c @ [CHR 0x27] @ '' component''"
| "show_abs_path_error AP_Nul = ''path contains a NUL byte''"

definition show_abs_path :: "abs_path \<Rightarrow> string" where
  "show_abs_path p = ''/'' @ join_with ''/'' (path_comps p)"

fun check_components :: "string list \<Rightarrow> abs_path_error option" where
  "check_components [] = None"
| "check_components (c # cs) =
     (if c = [] then Some AP_EmptyComponent
      else if c = ''.'' \<or> c = ''..'' then Some (AP_DotComponent c)
      else check_components cs)"

definition abs_path_new :: "string \<Rightarrow> abs_path_error + abs_path" where
  "abs_path_new s =
     (if NUL \<in> set s then Inl AP_Nul
      else (case strip_prefix ''/'' s of
              None \<Rightarrow> Inl AP_NotAbsolute
            | Some rest \<Rightarrow>
                if rest = [] then Inr (AbsPath [])
                else
                  let rest = (case strip_suffix ''/'' rest of Some r \<Rightarrow> r | None \<Rightarrow> rest) in
                  (case check_components (split_on SLASH rest) of
                     Some e \<Rightarrow> Inl e
                   | None \<Rightarrow> Inr (AbsPath (split_on SLASH rest)))))"

definition is_at_or_beneath :: "abs_path \<Rightarrow> abs_path \<Rightarrow> bool" where
  "is_at_or_beneath p q = prefix (path_comps q) (path_comps p)"

definition join_name :: "abs_path \<Rightarrow> name \<Rightarrow> abs_path" where
  "join_name p n = AbsPath (path_comps p @ [as_str n])"

text \<open>The paths the constructor can produce: components that are plain, without NUL.\<close>

definition abs_component_ok :: "string \<Rightarrow> bool" where
  "abs_component_ok c =
     (c \<noteq> [] \<and> c \<noteq> ''.'' \<and> c \<noteq> ''..'' \<and> SLASH \<notin> set c \<and> NUL \<notin> set c)"

definition abs_path_valid :: "abs_path \<Rightarrow> bool" where
  "abs_path_valid p = (\<forall>c\<in>set (path_comps p). abs_component_ok c)"

lemma check_components_None_iff:
  "check_components cs = None \<longleftrightarrow> (\<forall>c\<in>set cs. c \<noteq> [] \<and> c \<noteq> ''.'' \<and> c \<noteq> ''..'')"
  by (induction cs) auto

lemma abs_path_new_valid: "abs_path_new s = Inr p \<Longrightarrow> abs_path_valid p"
proof -
  assume p: "abs_path_new s = Inr p"
  then obtain rest where nul: "NUL \<notin> set s" and s: "s = ''/'' @ rest"
    by (auto simp: abs_path_new_def strip_prefix_Some_iff split: if_splits option.splits)
  show ?thesis
  proof (cases "rest = []")
    case True
    with p s show ?thesis by (auto simp: abs_path_new_def abs_path_valid_def split: if_splits)
  next
    case False
    define r where "r = (case strip_suffix ''/'' rest of Some r \<Rightarrow> r | None \<Rightarrow> rest)"
    have "set r \<subseteq> set rest"
      by (auto simp: r_def strip_suffix_Some_iff split: option.splits)
    then have nul': "NUL \<notin> set r" using nul s by auto
    from p False s nul have "check_components (split_on SLASH r) = None"
      "p = AbsPath (split_on SLASH r)"
      by (auto simp: abs_path_new_def Let_def r_def split: option.splits)
    moreover have "SLASH \<notin> set c \<and> NUL \<notin> set c" if "c \<in> set (split_on SLASH r)" for c
      using that nul' split_on_sep_free split_on_subset by fastforce
    ultimately show ?thesis
      by (simp add: abs_path_valid_def abs_component_ok_def check_components_None_iff)
  qed
qed

lemma strip_suffix_join:
  assumes "cs \<noteq> []" "\<forall>c\<in>set cs. abs_component_ok c"
  shows "strip_suffix ''/'' (join_with ''/'' cs) = None"
proof -
  have "False" if "join_with ''/'' cs = r @ ''/''" for r
  proof -
    have "split_on SLASH (join_with ''/'' cs) = cs"
      using assms by (intro split_join) (auto simp: abs_component_ok_def)
    moreover have "last (split_on SLASH (r @ ''/'')) = []"
      by (simp add: split_on_snoc_sep)
    ultimately have "last cs = []" using that by metis
    then have "[] \<in> set cs" using last_in_set[OF assms(1)] by metis
    then show False using assms(2) unfolding abs_component_ok_def by blast
  qed
  then show ?thesis using strip_suffix_Some_iff by (metis not_None_eq)
qed

lemma abs_path_new_show: "abs_path_valid p \<Longrightarrow> abs_path_new (show_abs_path p) = Inr p"
proof -
  assume v: "abs_path_valid p"
  define cs where "cs = path_comps p"
  have ok: "\<forall>c\<in>set cs. abs_component_ok c" using v by (simp add: abs_path_valid_def cs_def)
  have nul: "NUL \<notin> set (show_abs_path p)"
    using ok set_join_with[of "''/''" cs]
    by (auto simp: show_abs_path_def cs_def abs_component_ok_def)
  have p: "p = AbsPath cs" by (simp add: cs_def)
  show ?thesis
  proof (cases "cs = []")
    case True
    with nul show ?thesis by (simp add: p abs_path_new_def show_abs_path_def)
  next
    case False
    have sj: "split_on SLASH (join_with ''/'' cs) = cs"
      using ok False by (intro split_join) (auto simp: abs_component_ok_def)
    moreover have "join_with ''/'' cs \<noteq> []"
    proof
      assume "join_with ''/'' cs = []"
      then have "cs = [[]]" using sj by simp
      then show False using ok by (simp add: abs_component_ok_def)
    qed
    moreover have "check_components cs = None"
      using ok by (simp add: check_components_None_iff abs_component_ok_def)
    ultimately show ?thesis
      using nul False strip_suffix_join[OF False ok]
      by (simp add: p abs_path_new_def show_abs_path_def)
  qed
qed

interpretation ap: codec abs_path_new show_abs_path abs_path_valid
  by unfold_locales (auto intro: abs_path_new_valid abs_path_new_show)

lemma abs_path_valid_join:
  "abs_path_valid p \<Longrightarrow> name_valid n \<Longrightarrow> abs_path_valid (join_name p n)"
  using name_valid_facts[of n] name_not_dots[of n]
  by (simp add: abs_path_valid_def join_name_def abs_component_ok_def)

lemma join_name_beneath: "is_at_or_beneath (join_name p n) p"
  by (simp add: is_at_or_beneath_def join_name_def)

instantiation abs_path :: linorder
begin

definition less_eq_abs_path :: "abs_path \<Rightarrow> abs_path \<Rightarrow> bool" where
  "less_eq_abs_path a b \<longleftrightarrow> path_comps a \<le> path_comps b"

definition less_abs_path :: "abs_path \<Rightarrow> abs_path \<Rightarrow> bool" where
  "less_abs_path a b \<longleftrightarrow> path_comps a < path_comps b"

instance
  by standard (auto simp: less_eq_abs_path_def less_abs_path_def abs_path.expand)

end

section \<open>Mount attributes\<close>

record mount_attrs =
  read_only :: bool
  noexec :: bool
  nosymfollow :: bool

definition default_attrs :: mount_attrs where
  "default_attrs = \<lparr>read_only = True, noexec = True, nosymfollow = False\<rparr>"

end
