(* ===== verification/Identity.thy ===== *)
theory Identity
  imports Prelude "HOL-Library.Word"
begin

text \<open>
  \<open>src/src/identity.rs\<close>: the identity of a mount, which is how the program proves that a
  mount is its own before removing it.
\<close>

type_synonym u32 = "32 word"
type_synonym u64 = "64 word"

record dev_ino =
  dev_major :: u32
  dev_minor :: u32
  ino :: u64

record mount_identity =
  mnt_id :: u64
  mnt_id_unique :: "u64 option"
  mroot :: dev_ino

text \<open>Whether an observed mount is the recorded one.\<close>

definition matches :: "mount_identity \<Rightarrow> mount_identity \<Rightarrow> bool" where
  "matches self recorded =
     (if mroot self \<noteq> mroot recorded then False
      else (case (mnt_id_unique self, mnt_id_unique recorded) of
              (Some observed, Some expected) \<Rightarrow> observed = expected
            | _ \<Rightarrow> mnt_id self = mnt_id recorded))"

lemma matches_refl [simp]: "matches i i"
  by (auto simp: matches_def split: option.splits)

lemma matches_sym: "matches i j \<longleftrightarrow> matches j i"
  by (auto simp: matches_def split: option.splits)

lemma matches_root: "matches i j \<Longrightarrow> mroot i = mroot j"
  by (auto simp: matches_def split: if_splits)

end
