(* ===== verification/Membership.thy ===== *)
theory Membership
  imports Names "HOL-Library.Word"
begin

text \<open>
  \<open>src/src/membership.rs\<close>: classification of the entries of a membership directory.  The
  entries come in the order the directory lists them, each with the kind \<open>statx\<close> reported
  or a description of why it could not be inspected.
\<close>

datatype entry_kind =
    Regular "64 word"
  | Directory
  | Symlink
  | Fifo
  | Socket
  | CharDevice
  | BlockDevice
  | Unknown

fun show_entry_kind :: "entry_kind \<Rightarrow> string" where
  "show_entry_kind (Regular _) = ''regular file''"
| "show_entry_kind Directory = ''directory''"
| "show_entry_kind Symlink = ''symbolic link''"
| "show_entry_kind Fifo = ''FIFO''"
| "show_entry_kind Socket = ''socket''"
| "show_entry_kind CharDevice = ''character device''"
| "show_entry_kind BlockDevice = ''block device''"
| "show_entry_kind Unknown = ''unknown file type''"

datatype reject_reason =
    InvalidName name_error
  | NotRegularFile entry_kind
  | NotDirectory entry_kind
  | NotEmpty "64 word"
  | Inaccessible string

fun show_reject_reason :: "reject_reason \<Rightarrow> string" where
  "show_reject_reason (InvalidName e) = ''name fails allowlist: '' @ show_name_error e"
| "show_reject_reason (NotRegularFile k) = ''not a regular file ('' @ show_entry_kind k @ '')''"
| "show_reject_reason (NotDirectory k) = ''not a directory ('' @ show_entry_kind k @ '')''"
| "show_reject_reason (NotEmpty n) = ''file is not empty ('' @ show_nat (unat n) @ '' bytes)''"
| "show_reject_reason (Inaccessible e) = ''cannot inspect entry: '' @ e"

record rejection =
  display_name :: string
  reason :: reject_reason

definition classify :: "string \<Rightarrow> string + entry_kind \<Rightarrow> rejection + name" where
  "classify file_name kind =
     (let reject = (\<lambda>why. \<lparr>display_name = display_bytes file_name, reason = why\<rparr>) in
      and_then (map_err (\<lambda>e. reject (InvalidName e)) (from_bytes file_name)) (\<lambda>n.
      and_then (map_err (\<lambda>e. reject (Inaccessible e)) kind) (\<lambda>k.
        case k of
          Regular sz \<Rightarrow> (if sz = 0 then Inr n else Inl (reject (NotEmpty sz)))
        | other \<Rightarrow> Inl (reject (NotRegularFile other)))))"

record membership =
  members :: "name list"
  rejected :: "rejection list"
  ignored :: "string list"

definition membership_default :: membership where
  "membership_default = \<lparr>members = [], rejected = [], ignored = []\<rparr>"

definition add_entry :: "string \<times> (string + entry_kind) \<Rightarrow> membership \<Rightarrow> membership" where
  "add_entry e m =
     (case e of (file_name, kind) \<Rightarrow>
        if file_name = ''.'' \<or> file_name = ''..'' then m
        else if starts_with ''.'' file_name
        then m\<lparr>ignored := ignored m @ [display_bytes file_name]\<rparr>
        else (case classify file_name kind of
                Inr n \<Rightarrow> m\<lparr>members := bs_insert n (members m)\<rparr>
              | Inl r \<Rightarrow> m\<lparr>rejected := rejected m @ [r]\<rparr>))"

definition from_entries :: "(string \<times> (string + entry_kind)) list \<Rightarrow> membership" where
  "from_entries entries = fold add_entry entries membership_default"

section \<open>Which entries are members\<close>

text \<open>The rule of the documentation: a valid name, a regular file, empty.\<close>

definition admitted :: "string \<times> (string + entry_kind) \<Rightarrow> bool" where
  "admitted e = (name_valid (Name (fst e)) \<and> snd e = Inr (Regular 0))"

definition hidden :: "string \<Rightarrow> bool" where
  "hidden f = (starts_with ''.'' f \<and> f \<noteq> ''.'' \<and> f \<noteq> ''..'')"

lemma from_bytes_valid: "name_valid (Name f) \<Longrightarrow> from_bytes f = Inr (Name f)"
  by (simp add: from_bytes_Inr_iff)

lemma classify_value:
  "if admitted (f, kind) then classify f kind = Inr (Name f)
   else (\<exists>r. classify f kind = Inl r \<and> display_name r = display_bytes f)"
proof (cases "name_valid (Name f)")
  case True
  then show ?thesis
    by (cases kind)
      (simp_all add: classify_def admitted_def from_bytes_valid split: entry_kind.splits)
next
  case False
  then have "from_bytes f \<noteq> Inr n" for n
    using from_bytes_Inr_iff[of f n] by (metis name.collapse)
  then obtain e where "from_bytes f = Inl e" by (cases "from_bytes f") auto
  with False show ?thesis by (simp add: classify_def admitted_def)
qed

lemma classify_cases:
  obtains (member) "admitted (f, kind)" "classify f kind = Inr (Name f)"
  | (reject) r where "\<not> admitted (f, kind)" "classify f kind = Inl r"
      "display_name r = display_bytes f"
  using classify_value[of f kind] by (metis (full_types))

lemma classify_Inr_iff: "classify f kind = Inr n \<longleftrightarrow> admitted (f, kind) \<and> n = Name f"
  by (cases rule: classify_cases[of f kind]) auto

lemma classify_Inl: "classify f kind = Inl r \<Longrightarrow> \<not> admitted (f, kind) \<and> display_name r = display_bytes f"
  by (cases rule: classify_cases[of f kind]) auto

lemma starts_with_dot: "starts_with ''.'' f \<longleftrightarrow> f \<noteq> [] \<and> f ! 0 = CHR ''.''"
  by (cases f) (auto simp: starts_with_def)

lemma admitted_not_dot: "admitted (f, k) \<Longrightarrow> \<not> starts_with ''.'' f"
  using name_valid_facts[of "Name f"] by (simp add: admitted_def starts_with_dot)

lemma dots_start [simp]: "starts_with ''.'' ''.''" "starts_with ''.'' ''..''"
  by (simp_all add: starts_with_dot)

lemma members_add_entry:
  "set (members (add_entry e m)) = set (members m) \<union> (if admitted e then {Name (fst e)} else {})"
proof (cases e)
  case (Pair f k)
  show ?thesis
    unfolding Pair add_entry_def using admitted_not_dot[of f k]
    by (cases rule: classify_cases[of f k]) auto
qed

lemma bs_wf_add_entry: "bs_wf (members m) \<Longrightarrow> bs_wf (members (add_entry e m))"
  by (auto simp: add_entry_def intro: wf_intros split: prod.splits sum.splits)

text \<open>What one entry contributes to the two report lists.\<close>

definition rejected_of :: "string \<times> (string + entry_kind) \<Rightarrow> rejection list" where
  "rejected_of e =
     (if starts_with ''.'' (fst e) then []
      else (case classify (fst e) (snd e) of Inl r \<Rightarrow> [r] | Inr _ \<Rightarrow> []))"

definition ignored_of :: "string \<times> (string + entry_kind) \<Rightarrow> string list" where
  "ignored_of e = (if hidden (fst e) then [display_bytes (fst e)] else [])"

lemma reports_add_entry:
  "rejected (add_entry e m) = rejected m @ rejected_of e"
  "ignored (add_entry e m) = ignored m @ ignored_of e"
  by (auto simp: add_entry_def rejected_of_def ignored_of_def hidden_def
      split: prod.splits sum.splits)

lemma fold_add_entry:
  "set (members (fold add_entry es m)) = set (members m) \<union> (Name \<circ> fst) ` {e \<in> set es. admitted e}
   \<and> rejected (fold add_entry es m) = rejected m @ concat (map rejected_of es)
   \<and> ignored (fold add_entry es m) = ignored m @ concat (map ignored_of es)
   \<and> (bs_wf (members m) \<longrightarrow> bs_wf (members (fold add_entry es m)))"
proof (induction es arbitrary: m)
  case (Cons e es)
  from Cons[of "add_entry e m"] show ?case
    by (auto simp: members_add_entry reports_add_entry bs_wf_add_entry)
qed simp

section \<open>Property\<close>

text \<open>C38. Scanning a membership directory: the members are exactly the names of the
  entries that are valid names of empty regular files, they are sorted and distinct, and
  they are valid names; every other entry except the two dot entries is reported, in the
  order of the directory: as rejected if it is not hidden, and as ignored if it is.\<close>

theorem from_entries_members:
  "set (members (from_entries es)) = Name ` {f. (f, Inr (Regular 0)) \<in> set es \<and> name_valid (Name f)}
   \<and> sorted_wrt (<) (members (from_entries es))
   \<and> (\<forall>n\<in>set (members (from_entries es)). name_valid n)
   \<and> map display_name (rejected (from_entries es))
       = map (\<lambda>e. display_bytes (fst e))
           (filter (\<lambda>e. \<not> starts_with ''.'' (fst e) \<and> \<not> admitted e) es)
   \<and> ignored (from_entries es)
       = map (\<lambda>e. display_bytes (fst e)) (filter (\<lambda>e. hidden (fst e)) es)"
proof -
  have m: "set (members (from_entries es)) = (Name \<circ> fst) ` {e \<in> set es. admitted e}"
    and r: "rejected (from_entries es) = concat (map rejected_of es)"
    and i: "ignored (from_entries es) = concat (map ignored_of es)"
    and wf: "bs_wf (members (from_entries es))"
    using fold_add_entry[of es membership_default]
    by (auto simp: from_entries_def membership_default_def)
  have "(Name \<circ> fst) ` {e \<in> set es. admitted e}
      = Name ` {f. (f, Inr (Regular 0)) \<in> set es \<and> name_valid (Name f)}"
    by (force simp: admitted_def)
  moreover have "map display_name (concat (map rejected_of es)) = map (\<lambda>e. display_bytes (fst e))
      (filter (\<lambda>e. \<not> starts_with ''.'' (fst e) \<and> \<not> admitted e) es)"
    by (induction es)
      (auto simp: rejected_of_def classify_Inr_iff dest: classify_Inl split: sum.splits)
  moreover have "concat (map ignored_of es)
      = map (\<lambda>e. display_bytes (fst e)) (filter (\<lambda>e. hidden (fst e)) es)"
    by (induction es) (auto simp: ignored_of_def)
  ultimately show ?thesis
    using m r i wf by (auto simp: bs_wf_def)
qed

text \<open>The three lists on a directory with one entry of each kind.\<close>

theorem from_entries_members_witness:
  "members (from_entries [(''.'', Inr Directory), (''b'', Inr (Regular 0)), (''.keep'', Inr (Regular 0)),
       (''a'', Inr (Regular 0)), (''c'', Inr Symlink), (''d/'', Inl ''EIO'')])
     = [Name ''a'', Name ''b'']
   \<and> set [Name ''a'', Name ''b''] = Name ` {f. (f, Inr (Regular 0)) \<in> set
       [(''.'', Inr Directory), (''b'', Inr (Regular 0)), (''.keep'', Inr (Regular 0)),
        (''a'', Inr (Regular 0)), (''c'', Inr Symlink), (''d/'', Inl ''EIO'')] \<and> name_valid (Name f)}"
proof -
  let ?es = "[(''.'', Inr Directory), (''b'', Inr (Regular 0)), (''.keep'', Inr (Regular 0)),
    (''a'', Inr (Regular 0)), (''c'', Inr Symlink), (''d/'', Inl ''EIO'')]
    :: (string \<times> (string + entry_kind)) list"
  have "members (from_entries ?es) = [Name ''a'', Name ''b'']" by code_simp
  with from_entries_members[of ?es] show ?thesis by (simp only: simp_thms)
qed

end
