(* ===== verification/State_File.thy ===== *)
theory State_File
  imports Paths Identity
begin

text \<open>
  \<open>src/src/state.rs\<close>, the in-memory part: the mount records, their keys, the state (an
  ordered map of records) and its encoding.  JSON itself is \<open>serde_json\<close>, a parameter of
  \<open>encode\<close> and \<open>decode\<close>; everything the program checks on top of it is modelled.
  The store on disk is in the theory State\_Store.
\<close>

text \<open>A \<open>jiff::Timestamp\<close>, which the program only copies.\<close>

type_synonym timestamp = int

definition STATE_VERSION :: nat where "STATE_VERSION = 1"
definition STATE_FILE_NAME :: string where "STATE_FILE_NAME = ''state.json''"
definition STATE_FILE_MODE :: nat where "STATE_FILE_MODE = 416"

section \<open>Records and keys\<close>

record mount_record =
  mr_group :: group_id
  mr_name :: name
  mr_source_root :: abs_path
  mr_source :: string
  mr_target_root :: abs_path
  mr_target :: string
  mr_mnt_id :: u64
  mr_mnt_id_unique :: "u64 option"
  mr_root_dev_major :: u32
  mr_root_dev_minor :: u32
  mr_root_ino :: u64
  mr_read_only :: bool
  mr_noexec :: bool
  mr_nosymfollow :: bool
  mr_created_at :: timestamp

datatype record_key = RecordKey (rk_group: group_id) (rk_name: name)

definition show_record_key :: "record_key \<Rightarrow> string" where
  "show_record_key k = show_group_id (rk_group k) @ ''/'' @ as_str (rk_name k)"

definition mr_identity :: "mount_record \<Rightarrow> mount_identity" where
  "mr_identity r =
     \<lparr>mnt_id = mr_mnt_id r, mnt_id_unique = mr_mnt_id_unique r,
      mroot = \<lparr>dev_major = mr_root_dev_major r, dev_minor = mr_root_dev_minor r,
              ino = mr_root_ino r\<rparr>\<rparr>"

definition mr_attrs :: "mount_record \<Rightarrow> mount_attrs" where
  "mr_attrs r =
     \<lparr>read_only = mr_read_only r, noexec = mr_noexec r, nosymfollow = mr_nosymfollow r\<rparr>"

definition mr_key :: "mount_record \<Rightarrow> record_key" where
  "mr_key r = RecordKey (mr_group r) (mr_name r)"

lemma rk_group_mr_key [simp]: "rk_group (mr_key r) = mr_group r"
  by (simp add: mr_key_def)

instantiation record_key :: linorder
begin

definition less_eq_record_key :: "record_key \<Rightarrow> record_key \<Rightarrow> bool" where
  "less_eq_record_key a b \<longleftrightarrow> (rk_group a, rk_name a) \<le> (rk_group b, rk_name b)"

definition less_record_key :: "record_key \<Rightarrow> record_key \<Rightarrow> bool" where
  "less_record_key a b \<longleftrightarrow> (rk_group a, rk_name a) < (rk_group b, rk_name b)"

instance
  by standard (auto simp: less_eq_record_key_def less_record_key_def record_key.expand)

end

section \<open>The state\<close>

record state =
  st_map :: "(record_key, mount_record) btree"

definition state_default :: state where
  "state_default = \<lparr>st_map = []\<rparr>"

definition state_get :: "state \<Rightarrow> record_key \<Rightarrow> mount_record option" where
  "state_get s k = bt_get (st_map s) k"

text \<open>\<open>State::insert\<close> returns the previous record; the new state comes with it.\<close>

definition state_insert :: "mount_record \<Rightarrow> state \<Rightarrow> mount_record option \<times> state" where
  "state_insert r s = (bt_get (st_map s) (mr_key r), s\<lparr>st_map := bt_insert (mr_key r) r (st_map s)\<rparr>)"

definition state_remove :: "record_key \<Rightarrow> state \<Rightarrow> mount_record option \<times> state" where
  "state_remove k s = (bt_get (st_map s) k, s\<lparr>st_map := bt_remove k (st_map s)\<rparr>)"

definition records :: "state \<Rightarrow> mount_record list" where
  "records s = bt_values (st_map s)"

definition state_len :: "state \<Rightarrow> nat" where
  "state_len s = length (st_map s)"

definition state_is_empty :: "state \<Rightarrow> bool" where
  "state_is_empty s = (st_map s = [])"

text \<open>Every record is filed under its own key.\<close>

definition state_wf :: "state \<Rightarrow> bool" where
  "state_wf s = (bt_wf (st_map s) \<and> (\<forall>(k, r)\<in>set (st_map s). mr_key r = k))"

lemma state_wf_default [simp, wf_intros]: "state_wf state_default"
  by (simp add: state_wf_def state_default_def)

lemma state_wf_insert [wf_intros]: "state_wf s \<Longrightarrow> state_wf (snd (state_insert r s))"
  using set_bt_insert[of "mr_key r" r "st_map s"]
  by (auto simp: state_wf_def state_insert_def intro: wf_intros)

lemma state_wf_remove [wf_intros]: "state_wf s \<Longrightarrow> state_wf (snd (state_remove k s))"
  by (auto simp: state_wf_def state_remove_def set_bt_remove intro: wf_intros)

lemma state_get_insert [btree_simps]:
  "state_get (snd (state_insert r s)) k = (if k = mr_key r then Some r else state_get s k)"
  by (simp add: state_get_def state_insert_def btree_simps)

lemma state_get_remove [btree_simps]:
  "state_get (snd (state_remove k s)) k' = (if k' = k then None else state_get s k')"
  by (simp add: state_get_def state_remove_def btree_simps)

lemma state_get_key: "state_wf s \<Longrightarrow> state_get s k = Some r \<Longrightarrow> mr_key r = k"
  by (auto simp: state_wf_def state_get_def dest: bt_get_SomeD)

lemma state_ext:
  assumes "state_wf s" "state_wf t" "\<And>k. state_get s k = state_get t k"
  shows "s = t"
proof -
  have "st_map s = st_map t"
    using assms by (intro bt_ext) (auto simp: state_wf_def state_get_def)
  then show ?thesis by simp
qed

text \<open>The state is a map of records filed under their keys.\<close>

interpretation st: keyed_map state_get "\<lambda>k r s. snd (state_insert r s)"
  "\<lambda>k s. snd (state_remove k s)" state_wf "\<lambda>k r. mr_key r = k"
  by unfold_locales (auto simp: btree_simps intro: wf_intros state_ext state_get_key)

lemma records_iff:
  "state_wf s \<Longrightarrow> r \<in> set (records s) \<longleftrightarrow> state_get s (mr_key r) = Some r"
  by (force simp: records_def bt_values_def state_wf_def state_get_def bt_get_iff)

lemma state_get_Some_iff:
  "state_wf s \<Longrightarrow> state_get s k = Some r \<longleftrightarrow> r \<in> set (records s) \<and> mr_key r = k"
  using state_get_key records_iff by metis

lemma records_keys: "state_wf s \<Longrightarrow> map mr_key (records s) = map fst (st_map s)"
  by (auto simp: state_wf_def records_def bt_values_def)

lemma records_sorted: "state_wf s \<Longrightarrow> sorted_wrt (<) (map mr_key (records s))"
  using records_keys by (metis bt_wf_def state_wf_def)

lemma records_distinct: "state_wf s \<Longrightarrow> distinct (map mr_key (records s))"
  using records_keys by (metis bt_wf_distinct state_wf_def)

section \<open>Encoding\<close>

record state_document =
  doc_version :: nat
  doc_mounts :: "mount_record list"

text \<open>The reasons of \<open>DecodeError::Malformed\<close>, by what their message says.\<close>

datatype malformed =
    M_Json string
  | M_MissingVersion
  | M_VersionNotUnsigned
  | M_InvalidPath record_key string string
  | M_Duplicate record_key

datatype decode_error =
    UnsupportedVersion nat
  | Malformed malformed

text \<open>What is used of \<open>serde_json\<close>: \<open>'v\<close> is its \<open>Value\<close>.\<close>

record 'v serde_json =
  js_to_vec :: "state_document \<Rightarrow> string"
  js_from_slice :: "string \<Rightarrow> string + 'v"
  js_get_version :: "'v \<Rightarrow> 'v option"
  js_as_u64 :: "'v \<Rightarrow> nat option"
  js_from_value :: "'v \<Rightarrow> string + state_document"

definition encode :: "'v serde_json \<Rightarrow> state \<Rightarrow> string" where
  "encode js s =
     js_to_vec js \<lparr>doc_version = STATE_VERSION, doc_mounts = bt_values (st_map s)\<rparr> @ [NEWLINE]"

definition is_clean_relative :: "string \<Rightarrow> bool" where
  "is_clean_relative path =
     (path \<noteq> [] \<and> NUL \<notin> set path
      \<and> list_all (\<lambda>c. c \<noteq> [] \<and> c \<noteq> ''.'' \<and> c \<noteq> ''..'') (split_on SLASH path))"

fun decode_records :: "mount_record list \<Rightarrow> state \<Rightarrow> decode_error + state" where
  "decode_records [] s = Inr s"
| "decode_records (r # rs) s =
     (if \<not> is_clean_relative (mr_source r)
      then Inl (Malformed (M_InvalidPath (mr_key r) ''source'' (mr_source r)))
      else if \<not> is_clean_relative (mr_target r)
      then Inl (Malformed (M_InvalidPath (mr_key r) ''target'' (mr_target r)))
      else (case state_insert r s of
              (Some _, _) \<Rightarrow> Inl (Malformed (M_Duplicate (mr_key r)))
            | (None, s') \<Rightarrow> decode_records rs s'))"

definition decode :: "'v serde_json \<Rightarrow> string \<Rightarrow> decode_error + state" where
  "decode js bytes =
     (case js_from_slice js bytes of
        Inl e \<Rightarrow> Inl (Malformed (M_Json e))
      | Inr value \<Rightarrow>
          (case js_get_version js value of
             None \<Rightarrow> Inl (Malformed M_MissingVersion)
           | Some v \<Rightarrow>
               (case js_as_u64 js v of
                  None \<Rightarrow> Inl (Malformed M_VersionNotUnsigned)
                | Some version \<Rightarrow>
                    if version \<noteq> STATE_VERSION then Inl (UnsupportedVersion version)
                    else (case js_from_value js value of
                            Inl e \<Rightarrow> Inl (Malformed (M_Json e))
                          | Inr doc \<Rightarrow> decode_records (doc_mounts doc) state_default))))"

definition clean_record :: "mount_record \<Rightarrow> bool" where
  "clean_record r = (is_clean_relative (mr_source r) \<and> is_clean_relative (mr_target r))"

text \<open>Inserting a list of records in order.\<close>

definition insert_all :: "mount_record list \<Rightarrow> state \<Rightarrow> state" where
  "insert_all rs s = fold (\<lambda>r s. snd (state_insert r s)) rs s"

lemma insert_all_simps [simp]:
  "insert_all [] s = s"
  "insert_all (r # rs) s = insert_all rs (snd (state_insert r s))"
  by (simp_all add: insert_all_def)

lemma state_wf_insert_all [wf_intros]: "state_wf s \<Longrightarrow> state_wf (insert_all rs s)"
  by (induction rs arbitrary: s) (auto intro: wf_intros)

lemma state_get_insert_all:
  "distinct (map mr_key rs) \<Longrightarrow>
     state_get (insert_all rs s) k = (case find (\<lambda>r. mr_key r = k) rs of
       Some r \<Rightarrow> Some r | None \<Rightarrow> state_get s k)"
proof (induction rs arbitrary: s)
  case (Cons r rs)
  have "find (\<lambda>r'. mr_key r' = mr_key r) rs = None"
    using Cons.prems by (fastforce simp: find_None_iff image_iff)
  with Cons show ?case by (auto simp: state_get_insert split: option.splits)
qed simp

lemma decode_records_Inr_iff:
  "decode_records rs s = Inr s' \<longleftrightarrow>
     (\<forall>r\<in>set rs. clean_record r) \<and> distinct (map mr_key rs)
     \<and> (\<forall>r\<in>set rs. state_get s (mr_key r) = None) \<and> s' = insert_all rs s"
proof (induction rs arbitrary: s)
  case (Cons r rs)
  let ?s = "snd (state_insert r s)"
  have "decode_records (r # rs) s = Inr s' \<longleftrightarrow>
      clean_record r \<and> state_get s (mr_key r) = None \<and> decode_records rs ?s = Inr s'"
    by (auto simp: clean_record_def state_get_def state_insert_def split: option.splits)
  also have "decode_records rs ?s = Inr s' \<longleftrightarrow>
      (\<forall>r\<in>set rs. clean_record r) \<and> distinct (map mr_key rs)
      \<and> (\<forall>r\<in>set rs. state_get ?s (mr_key r) = None) \<and> s' = insert_all rs ?s"
    by (rule Cons)
  also have "(\<forall>x\<in>set rs. state_get ?s (mr_key x) = None)
      \<longleftrightarrow> mr_key r \<notin> mr_key ` set rs \<and> (\<forall>x\<in>set rs. state_get s (mr_key x) = None)"
    unfolding state_get_insert by (metis (no_types, lifting) image_iff option.distinct(1))
  finally show ?case by auto
qed auto

lemma state_get_default [simp]: "state_get state_default k = None"
  by (simp add: state_get_def state_default_def)

lemma decode_records_default:
  "decode_records rs state_default = Inr s \<longleftrightarrow>
     (\<forall>r\<in>set rs. clean_record r) \<and> distinct (map mr_key rs) \<and> s = insert_all rs state_default"
  by (simp add: decode_records_Inr_iff)

lemma decode_Inr_iff:
  "decode js bytes = Inr s \<longleftrightarrow>
     (\<exists>v ver doc. js_from_slice js bytes = Inr v \<and> js_get_version js v = Some ver
        \<and> js_as_u64 js ver = Some STATE_VERSION \<and> js_from_value js v = Inr doc
        \<and> decode_records (doc_mounts doc) state_default = Inr s)"
  by (auto simp: decode_def split: sum.splits option.splits)

lemma find_key_iff:
  "distinct (map f xs) \<Longrightarrow> find (\<lambda>y. f y = f x) xs = Some x \<longleftrightarrow> x \<in> set xs"
  by (induction xs) auto

lemma records_insert_all:
  assumes "distinct (map mr_key rs)"
  shows "set (records (insert_all rs state_default)) = set rs"
proof -
  have wf: "state_wf (insert_all rs state_default)" by (intro wf_intros)
  have "r \<in> set (records (insert_all rs state_default)) \<longleftrightarrow> r \<in> set rs" for r
    using find_key_iff[OF assms, of r]
    unfolding records_iff[OF wf] state_get_insert_all[OF assms] state_get_default
    by (cases "find (\<lambda>r'. mr_key r' = mr_key r) rs") auto
  then show ?thesis by blast
qed

lemma insert_all_records: "state_wf s \<Longrightarrow> insert_all (records s) state_default = s"
proof (rule state_ext)
  assume wf: "state_wf s"
  show "state_get (insert_all (records s) state_default) k = state_get s k" for k
  proof (cases "state_get s k")
    case None
    then have "find (\<lambda>r. mr_key r = k) (records s) = None"
      using wf state_get_Some_iff[of s k] by (auto simp: find_None_iff)
    with None show ?thesis by (simp add: state_get_insert_all records_distinct[OF wf])
  next
    case (Some r)
    then have "r \<in> set (records s)" "mr_key r = k"
      using wf state_get_Some_iff by blast+
    then obtain r' where "find (\<lambda>r. mr_key r = k) (records s) = Some r'"
      by (metis (mono_tags, lifting) find_None_iff not_None_eq)
    moreover from this have "r' \<in> set (records s)" "mr_key r' = k"
      by (auto simp: find_Some_iff)
    then have "state_get s k = Some r'" using wf state_get_Some_iff by blast
    ultimately show ?thesis by (simp add: state_get_insert_all records_distinct[OF wf])
  qed
qed (auto intro: wf_intros)

text \<open>What is asked of the JSON library: it reads back the document it wrote for a state.\<close>

definition reads_back :: "'v serde_json \<Rightarrow> state \<Rightarrow> bool" where
  "reads_back js s =
     (\<exists>v ver. js_from_slice js (encode js s) = Inr v \<and> js_get_version js v = Some ver
        \<and> js_as_u64 js ver = Some 1
        \<and> js_from_value js v = Inr \<lparr>doc_version = 1, doc_mounts = records s\<rparr>)"

lemma decode_written:
  assumes wf: "state_wf s" and rb: "reads_back js s"
  shows "decode js (encode js s) = Inr t \<longleftrightarrow> (\<forall>r\<in>set (records s). clean_record r) \<and> t = s"
proof -
  have "decode js (encode js s) = decode_records (records s) state_default"
    using rb by (auto simp: reads_back_def decode_def STATE_VERSION_def)
  then show ?thesis
    using wf by (auto simp: decode_records_default records_distinct insert_all_records)
qed

section \<open>Properties\<close>

text \<open>C37. A state file that decodes gives a well-formed state: every record is filed under
  its own key, no two records of the file share a key, every record of the file and no
  other is in the state, and every source and target path is clean (relative, without
  empty, dot or dot-dot components and without NUL).\<close>

theorem decode_sound:
  assumes "decode js bytes = Inr s"
  shows "state_wf s
    \<and> (\<exists>v doc. js_from_slice js bytes = Inr v \<and> js_from_value js v = Inr doc
         \<and> distinct (map mr_key (doc_mounts doc)) \<and> set (records s) = set (doc_mounts doc))
    \<and> (\<forall>r\<in>set (records s). clean_record r)"
proof -
  from assms obtain v doc where d: "js_from_slice js bytes = Inr v" "js_from_value js v = Inr doc"
    and rs: "\<forall>r\<in>set (doc_mounts doc). clean_record r" "distinct (map mr_key (doc_mounts doc))"
      "s = insert_all (doc_mounts doc) state_default"
    by (auto simp: decode_Inr_iff decode_records_default)
  have "state_wf s" using rs by (auto intro: wf_intros)
  with d rs records_insert_all[OF rs(2)] show ?thesis by auto
qed

definition example_record :: mount_record where
  "example_record =
     \<lparr>mr_group = statically (Name ''g''), mr_name = Name ''a'', mr_source_root = AbsPath [''src''],
      mr_source = ''a'', mr_target_root = AbsPath [''mnt''], mr_target = ''a/data'',
      mr_mnt_id = 7, mr_mnt_id_unique = Some 9, mr_root_dev_major = 8, mr_root_dev_minor = 1,
      mr_root_ino = 42, mr_read_only = True, mr_noexec = True, mr_nosymfollow = False,
      mr_created_at = 0\<rparr>"

definition example_document :: state_document where
  "example_document = \<lparr>doc_version = 1, doc_mounts = [example_record]\<rparr>"

definition example_json :: "state_document serde_json" where
  "example_json =
     \<lparr>js_to_vec = (\<lambda>_. ''{}''), js_from_slice = (\<lambda>_. Inr example_document),
      js_get_version = Some, js_as_u64 = (\<lambda>v. Some (doc_version v)), js_from_value = Inr\<rparr>"

lemma decode_example:
  "decode example_json bytes = Inr \<lparr>st_map = [(mr_key example_record, example_record)]\<rparr>"
proof -
  have "is_clean_relative ''a''" "is_clean_relative ''a/data''" by code_simp+
  then show ?thesis
    by (simp add: decode_def example_json_def example_document_def example_record_def
          STATE_VERSION_def state_insert_def state_default_def)
qed

theorem decode_sound_witness:
  "state_wf \<lparr>st_map = [(mr_key example_record, example_record)]\<rparr>
    \<and> clean_record example_record"
  using decode_sound[OF decode_example] by (simp add: records_def bt_values_def)

text \<open>A state the program can hold is not lost by writing it: if the JSON library reads
  back the document it wrote (here for this state's document), decoding the encoded state
  gives the same state exactly when every recorded path is clean; a state with an unclean
  path is refused on reading, never altered.\<close>

theorem decode_encode:
  assumes wf: "state_wf s"
    and reads_back: "js_from_slice js (encode js s) = Inr v" "js_get_version js v = Some ver"
      "js_as_u64 js ver = Some 1"
      "js_from_value js v = Inr \<lparr>doc_version = 1, doc_mounts = records s\<rparr>"
  shows "if \<forall>r\<in>set (records s). clean_record r then decode js (encode js s) = Inr s
    else (\<exists>e. decode js (encode js s) = Inl e)"
proof -
  have rb: "reads_back js s" using reads_back unfolding reads_back_def by blast
  show ?thesis using decode_written[OF wf rb] by (cases "decode js (encode js s)") auto
qed

theorem decode_encode_witness:
  "decode example_json (encode example_json \<lparr>st_map = [(mr_key example_record, example_record)]\<rparr>)
     = Inr \<lparr>st_map = [(mr_key example_record, example_record)]\<rparr>"
proof -
  have "clean_record example_record" unfolding clean_record_def example_record_def by code_simp
  moreover have "state_wf \<lparr>st_map = [(mr_key example_record, example_record)]\<rparr>"
    by (simp add: state_wf_def bt_wf_def)
  ultimately show ?thesis
    using decode_encode[of "\<lparr>st_map = [(mr_key example_record, example_record)]\<rparr>"
        example_json example_document example_document]
    by (simp add: example_json_def example_document_def records_def bt_values_def)
qed

end
