(* ===== verification/Plan.thy ===== *)
theory Plan
  imports State_File
begin

text \<open>
  \<open>src/src/reconcile/plan.rs\<close>: the pure reconciliation planner.  It compares the desired
  mounts, the recorded state and the observations of the kernel, and returns ordered steps
  with their dependencies and findings to report.  The builder the source mutates is passed
  along explicitly; a panic of the source (an index out of range, the \<open>unreachable!\<close> of
  \<open>finish\<close>) is the result \<open>None\<close>.
\<close>

section \<open>Data\<close>

datatype location = Location (loc_root: abs_path) (loc_path: string)

instantiation location :: linorder
begin

definition less_eq_location :: "location \<Rightarrow> location \<Rightarrow> bool" where
  "less_eq_location a b \<longleftrightarrow> (loc_root a, loc_path a) \<le> (loc_root b, loc_path b)"

definition less_location :: "location \<Rightarrow> location \<Rightarrow> bool" where
  "less_location a b \<longleftrightarrow> (loc_root a, loc_path a) < (loc_root b, loc_path b)"

instance
  by standard (auto simp: less_eq_location_def less_location_def location.expand)

end

definition show_location :: "location \<Rightarrow> string" where
  "show_location l =
     (if loc_root l = AbsPath [] then ''/'' @ loc_path l
      else show_abs_path (loc_root l) @ ''/'' @ loc_path l)"

definition source_location :: "mount_record \<Rightarrow> location" where
  "source_location r = Location (mr_source_root r) (mr_source r)"

definition target_location :: "mount_record \<Rightarrow> location" where
  "target_location r = Location (mr_target_root r) (mr_target r)"

record desired_mount =
  dm_key :: record_key
  dm_source :: location
  dm_target :: location
  dm_attrs :: mount_attrs

record observed_attrs =
  oa_read_only :: bool
  oa_nosuid :: bool
  oa_nodev :: bool
  oa_noexec :: bool
  oa_nosymfollow :: bool

definition enforce :: "observed_attrs \<Rightarrow> mount_attrs \<Rightarrow> bool" where
  "enforce ob attrs =
     (oa_nosuid ob \<and> oa_nodev ob
      \<and> (oa_read_only ob \<or> \<not> read_only attrs)
      \<and> (oa_noexec ob \<or> \<not> noexec attrs)
      \<and> (oa_nosymfollow ob \<or> \<not> nosymfollow attrs))"

datatype source_state =
    Resolved dev_ino
  | SS_Unavailable string

datatype target_state =
    NotMounted
  | Mounted mount_identity "observed_attrs option"
  | TS_Unavailable string

record observations =
  obs_sources :: "(record_key, source_state) btree"
  obs_targets :: "(location, target_state) btree"

record plan_input =
  pi_desired :: "desired_mount list"
  pi_state :: state
  pi_frozen :: "group_id list"
  pi_observations :: observations

datatype unmount_reason =
    NotMember
  | Relocated
  | SourceGone string
  | SourceChanged
  | UR_TargetCollision
  | AttributesChanged
  | AttributesDrifted

datatype drop_reason =
    MountGone
  | ForeignMountAtTarget
  | DR_SourceUnavailable string

datatype action =
    Unmount mount_record unmount_reason
  | DropRecord mount_record drop_reason
  | Mount desired_mount

fun phase :: "action \<Rightarrow> nat" where
  "phase (Unmount _ _) = 0"
| "phase (DropRecord _ _) = 0"
| "phase (Mount _) = 1"

record step =
  step_action :: action
  depends_on :: "nat list"

datatype conflict_kind = ForeignMount | TargetReplaced

datatype finding =
    Conflict record_key location conflict_kind
  | F_SourceUnavailable record_key location string
  | F_TargetUnavailable record_key location string
  | F_TargetCollision location "record_key list" "record_key option"
  | RelocationBlocked record_key location

record plan =
  plan_steps :: "step list"
  plan_findings :: "finding list"

definition is_noop :: "plan \<Rightarrow> bool" where
  "is_noop p = (plan_steps p = [])"

definition record_matches_desired :: "mount_record \<Rightarrow> desired_mount \<Rightarrow> bool" where
  "record_matches_desired r d =
     (source_location r = dm_source d \<and> target_location r = dm_target d)"

section \<open>The builder\<close>

record builder =
  b_input :: plan_input
  b_steps :: "(action \<times> nat list) list"
  b_findings :: "finding list"

definition push :: "action \<Rightarrow> nat list \<Rightarrow> builder \<Rightarrow> nat \<times> builder" where
  "push act deps b = (length (b_steps b), b\<lparr>b_steps := b_steps b @ [(act, deps)]\<rparr>)"

definition push_finding :: "finding \<Rightarrow> builder \<Rightarrow> builder" where
  "push_finding f b = b\<lparr>b_findings := b_findings b @ [f]\<rparr>"

definition obs_target :: "plan_input \<Rightarrow> location \<Rightarrow> target_state" where
  "obs_target i l =
     (case bt_get (obs_targets (pi_observations i)) l of
        Some t \<Rightarrow> t | None \<Rightarrow> TS_Unavailable ''target was not observed'')"

definition obs_source :: "plan_input \<Rightarrow> record_key \<Rightarrow> source_state" where
  "obs_source i k =
     (case bt_get (obs_sources (pi_observations i)) k of
        Some s \<Rightarrow> s | None \<Rightarrow> SS_Unavailable ''source was not observed'')"

definition is_frozen :: "plan_input \<Rightarrow> group_id \<Rightarrow> bool" where
  "is_frozen i g = (g \<in> set (pi_frozen i))"

text \<open>The first loop of \<open>resolve_collisions\<close>: the desired mounts of each target.\<close>

definition add_by_target ::
  "plan_input \<Rightarrow> desired_mount \<Rightarrow> (location, desired_mount list) btree
     \<Rightarrow> (location, desired_mount list) btree" where
  "add_by_target i d m =
     (if is_frozen i (rk_group (dm_key d)) then m
      else bt_insert (dm_target d)
             ((case bt_get m (dm_target d) of Some ds \<Rightarrow> ds | None \<Rightarrow> []) @ [d]) m)"

definition keeps :: "plan_input \<Rightarrow> target_state \<Rightarrow> desired_mount \<Rightarrow> bool" where
  "keeps i observed d =
     (case state_get (pi_state i) (dm_key d) of
        None \<Rightarrow> False
      | Some r \<Rightarrow>
          record_matches_desired r d
          \<and> (case observed of Mounted identity _ \<Rightarrow> matches identity (mr_identity r) | _ \<Rightarrow> False))"

text \<open>One round of its second loop.\<close>

definition resolve_target ::
  "location \<times> desired_mount list \<Rightarrow> (record_key, desired_mount) btree \<times> builder
     \<Rightarrow> (record_key, desired_mount) btree \<times> builder" where
  "resolve_target e ab =
     (case e of (l, ds) \<Rightarrow> case ab of (accepted, b) \<Rightarrow>
        if length ds = 1 then (bt_insert (dm_key (ds ! 0)) (ds ! 0) accepted, b)
        else
          let ds = sort_key dm_key ds;
              kept = find (keeps (b_input b) (obs_target (b_input b) l)) ds;
              accepted = (case kept of
                            Some d \<Rightarrow> bt_insert (dm_key d) d accepted | None \<Rightarrow> accepted)
          in (accepted,
              push_finding (F_TargetCollision l (map dm_key ds) (map_option dm_key kept)) b))"

definition resolve_collisions :: "builder \<Rightarrow> (record_key, desired_mount) btree \<times> builder" where
  "resolve_collisions b =
     (let by_target = fold (add_by_target (b_input b)) (pi_desired (b_input b)) []
      in fold resolve_target by_target ([], b))"

text \<open>\<open>Builder::finish\<close>: stable sort by phase, and dependency ids become final indices.\<close>

definition index_table :: "nat list \<Rightarrow> nat list" where
  "index_table order =
     fold (\<lambda>(ix, i) v. v[i := ix]) (enumerate 0 order) (replicate (length order) 0)"

fun take_slots ::
  "nat list \<Rightarrow> nat list \<Rightarrow> (action \<times> nat list) option list \<Rightarrow> step list option" where
  "take_slots index_of [] slots = Some []"
| "take_slots index_of (i # is) slots =
     (if length slots \<le> i then None
      else (case slots ! i of
              None \<Rightarrow> None
            | Some (act, deps) \<Rightarrow>
                if list_all (\<lambda>d. d < length index_of) deps
                then map_option
                  (Cons \<lparr>step_action = act,
                         depends_on = remdups_adj (sort (map (\<lambda>d. index_of ! d) deps))\<rparr>)
                  (take_slots index_of is (slots[i := None]))
                else None))"

definition finish :: "builder \<Rightarrow> plan option" where
  "finish b =
     (let order = sort_key (\<lambda>i. phase (fst (b_steps b ! i))) [0..<length (b_steps b)];
          index_of = index_table order;
          slots = map Some (b_steps b)
      in map_option (\<lambda>steps. \<lparr>plan_steps = steps, plan_findings = b_findings b\<rparr>)
           (take_slots index_of order slots))"

section \<open>Phase A: departing records\<close>

record departures =
  old_record_removal :: "(record_key, nat option) btree"
  freed_targets :: "(location, nat \<times> mount_identity) btree"

definition departures_default :: departures where
  "departures_default = \<lparr>old_record_removal = [], freed_targets = []\<rparr>"

definition departing_reason ::
  "plan_input \<Rightarrow> (record_key, desired_mount) btree \<Rightarrow> record_key \<Rightarrow> unmount_reason" where
  "departing_reason i desired key =
     (let desired_here = bt_get desired key;
          collided = (desired_here = None
            \<and> list_ex (\<lambda>d. dm_key d = key \<and> \<not> is_frozen i (rk_group (dm_key d))) (pi_desired i))
      in if collided then UR_TargetCollision
         else if desired_here \<noteq> None then Relocated
         else NotMember)"

definition plan_departing_record ::
  "(record_key, desired_mount) btree \<Rightarrow> mount_record \<Rightarrow> departures \<times> builder
     \<Rightarrow> departures \<times> builder" where
  "plan_departing_record desired r db =
     (case db of (deps, b) \<Rightarrow>
      let i = b_input b; key = mr_key r in
      if is_frozen i (mr_group r) then (deps, b)
      else if (case bt_get desired key of Some d \<Rightarrow> record_matches_desired r d | None \<Rightarrow> False)
      then (deps, b)
      else
        let why = departing_reason i desired key;
            l = target_location r;
            (removal, deps, b) =
              (case obs_target i l of
                 NotMounted \<Rightarrow>
                   (let (n, b) = push (DropRecord r MountGone) [] b in (Some n, deps, b))
               | Mounted identity _ \<Rightarrow>
                   if matches identity (mr_identity r)
                   then (let (n, b) = push (Unmount r why) [] b in
                         (Some n,
                          deps\<lparr>freed_targets := bt_insert l (n, identity) (freed_targets deps)\<rparr>, b))
                   else (let (n, b) = push (DropRecord r ForeignMountAtTarget) [] b in
                         (Some n, deps, b))
               | TS_Unavailable e \<Rightarrow>
                   (None, deps, push_finding (F_TargetUnavailable key l e) b))
        in (deps\<lparr>old_record_removal := bt_insert key removal (old_record_removal deps)\<rparr>, b))"

definition plan_departing_records ::
  "(record_key, desired_mount) btree \<Rightarrow> builder \<Rightarrow> departures \<times> builder" where
  "plan_departing_records desired b =
     fold (plan_departing_record desired) (records (pi_state (b_input b)))
       (departures_default, b)"

section \<open>Phase B: desired members\<close>

text \<open>Rows 1-3: the member has no record at its desired location.\<close>

definition mount_if_resolved ::
  "desired_mount \<Rightarrow> source_state \<Rightarrow> nat list \<Rightarrow> builder \<Rightarrow> builder" where
  "mount_if_resolved d src deps b =
     (case src of
        Resolved _ \<Rightarrow> snd (push (Mount d) deps b)
      | SS_Unavailable e \<Rightarrow> push_finding (F_SourceUnavailable (dm_key d) (dm_source d) e) b)"

definition plan_unrecorded_member ::
  "desired_mount \<Rightarrow> departures \<Rightarrow> target_state \<Rightarrow> source_state \<Rightarrow> builder \<Rightarrow> builder" where
  "plan_unrecorded_member d dep tgt src b =
     (case bt_get (old_record_removal dep) (dm_key d) of
        Some None \<Rightarrow>
          push_finding
            (RelocationBlocked (dm_key d)
               (case state_get (pi_state (b_input b)) (dm_key d) of
                  Some r \<Rightarrow> target_location r | None \<Rightarrow> dm_target d)) b
      | other \<Rightarrow>
          let deps = (case other of Some (Some n) \<Rightarrow> [n] | _ \<Rightarrow> []) in
          (case tgt of
             NotMounted \<Rightarrow> mount_if_resolved d src deps b
           | Mounted identity _ \<Rightarrow>
               (case bt_get (freed_targets dep) (dm_target d) of
                  Some (n, freed) \<Rightarrow>
                    if freed = identity then mount_if_resolved d src (deps @ [n]) b
                    else push_finding (Conflict (dm_key d) (dm_target d) ForeignMount) b
                | None \<Rightarrow> push_finding (Conflict (dm_key d) (dm_target d) ForeignMount) b)
           | TS_Unavailable e \<Rightarrow>
               push_finding (F_TargetUnavailable (dm_key d) (dm_target d) e) b))"

text \<open>Rows 4-9: the member has a record at its desired location.\<close>

definition remount :: "mount_record \<Rightarrow> unmount_reason \<Rightarrow> desired_mount \<Rightarrow> builder \<Rightarrow> builder" where
  "remount r why d b = (let (n, b) = push (Unmount r why) [] b in snd (push (Mount d) [n] b))"

definition plan_recorded_member ::
  "desired_mount \<Rightarrow> mount_record \<Rightarrow> target_state \<Rightarrow> source_state \<Rightarrow> builder \<Rightarrow> builder" where
  "plan_recorded_member d r tgt src b =
     (case tgt of
        Mounted identity attrs \<Rightarrow>
          if matches identity (mr_identity r) then
            (case src of
               Resolved root \<Rightarrow>
                 if root = mroot (mr_identity r) then
                   (let why =
                      (if mr_attrs r \<noteq> dm_attrs d then Some AttributesChanged
                       else if (case attrs of Some a \<Rightarrow> \<not> enforce a (dm_attrs d) | None \<Rightarrow> False)
                       then Some AttributesDrifted
                       else None)
                    in case why of Some why \<Rightarrow> remount r why d b | None \<Rightarrow> b)
                 else remount r SourceChanged d b
             | SS_Unavailable e \<Rightarrow> snd (push (Unmount r (SourceGone e)) [] b))
          else push_finding (Conflict (dm_key d) (dm_target d) TargetReplaced) b
      | NotMounted \<Rightarrow>
          (case src of
             Resolved _ \<Rightarrow> snd (push (Mount d) [] b)
           | SS_Unavailable e \<Rightarrow>
               push_finding (F_SourceUnavailable (dm_key d) (dm_source d) e)
                 (snd (push (DropRecord r (DR_SourceUnavailable e)) [] b)))
      | TS_Unavailable e \<Rightarrow>
          push_finding (F_TargetUnavailable (dm_key d) (dm_target d) e) b)"

definition plan_member ::
  "departures \<Rightarrow> record_key \<times> desired_mount \<Rightarrow> builder \<Rightarrow> builder" where
  "plan_member dep e b =
     (case e of (key, d) \<Rightarrow>
        let i = b_input b; tgt = obs_target i (dm_target d); src = obs_source i key in
        (case state_get (pi_state i) key of
           Some r \<Rightarrow>
             if record_matches_desired r d then plan_recorded_member d r tgt src b
             else plan_unrecorded_member d dep tgt src b
         | None \<Rightarrow> plan_unrecorded_member d dep tgt src b))"

definition make_plan :: "plan_input \<Rightarrow> plan option" where
  "make_plan i =
     (let b = \<lparr>b_input = i, b_steps = [], b_findings = []\<rparr>;
          (desired, b) = resolve_collisions b;
          (dep, b) = plan_departing_records desired b;
          b = fold (plan_member dep) desired b
      in finish b)"

end
