(* ===== verification/Plan_Order.thy ===== *)
theory Plan_Order
  imports Plan
begin

text \<open>
  The last step of the planner, \<open>Builder::finish\<close>: for the builders the planner makes, it
  never panics, puts removals before mounts, keeps the order otherwise, and turns the
  dependency ids into the final positions of the same actions.
\<close>

lemma sort_key_two:
  assumes "\<forall>x\<in>set xs. f x = 0 \<or> f x = (1::nat)"
  shows "sort_key f xs = filter (\<lambda>x. f x = 0) xs @ filter (\<lambda>x. f x = 1) xs"
  using assms
proof (induction xs)
  case (Cons x xs)
  have first: "insort_key f y (zs @ ws) = y # zs @ ws"
    if "\<forall>z\<in>set (zs @ ws). f y \<le> f z" for y zs ws
    using that by (cases "zs @ ws") auto
  have skip: "insort_key f y (zs @ ws) = zs @ insort_key f y ws"
    if "\<forall>z\<in>set zs. f z < f y" for y zs ws
    using that by (induction zs) auto
  from Cons have "f x = 0 \<or> f x = 1" by simp
  with Cons show ?case
    using first[where y = x and zs = "filter (\<lambda>x. f x = 0) xs" and ws = "filter (\<lambda>x. f x = 1) xs"]
      skip[where y = x and zs = "filter (\<lambda>x. f x = 0) xs" and ws = "filter (\<lambda>x. f x = 1) xs"]
      first[where y = x and zs = "[]" and ws = "filter (\<lambda>x. f x = 1) xs"]
    by auto
qed simp

lemma index_fold_other:
  "i \<notin> set xs \<Longrightarrow> fold (\<lambda>(ix, i) v. v[i := ix]) (enumerate s xs) v ! i = v ! i"
  by (induction xs arbitrary: s v) auto

lemma index_fold_nth:
  assumes "distinct xs" "\<forall>i\<in>set xs. i < length v" "k < length xs"
  shows "fold (\<lambda>(ix, i) v. v[i := ix]) (enumerate s xs) v ! (xs ! k) = s + k"
  using assms
proof (induction xs arbitrary: s v k)
  case (Cons x xs)
  then show ?case
    by (cases k) (auto simp: index_fold_other)
qed simp

lemma index_fold_length [simp]:
  "length (fold (\<lambda>(ix, i) v. v[i := ix]) (enumerate s xs) v) = length v"
  by (induction xs arbitrary: s v) auto

lemma index_table_length [simp]: "length (index_table xs) = length xs"
  by (simp add: index_table_def)

lemma index_table_nth:
  "distinct xs \<Longrightarrow> set xs = {..<length xs} \<Longrightarrow> k < length xs \<Longrightarrow> index_table xs ! (xs ! k) = k"
  by (simp add: index_table_def index_fold_nth)

definition final_step :: "nat list \<Rightarrow> action \<times> nat list \<Rightarrow> step" where
  "final_step index_of ad =
     \<lparr>step_action = fst ad,
      depends_on = remdups_adj (sort (map (\<lambda>d. index_of ! d) (snd ad)))\<rparr>"

lemma take_slots_Some:
  assumes "distinct is" "\<forall>i\<in>set is. i < length slots \<and> slots ! i = Some (f i)"
    and "\<forall>i\<in>set is. \<forall>d\<in>set (snd (f i)). d < length index_of"
  shows "take_slots index_of is slots = Some (map (\<lambda>i. final_step index_of (f i)) is)"
  using assms
proof (induction "is" arbitrary: slots)
  case (Cons i "is")
  then have "take_slots index_of is (slots[i := None]) = Some (map (\<lambda>i. final_step index_of (f i)) is)"
    by (intro Cons.IH) (auto simp: nth_list_update)
  with Cons.prems show ?case
    by (auto simp: final_step_def list_all_iff split: option.splits prod.splits)
qed simp

text \<open>What the planner's builders satisfy: an action depends only on removals planned before
  it, and only mounts depend on anything.\<close>

definition steps_ok :: "(action \<times> nat list) list \<Rightarrow> bool" where
  "steps_ok ss =
     (\<forall>i<length ss. (phase (fst (ss ! i)) = 0 \<longrightarrow> snd (ss ! i) = [])
        \<and> (\<forall>d\<in>set (snd (ss ! i)). d < i \<and> phase (fst (ss ! d)) = 0))"

lemma steps_okD:
  assumes "steps_ok ss" "i < length ss"
  shows "phase (fst (ss ! i)) = 0 \<Longrightarrow> snd (ss ! i) = []"
    and "d \<in> set (snd (ss ! i)) \<Longrightarrow> d < i \<and> phase (fst (ss ! d)) = 0"
  using assms unfolding steps_ok_def by blast+

definition final_order :: "(action \<times> nat list) list \<Rightarrow> nat list" where
  "final_order ss = sort_key (\<lambda>i. phase (fst (ss ! i))) [0..<length ss]"

lemma phase_cases: "phase a = 0 \<or> phase a = 1"
  by (cases a) auto

lemma final_order_append:
  "final_order ss = filter (\<lambda>i. phase (fst (ss ! i)) = 0) [0..<length ss]
     @ filter (\<lambda>i. phase (fst (ss ! i)) = 1) [0..<length ss]"
  unfolding final_order_def using phase_cases by (intro sort_key_two) blast

lemma final_order_perm [simp]:
  "length (final_order ss) = length ss" "set (final_order ss) = {..<length ss}"
  "distinct (final_order ss)"
  by (auto simp: final_order_def)

lemma finish_Some:
  assumes "steps_ok (b_steps b)"
  shows "finish b = Some
    \<lparr>plan_steps = map (\<lambda>i. final_step (index_table (final_order (b_steps b))) (b_steps b ! i))
                    (final_order (b_steps b)),
     plan_findings = b_findings b\<rparr>"
proof -
  have "take_slots (index_table (final_order (b_steps b))) (final_order (b_steps b))
      (map Some (b_steps b)) = Some (map (\<lambda>i. final_step (index_table (final_order (b_steps b)))
        (b_steps b ! i)) (final_order (b_steps b)))"
    using assms by (intro take_slots_Some) (auto simp: steps_ok_def, force)
  then show ?thesis by (simp add: finish_def final_order_def Let_def)
qed

lemma filter_nth_upt:
  "map (\<lambda>i. ss ! i) (filter (\<lambda>i. P (ss ! i)) [0..<length ss]) = filter P ss"
proof -
  have "filter P ss = filter P (map (\<lambda>i. ss ! i) [0..<length ss])" by (simp add: map_nth)
  then show ?thesis by (simp add: filter_map o_def)
qed

lemma finish_actions:
  assumes "steps_ok (b_steps b)" "finish b = Some p"
  shows "map step_action (plan_steps p) =
      filter (\<lambda>a. phase a = 0) (map fst (b_steps b)) @ filter (\<lambda>a. phase a = 1) (map fst (b_steps b))"
    and "plan_findings p = b_findings b"
proof -
  let ?ss = "b_steps b"
  have p: "p = \<lparr>plan_steps = map (\<lambda>i. final_step (index_table (final_order ?ss)) (?ss ! i))
      (final_order ?ss), plan_findings = b_findings b\<rparr>"
    using assms finish_Some by simp
  show "plan_findings p = b_findings b" by (simp add: p)
  have "map step_action (plan_steps p) = map fst (map (\<lambda>i. ?ss ! i) (final_order ?ss))"
    by (simp add: p final_step_def)
  also have "\<dots> = map fst (filter (\<lambda>x. phase (fst x) = 0) ?ss @ filter (\<lambda>x. phase (fst x) = 1) ?ss)"
    using filter_nth_upt[of ?ss "\<lambda>x. phase (fst x) = 0"] filter_nth_upt[of ?ss "\<lambda>x. phase (fst x) = 1"]
    by (simp add: final_order_append)
  finally show "map step_action (plan_steps p) =
      filter (\<lambda>a. phase a = 0) (map fst ?ss) @ filter (\<lambda>a. phase a = 1) (map fst ?ss)"
    by (simp add: filter_map o_def)
qed

lemma set_remdups_adj_sort [simp]: "set (remdups_adj (sort xs)) = set xs"
  by simp

lemma sorted_strict_remdups_adj: "sorted xs \<Longrightarrow> sorted_wrt (<) (remdups_adj (xs :: nat list))"
  by (induction xs rule: remdups_adj.induct) (auto simp: order_less_le)

text \<open>Where each final step comes from, and where its dependencies point.\<close>

lemma finish_step:
  assumes ok: "steps_ok (b_steps b)" and fin: "finish b = Some p" and j: "j < length (plan_steps p)"
  obtains i where "i < length (b_steps b)" "step_action (plan_steps p ! j) = fst (b_steps b ! i)"
    "sorted_wrt (<) (depends_on (plan_steps p ! j))"
    "\<forall>d\<in>set (depends_on (plan_steps p ! j)). d < j \<and>
       (\<exists>d'\<in>set (snd (b_steps b ! i)). step_action (plan_steps p ! d) = fst (b_steps b ! d'))"
    "\<forall>d'\<in>set (snd (b_steps b ! i)). \<exists>d\<in>set (depends_on (plan_steps p ! j)).
       step_action (plan_steps p ! d) = fst (b_steps b ! d')"
proof -
  let ?ss = "b_steps b"
  let ?o = "final_order ?ss"
  let ?t = "index_table ?o"
  let ?A = "filter (\<lambda>i. phase (fst (?ss ! i)) = 0) [0..<length ?ss]"
  have p: "plan_steps p = map (\<lambda>i. final_step ?t (?ss ! i)) ?o"
    using ok fin finish_Some by auto
  have jn: "j < length ?ss" using j by (simp add: p)
  define i where "i = ?o ! j"
  have i: "i < length ?ss" unfolding i_def using jn nth_mem[of j ?o] by auto
  have deps: "set (depends_on (plan_steps p ! j)) = (\<lambda>d. ?t ! d) ` set (snd (?ss ! i))"
    using jn by (simp add: p final_step_def i_def)
  have index: "?t ! d < length ?A \<and> step_action (plan_steps p ! (?t ! d)) = fst (?ss ! d)"
    if d: "d < length ?ss" "phase (fst (?ss ! d)) = 0" for d
  proof -
    from d have "d \<in> set ?A" by simp
    then obtain k where k: "k < length ?A" "?A ! k = d" by (metis in_set_conv_nth)
    then have ok: "k < length ?o" "?o ! k = d"
      by (simp_all add: final_order_append nth_append del: final_order_perm)
    then have "?t ! d = k" using index_table_nth[of ?o k] by auto
    with k ok show ?thesis by (simp add: p final_step_def)
  qed
  have later: "length ?A \<le> j" if "snd (?ss ! i) \<noteq> []"
  proof (rule ccontr)
    assume "\<not> length ?A \<le> j"
    then have j': "j < length ?A" by simp
    then have "i = ?A ! j" unfolding i_def final_order_append by (simp add: nth_append)
    with j' have "i \<in> set ?A" by (metis nth_mem)
    then have "phase (fst (?ss ! i)) = 0" by simp
    with that show False using steps_okD(1)[OF ok i] by blast
  qed
  have removal: "d < length ?ss \<and> phase (fst (?ss ! d)) = 0" if "d \<in> set (snd (?ss ! i))" for d
    using steps_okD(2)[OF ok i that] i by simp
  show ?thesis
  proof (rule that[of i])
    show "step_action (plan_steps p ! j) = fst (?ss ! i)"
      using jn by (simp add: p final_step_def i_def)
    show "sorted_wrt (<) (depends_on (plan_steps p ! j))"
      using jn by (simp add: p final_step_def sorted_strict_remdups_adj)
    show "\<forall>d\<in>set (depends_on (plan_steps p ! j)). d < j \<and>
       (\<exists>d'\<in>set (snd (?ss ! i)). step_action (plan_steps p ! d) = fst (?ss ! d'))"
    proof
      fix d assume "d \<in> set (depends_on (plan_steps p ! j))"
      then obtain d' where d': "d' \<in> set (snd (?ss ! i))" "d = ?t ! d'" unfolding deps by blast
      then have "d < length ?A" "step_action (plan_steps p ! d) = fst (?ss ! d')"
        using index removal by blast+
      moreover have "length ?A \<le> j" using d' by (intro later) auto
      ultimately show "d < j \<and> (\<exists>d'\<in>set (snd (?ss ! i)).
          step_action (plan_steps p ! d) = fst (?ss ! d'))" using d'(1) by auto
    qed
    show "\<forall>d'\<in>set (snd (?ss ! i)). \<exists>d\<in>set (depends_on (plan_steps p ! j)).
       step_action (plan_steps p ! d) = fst (?ss ! d')"
      unfolding deps using index removal by blast
  qed (rule i)
qed

end
