(* ===== verification/Plan_Table.thy ===== *)
theory Plan_Table
  imports Plan_Order
begin

text \<open>
  The decision table of \<open>docs/DESIGN.md\<close> (``Reconciliation''), stated over the desired
  mounts, the records and the observations without builder, ids or loops, and the proof
  that the planner of the theory Plan implements it.
\<close>

section \<open>The table\<close>

text \<open>The members that compete for a target, and the one that gets it.\<close>

definition contenders :: "plan_input \<Rightarrow> location \<Rightarrow> desired_mount list" where
  "contenders i l =
     filter (\<lambda>d. \<not> is_frozen i (rk_group (dm_key d)) \<and> dm_target d = l) (pi_desired i)"

definition winner :: "plan_input \<Rightarrow> location \<Rightarrow> desired_mount option" where
  "winner i l =
     (case contenders i l of
        [d] \<Rightarrow> Some d
      | ds \<Rightarrow> find (keeps i (obs_target i l)) (sort_key dm_key ds))"

text \<open>A record departs when its member is not accepted at the recorded location.\<close>

definition departs :: "plan_input \<Rightarrow> (record_key, desired_mount) btree \<Rightarrow> mount_record \<Rightarrow> bool" where
  "departs i acc r =
     (\<not> is_frozen i (mr_group r)
      \<and> \<not> (case bt_get acc (mr_key r) of Some d \<Rightarrow> record_matches_desired r d | None \<Rightarrow> False))"

text \<open>Rows 10-12: what happens to a departing record.\<close>

definition departure ::
  "plan_input \<Rightarrow> (record_key, desired_mount) btree \<Rightarrow> mount_record \<Rightarrow> action option" where
  "departure i acc r =
     (case obs_target i (target_location r) of
        NotMounted \<Rightarrow> Some (DropRecord r MountGone)
      | Mounted identity _ \<Rightarrow>
          if matches identity (mr_identity r)
          then Some (Unmount r (departing_reason i acc (mr_key r)))
          else Some (DropRecord r ForeignMountAtTarget)
      | TS_Unavailable _ \<Rightarrow> None)"

definition departure_finding :: "plan_input \<Rightarrow> mount_record \<Rightarrow> finding list" where
  "departure_finding i r =
     (case obs_target i (target_location r) of
        TS_Unavailable e \<Rightarrow> [F_TargetUnavailable (mr_key r) (target_location r) e] | _ \<Rightarrow> [])"

definition frees ::
  "plan_input \<Rightarrow> (record_key, desired_mount) btree \<Rightarrow> location \<Rightarrow> mount_record \<Rightarrow> bool" where
  "frees i acc l r =
     (departs i acc r \<and> target_location r = l
      \<and> (case departure i acc r of Some (Unmount _ _) \<Rightarrow> True | _ \<Rightarrow> False))"

text \<open>What the table decides for an accepted member.\<close>

datatype verdict =
    Keep
  | Report finding
  | Create "action list"
  | Replace mount_record unmount_reason
  | Remove mount_record unmount_reason
  | Forget mount_record drop_reason finding

text \<open>Rows 1-3, with the removal of the member's old record first.\<close>

definition unrecorded_verdict ::
  "plan_input \<Rightarrow> (record_key, desired_mount) btree \<Rightarrow> desired_mount \<Rightarrow> verdict" where
  "unrecorded_verdict i acc d =
     (let create = (\<lambda>needs. (case obs_source i (dm_key d) of
            Resolved _ \<Rightarrow> Create needs
          | SS_Unavailable e \<Rightarrow> Report (F_SourceUnavailable (dm_key d) (dm_source d) e)));
        proceed = (\<lambda>old. (case obs_target i (dm_target d) of
            NotMounted \<Rightarrow> create old
          | Mounted _ _ \<Rightarrow>
              (case find (frees i acc (dm_target d)) (rev (records (pi_state i))) of
                 Some r \<Rightarrow> create (old @ [the (departure i acc r)])
               | None \<Rightarrow> Report (Conflict (dm_key d) (dm_target d) ForeignMount))
          | TS_Unavailable e \<Rightarrow> Report (F_TargetUnavailable (dm_key d) (dm_target d) e)))
      in (case state_get (pi_state i) (dm_key d) of
            None \<Rightarrow> proceed []
          | Some r \<Rightarrow>
              (case departure i acc r of
                 None \<Rightarrow> Report (RelocationBlocked (dm_key d) (target_location r))
               | Some a \<Rightarrow> proceed [a])))"

text \<open>Rows 4-9.\<close>

definition recorded_verdict :: "plan_input \<Rightarrow> desired_mount \<Rightarrow> mount_record \<Rightarrow> verdict" where
  "recorded_verdict i d r =
     (case (obs_target i (dm_target d), obs_source i (dm_key d)) of
        (Mounted identity attrs, src) \<Rightarrow>
          if \<not> matches identity (mr_identity r)
          then Report (Conflict (dm_key d) (dm_target d) TargetReplaced)
          else (case src of
                  SS_Unavailable e \<Rightarrow> Remove r (SourceGone e)
                | Resolved root \<Rightarrow>
                    if root \<noteq> mroot (mr_identity r) then Replace r SourceChanged
                    else if mr_attrs r \<noteq> dm_attrs d then Replace r AttributesChanged
                    else if (case attrs of Some a \<Rightarrow> \<not> enforce a (dm_attrs d) | None \<Rightarrow> False)
                    then Replace r AttributesDrifted
                    else Keep)
      | (NotMounted, Resolved _) \<Rightarrow> Create []
      | (NotMounted, SS_Unavailable e) \<Rightarrow>
          Forget r (DR_SourceUnavailable e) (F_SourceUnavailable (dm_key d) (dm_source d) e)
      | (TS_Unavailable e, _) \<Rightarrow> Report (F_TargetUnavailable (dm_key d) (dm_target d) e))"

definition verdict_of ::
  "plan_input \<Rightarrow> (record_key, desired_mount) btree \<Rightarrow> desired_mount \<Rightarrow> verdict" where
  "verdict_of i acc d =
     (case state_get (pi_state i) (dm_key d) of
        Some r \<Rightarrow> if record_matches_desired r d then recorded_verdict i d r
                  else unrecorded_verdict i acc d
      | None \<Rightarrow> unrecorded_verdict i acc d)"

text \<open>The actions of a verdict, each with the actions it needs.\<close>

fun verdict_steps :: "desired_mount \<Rightarrow> verdict \<Rightarrow> (action \<times> action list) list" where
  "verdict_steps d Keep = []"
| "verdict_steps d (Report _) = []"
| "verdict_steps d (Create needs) = [(Mount d, needs)]"
| "verdict_steps d (Replace r why) = [(Unmount r why, []), (Mount d, [Unmount r why])]"
| "verdict_steps d (Remove r why) = [(Unmount r why, [])]"
| "verdict_steps d (Forget r why _) = [(DropRecord r why, [])]"

fun verdict_finding :: "verdict \<Rightarrow> finding list" where
  "verdict_finding (Report f) = [f]"
| "verdict_finding (Forget _ _ f) = [f]"
| "verdict_finding _ = []"

definition accepted :: "plan_input \<Rightarrow> (record_key, desired_mount) btree" where
  "accepted i = fst (resolve_collisions \<lparr>b_input = i, b_steps = [], b_findings = []\<rparr>)"

definition collision_findings :: "plan_input \<Rightarrow> finding list" where
  "collision_findings i =
     b_findings (snd (resolve_collisions \<lparr>b_input = i, b_steps = [], b_findings = []\<rparr>))"

definition departing_records :: "plan_input \<Rightarrow> mount_record list" where
  "departing_records i = filter (departs i (accepted i)) (records (pi_state i))"

definition table_steps :: "plan_input \<Rightarrow> (action \<times> action list) list" where
  "table_steps i =
     map (\<lambda>a. (a, [])) (List.map_filter (departure i (accepted i)) (departing_records i))
     @ concat (map (\<lambda>d. verdict_steps d (verdict_of i (accepted i) d)) (bt_values (accepted i)))"

definition table_findings :: "plan_input \<Rightarrow> finding list" where
  "table_findings i =
     collision_findings i
     @ concat (map (departure_finding i) (departing_records i))
     @ concat (map (\<lambda>d. verdict_finding (verdict_of i (accepted i) d)) (bt_values (accepted i)))"

section \<open>Collisions\<close>

lemma bt_get_by_target:
  "bt_get (fold (add_by_target i) ds m) l =
     (case filter (\<lambda>d. \<not> is_frozen i (rk_group (dm_key d)) \<and> dm_target d = l) ds of
        [] \<Rightarrow> bt_get m l
      | cs \<Rightarrow> Some ((case bt_get m l of Some xs \<Rightarrow> xs | None \<Rightarrow> []) @ cs))"
proof (induction ds arbitrary: m)
  case (Cons d ds)
  show ?case
    using Cons[of "add_by_target i d m"]
    by (auto simp: add_by_target_def bt_get_insert split: list.splits option.splits)
qed simp

lemma bt_wf_by_target: "bt_wf m \<Longrightarrow> bt_wf (fold (add_by_target i) ds m)"
  by (induction ds arbitrary: m) (auto simp: add_by_target_def intro: wf_intros)

definition by_target :: "plan_input \<Rightarrow> (location, desired_mount list) btree" where
  "by_target i = fold (add_by_target i) (pi_desired i) []"

lemma by_target_iff: "(l, ds) \<in> set (by_target i) \<longleftrightarrow> ds = contenders i l \<and> ds \<noteq> []"
  using bt_get_iff[of "by_target i" l ds] bt_get_by_target[of i "pi_desired i" "[]" l]
    bt_wf_by_target[of "[]" i "pi_desired i"]
  by (auto simp: by_target_def contenders_def split: list.splits)

text \<open>One round of the loop inserts the winner, if there is one.\<close>

definition add_winner ::
  "plan_input \<Rightarrow> location \<Rightarrow> (record_key, desired_mount) btree
     \<Rightarrow> (record_key, desired_mount) btree" where
  "add_winner i l acc = (case winner i l of Some d \<Rightarrow> bt_insert (dm_key d) d acc | None \<Rightarrow> acc)"

lemma length_1_iff: "length xs = 1 \<longleftrightarrow> (\<exists>x. xs = [x])"
  by (cases xs) auto

lemma resolve_target_eq:
  assumes "ds = contenders i l" "ds \<noteq> []" "b_input b = i"
  shows "fst (resolve_target (l, ds) (acc, b)) = add_winner i l acc"
    and "b_input (snd (resolve_target (l, ds) (acc, b))) = i"
    and "b_steps (snd (resolve_target (l, ds) (acc, b))) = b_steps b"
  using assms
  by (auto simp: resolve_target_def add_winner_def winner_def push_finding_def Let_def length_1_iff
      split: list.splits option.splits)

lemma fold_resolve_target:
  assumes "\<forall>(l, ds)\<in>set es. ds = contenders i l \<and> ds \<noteq> []" "b_input b = i"
  shows "fst (fold resolve_target es (acc, b)) = fold (add_winner i) (map fst es) acc
    \<and> b_input (snd (fold resolve_target es (acc, b))) = i
    \<and> b_steps (snd (fold resolve_target es (acc, b))) = b_steps b"
  using assms
proof (induction es arbitrary: acc b)
  case (Cons e es)
  obtain l ds where e: "e = (l, ds)" by (cases e)
  obtain acc' b' where ab: "resolve_target (l, ds) (acc, b) = (acc', b')"
    by (cases "resolve_target (l, ds) (acc, b)")
  have "acc' = add_winner i l acc" "b_input b' = i" "b_steps b' = b_steps b"
    using resolve_target_eq[of ds i l b acc] Cons.prems ab by (auto simp: e)
  with Cons.IH[of b' acc'] Cons.prems show ?case unfolding e fold_simps ab by simp
qed simp

lemma winner_sound:
  "winner i l = Some d \<Longrightarrow> d \<in> set (pi_desired i) \<and> dm_target d = l
     \<and> \<not> is_frozen i (rk_group (dm_key d))"
proof -
  assume w: "winner i l = Some d"
  have "d \<in> set (contenders i l)"
  proof (cases "\<exists>x. contenders i l = [x]")
    case True
    with w show ?thesis by (auto simp: winner_def)
  next
    case False
    then have "winner i l = find (keeps i (obs_target i l)) (sort_key dm_key (contenders i l))"
      by (auto simp: winner_def split: list.splits)
    with w have "find (keeps i (obs_target i l)) (sort_key dm_key (contenders i l)) = Some d"
      by simp
    then have "d \<in> set (sort_key dm_key (contenders i l))"
      by (metis find_Some_iff nth_mem)
    then show ?thesis by simp
  qed
  then show ?thesis by (auto simp: contenders_def)
qed

lemma resolve_collisions_eq:
  assumes "b_input b = i"
  shows "fst (resolve_collisions b) = fold (add_winner i) (map fst (by_target i)) []
    \<and> b_input (snd (resolve_collisions b)) = i
    \<and> b_steps (snd (resolve_collisions b)) = b_steps b"
  using fold_resolve_target[of "by_target i" i b "[]"] assms by_target_iff[of _ _ i]
  by (auto simp: resolve_collisions_def by_target_def)

lemma accepted_eq: "accepted i = fold (add_winner i) (map fst (by_target i)) []"
  using resolve_collisions_eq by (simp add: accepted_def)

lemma fold_add_winner_wf: "bt_wf acc \<Longrightarrow> bt_wf (fold (add_winner i) ls acc)"
  by (induction ls arbitrary: acc) (auto simp: add_winner_def intro: wf_intros split: option.splits)

lemma fold_add_winner_get:
  "bt_get (fold (add_winner i) ls acc) k = Some d \<Longrightarrow>
     (\<exists>l\<in>set ls. winner i l = Some d \<and> dm_key d = k) \<or> bt_get acc k = Some d"
proof (induction ls arbitrary: acc)
  case (Cons l ls)
  from Cons.IH[of "add_winner i l acc"] Cons.prems show ?case
    by (auto simp: add_winner_def bt_get_insert split: option.splits if_splits)
qed simp

lemma accepted_wf [wf_intros]: "bt_wf (accepted i)"
  unfolding accepted_eq by (intro fold_add_winner_wf wf_intros)

lemma accepted_sound:
  assumes "bt_get (accepted i) k = Some d"
  shows "dm_key d = k" "d \<in> set (pi_desired i)" "\<not> is_frozen i (rk_group (dm_key d))"
    "winner i (dm_target d) = Some d"
proof -
  obtain l where "winner i l = Some d" "dm_key d = k"
    using fold_add_winner_get[of i _ "[]" k d] assms by (auto simp: accepted_eq)
  moreover from this have "dm_target d = l" "d \<in> set (pi_desired i)"
    "\<not> is_frozen i (rk_group (dm_key d))" using winner_sound by blast+
  ultimately show "dm_key d = k" "d \<in> set (pi_desired i)" "\<not> is_frozen i (rk_group (dm_key d))"
    "winner i (dm_target d) = Some d" by auto
qed

lemma in_accepted_iff: "(k, d) \<in> set (accepted i) \<longleftrightarrow> bt_get (accepted i) k = Some d"
  using bt_get_iff[OF accepted_wf] by auto

end
