(* ===== verification/Plan_Refine.thy ===== *)
theory Plan_Refine
  imports Plan_Table
begin

text \<open>
  The refinement proof: the loops of the planner, run on its builder, produce exactly the
  steps and findings of the decision table of the theory Plan\_Table.  \<open>trace_of\<close> is the
  abstraction: it replaces the dependency ids of a builder by the actions they stand for.
\<close>

definition trace_of :: "(action \<times> nat list) list \<Rightarrow> (action \<times> action list) list" where
  "trace_of ss = map (\<lambda>(a, deps). (a, map (\<lambda>n. fst (ss ! n)) deps)) ss"

lemma trace_of_Nil [simp]: "trace_of [] = []"
  by (simp add: trace_of_def)

lemma steps_ok_Nil [simp]: "steps_ok []"
  by (simp add: steps_ok_def)

lemma steps_ok_bound: "steps_ok ss \<Longrightarrow> (a, deps) \<in> set ss \<Longrightarrow> n \<in> set deps \<Longrightarrow> n < length ss"
  using steps_okD(2) by (metis in_set_conv_nth order.strict_trans snd_conv)

lemma trace_of_snoc:
  assumes "steps_ok ss" "\<forall>n\<in>set deps. n < length ss"
  shows "trace_of (ss @ [(a, deps)]) = trace_of ss @ [(a, map (\<lambda>n. fst (ss ! n)) deps)]"
proof -
  have "(\<lambda>(a, deps). (a, map (\<lambda>n. fst ((ss @ [(a', deps')]) ! n)) deps)) x
      = (\<lambda>(a, deps). (a, map (\<lambda>n. fst (ss ! n)) deps)) x" if "x \<in> set ss" for x a' deps'
    using steps_ok_bound[OF assms(1)] that by (cases x) (auto simp: nth_append)
  with assms(2) show ?thesis by (auto simp: trace_of_def nth_append cong: map_cong)
qed

lemma steps_ok_snoc:
  assumes "steps_ok ss" "phase a = 0 \<longrightarrow> deps = []"
    "\<forall>n\<in>set deps. n < length ss \<and> phase (fst (ss ! n)) = 0"
  shows "steps_ok (ss @ [(a, deps)])"
  unfolding steps_ok_def
proof (intro allI impI)
  fix j assume "j < length (ss @ [(a, deps)])"
  then consider "j < length ss" | "j = length ss" by fastforce
  then show "(phase (fst ((ss @ [(a, deps)]) ! j)) = 0 \<longrightarrow> snd ((ss @ [(a, deps)]) ! j) = [])
      \<and> (\<forall>d\<in>set (snd ((ss @ [(a, deps)]) ! j)). d < j \<and> phase (fst ((ss @ [(a, deps)]) ! d)) = 0)"
  proof cases
    case 1
    have "\<forall>d\<in>set (snd (ss ! j)). d < j \<and> phase (fst (ss ! d)) = 0"
      using steps_okD(2)[OF assms(1) 1] by blast
    moreover from this 1 have "\<forall>d\<in>set (snd (ss ! j)). d < length ss" by auto
    ultimately show ?thesis using 1 steps_okD(1)[OF assms(1) 1] by (simp add: nth_append)
  next
    case 2
    with assms(2,3) show ?thesis by (simp add: nth_append)
  qed
qed

lemma push_simps [simp]:
  "fst (push a deps b) = length (b_steps b)"
  "b_steps (snd (push a deps b)) = b_steps b @ [(a, deps)]"
  "b_input (snd (push a deps b)) = b_input b"
  "b_findings (snd (push a deps b)) = b_findings b"
  by (simp_all add: push_def)

lemma push_finding_simps [simp]:
  "b_steps (push_finding f b) = b_steps b"
  "b_input (push_finding f b) = b_input b"
  "b_findings (push_finding f b) = b_findings b @ [f]"
  by (simp_all add: push_finding_def)

section \<open>Phase A\<close>

text \<open>The round of the loop in terms of the table.\<close>

lemma plan_departing_record_skip:
  "\<not> departs (b_input b) acc r \<Longrightarrow> plan_departing_record acc r (dep, b) = (dep, b)"
  by (auto simp: plan_departing_record_def departs_def Let_def)

lemma plan_departing_record_None:
  assumes "departs (b_input b) acc r" "departure (b_input b) acc r = None"
  obtains f where "departure_finding (b_input b) r = [f]"
    "plan_departing_record acc r (dep, b) =
       (dep\<lparr>old_record_removal := bt_insert (mr_key r) None (old_record_removal dep)\<rparr>,
        push_finding f b)"
  using assms
  by (auto simp: plan_departing_record_def departs_def departure_def departure_finding_def Let_def
      split: target_state.splits if_splits)

lemma plan_departing_record_Some:
  assumes "departs (b_input b) acc r" "departure (b_input b) acc r = Some a"
  obtains freed where "departure_finding (b_input b) r = []"
    "plan_departing_record acc r (dep, b) =
       (dep\<lparr>old_record_removal := bt_insert (mr_key r) (Some (length (b_steps b))) (old_record_removal dep),
            freed_targets := freed\<rparr>,
        snd (push a [] b))"
    "\<not> frees (b_input b) acc (target_location r) r \<and> freed = freed_targets dep
     \<or> (\<exists>ident attrs. obs_target (b_input b) (target_location r) = Mounted ident attrs
          \<and> frees (b_input b) acc (target_location r) r
          \<and> freed = bt_insert (target_location r) (length (b_steps b), ident) (freed_targets dep))"
  using assms
  by (auto simp: plan_departing_record_def departs_def departure_def departure_finding_def frees_def
      push_def Let_def split: target_state.splits if_splits)

text \<open>The loop invariant after the records \<open>rs\<close>.\<close>

definition removal_inv where
  "removal_inv i acc rs dep ss =
     (\<forall>k. case bt_get (old_record_removal dep) k of
        None \<Rightarrow> \<not> (\<exists>r\<in>set rs. mr_key r = k \<and> departs i acc r)
      | Some None \<Rightarrow> \<exists>r\<in>set rs. mr_key r = k \<and> departs i acc r \<and> departure i acc r = None
      | Some (Some n) \<Rightarrow> \<exists>r\<in>set rs. mr_key r = k \<and> departs i acc r
          \<and> n < length ss \<and> departure i acc r = Some (fst (ss ! n)))"

definition freed_inv where
  "freed_inv i acc rs dep ss =
     (\<forall>l. case bt_get (freed_targets dep) l of
        None \<Rightarrow> find (frees i acc l) (rev rs) = None
      | Some (n, ident) \<Rightarrow>
          \<exists>r. find (frees i acc l) (rev rs) = Some r \<and> n < length ss
            \<and> departure i acc r = Some (fst (ss ! n))
            \<and> (\<exists>attrs. obs_target i l = Mounted ident attrs))"

lemma removal_inv_mono:
  "removal_inv i acc rs dep ss \<Longrightarrow> removal_inv i acc rs dep (ss @ ss')"
  unfolding removal_inv_def
  by (fastforce simp: nth_append split: option.splits)

lemma freed_inv_mono: "freed_inv i acc rs dep ss \<Longrightarrow> freed_inv i acc rs dep (ss @ ss')"
  unfolding freed_inv_def by (fastforce simp: nth_append split: option.splits)

lemma removal_inv_skip:
  "\<not> departs i acc r \<Longrightarrow> removal_inv i acc rs dep ss \<Longrightarrow> removal_inv i acc (rs @ [r]) dep ss"
  unfolding removal_inv_def by (fastforce split: option.splits)

lemma not_frees:
  "\<not> frees i acc (target_location r) r \<Longrightarrow> \<not> frees i acc l r"
  by (auto simp: frees_def)

lemma freed_inv_other:
  assumes "\<not> frees i acc (target_location r) r" "freed_inv i acc rs dep ss"
  shows "freed_inv i acc (rs @ [r]) dep ss"
proof -
  have "find (frees i acc l) (rev (rs @ [r])) = find (frees i acc l) (rev rs)" for l
    using not_frees[OF assms(1)] by simp
  then show ?thesis using assms(2) unfolding freed_inv_def by presburger
qed

lemma freed_inv_skip:
  "\<not> departs i acc r \<or> departure i acc r = None \<Longrightarrow> freed_inv i acc rs dep ss
     \<Longrightarrow> freed_inv i acc (rs @ [r]) dep ss"
  by (rule freed_inv_other) (auto simp: frees_def)

lemma removal_inv_None:
  assumes "departs i acc r" "departure i acc r = None" "removal_inv i acc rs dep ss"
  shows "removal_inv i acc (rs @ [r])
    (dep\<lparr>old_record_removal := bt_insert (mr_key r) None (old_record_removal dep)\<rparr>) ss"
  using assms unfolding removal_inv_def
  by (fastforce simp: bt_get_insert split: option.splits)

lemma removal_inv_Some:
  assumes "departs i acc r" "departure i acc r = Some a" "removal_inv i acc rs dep ss"
  shows "removal_inv i acc (rs @ [r])
    (dep\<lparr>old_record_removal := bt_insert (mr_key r) (Some (length ss)) (old_record_removal dep),
         freed_targets := fr\<rparr>) (ss @ [(a, [])])"
  using assms(1,2) removal_inv_mono[OF assms(3), of "[(a, [])]"] unfolding removal_inv_def
  by (fastforce simp: bt_get_insert split: option.splits)

lemma freed_inv_Some:
  assumes "frees i acc (target_location r) r" "departure i acc r = Some a" "freed_inv i acc rs dep ss"
    "obs_target i (target_location r) = Mounted ident attrs"
  shows "freed_inv i acc (rs @ [r])
    (dep\<lparr>old_record_removal := x,
         freed_targets := bt_insert (target_location r) (length ss, ident) (freed_targets dep)\<rparr>)
    (ss @ [(a, [])])"
  unfolding freed_inv_def
proof
  fix l
  have other: "\<not> frees i acc l r" if "l \<noteq> target_location r"
    using that by (simp add: frees_def)
  show "case bt_get (freed_targets (dep\<lparr>old_record_removal := x, freed_targets :=
        bt_insert (target_location r) (length ss, ident) (freed_targets dep)\<rparr>)) l of
        None \<Rightarrow> find (frees i acc l) (rev (rs @ [r])) = None
      | Some (n, ident) \<Rightarrow> \<exists>r'. find (frees i acc l) (rev (rs @ [r])) = Some r'
          \<and> n < length (ss @ [(a, [])]) \<and> departure i acc r' = Some (fst ((ss @ [(a, [])]) ! n))
          \<and> (\<exists>attrs. obs_target i l = Mounted ident attrs)"
  proof (cases "l = target_location r")
    case True
    with assms show ?thesis by (simp add: bt_get_insert)
  next
    case False
    have "find (frees i acc l) (rev (rs @ [r])) = find (frees i acc l) (rev rs)"
      using other[OF False] by simp
    moreover have "bt_get (freed_targets (dep\<lparr>old_record_removal := x, freed_targets :=
        bt_insert (target_location r) (length ss, ident) (freed_targets dep)\<rparr>)) l
        = bt_get (freed_targets dep) l"
      using False by (simp add: bt_get_insert)
    ultimately show ?thesis
      using freed_inv_mono[OF assms(3), of "[(a, [])]"] unfolding freed_inv_def by presburger
  qed
qed

definition phase_a_inv where
  "phase_a_inv i acc f0 rs dep b =
     (b_input b = i
      \<and> b_steps b = map (\<lambda>a. (a, [])) (List.map_filter (departure i acc) (filter (departs i acc) rs))
      \<and> b_findings b = f0 @ concat (map (departure_finding i) (filter (departs i acc) rs))
      \<and> removal_inv i acc rs dep (b_steps b) \<and> freed_inv i acc rs dep (b_steps b))"

lemma map_filter_snoc:
  "List.map_filter f (xs @ [x]) = List.map_filter f xs @ (case f x of Some y \<Rightarrow> [y] | None \<Rightarrow> [])"
  by (simp add: List.map_filter_def split: option.splits)

lemma phase_a_step:
  assumes "phase_a_inv i acc f0 rs dep b"
  shows "case plan_departing_record acc r (dep, b) of
    (dep', b') \<Rightarrow> phase_a_inv i acc f0 (rs @ [r]) dep' b'"
proof -
  have i [simp]: "b_input b = i" using assms by (simp add: phase_a_inv_def)
  show ?thesis
  proof (cases "departs i acc r")
    case False
    then show ?thesis
      using assms plan_departing_record_skip[of b acc r dep]
        removal_inv_skip[OF False, of rs dep "b_steps b"] freed_inv_skip[of i acc r rs dep "b_steps b"]
      unfolding phase_a_inv_def by auto
  next
    case d: True
    show ?thesis
    proof (cases "departure i acc r")
      case None
      from plan_departing_record_None[of b acc r dep] d None obtain f where f:
        "departure_finding i r = [f]" "plan_departing_record acc r (dep, b) =
          (dep\<lparr>old_record_removal := bt_insert (mr_key r) None (old_record_removal dep)\<rparr>,
           push_finding f b)" by auto
      have "freed_inv i acc (rs @ [r]) dep (b_steps b)"
        using assms None by (intro freed_inv_skip) (auto simp: phase_a_inv_def)
      then have "freed_inv i acc (rs @ [r]) (dep\<lparr>old_record_removal := y\<rparr>) (b_steps b)" for y
        by (simp add: freed_inv_def)
      with f assms d None removal_inv_None[of i acc r rs dep "b_steps b"] show ?thesis
        unfolding phase_a_inv_def by (auto simp: map_filter_snoc)
    next
      case (Some a)
      from plan_departing_record_Some[of b acc r a dep] d Some obtain fr where f:
        "departure_finding i r = []"
        "plan_departing_record acc r (dep, b) =
           (dep\<lparr>old_record_removal := bt_insert (mr_key r) (Some (length (b_steps b))) (old_record_removal dep),
              freed_targets := fr\<rparr>, snd (push a [] b))"
        and fr: "\<not> frees i acc (target_location r) r \<and> fr = freed_targets dep
          \<or> (\<exists>ident attrs. obs_target i (target_location r) = Mounted ident attrs
               \<and> frees i acc (target_location r) r
               \<and> fr = bt_insert (target_location r) (length (b_steps b), ident) (freed_targets dep))"
        by auto
      have inv: "removal_inv i acc rs dep (b_steps b)" "freed_inv i acc rs dep (b_steps b)"
        using assms by (auto simp: phase_a_inv_def)
      from fr have "freed_inv i acc (rs @ [r])
          (dep\<lparr>old_record_removal := y, freed_targets := fr\<rparr>) (b_steps b @ [(a, [])])" for y
      proof (elim disjE conjE exE)
        assume *: "\<not> frees i acc (target_location r) r" "fr = freed_targets dep"
        have "freed_inv i acc (rs @ [r]) dep (b_steps b @ [(a, [])])"
          using freed_inv_mono[OF freed_inv_other[OF *(1) inv(2)]] .
        then show ?thesis by (simp add: freed_inv_def *(2))
      qed (use freed_inv_Some[OF _ Some inv(2)] in blast)
      with f assms d Some removal_inv_Some[OF d Some inv(1)] show ?thesis
        unfolding phase_a_inv_def by (auto simp: map_filter_snoc)
    qed
  qed
qed

lemma phase_a:
  assumes "b_input b = i" "b_steps b = []"
  shows "case fold (plan_departing_record acc) rs (departures_default, b) of
    (dep', b') \<Rightarrow> phase_a_inv i acc (b_findings b) rs dep' b'"
proof (induction rs rule: rev_induct)
  case Nil
  with assms show ?case
    by (simp add: phase_a_inv_def departures_default_def removal_inv_def freed_inv_def
        List.map_filter_def)
next
  case (snoc r rs)
  obtain dep b' where "fold (plan_departing_record acc) rs (departures_default, b) = (dep, b')"
    by (cases "fold (plan_departing_record acc) rs (departures_default, b)")
  with snoc phase_a_step[of i acc "b_findings b" rs dep b' r] show ?case by simp
qed

end
