(* ===== verification/Plan_Members.thy ===== *)
theory Plan_Members
  imports Plan_Refine
begin

text \<open>
  Second half of the refinement: the loop over the accepted members, and the whole planner.
\<close>

lemma departure_phase: "departure i acc r = Some a \<Longrightarrow> phase a = 0"
  by (auto simp: departure_def split: target_state.splits if_splits)

section \<open>One member\<close>

text \<open>What a step of the loop has to do to the builder: append the steps and findings of the
  table.\<close>

definition extends ::
  "builder \<Rightarrow> (action \<times> action list) list \<Rightarrow> finding list \<Rightarrow> builder \<Rightarrow> bool" where
  "extends b steps fs b' =
     (steps_ok (b_steps b') \<and> b_input b' = b_input b
      \<and> trace_of (b_steps b') = trace_of (b_steps b) @ steps
      \<and> b_findings b' = b_findings b @ fs \<and> (\<exists>ss. b_steps b' = b_steps b @ ss))"

lemma extends_refl: "steps_ok (b_steps b) \<Longrightarrow> extends b [] [] b"
  by (simp add: extends_def)

lemma extends_trans:
  "extends b s1 f1 b' \<Longrightarrow> extends b' s2 f2 b'' \<Longrightarrow> extends b (s1 @ s2) (f1 @ f2) b''"
  by (auto simp: extends_def)

lemma extends_finding: "steps_ok (b_steps b) \<Longrightarrow> extends b [] [f] (push_finding f b)"
  by (simp add: extends_def)

lemma extends_push:
  assumes "steps_ok (b_steps b)" "phase a = 0 \<longrightarrow> deps = []"
    "\<forall>n\<in>set deps. n < length (b_steps b) \<and> phase (fst (b_steps b ! n)) = 0"
  shows "extends b [(a, map (\<lambda>n. fst (b_steps b ! n)) deps)] [] (snd (push a deps b))"
  using assms steps_ok_snoc[OF assms] trace_of_snoc[of "b_steps b" deps a]
  by (simp add: extends_def)

lemma extends_mount_if_resolved:
  assumes "steps_ok (b_steps b)"
    "\<forall>n\<in>set deps. n < length (b_steps b) \<and> phase (fst (b_steps b ! n)) = 0"
    "needs = map (\<lambda>n. fst (b_steps b ! n)) deps" "src = obs_source i (dm_key d)"
    "v = (case obs_source i (dm_key d) of Resolved _ \<Rightarrow> Create needs
      | SS_Unavailable e \<Rightarrow> Report (F_SourceUnavailable (dm_key d) (dm_source d) e))"
  shows "extends b (verdict_steps d v) (verdict_finding v) (mount_if_resolved d src deps b)"
  using assms extends_push[of b "Mount d" deps]
  by (auto simp: mount_if_resolved_def extends_finding split: source_state.splits)

lemma extends_remount:
  assumes ok: "steps_ok (b_steps b)"
  shows "extends b [(Unmount r why, []), (Mount d, [Unmount r why])] [] (remount r why d b)"
proof -
  let ?b = "snd (push (Unmount r why) [] b)"
  have 1: "extends b [(Unmount r why, [])] [] ?b"
    using extends_push[OF ok, of "Unmount r why" "[]"] by simp
  then have "extends ?b [(Mount d, [Unmount r why])] [] (snd (push (Mount d) [length (b_steps b)] ?b))"
    using extends_push[of ?b "Mount d" "[length (b_steps b)]"] by (simp add: extends_def)
  with 1 have "extends b ([(Unmount r why, [])] @ [(Mount d, [Unmount r why])]) ([] @ [])
      (snd (push (Mount d) [length (b_steps b)] ?b))"
    by (rule extends_trans)
  then show ?thesis by (simp add: remount_def push_def)
qed

lemma extends_forget:
  assumes ok: "steps_ok (b_steps b)"
  shows "extends b [(DropRecord r why, [])] [f] (push_finding f (snd (push (DropRecord r why) [] b)))"
proof -
  have "extends b [(DropRecord r why, [])] [] (snd (push (DropRecord r why) [] b))"
    using extends_push[OF ok, of "DropRecord r why" "[]"] by simp
  from extends_trans[OF this extends_finding[of _ f]] this show ?thesis
    by (simp add: extends_def)
qed

lemma extends_recorded:
  assumes "steps_ok (b_steps b)" "v = recorded_verdict i d r"
  shows "extends b (verdict_steps d v) (verdict_finding v)
    (plan_recorded_member d r (obs_target i (dm_target d)) (obs_source i (dm_key d)) b)"
  using assms extends_push[OF assms(1), of "Mount d" "[]"]
    extends_push[OF assms(1), of "Unmount r w" "[]" for w]
  by (auto simp: plan_recorded_member_def recorded_verdict_def extends_finding extends_refl
      extends_remount extends_forget Let_def split: target_state.splits source_state.splits)

text \<open>What the unrecorded case reads from the departures.\<close>

lemma old_removal:
  assumes wf: "state_wf s" and inv: "removal_inv i acc (records s) dep ss"
  shows "state_get s k = None \<Longrightarrow> bt_get (old_record_removal dep) k = None"
    and "state_get s k = Some r \<Longrightarrow> departs i acc r \<Longrightarrow>
      (case departure i acc r of
         None \<Rightarrow> bt_get (old_record_removal dep) k = Some None
       | Some a \<Rightarrow> \<exists>n<length ss. bt_get (old_record_removal dep) k = Some (Some n) \<and> a = fst (ss ! n))"
proof -
  have rec: "r' \<in> set (records s) \<and> mr_key r' = k \<longleftrightarrow> state_get s k = Some r'" for r'
    using state_get_Some_iff[OF wf] by simp
  note at_k = inv[unfolded removal_inv_def, rule_format, of k]
  show "bt_get (old_record_removal dep) k = None" if "state_get s k = None"
    using at_k that rec by (auto split: option.splits)
  show "case departure i acc r of
         None \<Rightarrow> bt_get (old_record_removal dep) k = Some None
       | Some a \<Rightarrow> \<exists>n<length ss. bt_get (old_record_removal dep) k = Some (Some n) \<and> a = fst (ss ! n)"
    if "state_get s k = Some r" "departs i acc r"
  proof (cases "bt_get (old_record_removal dep) k")
    case None
    with at_k that rec show ?thesis by auto
  next
    case (Some x)
    then obtain r' where r': "r' \<in> set (records s)" "mr_key r' = k" and
      x: "case x of None \<Rightarrow> departure i acc r' = None
        | Some n \<Rightarrow> n < length ss \<and> departure i acc r' = Some (fst (ss ! n))"
      using at_k by (auto split: option.splits)
    have "r' = r" using rec[of r'] r' that(1) by simp
    with x Some show ?thesis by (auto split: option.splits)
  qed
qed

lemma freed_target:
  assumes "freed_inv i acc rs dep ss" "obs_target i l = Mounted ident attrs"
  shows "case bt_get (freed_targets dep) l of
      None \<Rightarrow> find (frees i acc l) (rev rs) = None
    | Some (n, freed) \<Rightarrow> freed = ident \<and> n < length ss
        \<and> (\<exists>r. find (frees i acc l) (rev rs) = Some r \<and> departure i acc r = Some (fst (ss ! n)))"
  using assms(1)[unfolded freed_inv_def, rule_format, of l] assms(2)
  by (auto split: option.splits)

lemma departure_step_phase:
  "departure i acc r = Some (fst (ss ! n)) \<Longrightarrow> phase (fst (ss ! n)) = 0"
  using departure_phase by blast

text \<open>Once the member's old record is out of the way.\<close>

definition proceed where
  "proceed i acc d needs =
     (case obs_target i (dm_target d) of
        NotMounted \<Rightarrow>
          (case obs_source i (dm_key d) of Resolved _ \<Rightarrow> Create needs
           | SS_Unavailable e \<Rightarrow> Report (F_SourceUnavailable (dm_key d) (dm_source d) e))
      | Mounted _ _ \<Rightarrow>
          (case find (frees i acc (dm_target d)) (rev (records (pi_state i))) of
             Some r \<Rightarrow>
               (case obs_source i (dm_key d) of
                  Resolved _ \<Rightarrow> Create (needs @ [the (departure i acc r)])
                | SS_Unavailable e \<Rightarrow> Report (F_SourceUnavailable (dm_key d) (dm_source d) e))
           | None \<Rightarrow> Report (Conflict (dm_key d) (dm_target d) ForeignMount))
      | TS_Unavailable e \<Rightarrow> Report (F_TargetUnavailable (dm_key d) (dm_target d) e))"

lemma unrecorded_verdict_eq:
  "unrecorded_verdict i acc d =
     (case state_get (pi_state i) (dm_key d) of
        None \<Rightarrow> proceed i acc d []
      | Some r \<Rightarrow>
          (case departure i acc r of
             None \<Rightarrow> Report (RelocationBlocked (dm_key d) (target_location r))
           | Some a \<Rightarrow> proceed i acc d [a]))"
  unfolding unrecorded_verdict_def proceed_def Let_def by simp

lemma extends_proceed:
  assumes ok: "steps_ok (b_steps b)"
    and deps: "\<forall>n\<in>set deps. n < length (b_steps b) \<and> phase (fst (b_steps b ! n)) = 0"
    and needs: "needs = map (\<lambda>n. fst (b_steps b ! n)) deps"
    and inv: "freed_inv i acc (records (pi_state i)) dep (b_steps b)"
    and v: "v = proceed i acc d needs"
  shows "extends b (verdict_steps d v) (verdict_finding v)
    (case obs_target i (dm_target d) of
       NotMounted \<Rightarrow> mount_if_resolved d (obs_source i (dm_key d)) deps b
     | Mounted identity _ \<Rightarrow>
         (case bt_get (freed_targets dep) (dm_target d) of
            Some (n, freed) \<Rightarrow>
              if freed = identity
              then mount_if_resolved d (obs_source i (dm_key d)) (deps @ [n]) b
              else push_finding (Conflict (dm_key d) (dm_target d) ForeignMount) b
          | None \<Rightarrow> push_finding (Conflict (dm_key d) (dm_target d) ForeignMount) b)
     | TS_Unavailable e \<Rightarrow>
         push_finding (F_TargetUnavailable (dm_key d) (dm_target d) e) b)"
proof (cases "obs_target i (dm_target d)")
  case NotMounted
  with extends_mount_if_resolved[OF ok deps needs refl v[unfolded proceed_def NotMounted, simplified]]
  show ?thesis by simp
next
  case (Mounted ident attrs)
  note freed = freed_target[OF inv Mounted]
  show ?thesis
  proof (cases "bt_get (freed_targets dep) (dm_target d)")
    case None
    with freed Mounted show ?thesis by (simp add: v proceed_def extends_finding[OF ok])
  next
    case (Some nf)
    then obtain n r where n: "nf = (n, ident)" "n < length (b_steps b)"
      "find (frees i acc (dm_target d)) (rev (records (pi_state i))) = Some r"
      "departure i acc r = Some (fst (b_steps b ! n))"
      using freed by (cases nf) auto
    have V: "v = (case obs_source i (dm_key d) of Resolved _ \<Rightarrow> Create (needs @ [fst (b_steps b ! n)])
      | SS_Unavailable e \<Rightarrow> Report (F_SourceUnavailable (dm_key d) (dm_source d) e))"
      using Mounted n by (simp add: v proceed_def split: source_state.splits)
    have D: "\<forall>m\<in>set (deps @ [n]). m < length (b_steps b) \<and> phase (fst (b_steps b ! m)) = 0"
      using deps n departure_step_phase[OF n(4)] by auto
    have N: "needs @ [fst (b_steps b ! n)] = map (\<lambda>n. fst (b_steps b ! n)) (deps @ [n])"
      by (simp add: needs)
    from extends_mount_if_resolved[OF ok D N refl V] Mounted Some n(1) show ?thesis by simp
  qed
next
  case (TS_Unavailable e)
  then show ?thesis by (simp add: v proceed_def extends_finding[OF ok])
qed

lemma extends_unrecorded:
  assumes ok: "steps_ok (b_steps b)" and i: "b_input b = i" and wf: "state_wf (pi_state i)"
    and rinv: "removal_inv i acc (records (pi_state i)) dep (b_steps b)"
    and finv: "freed_inv i acc (records (pi_state i)) dep (b_steps b)"
    and old: "\<forall>r. state_get (pi_state i) (dm_key d) = Some r \<longrightarrow> departs i acc r"
    and v: "v = unrecorded_verdict i acc d"
  shows "extends b (verdict_steps d v) (verdict_finding v)
    (plan_unrecorded_member d dep (obs_target i (dm_target d)) (obs_source i (dm_key d)) b)"
proof (cases "state_get (pi_state i) (dm_key d)")
  case None
  with old_removal(1)[OF wf rinv None] extends_proceed[OF ok _ _ finv, of "[]" "[]" v d]
  show ?thesis by (simp add: plan_unrecorded_member_def v unrecorded_verdict_eq Let_def)
next
  case (Some r)
  then have "departs i acc r" using old by simp
  note rem = old_removal(2)[OF wf rinv Some this]
  show ?thesis
  proof (cases "departure i acc r")
    case None
    with rem Some show ?thesis
      by (simp add: plan_unrecorded_member_def v unrecorded_verdict_eq i extends_finding[OF ok])
  next
    case (Some a)
    with rem obtain n where n: "n < length (b_steps b)"
      "bt_get (old_record_removal dep) (dm_key d) = Some (Some n)" "a = fst (b_steps b ! n)"
      by auto
    have "phase (fst (b_steps b ! n)) = 0" using departure_phase[OF Some] n by simp
    with n Some \<open>state_get (pi_state i) (dm_key d) = Some r\<close>
      extends_proceed[OF ok _ _ finv, of "[n]" "[a]" v d]
    show ?thesis by (simp add: plan_unrecorded_member_def v unrecorded_verdict_eq Let_def)
  qed
qed

section \<open>All members\<close>

lemma inv_extends:
  assumes "extends b steps fs b'"
  shows "removal_inv i acc rs dep (b_steps b) \<Longrightarrow> removal_inv i acc rs dep (b_steps b')"
    and "freed_inv i acc rs dep (b_steps b) \<Longrightarrow> freed_inv i acc rs dep (b_steps b')"
  using assms removal_inv_mono freed_inv_mono by (auto simp: extends_def)

lemma departs_unmatched:
  assumes "bt_get acc k = Some d" "\<not> is_frozen i (rk_group k)" "mr_key r = k"
    "\<not> record_matches_desired r d"
  shows "departs i acc r"
  using assms by (auto simp: departs_def mr_key_def)

lemma extends_member:
  assumes "steps_ok (b_steps b)" "b_input b = i" "state_wf (pi_state i)"
    "removal_inv i acc (records (pi_state i)) dep (b_steps b)"
    "freed_inv i acc (records (pi_state i)) dep (b_steps b)"
    and acc: "bt_get acc (dm_key d) = Some d" "\<not> is_frozen i (rk_group (dm_key d))"
    and k: "k = dm_key d"
  shows "extends b (verdict_steps d (verdict_of i acc d)) (verdict_finding (verdict_of i acc d))
    (plan_member dep (k, d) b)"
proof (cases "\<exists>r. state_get (pi_state i) (dm_key d) = Some r \<and> record_matches_desired r d")
  case True
  then obtain r where "state_get (pi_state i) (dm_key d) = Some r" "record_matches_desired r d"
    by blast
  with extends_recorded[OF assms(1) refl, of d i r] assms(2) k show ?thesis
    by (simp add: plan_member_def verdict_of_def)
next
  case False
  then have "verdict_of i acc d = unrecorded_verdict i acc d"
    "plan_member dep (k, d) b =
      plan_unrecorded_member d dep (obs_target i (dm_target d)) (obs_source i (dm_key d)) b"
    using assms(2) k by (auto simp: plan_member_def verdict_of_def Let_def split: option.splits)
  moreover have "\<forall>r. state_get (pi_state i) (dm_key d) = Some r \<longrightarrow> departs i acc r"
    using False departs_unmatched[OF acc] state_get_key[OF assms(3)] by blast
  ultimately show ?thesis using extends_unrecorded[OF assms(1-5) _ refl, of d] by simp
qed

lemma extends_members:
  assumes "steps_ok (b_steps b)" "b_input b = i" "state_wf (pi_state i)"
    "removal_inv i acc (records (pi_state i)) dep (b_steps b)"
    "freed_inv i acc (records (pi_state i)) dep (b_steps b)"
    and "\<forall>(k, d)\<in>set es. k = dm_key d \<and> bt_get acc k = Some d \<and> \<not> is_frozen i (rk_group k)"
  shows "extends b (concat (map (\<lambda>d. verdict_steps d (verdict_of i acc d)) (map snd es)))
    (concat (map (\<lambda>d. verdict_finding (verdict_of i acc d)) (map snd es)))
    (fold (plan_member dep) es b)"
  using assms
proof (induction es arbitrary: b)
  case Nil
  then show ?case by (simp add: extends_refl)
next
  case (Cons e es)
  obtain k d where e: "e = (k, d)" by (cases e)
  from Cons.prems have d: "k = dm_key d" "bt_get acc (dm_key d) = Some d"
    "\<not> is_frozen i (rk_group (dm_key d))" by (auto simp: e)
  note 1 = extends_member[OF Cons.prems(1-5) d(2,3,1)]
  then have "extends (plan_member dep e b)
      (concat (map (\<lambda>d. verdict_steps d (verdict_of i acc d)) (map snd es)))
      (concat (map (\<lambda>d. verdict_finding (verdict_of i acc d)) (map snd es)))
      (fold (plan_member dep) es (plan_member dep e b))"
    using Cons.prems inv_extends[OF 1] by (intro Cons.IH) (auto simp: e extends_def)
  from extends_trans[OF 1 this[unfolded e]] show ?case by (simp add: e)
qed

section \<open>The planner\<close>

text \<open>The builder \<open>make_plan\<close> hands to \<open>finish\<close>.\<close>

definition final_builder :: "plan_input \<Rightarrow> builder" where
  "final_builder i =
     (let (desired, b) = resolve_collisions \<lparr>b_input = i, b_steps = [], b_findings = []\<rparr>;
          (dep, b) = plan_departing_records desired b
      in fold (plan_member dep) desired b)"

lemma make_plan_finish: "make_plan i = finish (final_builder i)"
  by (simp add: make_plan_def final_builder_def Let_def split: prod.splits)

lemma steps_ok_no_deps: "steps_ok (map (\<lambda>a. (a, [])) as)"
  by (simp add: steps_ok_def)

lemma final_builder:
  assumes wf: "state_wf (pi_state i)"
  shows "steps_ok (b_steps (final_builder i))"
    and "trace_of (b_steps (final_builder i)) = table_steps i"
    and "b_findings (final_builder i) = table_findings i"
proof -
  let ?b0 = "\<lparr>b_input = i, b_steps = [], b_findings = []\<rparr>"
  obtain acc b1 where rc: "resolve_collisions ?b0 = (acc, b1)"
    by (cases "resolve_collisions ?b0")
  have acc: "acc = accepted i" and b1: "b_input b1 = i" "b_steps b1 = []"
    "b_findings b1 = collision_findings i"
    using resolve_collisions_eq[of ?b0 i] rc
    by (simp_all add: accepted_def collision_findings_def)
  obtain dep b2 where pd: "plan_departing_records acc b1 = (dep, b2)"
    by (cases "plan_departing_records acc b1")
  have inv: "phase_a_inv i acc (collision_findings i) (records (pi_state i)) dep b2"
    using phase_a[OF b1(1,2), of acc "records (pi_state i)"] pd b1
    by (simp add: plan_departing_records_def)
  then have ok: "steps_ok (b_steps b2)" by (simp add: phase_a_inv_def steps_ok_no_deps)
  have es: "\<forall>(k, d)\<in>set acc. k = dm_key d \<and> bt_get acc k = Some d \<and> \<not> is_frozen i (rk_group k)"
    using accepted_sound[of i] by (auto simp: acc in_accepted_iff)
  have ext: "extends b2 (concat (map (\<lambda>d. verdict_steps d (verdict_of i acc d)) (map snd acc)))
      (concat (map (\<lambda>d. verdict_finding (verdict_of i acc d)) (map snd acc)))
      (fold (plan_member dep) acc b2)"
    using inv by (intro extends_members ok wf es) (auto simp: phase_a_inv_def)
  have fb: "final_builder i = fold (plan_member dep) acc b2"
    by (simp add: final_builder_def rc pd)
  show "steps_ok (b_steps (final_builder i))" using ext by (simp add: extends_def fb)
  show "b_findings (final_builder i) = table_findings i"
    using ext inv by (simp add: extends_def fb table_findings_def phase_a_inv_def acc
        departing_records_def bt_values_def)
  show "trace_of (b_steps (final_builder i)) = table_steps i"
    using ext inv by (simp add: extends_def fb table_steps_def phase_a_inv_def acc
        departing_records_def bt_values_def trace_of_def o_def)
qed

lemma map_fst_trace_of: "map fst (trace_of ss) = map fst ss"
  by (simp add: trace_of_def o_def split_def)

lemma make_plan_Some: "state_wf (pi_state i) \<Longrightarrow> \<exists>p. make_plan i = Some p"
  unfolding make_plan_finish using finish_Some[OF final_builder(1)] by blast

text \<open>Each step of the plan is a row of the table, with the needs of the row.\<close>

lemma plan_step:
  assumes wf: "state_wf (pi_state i)" and p: "make_plan i = Some p"
    and j: "j < length (plan_steps p)"
  shows "\<exists>needs. (step_action (plan_steps p ! j), needs) \<in> set (table_steps i)
    \<and> (\<lambda>d. step_action (plan_steps p ! d)) ` set (depends_on (plan_steps p ! j)) = set needs
    \<and> sorted_wrt (<) (depends_on (plan_steps p ! j))
    \<and> (\<forall>d\<in>set (depends_on (plan_steps p ! j)). d < j)"
proof -
  let ?ss = "b_steps (final_builder i)"
  note ok = final_builder(1)[OF wf]
  from finish_step[OF ok p[unfolded make_plan_finish] j] obtain k where k: "k < length ?ss"
    "step_action (plan_steps p ! j) = fst (?ss ! k)" "sorted_wrt (<) (depends_on (plan_steps p ! j))"
    and to: "\<forall>d\<in>set (depends_on (plan_steps p ! j)). d < j \<and>
       (\<exists>d'\<in>set (snd (?ss ! k)). step_action (plan_steps p ! d) = fst (?ss ! d'))"
    and from_k: "\<forall>d'\<in>set (snd (?ss ! k)). \<exists>d\<in>set (depends_on (plan_steps p ! j)).
       step_action (plan_steps p ! d) = fst (?ss ! d')"
    by blast
  let ?needs = "map (\<lambda>n. fst (?ss ! n)) (snd (?ss ! k))"
  have "trace_of ?ss ! k = (fst (?ss ! k), ?needs)"
    using k(1) by (simp add: trace_of_def split: prod.splits)
  then have "(fst (?ss ! k), ?needs) \<in> set (table_steps i)"
    using k(1) nth_mem[of k "trace_of ?ss"] unfolding final_builder(2)[OF wf, symmetric]
    by (metis length_map trace_of_def)
  moreover have "(\<lambda>d. step_action (plan_steps p ! d)) ` set (depends_on (plan_steps p ! j)) = set ?needs"
  proof (intro equalityI subsetI)
    fix a assume "a \<in> (\<lambda>d. step_action (plan_steps p ! d)) ` set (depends_on (plan_steps p ! j))"
    then obtain d where d: "d \<in> set (depends_on (plan_steps p ! j))" "a = step_action (plan_steps p ! d)"
      by blast
    with to obtain d' where "d' \<in> set (snd (?ss ! k))" "a = fst (?ss ! d')" by blast
    then show "a \<in> set ?needs" unfolding set_map by (rule rev_image_eqI)
  next
    fix a assume "a \<in> set ?needs"
    then obtain d' where "d' \<in> set (snd (?ss ! k))" "a = fst (?ss ! d')" unfolding set_map by blast
    with from_k obtain d where "d \<in> set (depends_on (plan_steps p ! j))"
      "a = step_action (plan_steps p ! d)" by metis
    then show "a \<in> (\<lambda>d. step_action (plan_steps p ! d)) ` set (depends_on (plan_steps p ! j))"
      by (rule rev_image_eqI)
  qed
  ultimately show ?thesis using k to by metis
qed

lemma plan_actions:
  assumes wf: "state_wf (pi_state i)" and p: "make_plan i = Some p"
  shows "map step_action (plan_steps p) =
      filter (\<lambda>a. phase a = 0) (map fst (table_steps i)) @ filter (\<lambda>a. phase a = 1) (map fst (table_steps i))"
    and "plan_findings p = table_findings i"
  using finish_actions[OF final_builder(1)[OF wf] p[unfolded make_plan_finish]]
    final_builder[OF wf] map_fst_trace_of[of "b_steps (final_builder i)"] by simp_all

end
