(* ===== verification/Plan_Props.thy ===== *)
theory Plan_Props
  imports Plan_Members
begin

text \<open>
  What the planner guarantees, read off the decision table: properties of every plan, for
  every desired list, state and set of observations.
\<close>

section \<open>The rows of the table\<close>

lemma table_cases:
  assumes "(a, needs) \<in> set (table_steps i)"
  obtains (departing) r where "r \<in> set (records (pi_state i))" "departs i (accepted i) r"
      "departure i (accepted i) r = Some a" "needs = []"
  | (member) d where "bt_get (accepted i) (dm_key d) = Some d"
      "(a, needs) \<in> set (verdict_steps d (verdict_of i (accepted i) d))"
proof -
  consider "a \<in> set (List.map_filter (departure i (accepted i)) (departing_records i)) \<and> needs = []"
    | d where "d \<in> set (bt_values (accepted i))"
      "(a, needs) \<in> set (verdict_steps d (verdict_of i (accepted i) d))"
    using assms by (auto simp: table_steps_def)
  then show ?thesis
  proof cases
    case 1
    then show ?thesis
      using departing by (auto simp: List.map_filter_def departing_records_def)
  next
    case (2 d)
    then obtain k where "bt_get (accepted i) k = Some d"
      by (auto simp: bt_values_def in_accepted_iff)
    with 2 accepted_sound(1) show ?thesis by (intro member) auto
  qed
qed

lemma recorded_verdict_removal:
  "recorded_verdict i d r = Replace r' why \<or> recorded_verdict i d r = Remove r' why \<Longrightarrow>
     r' = r \<and> (\<exists>ident attrs. obs_target i (dm_target d) = Mounted ident attrs
       \<and> matches ident (mr_identity r))"
  by (auto simp: recorded_verdict_def split: target_state.splits source_state.splits if_splits)

lemma recorded_verdict_forget:
  "recorded_verdict i d r = Forget r' why f \<Longrightarrow>
     r' = r \<and> obs_target i (dm_target d) = NotMounted
     \<and> (\<exists>e. obs_source i (dm_key d) = SS_Unavailable e \<and> why = DR_SourceUnavailable e)"
  by (auto simp: recorded_verdict_def split: target_state.splits source_state.splits if_splits)

lemma recorded_verdict_mount:
  "recorded_verdict i d r = Replace r' why \<Longrightarrow> \<exists>root. obs_source i (dm_key d) = Resolved root"
  "recorded_verdict i d r = Create needs \<Longrightarrow> obs_target i (dm_target d) = NotMounted \<and> needs = []
     \<and> (\<exists>root. obs_source i (dm_key d) = Resolved root)"
  by (auto simp: recorded_verdict_def split: target_state.splits source_state.splits if_splits)

lemma proceed_cases:
  "(\<exists>f. proceed i acc d needs = Report f) \<or> (\<exists>needs'. proceed i acc d needs = Create needs')"
  by (auto simp: proceed_def split: target_state.splits source_state.splits option.splits)

lemma unrecorded_verdict_cases:
  "(\<exists>f. unrecorded_verdict i acc d = Report f) \<or> (\<exists>needs. unrecorded_verdict i acc d = Create needs)"
proof (cases "state_get (pi_state i) (dm_key d)")
  case None
  then show ?thesis using proceed_cases[of i acc d "[]"] by (simp add: unrecorded_verdict_eq)
next
  case (Some r)
  then show ?thesis
    by (cases "departure i acc r") (use proceed_cases[of i acc d] in \<open>simp_all add: unrecorded_verdict_eq\<close>)
qed

lemma verdict_removal:
  assumes "(a, needs) \<in> set (verdict_steps d (verdict_of i acc d))" "phase a = 0"
  obtains r where "state_get (pi_state i) (dm_key d) = Some r" "record_matches_desired r d"
    "recorded_verdict i d r = verdict_of i acc d" "needs = []"
    "(\<exists>why. a = Unmount r why \<and> (\<exists>ident attrs. obs_target i (dm_target d) = Mounted ident attrs
        \<and> matches ident (mr_identity r)))
     \<or> (\<exists>e. a = DropRecord r (DR_SourceUnavailable e) \<and> obs_target i (dm_target d) = NotMounted
        \<and> obs_source i (dm_key d) = SS_Unavailable e)"
proof -
  have "verdict_of i acc d \<noteq> unrecorded_verdict i acc d"
    using assms unrecorded_verdict_cases[of i acc d] by auto
  then obtain r where r: "state_get (pi_state i) (dm_key d) = Some r" "record_matches_desired r d"
    "verdict_of i acc d = recorded_verdict i d r"
    by (auto simp: verdict_of_def split: option.splits if_splits)
  show ?thesis
  proof (rule that[OF r(1,2)])
    show "recorded_verdict i d r = verdict_of i acc d" using r by simp
    show "needs = []" using assms by (cases "verdict_of i acc d") auto
    show "(\<exists>why. a = Unmount r why \<and> (\<exists>ident attrs. obs_target i (dm_target d) = Mounted ident attrs
        \<and> matches ident (mr_identity r)))
     \<or> (\<exists>e. a = DropRecord r (DR_SourceUnavailable e) \<and> obs_target i (dm_target d) = NotMounted
        \<and> obs_source i (dm_key d) = SS_Unavailable e)"
      using assms r(3) recorded_verdict_removal[of i d r] recorded_verdict_forget[of i d r]
      by (cases "recorded_verdict i d r") auto
  qed
qed

text \<open>Every removal is of a recorded member of an active group, and an unmount is of a mount
  observed at the recorded target with the recorded identity.\<close>

lemma table_removal:
  assumes "(a, needs) \<in> set (table_steps i)" "phase a = 0" and wf: "state_wf (pi_state i)"
  shows "needs = [] \<and> (\<exists>r\<in>set (records (pi_state i)). \<not> is_frozen i (mr_group r) \<and>
    ((\<exists>why ident attrs. a = Unmount r why \<and> obs_target i (target_location r) = Mounted ident attrs
        \<and> matches ident (mr_identity r))
     \<or> (\<exists>why. a = DropRecord r why \<and> (obs_target i (target_location r) = NotMounted
          \<or> (\<exists>ident attrs. obs_target i (target_location r) = Mounted ident attrs
               \<and> \<not> matches ident (mr_identity r))))))"
  using assms(1)
proof (cases rule: table_cases)
  case (departing r)
  then have "\<not> is_frozen i (mr_group r)" by (simp add: departs_def)
  moreover have "(\<exists>why ident attrs. a = Unmount r why \<and> obs_target i (target_location r) = Mounted ident attrs
        \<and> matches ident (mr_identity r))
     \<or> (\<exists>why. a = DropRecord r why \<and> (obs_target i (target_location r) = NotMounted
          \<or> (\<exists>ident attrs. obs_target i (target_location r) = Mounted ident attrs
               \<and> \<not> matches ident (mr_identity r))))"
    using departing(3) by (auto simp: departure_def split: target_state.splits if_splits)
  ultimately show ?thesis using departing by blast
next
  case (member d)
  from member(2) assms(2) obtain r where r: "state_get (pi_state i) (dm_key d) = Some r"
    "record_matches_desired r d" "needs = []"
    and row: "(\<exists>why. a = Unmount r why \<and> (\<exists>ident attrs. obs_target i (dm_target d) = Mounted ident attrs
        \<and> matches ident (mr_identity r)))
     \<or> (\<exists>e. a = DropRecord r (DR_SourceUnavailable e) \<and> obs_target i (dm_target d) = NotMounted
        \<and> obs_source i (dm_key d) = SS_Unavailable e)"
    by (rule verdict_removal)
  have "r \<in> set (records (pi_state i))" "mr_key r = dm_key d"
    using r state_get_Some_iff[OF wf] by blast+
  moreover from this have "\<not> is_frozen i (mr_group r)"
    using accepted_sound(3)[OF member(1)] rk_group_mr_key by metis
  moreover have "target_location r = dm_target d"
    using r by (simp add: record_matches_desired_def)
  ultimately show ?thesis using r row by auto
qed

lemma proceed_create:
  assumes "proceed i acc d old = Create needs"
  shows "(\<exists>root. obs_source i (dm_key d) = Resolved root) \<and> set old \<subseteq> set needs
    \<and> (obs_target i (dm_target d) = NotMounted
       \<or> (\<exists>ident attrs r why. obs_target i (dm_target d) = Mounted ident attrs
            \<and> Unmount r why \<in> set needs \<and> target_location r = dm_target d
            \<and> matches ident (mr_identity r)))"
proof (cases "obs_target i (dm_target d)")
  case NotMounted
  with assms show ?thesis by (auto simp: proceed_def split: source_state.splits)
next
  case (Mounted ident attrs)
  with assms obtain r where r: "find (frees i acc (dm_target d)) (rev (records (pi_state i))) = Some r"
    and src: "\<exists>root. obs_source i (dm_key d) = Resolved root"
    and needs: "needs = old @ [the (departure i acc r)]"
    by (auto simp: proceed_def split: option.splits source_state.splits)
  from r have "frees i acc (dm_target d) r" by (auto simp: find_Some_iff)
  then obtain why where "target_location r = dm_target d" "departure i acc r = Some (Unmount r why)"
    "matches ident (mr_identity r)"
    using Mounted by (auto simp: frees_def departure_def split: if_splits)
  with Mounted src needs show ?thesis by auto
next
  case (TS_Unavailable e)
  with assms show ?thesis by (auto simp: proceed_def)
qed

text \<open>Every mount is of an accepted member whose source resolves, at a target that is free or
  that a step it needs frees, and needs the removal of the member's record elsewhere.\<close>

lemma table_mount:
  assumes "(Mount d, needs) \<in> set (table_steps i)" and wf: "state_wf (pi_state i)"
  shows "bt_get (accepted i) (dm_key d) = Some d
    \<and> (\<exists>root. obs_source i (dm_key d) = Resolved root)
    \<and> (obs_target i (dm_target d) = NotMounted
       \<or> (\<exists>ident attrs r why. obs_target i (dm_target d) = Mounted ident attrs
            \<and> Unmount r why \<in> set needs \<and> target_location r = dm_target d
            \<and> matches ident (mr_identity r)))
    \<and> (\<forall>r. state_get (pi_state i) (dm_key d) = Some r \<longrightarrow>
         (record_matches_desired r d \<and> obs_target i (dm_target d) = NotMounted)
         \<or> (\<exists>why. Unmount r why \<in> set needs) \<or> (\<exists>why. DropRecord r why \<in> set needs))"
  using assms(1)
proof (cases rule: table_cases)
  case (departing r)
  then show ?thesis by (auto simp: departure_def split: target_state.splits if_splits)
next
  case (member d')
  then have d: "d' = d" by (cases "verdict_of i (accepted i) d'") auto
  let ?v = "verdict_of i (accepted i) d"
  from member d have v: "?v = Create needs \<or> (\<exists>r why. ?v = Replace r why \<and> needs = [Unmount r why])"
    by (cases ?v) auto
  show ?thesis
  proof (cases "\<exists>r. state_get (pi_state i) (dm_key d) = Some r \<and> record_matches_desired r d")
    case True
    then obtain r where r: "state_get (pi_state i) (dm_key d) = Some r" "record_matches_desired r d"
      by blast
    then have vr: "?v = recorded_verdict i d r" by (simp add: verdict_of_def)
    from v show ?thesis
    proof (elim disjE exE conjE)
      assume "?v = Create needs"
      with vr recorded_verdict_mount(2)[of i d r needs] member d r show ?thesis by auto
    next
      fix r' why assume "?v = Replace r' why" "needs = [Unmount r' why]"
      with vr recorded_verdict_mount(1)[of i d r r' why] recorded_verdict_removal[of i d r r' why]
        member d r show ?thesis by (auto simp: record_matches_desired_def)
    qed
  next
    case False
    then have vu: "?v = unrecorded_verdict i (accepted i) d"
      by (auto simp: verdict_of_def split: option.splits)
    then have c: "unrecorded_verdict i (accepted i) d = Create needs"
      using v unrecorded_verdict_cases[of i "accepted i" d] by auto
    then obtain old where old: "proceed i (accepted i) d old = Create needs"
      "\<forall>r. state_get (pi_state i) (dm_key d) = Some r \<longrightarrow>
         (\<exists>a. departure i (accepted i) r = Some a \<and> a \<in> set old)"
      by (auto simp: unrecorded_verdict_eq split: option.splits)
    have "(\<exists>why. Unmount r why \<in> set needs) \<or> (\<exists>why. DropRecord r why \<in> set needs)"
      if "state_get (pi_state i) (dm_key d) = Some r" for r
      using old that proceed_create[OF old(1)]
      by (fastforce simp: departure_def split: target_state.splits if_splits)
    with proceed_create[OF old(1)] member d show ?thesis by blast
  qed
qed

section \<open>At most one step of a kind per member and target\<close>

fun action_key :: "action \<Rightarrow> record_key" where
  "action_key (Unmount r _) = mr_key r"
| "action_key (DropRecord r _) = mr_key r"
| "action_key (Mount d) = dm_key d"

fun action_target :: "action \<Rightarrow> location" where
  "action_target (Unmount r _) = target_location r"
| "action_target (DropRecord r _) = target_location r"
| "action_target (Mount d) = dm_target d"

definition removals :: "action list \<Rightarrow> action list" where
  "removals as = filter (\<lambda>a. phase a = 0) as"

definition mounts :: "action list \<Rightarrow> action list" where
  "mounts as = filter (\<lambda>a. phase a = 1) as"

lemma filter_concat_map: "filter p (concat (map f xs)) = concat (map (\<lambda>x. filter p (f x)) xs)"
  by (induction xs) auto

lemma distinct_concat_singletons:
  assumes "distinct (map g ds)" "\<forall>d\<in>set ds. F d = [] \<or> (\<exists>a. F d = [a] \<and> k a = g d)"
  shows "distinct (map k (concat (map F ds))) \<and> set (map k (concat (map F ds))) \<subseteq> set (map g ds)"
  using assms by (induction ds) fastforce+

lemma departure_key: "departure i acc r = Some a \<Longrightarrow> action_key a = mr_key r \<and> phase a = 0"
  by (auto simp: departure_def split: target_state.splits if_splits)

lemma distinct_map_filter_keys:
  assumes "distinct (map g xs)" "\<forall>x a. f x = Some a \<longrightarrow> k a = g x"
  shows "distinct (map k (List.map_filter f xs)) \<and> set (map k (List.map_filter f xs)) \<subseteq> set (map g xs)"
  using assms by (induction xs) (auto simp: List.map_filter_def split: option.splits)

lemma verdict_steps_removals:
  "removals (map fst (verdict_steps d v)) =
     (case v of Replace r why \<Rightarrow> [Unmount r why] | Remove r why \<Rightarrow> [Unmount r why]
      | Forget r why _ \<Rightarrow> [DropRecord r why] | _ \<Rightarrow> [])"
  by (cases v) (auto simp: removals_def)

lemma verdict_steps_mounts:
  "mounts (map fst (verdict_steps d v)) =
     (case v of Replace r why \<Rightarrow> [Mount d] | Create _ \<Rightarrow> [Mount d] | _ \<Rightarrow> [])"
  by (cases v) (auto simp: mounts_def)

lemma accepted_keys: "distinct (map dm_key (bt_values (accepted i)))"
proof -
  have "map dm_key (bt_values (accepted i)) = map fst (accepted i)"
    using accepted_sound(1)[of i] by (auto simp: bt_values_def in_accepted_iff[symmetric])
  then show ?thesis using bt_wf_distinct[OF accepted_wf] by simp
qed

lemma table_removals:
  "removals (map fst (table_steps i)) =
     List.map_filter (departure i (accepted i)) (departing_records i)
     @ concat (map (\<lambda>d. removals (map fst (verdict_steps d (verdict_of i (accepted i) d))))
         (bt_values (accepted i)))"
proof -
  have "\<forall>a\<in>set (List.map_filter (departure i (accepted i)) (departing_records i)). phase a = 0"
    using departure_key by (fastforce simp: List.map_filter_def)
  then show ?thesis
    by (simp add: removals_def table_steps_def filter_concat_map map_concat o_def)
qed

lemma table_mounts:
  "mounts (map fst (table_steps i)) =
     concat (map (\<lambda>d. mounts (map fst (verdict_steps d (verdict_of i (accepted i) d))))
         (bt_values (accepted i)))"
proof -
  have "\<forall>a\<in>set (List.map_filter (departure i (accepted i)) (departing_records i)). phase a = 0"
    using departure_key by (fastforce simp: List.map_filter_def)
  then have "filter (\<lambda>a. phase a = 1) (List.map_filter (departure i (accepted i)) (departing_records i)) = []"
    by (auto simp: filter_empty_conv)
  then show ?thesis
    by (simp add: mounts_def table_steps_def filter_concat_map map_concat o_def)
qed

lemma distinct_removals:
  assumes wf: "state_wf (pi_state i)"
  shows "distinct (map action_key (removals (map fst (table_steps i))))"
proof -
  let ?acc = "accepted i"
  let ?F = "\<lambda>d. removals (map fst (verdict_steps d (verdict_of i ?acc d)))"
  have "distinct (map mr_key (departing_records i))"
    using records_distinct[OF wf] by (simp add: departing_records_def distinct_map_filter)
  then have 1: "distinct (map action_key (List.map_filter (departure i ?acc) (departing_records i)))"
    "set (map action_key (List.map_filter (departure i ?acc) (departing_records i)))
       \<subseteq> mr_key ` set (departing_records i)"
    using distinct_map_filter_keys[of mr_key "departing_records i" "departure i ?acc" action_key]
      departure_key by (simp_all only: set_map) blast+
  have row: "\<exists>r. state_get (pi_state i) (dm_key d) = Some r \<and> record_matches_desired r d
      \<and> action_key a = mr_key r"
    if "a \<in> set (?F d)" for a d
  proof -
    from that obtain needs where "(a, needs) \<in> set (verdict_steps d (verdict_of i ?acc d))" "phase a = 0"
      by (auto simp: removals_def)
    then obtain r where "state_get (pi_state i) (dm_key d) = Some r" "record_matches_desired r d"
      "(\<exists>why. a = Unmount r why \<and> (\<exists>ident attrs. obs_target i (dm_target d) = Mounted ident attrs
        \<and> matches ident (mr_identity r)))
       \<or> (\<exists>e. a = DropRecord r (DR_SourceUnavailable e) \<and> obs_target i (dm_target d) = NotMounted
        \<and> obs_source i (dm_key d) = SS_Unavailable e)"
      by (rule verdict_removal)
    then show ?thesis by auto
  qed
  have single: "?F d = [] \<or> (\<exists>a. ?F d = [a] \<and> action_key a = dm_key d)" for d
  proof -
    have "?F d = [] \<or> (\<exists>a. ?F d = [a])"
      unfolding verdict_steps_removals by (auto split: verdict.splits)
    then show ?thesis using row[of _ d] state_get_key[OF wf] by fastforce
  qed
  have 2: "distinct (map action_key (concat (map ?F (bt_values ?acc))))"
    using distinct_concat_singletons[OF accepted_keys, of i ?F action_key] single by blast
  have "mr_key r \<noteq> action_key a"
    if r: "r \<in> set (departing_records i)" and a: "a \<in> set (?F d)" "d \<in> set (bt_values ?acc)" for r a d
  proof
    assume eq: "mr_key r = action_key a"
    from row[OF a(1)] obtain r' where r': "state_get (pi_state i) (dm_key d) = Some r'"
      "record_matches_desired r' d" "action_key a = mr_key r'" by blast
    moreover have "state_get (pi_state i) (mr_key r) = Some r"
      using r records_iff[OF wf] by (simp add: departing_records_def)
    ultimately have "r' = r" using eq state_get_key[OF wf] by (metis option.inject)
    moreover have "bt_get ?acc (dm_key d) = Some d"
      using a(2) accepted_sound(1)[of i] by (auto simp: bt_values_def in_accepted_iff)
    ultimately show False
      using r r' state_get_key[OF wf r'(1)] by (simp add: departing_records_def departs_def)
  qed
  then have "set (map action_key (List.map_filter (departure i ?acc) (departing_records i)))
      \<inter> set (map action_key (concat (map ?F (bt_values ?acc)))) = {}"
    using 1(2) by fastforce
  with 1(1) 2 show ?thesis by (simp add: table_removals)
qed

lemma distinct_mounts:
  "distinct (map action_key (mounts (map fst (table_steps i))))"
  "distinct (map action_target (mounts (map fst (table_steps i))))"
proof -
  let ?F = "\<lambda>d. mounts (map fst (verdict_steps d (verdict_of i (accepted i) d)))"
  have single: "?F d = [] \<or> ?F d = [Mount d]" for d
    unfolding verdict_steps_mounts by (auto split: verdict.splits)
  show "distinct (map action_key (mounts (map fst (table_steps i))))"
    unfolding table_mounts
    using distinct_concat_singletons[OF accepted_keys, of i ?F action_key] single by fastforce
  have "inj_on dm_target (set (bt_values (accepted i)))"
    using accepted_sound(4)[of i] by (auto simp: inj_on_def bt_values_def in_accepted_iff) (metis option.inject)
  moreover have "distinct (bt_values (accepted i))"
    using accepted_keys distinct_map by blast
  ultimately have "distinct (map dm_target (bt_values (accepted i)))" by (simp add: distinct_map)
  then show "distinct (map action_target (mounts (map fst (table_steps i))))"
    unfolding table_mounts
    using distinct_concat_singletons[of dm_target _ ?F action_target] single by fastforce
qed

section \<open>The two phases\<close>

lemma needs_removals:
  assumes "(a, needs) \<in> set (table_steps i)" "b \<in> set needs"
  shows "phase b = 0"
  using assms(1)
proof (cases rule: table_cases)
  case (departing r)
  with assms show ?thesis by simp
next
  case (member d)
  have create: "\<forall>b\<in>set ns. phase b = 0" if "verdict_of i (accepted i) d = Create ns" for ns
  proof -
    note create = that
    have old: "\<forall>b\<in>set ns'. phase b = 0"
      if "proceed i (accepted i) d old = Create ns'" "\<forall>b\<in>set old. phase b = 0" for old ns'
    proof (cases "obs_target i (dm_target d)")
      case (Mounted ident attrs)
      with that obtain r where r: "find (frees i (accepted i) (dm_target d)) (rev (records (pi_state i))) = Some r"
        "ns' = old @ [the (departure i (accepted i) r)]"
        by (auto simp: proceed_def split: option.splits source_state.splits)
      then have "frees i (accepted i) (dm_target d) r" by (auto simp: find_Some_iff)
      then obtain x where "departure i (accepted i) r = Some x"
        by (auto simp: frees_def split: option.splits)
      with r(2) that(2) departure_key[of i "accepted i" r x] show ?thesis by auto
    qed (use that in \<open>auto simp: proceed_def split: source_state.splits\<close>)
    show ?thesis
    proof (cases "\<exists>r. state_get (pi_state i) (dm_key d) = Some r \<and> record_matches_desired r d")
      case True
      then obtain r where "recorded_verdict i d r = Create ns"
        using create by (auto simp: verdict_of_def)
      from recorded_verdict_mount(2)[OF this] show ?thesis by simp
    next
      case False
      then have "unrecorded_verdict i (accepted i) d = Create ns"
        using that by (auto simp: verdict_of_def split: option.splits)
      then obtain needs0 where "proceed i (accepted i) d needs0 = Create ns"
        "\<forall>b\<in>set needs0. phase b = 0"
        by (auto simp: unrecorded_verdict_eq dest: departure_key split: option.splits)
      then show ?thesis by (rule old)
    qed
  qed
  with member(2) assms(2) show ?thesis
    by (cases "verdict_of i (accepted i) d") auto
qed

lemma sorted_phases:
  "sorted (map phase (filter (\<lambda>a. phase a = 0) as @ filter (\<lambda>a. phase a = 1) as))"
proof -
  have 0: "map phase (filter (\<lambda>a. phase a = 0) as) = replicate (length (filter (\<lambda>a. phase a = 0) as)) 0"
    by (induction as) auto
  have 1: "map phase (filter (\<lambda>a. phase a = 1) as) = replicate (length (filter (\<lambda>a. phase a = 1) as)) 1"
    by (induction as) auto
  show ?thesis unfolding map_append 0 1 by (simp add: sorted_append)
qed

lemma filter_phases:
  "filter (\<lambda>a. phase a = 0) (filter (\<lambda>a. phase a = 0) as @ filter (\<lambda>a. phase a = 1) as)
     = filter (\<lambda>a. phase a = 0) as"
  "filter (\<lambda>a. phase a = 1) (filter (\<lambda>a. phase a = 0) as @ filter (\<lambda>a. phase a = 1) as)
     = filter (\<lambda>a. phase a = 1) as"
  by (induction as) auto

lemma phases_Nil_iff:
  "filter (\<lambda>a. phase a = 0) as @ filter (\<lambda>a. phase a = 1) as = [] \<longleftrightarrow> as = []"
proof (cases as)
  case (Cons a as')
  then show ?thesis using phase_cases[of a] by auto
qed simp

text \<open>Every action of a plan is about a member of a group that is not frozen.\<close>

lemma plan_action_active:
  assumes wf: "state_wf (pi_state i)" and p: "make_plan i = Some p"
    and a: "a \<in> set (map step_action (plan_steps p))"
  shows "rk_group (action_key a) \<notin> set (pi_frozen i)"
proof -
  obtain needs where row: "(a, needs) \<in> set (table_steps i)"
    using a unfolding plan_actions(1)[OF wf p] by auto
  show ?thesis
  proof (cases a)
    case (Mount d)
    then show ?thesis
      using table_mount[OF row[unfolded Mount] wf] accepted_sound(3)[of i "dm_key d" d]
      by (simp add: is_frozen_def)
  qed (use table_removal[OF row _ wf] in \<open>auto simp: is_frozen_def\<close>)
qed

section \<open>Collisions\<close>

lemma collision_findings_eq:
  "collision_findings i = concat (map (\<lambda>(l, ds). if length ds = 1 then [] else
     [F_TargetCollision l (map dm_key (sort_key dm_key ds)) (map_option dm_key (winner i l))])
     (by_target i))"
proof -
  have "b_findings (snd (fold resolve_target es (acc, b))) = b_findings b
      @ concat (map (\<lambda>(l, ds). if length ds = 1 then [] else
          [F_TargetCollision l (map dm_key (sort_key dm_key ds)) (map_option dm_key (winner i l))]) es)"
    if "\<forall>(l, ds)\<in>set es. ds = contenders i l \<and> ds \<noteq> []" "b_input b = i" for es acc b
    using that
  proof (induction es arbitrary: acc b)
    case (Cons e es)
    obtain l ds where e: "e = (l, ds)" by (cases e)
    obtain acc' b' where ab: "resolve_target (l, ds) (acc, b) = (acc', b')"
      by (cases "resolve_target (l, ds) (acc, b)")
    have i: "b_input b' = i"
      using resolve_target_eq(2)[of ds i l b acc, unfolded ab] Cons.prems by (auto simp: e)
    have "b_findings b' = b_findings b @ (if length ds = 1 then [] else
        [F_TargetCollision l (map dm_key (sort_key dm_key ds)) (map_option dm_key (winner i l))])"
      using ab Cons.prems
      by (auto simp: e resolve_target_def winner_def push_finding_def Let_def split: list.splits)
    with Cons.IH[of b' acc'] Cons.prems i show ?case unfolding e fold_simps ab by simp
  qed simp
  from this[of "by_target i" "\<lparr>b_input = i, b_steps = [], b_findings = []\<rparr>" "[]"] show ?thesis
    using by_target_iff[of _ _ i]
    by (auto simp: collision_findings_def resolve_collisions_def by_target_def)
qed

text \<open>With distinct keys, every winner is accepted.\<close>

lemma bt_get_add_winner:
  "bt_get (add_winner i x m) k = (case winner i x of
     Some d \<Rightarrow> if k = dm_key d then Some d else bt_get m k | None \<Rightarrow> bt_get m k)"
  by (simp add: add_winner_def bt_get_insert split: option.splits)

lemma fold_add_winner_complete:
  assumes "l \<in> set ls" "winner i l = Some d"
    "\<forall>l'\<in>set ls. \<forall>d'. winner i l' = Some d' \<longrightarrow> dm_key d' = dm_key d \<longrightarrow> d' = d"
  shows "bt_get (fold (add_winner i) ls acc) (dm_key d) = Some d"
  using assms
proof (induction ls rule: rev_induct)
  case (snoc x xs)
  show ?case
  proof (cases "winner i x = Some d")
    case True
    then show ?thesis by (simp add: bt_get_add_winner)
  next
    case False
    with snoc have "bt_get (fold (add_winner i) xs acc) (dm_key d) = Some d" by auto
    with False snoc.prems show ?thesis by (auto simp: bt_get_add_winner split: option.splits)
  qed
qed simp

definition active :: "plan_input \<Rightarrow> desired_mount list" where
  "active i = filter (\<lambda>d. \<not> is_frozen i (rk_group (dm_key d))) (pi_desired i)"

lemma contenders_active: "contenders i l = filter (\<lambda>d. dm_target d = l) (active i)"
  by (simp add: contenders_def active_def)

lemma accepted_iff:
  assumes "distinct (map dm_key (active i))"
  shows "bt_get (accepted i) (dm_key d) = Some d
    \<longleftrightarrow> d \<in> set (active i) \<and> winner i (dm_target d) = Some d"
proof
  assume "bt_get (accepted i) (dm_key d) = Some d"
  from accepted_sound[OF this] show "d \<in> set (active i) \<and> winner i (dm_target d) = Some d"
    by (simp add: active_def)
next
  assume d: "d \<in> set (active i) \<and> winner i (dm_target d) = Some d"
  then have "(dm_target d, contenders i (dm_target d)) \<in> set (by_target i)"
    unfolding by_target_iff contenders_active by (auto simp: filter_empty_conv)
  then have l: "dm_target d \<in> set (map fst (by_target i))" by force
  have "d' = d" if "winner i l' = Some d'" "dm_key d' = dm_key d" for l' d'
  proof -
    have "d' \<in> set (active i)" using winner_sound[OF that(1)] by (simp add: active_def)
    then show ?thesis using d that(2) assms by (auto simp: distinct_map inj_on_def)
  qed
  then show "bt_get (accepted i) (dm_key d) = Some d"
    unfolding accepted_eq using d l by (intro fold_add_winner_complete) auto
qed

section \<open>The empty plan\<close>

lemma departure_or_finding: "departure i acc r \<noteq> None \<or> departure_finding i r \<noteq> []"
  by (auto simp: departure_def departure_finding_def split: target_state.splits)

lemma verdict_empty_iff: "verdict_steps d v = [] \<and> verdict_finding v = [] \<longleftrightarrow> v = Keep"
  by (cases v) auto

lemma distinct_filter_one:
  "distinct (map f xs) \<Longrightarrow> filter (\<lambda>x. f x = y) xs = [] \<or> (\<exists>x. filter (\<lambda>x. f x = y) xs = [x])"
  by (induction xs) (auto simp: filter_empty_conv image_iff)

lemma no_collisions:
  assumes "distinct (map dm_target (active i))"
  shows "collision_findings i = []"
    and "d \<in> set (active i) \<Longrightarrow> winner i (dm_target d) = Some d"
proof -
  have one: "contenders i l = [] \<or> (\<exists>d. contenders i l = [d])" for l
    unfolding contenders_active using assms by (rule distinct_filter_one)
  then have "length ds = 1" if "(l, ds) \<in> set (by_target i)" for l ds
    using that one[of l] by (fastforce simp: by_target_iff)
  then show "collision_findings i = []"
    unfolding collision_findings_eq by (auto simp: concat_eq_Nil_conv)
  show "winner i (dm_target d) = Some d" if "d \<in> set (active i)"
  proof -
    have "d \<in> set (contenders i (dm_target d))" using that by (simp add: contenders_active)
    then have "contenders i (dm_target d) = [d]" using one[of "dm_target d"] by auto
    then show ?thesis by (simp add: winner_def)
  qed
qed

lemma table_empty_iff:
  assumes "distinct (map dm_target (active i))"
  shows "table_steps i = [] \<and> table_findings i = [] \<longleftrightarrow> departing_records i = []
      \<and> (\<forall>d\<in>set (bt_values (accepted i)). verdict_of i (accepted i) d = Keep)"
proof -
  have "List.map_filter (departure i (accepted i)) rs = [] \<and> concat (map (departure_finding i) rs) = []
      \<longleftrightarrow> rs = []" for rs
  proof (cases rs)
    case (Cons r rs')
    then show ?thesis
      using departure_or_finding[of i "accepted i" r]
      by (cases "departure i (accepted i) r") (simp_all add: map_filter_simps)
  qed (simp add: map_filter_simps)
  moreover have "concat (map (\<lambda>d. verdict_steps d (verdict_of i (accepted i) d)) ds) = []
      \<and> concat (map (\<lambda>d. verdict_finding (verdict_of i (accepted i) d)) ds) = []
      \<longleftrightarrow> (\<forall>d\<in>set ds. verdict_of i (accepted i) d = Keep)" for ds
    using verdict_empty_iff by (induction ds) auto
  ultimately show ?thesis
    unfolding table_steps_def table_findings_def no_collisions(1)[OF assms] append_Nil
      append_is_Nil_conv map_is_Nil_conv by meson
qed

end
