(* ===== verification/Plan_Claims.thy ===== *)
theory Plan_Claims
  imports Plan_Props
begin

text \<open>
  The properties of the planner, with a concrete input (one member leaves, another takes
  over its target) on which each of them says something.
\<close>

section \<open>An input\<close>

definition example_state :: state where
  "example_state = \<lparr>st_map = [(mr_key example_record, example_record)]\<rparr>"

definition example_desired :: desired_mount where
  "example_desired =
     \<lparr>dm_key = RecordKey (statically (Name ''g'')) (Name ''b''),
      dm_source = Location (AbsPath [''src'']) ''b'',
      dm_target = target_location example_record, dm_attrs = default_attrs\<rparr>"

definition example_input :: plan_input where
  "example_input =
     \<lparr>pi_desired = [example_desired], pi_state = example_state, pi_frozen = [],
      pi_observations =
        \<lparr>obs_sources = [(dm_key example_desired, Resolved \<lparr>dev_major = 8, dev_minor = 1, ino = 43\<rparr>)],
         obs_targets = [(target_location example_record, Mounted (mr_identity example_record) None)]\<rparr>\<rparr>"

definition example_plan :: plan where
  "example_plan =
     \<lparr>plan_steps =
        [\<lparr>step_action = Unmount example_record NotMember, depends_on = []\<rparr>,
         \<lparr>step_action = Mount example_desired, depends_on = [0]\<rparr>],
      plan_findings = []\<rparr>"

lemma example_plan: "make_plan example_input = Some example_plan"
  by code_simp

lemma example_wf: "state_wf (pi_state example_input)"
  by (simp add: example_input_def example_state_def state_wf_def bt_wf_def)

section \<open>Properties\<close>



text \<open>C4. The order of every plan: dependencies are sorted without duplicates, lie before the
  step, and are removals; removals depend on nothing; every removal comes before every
  mount.\<close>

theorem plan_well_ordered:
  assumes "state_wf (pi_state i)" "make_plan i = Some p" "j < length (plan_steps p)"
  shows "sorted_wrt (<) (depends_on (plan_steps p ! j))
    \<and> (\<forall>d\<in>set (depends_on (plan_steps p ! j)). d < j \<and> phase (step_action (plan_steps p ! d)) = 0)
    \<and> (phase (step_action (plan_steps p ! j)) = 0 \<longrightarrow> depends_on (plan_steps p ! j) = [])
    \<and> (\<forall>k<j. phase (step_action (plan_steps p ! k)) \<le> phase (step_action (plan_steps p ! j)))"
proof -
  let ?s = "plan_steps p"
  obtain needs where needs: "(step_action (?s ! j), needs) \<in> set (table_steps i)"
    "(\<lambda>d. step_action (?s ! d)) ` set (depends_on (?s ! j)) = set needs"
    "sorted_wrt (<) (depends_on (?s ! j))" "\<forall>d\<in>set (depends_on (?s ! j)). d < j"
    using plan_step[OF assms] by blast
  have "phase a = 0" if "a \<in> set needs" for a
    using needs_removals[OF needs(1) that] .
  then have deps: "phase (step_action (?s ! d)) = 0" if "d \<in> set (depends_on (?s ! j))" for d
    using needs(2) that by blast
  moreover have "depends_on (?s ! j) = []" if "phase (step_action (?s ! j)) = 0"
    using table_removal[OF needs(1) that assms(1)] needs(2) by simp
  moreover have "sorted (map phase (map step_action ?s))"
    unfolding plan_actions(1)[OF assms(1,2)] by (rule sorted_phases)
  then have "\<forall>k<j. phase (step_action (?s ! k)) \<le> phase (step_action (?s ! j))"
    using assms(3) by (auto simp: sorted_iff_nth_mono_less)
  ultimately show ?thesis using needs by blast
qed

theorem plan_well_ordered_witness:
  "depends_on (plan_steps example_plan ! 1) = [0]
   \<and> phase (step_action (plan_steps example_plan ! 0)) = 0"
  using plan_well_ordered[OF example_wf example_plan, of 1]
  by (simp add: example_plan_def)

text \<open>C2. Safety of removal: an unmount step is always of a recorded mount of a group that
  is not frozen, whose recorded target was observed to hold a mount with the recorded
  identity; a record is dropped without an unmount only when its target was observed to
  hold no mount, or a different one.  A mount that Byssus did not record is never
  unmounted.\<close>

theorem plan_removals_safe:
  assumes "state_wf (pi_state i)" "make_plan i = Some p"
  shows "(\<forall>r why. Unmount r why \<in> set (map step_action (plan_steps p)) \<longrightarrow>
       state_get (pi_state i) (mr_key r) = Some r \<and> mr_group r \<notin> set (pi_frozen i)
       \<and> (\<exists>ident attrs. obs_target i (target_location r) = Mounted ident attrs
            \<and> matches ident (mr_identity r)))
    \<and> (\<forall>r why. DropRecord r why \<in> set (map step_action (plan_steps p)) \<longrightarrow>
       state_get (pi_state i) (mr_key r) = Some r \<and> mr_group r \<notin> set (pi_frozen i)
       \<and> (obs_target i (target_location r) = NotMounted
          \<or> (\<exists>ident attrs. obs_target i (target_location r) = Mounted ident attrs
               \<and> \<not> matches ident (mr_identity r))))
    \<and> distinct (map action_key (filter (\<lambda>a. phase a = 0) (map step_action (plan_steps p))))"
proof -
  note plan = plan_actions(1)[OF assms]
  have row: "\<exists>needs. (a, needs) \<in> set (table_steps i)"
    if "a \<in> set (map step_action (plan_steps p))" for a
    using that unfolding plan by auto
  have get: "state_get (pi_state i) (mr_key r) = Some r" if "r \<in> set (records (pi_state i))" for r
    using that records_iff[OF assms(1)] by simp
  have unmount: "state_get (pi_state i) (mr_key r) = Some r \<and> mr_group r \<notin> set (pi_frozen i)
       \<and> (\<exists>ident attrs. obs_target i (target_location r) = Mounted ident attrs
            \<and> matches ident (mr_identity r))"
    if a: "Unmount r why \<in> set (map step_action (plan_steps p))" for r why
    using row[OF a] table_removal[OF _ _ assms(1), of "Unmount r why"] get[of r]
    by (auto simp: is_frozen_def)
  have drop: "state_get (pi_state i) (mr_key r) = Some r \<and> mr_group r \<notin> set (pi_frozen i)
       \<and> (obs_target i (target_location r) = NotMounted
          \<or> (\<exists>ident attrs. obs_target i (target_location r) = Mounted ident attrs
               \<and> \<not> matches ident (mr_identity r)))"
    if a: "DropRecord r why \<in> set (map step_action (plan_steps p))" for r why
    using row[OF a] table_removal[OF _ _ assms(1), of "DropRecord r why"] get[of r]
    by (auto simp: is_frozen_def)
  have "filter (\<lambda>a. phase a = 0) (map step_action (plan_steps p)) = removals (map fst (table_steps i))"
    unfolding plan by (simp only: removals_def filter_phases)
  then show ?thesis using unmount drop distinct_removals[OF assms(1)] by simp
qed

theorem plan_removals_safe_witness:
  "state_get example_state (mr_key example_record) = Some example_record
   \<and> (\<exists>ident attrs. obs_target example_input (target_location example_record) = Mounted ident attrs
        \<and> matches ident (mr_identity example_record))"
  using plan_removals_safe[OF example_wf example_plan]
  by (simp add: example_plan_def example_input_def[THEN arg_cong[where f = pi_state]])

text \<open>C3. Safety of mounting: a mount step is always of a desired mount of a group that is
  not frozen and whose source was observed to resolve to a directory; its target was
  observed to be free, or to hold exactly the recorded mount that an unmount step it
  depends on removes; when its member has a record that is not for this place, it also
  depends on the removal of that record.  No two mount steps share a member or a target.\<close>

theorem plan_mounts_safe:
  assumes "state_wf (pi_state i)" "make_plan i = Some p"
  shows "(\<forall>j<length (plan_steps p). \<forall>d. step_action (plan_steps p ! j) = Mount d \<longrightarrow>
      (let before = (\<lambda>n. step_action (plan_steps p ! n)) ` set (depends_on (plan_steps p ! j)) in
       d \<in> set (pi_desired i) \<and> rk_group (dm_key d) \<notin> set (pi_frozen i)
       \<and> (\<exists>root. obs_source i (dm_key d) = Resolved root)
       \<and> (obs_target i (dm_target d) = NotMounted
          \<or> (\<exists>ident attrs r why. obs_target i (dm_target d) = Mounted ident attrs
               \<and> Unmount r why \<in> before \<and> target_location r = dm_target d
               \<and> matches ident (mr_identity r)))
       \<and> (\<forall>r. state_get (pi_state i) (dm_key d) = Some r \<longrightarrow>
            (record_matches_desired r d \<and> obs_target i (dm_target d) = NotMounted)
            \<or> (\<exists>why. Unmount r why \<in> before) \<or> (\<exists>why. DropRecord r why \<in> before))))
    \<and> distinct (map action_key (filter (\<lambda>a. phase a = 1) (map step_action (plan_steps p))))
    \<and> distinct (map action_target (filter (\<lambda>a. phase a = 1) (map step_action (plan_steps p))))"
proof (intro conjI allI impI)
  fix j d
  assume j: "j < length (plan_steps p)" and d: "step_action (plan_steps p ! j) = Mount d"
  obtain needs where needs: "(Mount d, needs) \<in> set (table_steps i)"
    "(\<lambda>d. step_action (plan_steps p ! d)) ` set (depends_on (plan_steps p ! j)) = set needs"
    using plan_step[OF assms j] d by auto
  note row = table_mount[OF needs(1) assms(1)]
  from row accepted_sound(2,3)[of i "dm_key d" d]
  have "d \<in> set (pi_desired i) \<and> rk_group (dm_key d) \<notin> set (pi_frozen i)"
    by (simp add: is_frozen_def)
  with row show "let before = (\<lambda>n. step_action (plan_steps p ! n)) ` set (depends_on (plan_steps p ! j)) in
       d \<in> set (pi_desired i) \<and> rk_group (dm_key d) \<notin> set (pi_frozen i)
       \<and> (\<exists>root. obs_source i (dm_key d) = Resolved root)
       \<and> (obs_target i (dm_target d) = NotMounted
          \<or> (\<exists>ident attrs r why. obs_target i (dm_target d) = Mounted ident attrs
               \<and> Unmount r why \<in> before \<and> target_location r = dm_target d
               \<and> matches ident (mr_identity r)))
       \<and> (\<forall>r. state_get (pi_state i) (dm_key d) = Some r \<longrightarrow>
            (record_matches_desired r d \<and> obs_target i (dm_target d) = NotMounted)
            \<or> (\<exists>why. Unmount r why \<in> before) \<or> (\<exists>why. DropRecord r why \<in> before))"
    unfolding Let_def needs(2) by (intro conjI) simp_all
next
  have "filter (\<lambda>a. phase a = 1) (map step_action (plan_steps p)) = mounts (map fst (table_steps i))"
    unfolding plan_actions(1)[OF assms] by (simp only: mounts_def filter_phases)
  then show "distinct (map action_key (filter (\<lambda>a. phase a = 1) (map step_action (plan_steps p))))"
    "distinct (map action_target (filter (\<lambda>a. phase a = 1) (map step_action (plan_steps p))))"
    using distinct_mounts[of i] by simp_all
qed

theorem plan_mounts_safe_witness:
  "\<exists>r why ident attrs. obs_target example_input (dm_target example_desired) = Mounted ident attrs
     \<and> Unmount r why = step_action (plan_steps example_plan ! 0)
     \<and> matches ident (mr_identity r)"
proof -
  have "obs_target example_input (dm_target example_desired) \<noteq> NotMounted"
    by code_simp
  with plan_mounts_safe[OF example_wf example_plan, THEN conjunct1, rule_format, of 1 example_desired]
  show ?thesis by (auto simp: example_plan_def Let_def)
qed

definition settled :: "plan_input \<Rightarrow> desired_mount \<Rightarrow> mount_record \<Rightarrow> bool" where
  "settled i d r =
     (record_matches_desired r d \<and> mr_attrs r = dm_attrs d
      \<and> obs_source i (dm_key d) = Resolved (mroot (mr_identity r))
      \<and> (case obs_target i (dm_target d) of
           Mounted ident attrs \<Rightarrow> matches ident (mr_identity r)
             \<and> (case attrs of Some a \<Rightarrow> enforce a (dm_attrs d) | None \<Rightarrow> True)
         | _ \<Rightarrow> False))"

lemma recorded_Keep_iff:
  "record_matches_desired r d \<Longrightarrow> recorded_verdict i d r = Keep \<longleftrightarrow> settled i d r"
  by (auto simp: recorded_verdict_def settled_def
      split: target_state.splits source_state.splits option.splits if_splits)

lemma verdict_Keep_iff:
  "verdict_of i acc d = Keep \<longleftrightarrow>
     (\<exists>r. state_get (pi_state i) (dm_key d) = Some r \<and> settled i d r)"
proof (cases "\<exists>r. state_get (pi_state i) (dm_key d) = Some r \<and> record_matches_desired r d")
  case True
  then show ?thesis using recorded_Keep_iff by (auto simp: verdict_of_def)
next
  case False
  then have "verdict_of i acc d = unrecorded_verdict i acc d"
    by (auto simp: verdict_of_def split: option.splits)
  with False unrecorded_verdict_cases[of i acc d] show ?thesis by (auto simp: settled_def)
qed

lemma settled_iff:
  assumes "state_wf (pi_state i)" "distinct (map dm_key (active i))"
    "distinct (map dm_target (active i))"
  shows "departing_records i = [] \<and> (\<forall>d\<in>set (bt_values (accepted i)). verdict_of i (accepted i) d = Keep)
    \<longleftrightarrow> (\<forall>d\<in>set (active i). \<exists>r. state_get (pi_state i) (dm_key d) = Some r \<and> settled i d r)
     \<and> (\<forall>r\<in>set (records (pi_state i)). is_frozen i (mr_group r) \<or> mr_key r \<in> dm_key ` set (active i))"
proof -
  have acc: "bt_get (accepted i) (dm_key d) = Some d \<longleftrightarrow> d \<in> set (active i)" for d
    using accepted_iff[OF assms(2), of d] no_collisions(2)[OF assms(3), of d] by blast
  have vals: "set (bt_values (accepted i)) = set (active i)"
  proof -
    have "d \<in> set (bt_values (accepted i)) \<longleftrightarrow> bt_get (accepted i) (dm_key d) = Some d" for d
    proof -
      have "d \<in> set (bt_values (accepted i)) \<longleftrightarrow> (\<exists>k. (k, d) \<in> set (accepted i))"
        by (force simp: bt_values_def)
      then show ?thesis unfolding in_accepted_iff using accepted_sound(1)[of i _ d] by blast
    qed
    then show ?thesis using acc by blast
  qed
  have at_key: "(\<exists>d. bt_get (accepted i) k = Some d \<and> P d) \<longleftrightarrow> (\<exists>d\<in>set (active i). dm_key d = k \<and> P d)"
    for k P using acc accepted_sound(1)[of i k] by blast
  have dep: "departing_records i = [] \<longleftrightarrow> (\<forall>r\<in>set (records (pi_state i)). is_frozen i (mr_group r)
      \<or> (\<exists>d\<in>set (active i). dm_key d = mr_key r \<and> record_matches_desired r d))"
    unfolding at_key[symmetric]
    by (auto simp: departing_records_def filter_empty_conv departs_def split: option.splits)
  have matched: "record_matches_desired r d"
    if "\<forall>d\<in>set (active i). \<exists>r. state_get (pi_state i) (dm_key d) = Some r \<and> settled i d r"
      "r \<in> set (records (pi_state i))" "d \<in> set (active i)" "dm_key d = mr_key r" for r d
  proof -
    from that obtain r' where "state_get (pi_state i) (dm_key d) = Some r'" "settled i d r'"
      by blast
    then show ?thesis using that(2,4) records_iff[OF assms(1), of r] by (simp add: settled_def)
  qed
  show ?thesis unfolding vals dep verdict_Keep_iff
  proof (intro iffI conjI ballI; elim conjE)
    fix r assume "r \<in> set (records (pi_state i))" "\<forall>r\<in>set (records (pi_state i)).
      is_frozen i (mr_group r) \<or> (\<exists>d\<in>set (active i). dm_key d = mr_key r \<and> record_matches_desired r d)"
    then show "is_frozen i (mr_group r) \<or> mr_key r \<in> dm_key ` set (active i)" by force
  next
    fix r assume "r \<in> set (records (pi_state i))" "\<forall>r\<in>set (records (pi_state i)).
      is_frozen i (mr_group r) \<or> mr_key r \<in> dm_key ` set (active i)"
      "\<forall>d\<in>set (active i). \<exists>r. state_get (pi_state i) (dm_key d) = Some r \<and> settled i d r"
    then show "is_frozen i (mr_group r)
        \<or> (\<exists>d\<in>set (active i). dm_key d = mr_key r \<and> record_matches_desired r d)"
      using matched by force
  qed simp_all
qed

text \<open>C5. The planner has reached its goal exactly when there is nothing to do: with distinct
  members and distinct targets among the desired mounts of active groups, the plan is
  empty and reports nothing if and only if every such mount is recorded where it is
  desired, its source still is the recorded directory, its target holds the recorded mount
  with the configured attributes, and every other record belongs to a frozen group.\<close>

theorem plan_noop_iff:
  assumes "state_wf (pi_state i)" "distinct (map dm_key (active i))"
    "distinct (map dm_target (active i))"
  shows "make_plan i = Some \<lparr>plan_steps = [], plan_findings = []\<rparr> \<longleftrightarrow>
     (\<forall>d\<in>set (active i). \<exists>r. state_get (pi_state i) (dm_key d) = Some r \<and> settled i d r)
     \<and> (\<forall>r\<in>set (records (pi_state i)). is_frozen i (mr_group r) \<or> mr_key r \<in> dm_key ` set (active i))"
proof -
  obtain p where p: "make_plan i = Some p" using make_plan_Some[OF assms(1)] by blast
  have "plan_steps p = [] \<longleftrightarrow> map step_action (plan_steps p) = []" by simp
  also have "\<dots> \<longleftrightarrow> table_steps i = []"
    unfolding plan_actions(1)[OF assms(1) p] phases_Nil_iff by simp
  finally have "plan_steps p = [] \<longleftrightarrow> table_steps i = []" .
  then have "make_plan i = Some \<lparr>plan_steps = [], plan_findings = []\<rparr>
      \<longleftrightarrow> table_steps i = [] \<and> table_findings i = []"
    using p plan_actions(2)[OF assms(1) p] by (cases p) auto
  also have "\<dots> \<longleftrightarrow> departing_records i = []
      \<and> (\<forall>d\<in>set (bt_values (accepted i)). verdict_of i (accepted i) d = Keep)"
    by (rule table_empty_iff[OF assms(3)])
  also have "\<dots> \<longleftrightarrow> (\<forall>d\<in>set (active i). \<exists>r. state_get (pi_state i) (dm_key d) = Some r \<and> settled i d r)
     \<and> (\<forall>r\<in>set (records (pi_state i)). is_frozen i (mr_group r) \<or> mr_key r \<in> dm_key ` set (active i))"
    by (rule settled_iff[OF assms])
  finally show ?thesis .
qed

definition settled_input :: plan_input where
  "settled_input =
     \<lparr>pi_desired = [\<lparr>dm_key = mr_key example_record, dm_source = source_location example_record,
        dm_target = target_location example_record, dm_attrs = default_attrs\<rparr>],
      pi_state = example_state, pi_frozen = [],
      pi_observations =
        \<lparr>obs_sources = [(mr_key example_record, Resolved (mroot (mr_identity example_record)))],
         obs_targets = [(target_location example_record, Mounted (mr_identity example_record) None)]\<rparr>\<rparr>"

theorem plan_noop_iff_witness:
  "make_plan settled_input = Some \<lparr>plan_steps = [], plan_findings = []\<rparr>"
proof -
  have "make_plan settled_input = Some \<lparr>plan_steps = [], plan_findings = []\<rparr> \<longleftrightarrow>
     (\<forall>d\<in>set (active settled_input). \<exists>r. state_get (pi_state settled_input) (dm_key d) = Some r
        \<and> settled settled_input d r)
     \<and> (\<forall>r\<in>set (records (pi_state settled_input)). is_frozen settled_input (mr_group r)
        \<or> mr_key r \<in> dm_key ` set (active settled_input))"
    by (rule plan_noop_iff)
      (simp_all add: settled_input_def active_def is_frozen_def example_state_def state_wf_def bt_wf_def)
  moreover have "settled settled_input
      \<lparr>dm_key = mr_key example_record, dm_source = source_location example_record,
        dm_target = target_location example_record, dm_attrs = default_attrs\<rparr> example_record"
    by code_simp
  ultimately show ?thesis
    by (simp add: settled_input_def active_def is_frozen_def example_state_def records_def
        bt_values_def state_get_def bt_get_def)
qed

end
