(* ===== verification/Std_Paths.thy ===== *)
theory Std_Paths
  imports Prelude
begin

text \<open>
  What the program uses of the standard library on raw paths (byte strings): joining, the
  last component, the parent of a canonical path, and the UTF-8 check behind
  \<open>OsStr::to_str\<close> and \<open>read_to_string\<close>.
\<close>

text \<open>\<open>Path::join\<close> with a relative file name.\<close>

definition path_join :: "string \<Rightarrow> string \<Rightarrow> string" where
  "path_join dir file = (if dir = [] \<or> ends_with ''/'' dir then dir @ file else dir @ ''/'' @ file)"

text \<open>\<open>Path::file_name\<close>: the last component, unless it is \<open>..\<close>.\<close>

definition path_components :: "string \<Rightarrow> string list" where
  "path_components p = filter (\<lambda>c. c \<noteq> [] \<and> c \<noteq> ''.'') (split_on SLASH p)"

definition path_file_name :: "string \<Rightarrow> string option" where
  "path_file_name p =
     (let cs = path_components p in
      if cs = [] \<or> last cs = ''..'' then None else Some (last cs))"

text \<open>\<open>Path::parent\<close> and \<open>Path::file_name\<close> of a canonical path (absolute, no empty, dot or
  dot-dot components); the root has neither.\<close>

definition canonical_split :: "string \<Rightarrow> (string \<times> string) option" where
  "canonical_split p =
     (case rsplit_once SLASH p of
        None \<Rightarrow> None
      | Some (pre, leaf) \<Rightarrow>
          if leaf = [] then None else Some (if pre = [] then ''/'' else pre, leaf))"

text \<open>\<open>str::from_utf8\<close>: no overlong forms, no surrogates, at most U+10FFFF.\<close>

definition utf8_cont :: "char \<Rightarrow> bool" where
  "utf8_cont c = (128 \<le> byte c \<and> byte c \<le> 191)"

fun is_utf8 :: "string \<Rightarrow> bool" where
  "is_utf8 [] = True"
| "is_utf8 (a # s) =
     (let x = byte a in
      if x < 128 then is_utf8 s
      else if 194 \<le> x \<and> x \<le> 223 then (case s of b # r \<Rightarrow> utf8_cont b \<and> is_utf8 r | _ \<Rightarrow> False)
      else if 224 \<le> x \<and> x \<le> 239 then
        (case s of
           b # c # r \<Rightarrow>
             utf8_cont b \<and> utf8_cont c \<and> (x = 224 \<longrightarrow> 160 \<le> byte b) \<and> (x = 237 \<longrightarrow> byte b \<le> 159)
             \<and> is_utf8 r
         | _ \<Rightarrow> False)
      else if 240 \<le> x \<and> x \<le> 244 then
        (case s of
           b # c # d # r \<Rightarrow>
             utf8_cont b \<and> utf8_cont c \<and> utf8_cont d \<and> (x = 240 \<longrightarrow> 144 \<le> byte b)
             \<and> (x = 244 \<longrightarrow> byte b \<le> 143) \<and> is_utf8 r
         | _ \<Rightarrow> False)
      else False)"

lemma path_file_name_plain:
  assumes "path_file_name p = Some n"
  shows "n \<noteq> [] \<and> n \<noteq> ''.'' \<and> n \<noteq> ''..''"
proof -
  have n: "path_components p \<noteq> []" "n = last (path_components p)" "n \<noteq> ''..''"
    using assms by (auto simp: path_file_name_def Let_def split: if_splits)
  then have "n \<in> set (path_components p)" by simp
  with n(3) show ?thesis by (simp add: path_components_def)
qed

end
