(* ===== verification/Sys.thy ===== *)
theory Sys
  imports Membership Identity Paths
begin

text \<open>
  The system calls the program makes, as a parameter: a record of functions over a world
  \<open>'w\<close> (everything outside the process) and descriptors \<open>'fd\<close>.  A call returns its result or
  an error number, and the world after it; nothing is assumed about either.  Code that makes
  calls is a function from the world to a result and a world, composed with \<open>bindE\<close>, the
  \<open>?\<close> operator of the source.  Closing a descriptor is not modelled.  The constants are those
  of \<open>src/src/sys.rs\<close> and of the Linux headers.
\<close>

unbundle bit_operations_syntax

section \<open>Effects\<close>

definition retE :: "'a \<Rightarrow> 's \<Rightarrow> ('e + 'a) \<times> 's" where
  "retE x s = (Inr x, s)"

definition failE :: "'e \<Rightarrow> 's \<Rightarrow> ('e + 'a) \<times> 's" where
  "failE e s = (Inl e, s)"

definition bindE :: "('s \<Rightarrow> ('e + 'a) \<times> 's) \<Rightarrow> ('a \<Rightarrow> 's \<Rightarrow> ('e + 'b) \<times> 's) \<Rightarrow> 's \<Rightarrow> ('e + 'b) \<times> 's" where
  "bindE m f s = (case m s of (Inl e, s') \<Rightarrow> (Inl e, s') | (Inr x, s') \<Rightarrow> f x s')"

definition mapErrE :: "('e \<Rightarrow> 'f) \<Rightarrow> ('s \<Rightarrow> ('e + 'a) \<times> 's) \<Rightarrow> 's \<Rightarrow> ('f + 'a) \<times> 's" where
  "mapErrE f m s = (case m s of (r, s') \<Rightarrow> (map_err f r, s'))"

text \<open>\<open>Result\<close> values of the pure code, inside effects.\<close>

definition liftE :: "'e + 'a \<Rightarrow> 's \<Rightarrow> ('e + 'a) \<times> 's" where
  "liftE r s = (r, s)"

lemma retE_eq [simp]: "retE x s = (y, s') \<longleftrightarrow> y = Inr x \<and> s' = s"
  by (auto simp: retE_def)

lemma failE_eq [simp]: "failE e s = (y, s') \<longleftrightarrow> y = Inl e \<and> s' = s"
  by (auto simp: failE_def)

lemma bindE_Inr_iff:
  "bindE m f s = (Inr y, s'') \<longleftrightarrow> (\<exists>x s'. m s = (Inr x, s') \<and> f x s' = (Inr y, s''))"
  by (auto simp: bindE_def split: prod.splits sum.splits)

lemma bindE_Inl_iff:
  "bindE m f s = (Inl e, s'') \<longleftrightarrow>
     m s = (Inl e, s'') \<or> (\<exists>x s'. m s = (Inr x, s') \<and> f x s' = (Inl e, s''))"
  by (auto simp: bindE_def split: prod.splits sum.splits)

lemma mapErrE_Inr_iff [simp]: "mapErrE f m s = (Inr x, s') \<longleftrightarrow> m s = (Inr x, s')"
  by (auto simp: mapErrE_def split: prod.splits)

lemma bindE_retE [simp]: "bindE (retE x) f = f x"
  by (auto simp: bindE_def retE_def)

section \<open>Flags and results\<close>

datatype oflag =
  O_RDONLY | O_WRONLY | O_RDWR | O_CREATE | O_TRUNC | O_PATH | O_DIRECTORY | O_NOFOLLOW | O_CLOEXEC

datatype resolve_flag =
  RESOLVE_BENEATH | RESOLVE_NO_SYMLINKS | RESOLVE_NO_MAGICLINKS | RESOLVE_NO_XDEV

datatype at_flag = AT_EMPTY_PATH | AT_SYMLINK_NOFOLLOW | AT_REMOVEDIR

datatype tree_flag = OT_AT_EMPTY_PATH | OPEN_TREE_CLONE | OPEN_TREE_CLOEXEC

datatype move_flag = MOVE_MOUNT_F_EMPTY_PATH | MOVE_MOUNT_T_EMPTY_PATH

datatype umount_flag = MNT_DETACH

datatype errno = EAGAIN | EEXIST | ENOENT | ENOTEMPTY | EBUSY | Errno nat

datatype io_error = Os errno | Custom string

datatype file_type =
  FT_Regular | FT_Directory | FT_Symlink | FT_Fifo | FT_Socket | FT_CharDevice | FT_BlockDevice
  | FT_Unknown

definition STATX_TYPE :: u32 where "STATX_TYPE = 0x1"
definition STATX_NLINK :: u32 where "STATX_NLINK = 0x4"
definition STATX_INO :: u32 where "STATX_INO = 0x100"
definition STATX_SIZE :: u32 where "STATX_SIZE = 0x200"
definition STATX_BASIC_STATS :: u32 where "STATX_BASIC_STATS = 0x7FF"
definition STATX_MNT_ID :: u32 where "STATX_MNT_ID = 0x1000"
definition STATX_MNT_ID_UNIQUE :: u32 where "STATX_MNT_ID_UNIQUE = 0x4000"
definition STATX_ATTR_MOUNT_ROOT :: u64 where "STATX_ATTR_MOUNT_ROOT = 0x2000"

definition MOUNT_ATTR_RDONLY :: u64 where "MOUNT_ATTR_RDONLY = 0x1"
definition MOUNT_ATTR_NOSUID :: u64 where "MOUNT_ATTR_NOSUID = 0x2"
definition MOUNT_ATTR_NODEV :: u64 where "MOUNT_ATTR_NODEV = 0x4"
definition MOUNT_ATTR_NOEXEC :: u64 where "MOUNT_ATTR_NOEXEC = 0x8"
definition MOUNT_ATTR_NOSYMFOLLOW :: u64 where "MOUNT_ATTR_NOSYMFOLLOW = 0x200000"

definition ST_RDONLY :: u64 where "ST_RDONLY = 0x1"
definition ST_NOSUID :: u64 where "ST_NOSUID = 0x2"
definition ST_NODEV :: u64 where "ST_NODEV = 0x4"
definition ST_NOEXEC :: u64 where "ST_NOEXEC = 0x8"
definition ST_NOSYMFOLLOW :: u64 where "ST_NOSYMFOLLOW = 0x2000"

record statx =
  stx_mask :: u32
  stx_attributes :: u64
  stx_attributes_mask :: u64
  stx_nlink :: u32
  stx_type :: file_type
  stx_size :: u64
  stx_ino :: u64
  stx_mnt_id :: u64
  stx_dev_major :: u32
  stx_dev_minor :: u32

section \<open>The calls\<close>

type_synonym ('w, 'a) sys = "'w \<Rightarrow> (errno + 'a) \<times> 'w"
type_synonym ('w, 'a) io = "'w \<Rightarrow> (io_error + 'a) \<times> 'w"

text \<open>A directory is read as the list of what its stream yields, entry by entry.\<close>

record ('w, 'fd) kernel =
  k_open :: "string \<Rightarrow> oflag list \<Rightarrow> ('w, 'fd) sys"
  k_openat :: "'fd \<Rightarrow> string \<Rightarrow> oflag list \<Rightarrow> nat \<Rightarrow> ('w, 'fd) sys"
  k_openat2 :: "'fd \<Rightarrow> string \<Rightarrow> oflag list \<Rightarrow> resolve_flag list \<Rightarrow> ('w, 'fd) sys"
  k_mkdirat :: "'fd \<Rightarrow> string \<Rightarrow> nat \<Rightarrow> ('w, unit) sys"
  k_unlinkat :: "'fd \<Rightarrow> string \<Rightarrow> at_flag list \<Rightarrow> ('w, unit) sys"
  k_renameat :: "'fd \<Rightarrow> string \<Rightarrow> string \<Rightarrow> ('w, unit) sys"
  k_statx :: "'fd \<Rightarrow> string \<Rightarrow> at_flag list \<Rightarrow> u32 \<Rightarrow> ('w, statx) sys"
  k_fstatvfs :: "'fd \<Rightarrow> ('w, u64) sys"
  k_read_dir :: "'fd \<Rightarrow> ('w, (errno + string) list) sys"
  k_read_to_end :: "'fd \<Rightarrow> ('w, string) sys"
  k_write_all :: "'fd \<Rightarrow> string \<Rightarrow> ('w, unit) sys"
  k_fchmod :: "'fd \<Rightarrow> nat \<Rightarrow> ('w, unit) sys"
  k_fsync :: "'fd \<Rightarrow> ('w, unit) sys"
  k_open_tree :: "'fd \<Rightarrow> string \<Rightarrow> tree_flag list \<Rightarrow> ('w, 'fd) sys"
  k_mount_setattr :: "'fd \<Rightarrow> u64 \<Rightarrow> ('w, unit) sys"
  k_move_mount :: "'fd \<Rightarrow> 'fd \<Rightarrow> move_flag list \<Rightarrow> ('w, unit) sys"
  k_umount :: "string \<Rightarrow> umount_flag list \<Rightarrow> ('w, unit) sys"
  k_raw_fd :: "'fd \<Rightarrow> nat"
  k_now :: "'w \<Rightarrow> int \<times> 'w"
  k_text :: "errno \<Rightarrow> string"

text \<open>\<open>io::Error\<close>'s \<open>Display\<close>.\<close>

definition show_io_error :: "('w, 'fd) kernel \<Rightarrow> io_error \<Rightarrow> string" where
  "show_io_error K e = (case e of Os n \<Rightarrow> k_text K n | Custom s \<Rightarrow> s)"

text \<open>\<open>?\<close> on an \<open>Errno\<close> in a function returning \<open>io::Result\<close>.\<close>

definition osE :: "('w, 'a) sys \<Rightarrow> ('w, 'a) io" where
  "osE m = mapErrE Os m"

lemma osE_Inr_iff [simp]: "osE m w = (Inr x, w') \<longleftrightarrow> m w = (Inr x, w')"
  by (simp add: osE_def)

end
