(* ===== verification/Toy_Kernel.thy ===== *)
theory Toy_Kernel
  imports Sys "HOL-Library.AList"
begin

text \<open>
  A small complete kernel, on which the properties of the code that makes system calls are
  exhibited.  Descriptors are the paths they were opened with; the world says whether the one
  mount it knows is there, what the files hold; in
  every directory it lists a directory \<open>a\<close> and an empty file \<open>m\<close>.  It is not a model
  of Linux, and nothing but the witnesses uses it.
\<close>

record toy =
  ty_mounted :: bool
  ty_files :: "(string \<times> string) list"
  ty_clock :: int

definition toy_statx :: "bool \<Rightarrow> statx" where
  "toy_statx mounted =
     \<lparr>stx_mask = 0x7FFF, stx_attributes = (if mounted then STATX_ATTR_MOUNT_ROOT else 0),
      stx_attributes_mask = STATX_ATTR_MOUNT_ROOT, stx_nlink = 2, stx_type = FT_Directory,
      stx_size = 0, stx_ino = 42, stx_mnt_id = 7, stx_dev_major = 8, stx_dev_minor = 1\<rparr>"

definition toy_kernel :: "(toy, string) kernel" where
  "toy_kernel =
     \<lparr>k_open = (\<lambda>p _ w. (Inr p, w)),
      k_openat = (\<lambda>_ p flags _ w.
        if O_TRUNC \<in> set flags then (Inr p, w\<lparr>ty_files := AList.update p [] (ty_files w)\<rparr>)
        else if map_of (ty_files w) p = None then (Inl ENOENT, w) else (Inr p, w)),
      k_openat2 = (\<lambda>d p _ _ w. (Inr (d @ ''/'' @ p), w)),
      k_mkdirat = (\<lambda>_ _ _ w. (Inl EEXIST, w)),
      k_unlinkat = (\<lambda>_ p flags w.
        if AT_REMOVEDIR \<in> set flags then (Inr (), w)
        else (Inr (), w\<lparr>ty_files := AList.delete p (ty_files w)\<rparr>)),
      k_renameat = (\<lambda>_ p q w.
        case map_of (ty_files w) p of
          None \<Rightarrow> (Inl ENOENT, w)
        | Some s \<Rightarrow> (Inr (), w\<lparr>ty_files := AList.update q s (AList.delete p (ty_files w))\<rparr>)),
      k_statx = (\<lambda>_ p _ _ w.
        (Inr ((toy_statx (ty_mounted w))\<lparr>stx_type := if p = ''m'' then FT_Regular else FT_Directory\<rparr>), w)),
      k_fstatvfs = (\<lambda>_ w. (Inr 6, w)),
      k_read_dir = (\<lambda>_ w. (Inr [Inr ''.'', Inr ''..'', Inr ''a'', Inr ''m''], w)),
      k_read_to_end = (\<lambda>f w. (case map_of (ty_files w) f of None \<Rightarrow> Inl ENOENT | Some s \<Rightarrow> Inr s, w)),
      k_write_all = (\<lambda>f s w.
        case map_of (ty_files w) f of
          None \<Rightarrow> (Inl ENOENT, w)
        | Some c \<Rightarrow> (Inr (), w\<lparr>ty_files := AList.update f (c @ s) (ty_files w)\<rparr>)),
      k_fchmod = (\<lambda>_ _ w. (Inr (), w)),
      k_fsync = (\<lambda>_ w. (Inr (), w)),
      k_open_tree = (\<lambda>f _ _ w. (Inr f, w)),
      k_mount_setattr = (\<lambda>_ _ w. (Inr (), w)),
      k_move_mount = (\<lambda>_ _ _ w. (Inr (), w\<lparr>ty_mounted := True\<rparr>)),
      k_umount = (\<lambda>_ _ w. (Inr (), w\<lparr>ty_mounted := False\<rparr>)),
      k_raw_fd = length,
      k_now = (\<lambda>w. (ty_clock w, w\<lparr>ty_clock := ty_clock w + 1\<rparr>)),
      k_text = (\<lambda>e. ''error'')\<rparr>"

definition toy_world :: "bool \<Rightarrow> toy" where
  "toy_world mounted = \<lparr>ty_mounted = mounted, ty_files = [], ty_clock = 0\<rparr>"

end
