(* ===== verification/Fsops.thy ===== *)
theory Fsops
  imports Sys
begin

text \<open>
  \<open>src/src/fsops.rs\<close>: file system operations through descriptors, confined beneath trusted
  roots.
\<close>

definition CONFINED :: "resolve_flag list" where
  "CONFINED = [RESOLVE_BENEATH, RESOLVE_NO_SYMLINKS, RESOLVE_NO_MAGICLINKS]"

definition EAGAIN_RETRIES :: nat where "EAGAIN_RETRIES = 16"

definition open_root :: "('w, 'fd) kernel \<Rightarrow> string \<Rightarrow> ('w, 'fd) io" where
  "open_root K path = osE (k_open K path [O_PATH, O_DIRECTORY, O_CLOEXEC])"

definition open_dir_for_reading :: "('w, 'fd) kernel \<Rightarrow> string \<Rightarrow> ('w, 'fd) io" where
  "open_dir_for_reading K path = osE (k_open K path [O_RDONLY, O_DIRECTORY, O_CLOEXEC])"

text \<open>The loop of \<open>retry_eagain\<close>, from a number of attempts already made.\<close>

function retry_eagain_from :: "nat \<Rightarrow> ('w, 'fd) sys \<Rightarrow> ('w, 'fd) io" where
  "retry_eagain_from attempts opn w =
     (case opn w of
        (Inl e, w') \<Rightarrow>
          if e = EAGAIN \<and> attempts < EAGAIN_RETRIES then retry_eagain_from (attempts + 1) opn w'
          else (Inl (Os e), w')
      | (Inr fd, w') \<Rightarrow> (Inr fd, w'))"
  by pat_completeness auto
termination by (relation "measure (\<lambda>(attempts, _, _). EAGAIN_RETRIES - attempts)") auto

declare retry_eagain_from.simps [simp del]

definition retry_eagain :: "('w, 'fd) sys \<Rightarrow> ('w, 'fd) io" where
  "retry_eagain = retry_eagain_from 0"

definition resolve_dir :: "('w, 'fd) kernel \<Rightarrow> 'fd \<Rightarrow> string \<Rightarrow> ('w, 'fd) io" where
  "resolve_dir K root relative =
     retry_eagain (k_openat2 K root relative [O_PATH, O_DIRECTORY, O_CLOEXEC] CONFINED)"

definition ensure_one :: "('w, 'fd) kernel \<Rightarrow> 'fd \<Rightarrow> string \<Rightarrow> ('w, 'fd) io" where
  "ensure_one K parent component w =
     (if component = [] \<or> component = ''.'' \<or> component = ''..'' \<or> SLASH \<in> set component
      then (Inl (Custom ([CHR 0x27] @ component @ [CHR 0x27] @ '' is not a plain directory name'')), w)
      else (case k_mkdirat K parent component 493 w of
              (Inr _, w') \<Rightarrow> resolve_dir K parent component w'
            | (Inl e, w') \<Rightarrow>
                if e = EEXIST then resolve_dir K parent component w' else (Inl (Os e), w')))"

fun ensure_rest :: "('w, 'fd) kernel \<Rightarrow> 'fd \<Rightarrow> string list \<Rightarrow> ('w, 'fd) io" where
  "ensure_rest K current [] = retE current"
| "ensure_rest K current (c # cs) = bindE (ensure_one K current c) (\<lambda>fd. ensure_rest K fd cs)"

definition ensure_dirs_beneath :: "('w, 'fd) kernel \<Rightarrow> 'fd \<Rightarrow> string list \<Rightarrow> ('w, 'fd) io" where
  "ensure_dirs_beneath K root components =
     (case components of
        [] \<Rightarrow> failE (Custom ''no path components'')
      | first # rest \<Rightarrow> bindE (ensure_one K root first) (\<lambda>fd. ensure_rest K fd rest))"

definition remove_empty_dir ::
  "('w, 'fd) kernel \<Rightarrow> 'fd \<Rightarrow> string option \<Rightarrow> string \<Rightarrow> ('w, bool) io" where
  "remove_empty_dir K root relative_parent leaf =
     bindE (case relative_parent of Some rel \<Rightarrow> resolve_dir K root rel | None \<Rightarrow> retE root)
       (\<lambda>parent w.
          case k_unlinkat K parent leaf [AT_REMOVEDIR] w of
            (Inr _, w') \<Rightarrow> (Inr True, w')
          | (Inl e, w') \<Rightarrow>
              if e = ENOTEMPTY \<or> e = EBUSY \<or> e = ENOENT then (Inr False, w')
              else (Inl (Os e), w'))"

definition stat_dev_ino :: "statx \<Rightarrow> dev_ino" where
  "stat_dev_ino st =
     \<lparr>dev_major = stx_dev_major st, dev_minor = stx_dev_minor st, ino = stx_ino st\<rparr>"

definition fd_dev_ino :: "('w, 'fd) kernel \<Rightarrow> 'fd \<Rightarrow> ('w, dev_ino) io" where
  "fd_dev_ino K fd =
     bindE (osE (k_statx K fd [] [AT_EMPTY_PATH] STATX_INO)) (\<lambda>st. retE (stat_dev_ino st))"

definition is_deleted :: "('w, 'fd) kernel \<Rightarrow> 'fd \<Rightarrow> ('w, bool) io" where
  "is_deleted K fd =
     bindE (osE (k_statx K fd [] [AT_EMPTY_PATH] STATX_NLINK)) (\<lambda>st. retE (stx_nlink st = 0))"

fun entry_kind_of :: "file_type \<Rightarrow> u64 \<Rightarrow> entry_kind" where
  "entry_kind_of FT_Regular sz = Regular sz"
| "entry_kind_of FT_Directory _ = Directory"
| "entry_kind_of FT_Symlink _ = Symlink"
| "entry_kind_of FT_Fifo _ = Fifo"
| "entry_kind_of FT_Socket _ = Socket"
| "entry_kind_of FT_CharDevice _ = CharDevice"
| "entry_kind_of FT_BlockDevice _ = BlockDevice"
| "entry_kind_of FT_Unknown _ = Unknown"

text \<open>The loop of \<open>scan_membership\<close>: an error of the stream ends the scan, an error of
  \<open>statx\<close> is kept with its entry.\<close>

fun scan_entries ::
  "('w, 'fd) kernel \<Rightarrow> 'fd \<Rightarrow> (errno + string) list \<Rightarrow> (string \<times> (string + entry_kind)) list
     \<Rightarrow> ('w, (string \<times> (string + entry_kind)) list) io" where
  "scan_entries K dir [] acc = retE acc"
| "scan_entries K dir (Inl e # es) acc = failE (Os e)"
| "scan_entries K dir (Inr bytes # es) acc =
     (if bytes = ''.'' \<or> bytes = ''..'' then scan_entries K dir es acc
      else (\<lambda>w. case k_statx K dir bytes [AT_SYMLINK_NOFOLLOW] (STATX_TYPE OR STATX_SIZE) w of
              (Inr st, w') \<Rightarrow>
                scan_entries K dir es (acc @ [(bytes, Inr (entry_kind_of (stx_type st) (stx_size st)))]) w'
            | (Inl e, w') \<Rightarrow> scan_entries K dir es (acc @ [(bytes, Inl (k_text K e))]) w'))"

definition scan_membership :: "('w, 'fd) kernel \<Rightarrow> 'fd \<Rightarrow> ('w, membership) io" where
  "scan_membership K dir =
     bindE (osE (k_read_dir K dir)) (\<lambda>es.
     bindE (scan_entries K dir es []) (\<lambda>entries. retE (from_entries entries)))"

section \<open>Retries\<close>

text \<open>The world after \<open>n\<close> attempts, if they all failed with \<open>EAGAIN\<close>.\<close>

fun all_eagain :: "nat \<Rightarrow> ('w, 'fd) sys \<Rightarrow> 'w \<Rightarrow> 'w option" where
  "all_eagain 0 opn w = Some w"
| "all_eagain (Suc n) opn w =
     (case opn w of (Inl e, w') \<Rightarrow> if e = EAGAIN then all_eagain n opn w' else None | _ \<Rightarrow> None)"

lemma retry_eagain_from_spec:
  assumes "attempts \<le> EAGAIN_RETRIES"
  shows "\<exists>n w'. n \<le> EAGAIN_RETRIES - attempts \<and> all_eagain n opn w = Some w'
    \<and> (case opn w' of
         (Inl e, w'') \<Rightarrow> (e = EAGAIN \<longrightarrow> n = EAGAIN_RETRIES - attempts)
            \<and> retry_eagain_from attempts opn w = (Inl (Os e), w'')
       | (Inr fd, w'') \<Rightarrow> retry_eagain_from attempts opn w = (Inr fd, w''))"
  using assms
proof (induction attempts opn w rule: retry_eagain_from.induct)
  case (1 attempts opn w)
  show ?case
  proof (cases "\<exists>w'. opn w = (Inl EAGAIN, w') \<and> attempts < EAGAIN_RETRIES")
    case True
    then obtain w' where w': "opn w = (Inl EAGAIN, w')" and less: "attempts < EAGAIN_RETRIES" by blast
    from "1.IH"[OF w'[symmetric] refl] less obtain n v where
      n: "n \<le> EAGAIN_RETRIES - (attempts + 1)" "all_eagain n opn w' = Some v"
      "case opn v of
         (Inl e, w'') \<Rightarrow> (e = EAGAIN \<longrightarrow> n = EAGAIN_RETRIES - (attempts + 1))
            \<and> retry_eagain_from (attempts + 1) opn w' = (Inl (Os e), w'')
       | (Inr fd, w'') \<Rightarrow> retry_eagain_from (attempts + 1) opn w' = (Inr fd, w'')"
      by auto
    have "retry_eagain_from attempts opn w = retry_eagain_from (attempts + 1) opn w'"
      by (subst retry_eagain_from.simps) (simp add: w' less)
    with n less w' show ?thesis
      by (intro exI[of _ "Suc n"] exI[of _ v]) (auto split: prod.splits sum.splits)
  next
    case False
    have "case opn w of
         (Inl e, w'') \<Rightarrow> (e = EAGAIN \<longrightarrow> 0 = EAGAIN_RETRIES - attempts)
            \<and> retry_eagain_from attempts opn w = (Inl (Os e), w'')
       | (Inr fd, w'') \<Rightarrow> retry_eagain_from attempts opn w = (Inr fd, w'')"
      using False 1(2) by (cases "opn w"; cases "fst (opn w)") (auto simp: retry_eagain_from.simps[of _ _ w])
    then show ?thesis by (intro exI[of _ 0] exI[of _ w]) simp
  qed
qed

text \<open>Resolving a path retries only lookups that failed with \<open>EAGAIN\<close>, at most 16 times,
  and returns what the first other attempt, or the seventeenth, returned; so it always
  ends, and reports \<open>EAGAIN\<close> only after 17 attempts.\<close>

theorem resolve_dir_retries:
  "\<exists>n w'. n \<le> 16
    \<and> all_eagain n (k_openat2 K root relative [O_PATH, O_DIRECTORY, O_CLOEXEC] CONFINED) w = Some w'
    \<and> (case k_openat2 K root relative [O_PATH, O_DIRECTORY, O_CLOEXEC] CONFINED w' of
         (Inl e, w'') \<Rightarrow> (e = EAGAIN \<longrightarrow> n = 16) \<and> resolve_dir K root relative w = (Inl (Os e), w'')
       | (Inr fd, w'') \<Rightarrow> resolve_dir K root relative w = (Inr fd, w''))"
  using retry_eagain_from_spec[of 0 "k_openat2 K root relative [O_PATH, O_DIRECTORY, O_CLOEXEC] CONFINED" w]
  unfolding resolve_dir_def retry_eagain_def EAGAIN_RETRIES_def minus_nat.diff_0 by blast

text \<open>The same on a kernel whose first two lookups race with a rename.\<close>

definition racing_kernel :: "(nat, nat) kernel" where
  "racing_kernel = undefined
     \<lparr>k_openat2 := (\<lambda>fd _ _ _ n. if n < 2 then (Inl EAGAIN, n + 1) else (Inr fd, n + 1))\<rparr>"

theorem resolve_dir_retries_witness:
  "\<exists>n w'. n \<le> 16 \<and> all_eagain n (k_openat2 racing_kernel 5 ''a'' [O_PATH, O_DIRECTORY, O_CLOEXEC] CONFINED) 0
      = Some w' \<and> resolve_dir racing_kernel 5 ''a'' 0 = (Inr 5, 3)"
proof -
  obtain n w' where n: "n \<le> 16"
    "all_eagain n (k_openat2 racing_kernel 5 ''a'' [O_PATH, O_DIRECTORY, O_CLOEXEC] CONFINED) 0 = Some w'"
    using resolve_dir_retries[of racing_kernel 5 "''a''" 0] by blast
  moreover have "resolve_dir racing_kernel 5 ''a'' 0 = (Inr 5, 3)"
    by (simp add: resolve_dir_def retry_eagain_def racing_kernel_def EAGAIN_RETRIES_def
        retry_eagain_from.simps)
  ultimately show ?thesis by blast
qed

end
