(* ===== verification/Mount.thy ===== *)
theory Mount
  imports Fsops Plan Toy_Kernel
begin

text \<open>
  \<open>src/src/mount.rs\<close>: inspecting, creating and removing mounts through pinned descriptors.
\<close>

section \<open>Operations\<close>

definition attr_bits :: "mount_attrs \<Rightarrow> u64" where
  "attr_bits attrs =
     (let bits = MOUNT_ATTR_NOSUID OR MOUNT_ATTR_NODEV;
          bits = (if read_only attrs then bits OR MOUNT_ATTR_RDONLY else bits);
          bits = (if noexec attrs then bits OR MOUNT_ATTR_NOEXEC else bits);
          bits = (if nosymfollow attrs then bits OR MOUNT_ATTR_NOSYMFOLLOW else bits)
      in bits)"

definition read_identity :: "('w, 'fd) kernel \<Rightarrow> 'fd \<Rightarrow> bool \<Rightarrow> ('w, mount_identity) io" where
  "read_identity K fd unique_supported =
     bindE (osE (k_statx K fd [] [AT_EMPTY_PATH] (STATX_INO OR STATX_MNT_ID))) (\<lambda>st.
       if stx_mask st AND STATX_MNT_ID = 0
       then failE (Custom ''kernel did not report STATX_MNT_ID'')
       else
         bindE
           (if unique_supported then
              bindE (osE (k_statx K fd [] [AT_EMPTY_PATH] STATX_MNT_ID_UNIQUE)) (\<lambda>st2.
                retE (if stx_mask st2 AND STATX_MNT_ID_UNIQUE \<noteq> 0 then Some (stx_mnt_id st2) else None))
            else retE None)
           (\<lambda>unique. retE \<lparr>mnt_id = stx_mnt_id st, mnt_id_unique = unique, mroot = stat_dev_ino st\<rparr>))"

definition attrs_of_flags :: "u64 \<Rightarrow> observed_attrs" where
  "attrs_of_flags flags =
     \<lparr>oa_read_only = (flags AND ST_RDONLY = ST_RDONLY),
      oa_nosuid = (flags AND ST_NOSUID = ST_NOSUID),
      oa_nodev = (flags AND ST_NODEV = ST_NODEV),
      oa_noexec = (flags AND ST_NOEXEC = ST_NOEXEC),
      oa_nosymfollow = (flags AND ST_NOSYMFOLLOW \<noteq> 0)\<rparr>"

definition observe_attrs :: "('w, 'fd) kernel \<Rightarrow> 'fd \<Rightarrow> ('w, observed_attrs) io" where
  "observe_attrs K fd = bindE (osE (k_fstatvfs K fd)) (\<lambda>flags. retE (attrs_of_flags flags))"

definition is_mount_root :: "('w, 'fd) kernel \<Rightarrow> 'fd \<Rightarrow> ('w, bool) io" where
  "is_mount_root K fd =
     bindE (osE (k_statx K fd [] [AT_EMPTY_PATH] STATX_BASIC_STATS)) (\<lambda>st.
       if stx_attributes_mask st AND STATX_ATTR_MOUNT_ROOT \<noteq> STATX_ATTR_MOUNT_ROOT
       then failE (Custom ''kernel did not report STATX_ATTR_MOUNT_ROOT'')
       else retE (stx_attributes st AND STATX_ATTR_MOUNT_ROOT = STATX_ATTR_MOUNT_ROOT))"

definition inspect_fd :: "('w, 'fd) kernel \<Rightarrow> 'fd \<Rightarrow> bool \<Rightarrow> ('w, target_state) io" where
  "inspect_fd K fd unique_supported =
     bindE (is_mount_root K fd) (\<lambda>is_root.
       if \<not> is_root then retE NotMounted
       else
         bindE (read_identity K fd unique_supported) (\<lambda>identity w.
           case observe_attrs K fd w of (r, w') \<Rightarrow> (Inr (Mounted identity (result_ok r)), w')))"

definition inspect :: "('w, 'fd) kernel \<Rightarrow> 'fd \<Rightarrow> string \<Rightarrow> bool \<Rightarrow> 'w \<Rightarrow> target_state \<times> 'w" where
  "inspect K target_root relative unique_supported w =
     (case resolve_dir K target_root relative w of
        (Inl e, w') \<Rightarrow>
          if e = Os ENOENT then (NotMounted, w') else (TS_Unavailable (show_io_error K e), w')
      | (Inr fd, w') \<Rightarrow>
          (case inspect_fd K fd unique_supported w' of
             (Inr t, w'') \<Rightarrow> (t, w'')
           | (Inl e, w'') \<Rightarrow> (TS_Unavailable (show_io_error K e), w'')))"

definition create_bind ::
  "('w, 'fd) kernel \<Rightarrow> 'fd \<Rightarrow> 'fd \<Rightarrow> mount_attrs \<Rightarrow> bool \<Rightarrow> ('w, mount_identity) io" where
  "create_bind K source target attrs unique_supported =
     bindE (osE (k_open_tree K source [] [OT_AT_EMPTY_PATH, OPEN_TREE_CLONE, OPEN_TREE_CLOEXEC])) (\<lambda>tree.
     bindE (osE (k_mount_setattr K tree (attr_bits attrs))) (\<lambda>_.
     bindE (osE (k_move_mount K tree target [MOVE_MOUNT_F_EMPTY_PATH, MOVE_MOUNT_T_EMPTY_PATH])) (\<lambda>_.
       read_identity K tree unique_supported)))"

datatype verified_op_error =
    VO_NotMounted
  | VO_IdentityMismatch u64
  | VO_Io io_error

definition show_verified_op_error :: "('w, 'fd) kernel \<Rightarrow> verified_op_error \<Rightarrow> string" where
  "show_verified_op_error K e =
     (case e of
        VO_NotMounted \<Rightarrow> ''nothing is mounted at the target''
      | VO_IdentityMismatch found \<Rightarrow>
          ''the mount at the target is not the recorded mount (found mount ID ''
            @ show_nat (unat found) @ '')''
      | VO_Io io \<Rightarrow> show_io_error K io)"

definition open_verified ::
  "('w, 'fd) kernel \<Rightarrow> 'fd \<Rightarrow> string \<Rightarrow> mount_identity \<Rightarrow> bool
     \<Rightarrow> 'w \<Rightarrow> (verified_op_error + 'fd) \<times> 'w" where
  "open_verified K target_root relative expected unique_supported =
     bindE (mapErrE VO_Io (resolve_dir K target_root relative)) (\<lambda>fd.
     bindE (mapErrE VO_Io (inspect_fd K fd unique_supported)) (\<lambda>t.
       case t of
         Mounted identity _ \<Rightarrow>
           if matches identity expected then retE fd
           else failE (VO_IdentityMismatch (mnt_id identity))
       | _ \<Rightarrow> failE VO_NotMounted))"

definition proc_link :: "('w, 'fd) kernel \<Rightarrow> 'fd \<Rightarrow> string" where
  "proc_link K fd = ''/proc/self/fd/'' @ show_nat (k_raw_fd K fd)"

definition unmount_verified ::
  "('w, 'fd) kernel \<Rightarrow> 'fd \<Rightarrow> string \<Rightarrow> mount_identity \<Rightarrow> bool
     \<Rightarrow> 'w \<Rightarrow> (verified_op_error + unit) \<times> 'w" where
  "unmount_verified K target_root relative expected unique_supported =
     bindE (open_verified K target_root relative expected unique_supported) (\<lambda>fd.
     bindE (mapErrE VO_Io (osE (k_open K (proc_link K fd) [O_PATH, O_CLOEXEC]))) (\<lambda>via_link.
     bindE (mapErrE VO_Io (read_identity K via_link unique_supported)) (\<lambda>identity.
       if \<not> matches identity expected
       then failE (VO_Io (Custom (proc_link K fd @ '' does not lead to the verified mount'')))
       else mapErrE VO_Io (osE (k_umount K (proc_link K fd) [MNT_DETACH])))))"

section \<open>Attributes\<close>

lemma attr_bits_cases:
  "attr_bits a = (6 OR (if read_only a then 1 else 0) OR (if noexec a then 8 else 0)
     OR (if nosymfollow a then 0x200000 else 0))"
  by (simp add: attr_bits_def MOUNT_ATTR_NOSUID_def MOUNT_ATTR_NODEV_def MOUNT_ATTR_RDONLY_def
      MOUNT_ATTR_NOEXEC_def MOUNT_ATTR_NOSYMFOLLOW_def Let_def)

lemma attr_bits_sound:
  "attr_bits a AND MOUNT_ATTR_NOSUID \<noteq> 0 \<and> attr_bits a AND MOUNT_ATTR_NODEV \<noteq> 0
   \<and> (attr_bits a AND MOUNT_ATTR_RDONLY \<noteq> 0 \<longleftrightarrow> read_only a)
   \<and> (attr_bits a AND MOUNT_ATTR_NOEXEC \<noteq> 0 \<longleftrightarrow> noexec a)
   \<and> (attr_bits a AND MOUNT_ATTR_NOSYMFOLLOW \<noteq> 0 \<longleftrightarrow> nosymfollow a)"
  by (cases "read_only a"; cases "noexec a"; cases "nosymfollow a")
    (simp_all add: attr_bits_cases MOUNT_ATTR_NOSUID_def MOUNT_ATTR_NODEV_def MOUNT_ATTR_RDONLY_def
      MOUNT_ATTR_NOEXEC_def MOUNT_ATTR_NOSYMFOLLOW_def)

section \<open>Creating\<close>

text \<open>C9. A bind mount is never attached without its restrictions: the attributes given to
  the detached clone always contain nosuid and nodev, and each configured restriction
  exactly when it is configured; when setting them fails the clone is not attached (the
  result is the same whatever the attaching call would do); and when creation succeeds, the
  clone of the source was attached at the target after its attributes were set, and the
  identity returned was read from it.\<close>

theorem create_bind_restricted:
  "(attr_bits a AND MOUNT_ATTR_NOSUID \<noteq> 0 \<and> attr_bits a AND MOUNT_ATTR_NODEV \<noteq> 0
    \<and> (attr_bits a AND MOUNT_ATTR_RDONLY \<noteq> 0 \<longleftrightarrow> read_only a)
    \<and> (attr_bits a AND MOUNT_ATTR_NOEXEC \<noteq> 0 \<longleftrightarrow> noexec a)
    \<and> (attr_bits a AND MOUNT_ATTR_NOSYMFOLLOW \<noteq> 0 \<longleftrightarrow> nosymfollow a))
   \<and> ((\<exists>tree w1. k_open_tree K source [] [OT_AT_EMPTY_PATH, OPEN_TREE_CLONE, OPEN_TREE_CLOEXEC] w = (Inr tree, w1)
        \<and> (\<exists>w2. k_mount_setattr K tree (attr_bits a) w1 = (Inr (), w2)))
      \<or> create_bind (K\<lparr>k_move_mount := f\<rparr>) source target a u w = create_bind K source target a u w)
   \<and> (\<forall>ident w'. create_bind K source target a u w = (Inr ident, w') \<longrightarrow>
        (\<exists>tree w1 w2 w3.
           k_open_tree K source [] [OT_AT_EMPTY_PATH, OPEN_TREE_CLONE, OPEN_TREE_CLOEXEC] w = (Inr tree, w1)
           \<and> k_mount_setattr K tree (attr_bits a) w1 = (Inr (), w2)
           \<and> k_move_mount K tree target [MOVE_MOUNT_F_EMPTY_PATH, MOVE_MOUNT_T_EMPTY_PATH] w2 = (Inr (), w3)
           \<and> read_identity K tree u w3 = (Inr ident, w')))"
proof (intro conjI)
  show "(\<exists>tree w1. k_open_tree K source [] [OT_AT_EMPTY_PATH, OPEN_TREE_CLONE, OPEN_TREE_CLOEXEC] w = (Inr tree, w1)
        \<and> (\<exists>w2. k_mount_setattr K tree (attr_bits a) w1 = (Inr (), w2)))
      \<or> create_bind (K\<lparr>k_move_mount := f\<rparr>) source target a u w = create_bind K source target a u w"
    by (auto simp: create_bind_def bindE_def osE_def mapErrE_def split: prod.splits sum.splits)
  show "\<forall>ident w'. create_bind K source target a u w = (Inr ident, w') \<longrightarrow>
        (\<exists>tree w1 w2 w3.
           k_open_tree K source [] [OT_AT_EMPTY_PATH, OPEN_TREE_CLONE, OPEN_TREE_CLOEXEC] w = (Inr tree, w1)
           \<and> k_mount_setattr K tree (attr_bits a) w1 = (Inr (), w2)
           \<and> k_move_mount K tree target [MOVE_MOUNT_F_EMPTY_PATH, MOVE_MOUNT_T_EMPTY_PATH] w2 = (Inr (), w3)
           \<and> read_identity K tree u w3 = (Inr ident, w'))"
    by (auto simp: create_bind_def bindE_Inr_iff)
qed (use attr_bits_sound[of a] in blast)+

theorem create_bind_restricted_witness:
  "\<exists>w1 w2 w3. k_mount_setattr toy_kernel ''/s'' (attr_bits default_attrs) w1 = (Inr (), w2)
     \<and> k_move_mount toy_kernel ''/s'' ''/t'' [MOVE_MOUNT_F_EMPTY_PATH, MOVE_MOUNT_T_EMPTY_PATH] w2
         = (Inr (), w3) \<and> ty_mounted w3"
proof -
  have run: "create_bind toy_kernel ''/s'' ''/t'' default_attrs False (toy_world False)
      = (Inr \<lparr>mnt_id = 7, mnt_id_unique = None, mroot = \<lparr>dev_major = 8, dev_minor = 1, ino = 42\<rparr>\<rparr>,
         toy_world True)"
    by code_simp
  obtain tree w1 w2 w3 where
    "k_open_tree toy_kernel ''/s'' [] [OT_AT_EMPTY_PATH, OPEN_TREE_CLONE, OPEN_TREE_CLOEXEC]
       (toy_world False) = (Inr tree, w1)"
    "k_mount_setattr toy_kernel tree (attr_bits default_attrs) w1 = (Inr (), w2)"
    "k_move_mount toy_kernel tree ''/t'' [MOVE_MOUNT_F_EMPTY_PATH, MOVE_MOUNT_T_EMPTY_PATH] w2
       = (Inr (), w3)"
    using create_bind_restricted[of default_attrs toy_kernel "''/s''" "toy_world False" "\<lambda>_ _ _ w. (Inr (), w)"
        "''/t''" False] run
    by blast
  then show ?thesis by (auto simp: toy_kernel_def)
qed

section \<open>Removing\<close>

lemma unmount_verified_split:
  "unmount_verified K root rel expected u w =
     (case open_verified K root rel expected u w of
        (Inl e, w1) \<Rightarrow> (Inl e, w1)
      | (Inr fd, w1) \<Rightarrow>
          (case k_open K (proc_link K fd) [O_PATH, O_CLOEXEC] w1 of
             (Inl e, w2) \<Rightarrow> (Inl (VO_Io (Os e)), w2)
           | (Inr via, w2) \<Rightarrow>
               (case read_identity K via u w2 of
                  (Inl e, w3) \<Rightarrow> (Inl (VO_Io e), w3)
                | (Inr ident, w3) \<Rightarrow>
                    if \<not> matches ident expected
                    then (Inl (VO_Io (Custom (proc_link K fd @ '' does not lead to the verified mount''))), w3)
                    else (case k_umount K (proc_link K fd) [MNT_DETACH] w3 of
                            (Inl e, w4) \<Rightarrow> (Inl (VO_Io (Os e)), w4)
                          | (Inr x, w4) \<Rightarrow> (Inr x, w4)))))"
  by (auto simp: unmount_verified_def bindE_def osE_def mapErrE_def failE_def
      split: prod.splits sum.splits)

lemma umount_irrelevant:
  "read_identity (K\<lparr>k_umount := f\<rparr>) = read_identity K"
  "inspect_fd (K\<lparr>k_umount := f\<rparr>) = inspect_fd K"
  "open_verified (K\<lparr>k_umount := f\<rparr>) = open_verified K"
  "proc_link (K\<lparr>k_umount := f\<rparr>) = proc_link K"
proof -
  show 1: "read_identity (K\<lparr>k_umount := f\<rparr>) = read_identity K"
    by (intro ext) (simp add: read_identity_def cong: if_cong)
  show 2: "inspect_fd (K\<lparr>k_umount := f\<rparr>) = inspect_fd K"
    by (intro ext) (simp add: inspect_fd_def is_mount_root_def observe_attrs_def 1 cong: if_cong)
  show "open_verified (K\<lparr>k_umount := f\<rparr>) = open_verified K"
    by (intro ext) (simp add: open_verified_def resolve_dir_def 2)
qed (simp add: fun_eq_iff proc_link_def)

text \<open>What was checked before the unmounting call.\<close>

definition verified_link ::
  "('w, 'fd) kernel \<Rightarrow> 'fd \<Rightarrow> string \<Rightarrow> mount_identity \<Rightarrow> bool \<Rightarrow> 'w \<Rightarrow> string \<Rightarrow> 'w \<Rightarrow> bool" where
  "verified_link K root rel expected u w link w3 =
     (\<exists>fd w0 ident0 attrs w1 via w2 ident.
        resolve_dir K root rel w = (Inr fd, w0) \<and> link = proc_link K fd
        \<and> inspect_fd K fd u w0 = (Inr (Mounted ident0 attrs), w1) \<and> matches ident0 expected
        \<and> k_open K link [O_PATH, O_CLOEXEC] w1 = (Inr via, w2)
        \<and> read_identity K via u w2 = (Inr ident, w3) \<and> matches ident expected)"

lemma open_verified_Inr:
  "open_verified K root rel expected u w = (Inr fd, w1) \<Longrightarrow>
     \<exists>w0 ident attrs. resolve_dir K root rel w = (Inr fd, w0)
       \<and> inspect_fd K fd u w0 = (Inr (Mounted ident attrs), w1) \<and> matches ident expected"
proof -
  assume "open_verified K root rel expected u w = (Inr fd, w1)"
  then obtain fd' w0 t w2 where *: "resolve_dir K root rel w = (Inr fd', w0)"
    "inspect_fd K fd' u w0 = (Inr t, w2)"
    "(case t of Mounted ident _ \<Rightarrow> if matches ident expected then retE fd'
        else failE (VO_IdentityMismatch (mnt_id ident)) | _ \<Rightarrow> failE VO_NotMounted) w2 = (Inr fd, w1)"
    unfolding open_verified_def bindE_Inr_iff by auto
  then show ?thesis by (cases t) (auto split: if_splits)
qed

lemma unmount_verified_cases:
  "(\<exists>link w3. verified_link K root rel expected u w link w3
      \<and> unmount_verified K root rel expected u w =
          (case k_umount K link [MNT_DETACH] w3 of
             (Inl e, w4) \<Rightarrow> (Inl (VO_Io (Os e)), w4) | (Inr x, w4) \<Rightarrow> (Inr x, w4)))
   \<or> (\<exists>e w'. \<forall>f. unmount_verified (K\<lparr>k_umount := f\<rparr>) root rel expected u w = (Inl e, w'))"
proof -
  obtain r1 w1 where 1: "open_verified K root rel expected u w = (r1, w1)" by fastforce
  show ?thesis
  proof (cases r1)
    case (Inl e)
    with 1 show ?thesis by (simp add: unmount_verified_split umount_irrelevant)
  next
    case fd: (Inr fd)
    obtain r2 w2 where 2: "k_open K (proc_link K fd) [O_PATH, O_CLOEXEC] w1 = (r2, w2)" by fastforce
    show ?thesis
    proof (cases r2)
      case (Inl e)
      with 1 2 fd show ?thesis by (simp add: unmount_verified_split umount_irrelevant)
    next
      case via: (Inr via)
      obtain r3 w3 where 3: "read_identity K via u w2 = (r3, w3)" by fastforce
      show ?thesis
      proof (cases "\<exists>ident. r3 = Inr ident \<and> matches ident expected")
        case True
        then obtain ident where ident: "r3 = Inr ident" "matches ident expected" by blast
        have "verified_link K root rel expected u w (proc_link K fd) w3"
          using open_verified_Inr[OF 1[unfolded fd]] 2 3 via ident
          unfolding verified_link_def by blast
        moreover have "unmount_verified K root rel expected u w =
          (case k_umount K (proc_link K fd) [MNT_DETACH] w3 of
             (Inl e, w4) \<Rightarrow> (Inl (VO_Io (Os e)), w4) | (Inr x, w4) \<Rightarrow> (Inr x, w4))"
          using 1 2 3 fd via ident by (simp add: unmount_verified_split)
        ultimately show ?thesis by blast
      next
        case False
        with 1 2 3 fd via show ?thesis
          by (cases r3) (auto simp: unmount_verified_split umount_irrelevant)
      qed
    qed
  qed
qed

lemma unmount_verified_Inr:
  assumes "unmount_verified K root rel expected u w = (Inr x, w')"
  shows "\<exists>link w3. verified_link K root rel expected u w link w3
    \<and> k_umount K link [MNT_DETACH] w3 = (Inr x, w')"
  using unmount_verified_cases[of K root rel expected u w]
proof (elim disjE exE conjE)
  fix link w3
  assume "verified_link K root rel expected u w link w3"
    "unmount_verified K root rel expected u w =
       (case k_umount K link [MNT_DETACH] w3 of
          (Inl e, w4) \<Rightarrow> (Inl (VO_Io (Os e)), w4) | (Inr x, w4) \<Rightarrow> (Inr x, w4))"
  with assms show ?thesis by (auto split: prod.splits sum.splits)
next
  fix e w1
  assume "\<forall>f. unmount_verified (K\<lparr>k_umount := f\<rparr>) root rel expected u w = (Inl e, w1)"
  then have "unmount_verified (K\<lparr>k_umount := k_umount K\<rparr>) root rel expected u w = (Inl e, w1)" by blast
  with assms show ?thesis by simp
qed

text \<open>C8. The unmounting system call is made only on a descriptor whose mount root was
  inspected and whose identity matches the expected one, both on the descriptor and through
  the link the call is given; otherwise the operation fails and its result does not depend
  on what the call would do.  When the operation succeeds, that call succeeded.\<close>

theorem unmount_verified_safe:
  "(\<exists>link w3. verified_link K root rel expected u w link w3
      \<and> unmount_verified K root rel expected u w =
          (case k_umount K link [MNT_DETACH] w3 of
             (Inl e, w4) \<Rightarrow> (Inl (VO_Io (Os e)), w4) | (Inr x, w4) \<Rightarrow> (Inr x, w4)))
   \<or> (\<exists>e w'. \<forall>f. unmount_verified (K\<lparr>k_umount := f\<rparr>) root rel expected u w = (Inl e, w'))"
  by (rule unmount_verified_cases)

end
