(* ===== verification/Config.thy ===== *)
theory Config
  imports Template_Props Paths
begin

text \<open>
  \<open>src/src/config.rs\<close>: the validated configuration and its validation from parsed files.
  TOML itself is a parameter.  The text of an issue is represented by its arguments.  Reading
  the files is in the theory Config\_Load.
\<close>

definition MAX_RESYNC_INTERVAL_SECS :: nat where "MAX_RESYNC_INTERVAL_SECS = 86400"
definition DEFAULT_RESYNC_INTERVAL_SECS :: nat where "DEFAULT_RESYNC_INTERVAL_SECS = 60"
definition DEFAULT_STATE_DIR :: abs_path where
  "DEFAULT_STATE_DIR = AbsPath [''var'', ''lib'', ''byssus'']"

section \<open>Validated types\<close>

record daemon_config =
  dc_user :: "string option"
  dc_state_dir :: abs_path
  dc_resync_interval :: "nat option"

definition default_daemon :: daemon_config where
  "default_daemon =
     \<lparr>dc_user = None, dc_state_dir = DEFAULT_STATE_DIR,
      dc_resync_interval = Some DEFAULT_RESYNC_INTERVAL_SECS\<rparr>"

record group_config =
  gc_name :: group_id
  gc_source_root :: abs_path
  gc_source :: template
  gc_target_root :: abs_path
  gc_target :: template
  gc_membership :: abs_path
  gc_attrs :: mount_attrs
  gc_origin :: string

record group_set_config =
  sc_name :: name
  sc_membership_root :: abs_path
  sc_source_root :: abs_path
  sc_source :: template
  sc_target_root :: abs_path
  sc_target :: template
  sc_depth :: nat
  sc_attrs :: mount_attrs
  sc_origin :: string

text \<open>\<open>GroupSetConfig::group\<close>; the assertion on the number of levels, like the panics it
  calls, is \<open>None\<close>.\<close>

definition set_group ::
  "group_set_config \<Rightarrow> name list \<Rightarrow> (interpolate_error + group_config) option" where
  "set_group sc path =
     (if length path \<noteq> sc_depth sc then None
      else
        let membership = fold (\<lambda>level dir. join_name dir level) path (sc_membership_root sc) in
        (case in_set (sc_name sc) path of
           None \<Rightarrow> None
         | Some gid \<Rightarrow>
             (case bind_levels (sc_source sc) path of
                None \<Rightarrow> None
              | Some (Inl e) \<Rightarrow> Some (Inl e)
              | Some (Inr source) \<Rightarrow>
                  (case bind_levels (sc_target sc) path of
                     None \<Rightarrow> None
                   | Some (Inl e) \<Rightarrow> Some (Inl e)
                   | Some (Inr target) \<Rightarrow>
                       Some (Inr
                         \<lparr>gc_name = gid, gc_source_root = sc_source_root sc, gc_source = source,
                          gc_target_root = sc_target_root sc, gc_target = target,
                          gc_membership = membership, gc_attrs = sc_attrs sc,
                          gc_origin = sc_origin sc\<rparr>)))))"

record config =
  cfg_daemon :: daemon_config
  cfg_groups :: "(name, group_config) btree"
  cfg_group_sets :: "(name, group_set_config) btree"
  cfg_files :: "string list"

definition default_config :: config where
  "default_config =
     \<lparr>cfg_daemon = default_daemon, cfg_groups = [], cfg_group_sets = [], cfg_files = []\<rparr>"

section \<open>Issues\<close>

datatype severity = Warning | Error

datatype issue_message =
    Msg_Path string abs_path_error
  | Msg_Template string template_error
  | Msg_InvalidGroupName name_error
  | Msg_GroupDefined string
  | Msg_InvalidSetName name_error
  | Msg_SetDefined string
  | Msg_DaemonNotMain
  | Msg_InvalidUser string
  | Msg_ResyncTooLong nat
  | Msg_InTargetRoot abs_path abs_path "string option"
  | Msg_Overlap abs_path abs_path string
  | Msg_InvalidToml string
  | Msg_FileMissing
  | Msg_CannotRead string
  | Msg_DirMissing
  | Msg_CannotList string
  | Msg_CannotRemove string
  | Msg_NoFiles
  | Msg_CandidateName
  | Msg_CandidateTwice string
  | Msg_CannotResolve string
  | Msg_CannotStat string string
  | Msg_Owner string nat nat
  | Msg_Writable string nat
  | Msg_NotDirectory string abs_path
  | Msg_PathMissing string abs_path
  | Msg_CannotVerify string abs_path string
  | Msg_CannotAccess string abs_path string

record issue =
  is_severity :: severity
  is_file :: "string option"
  is_group :: "string option"
  is_message :: issue_message

type_synonym issues = "issue list"

definition push_issue ::
  "severity \<Rightarrow> string option \<Rightarrow> string option \<Rightarrow> issue_message \<Rightarrow> issues \<Rightarrow> issues" where
  "push_issue sev file grp msg is =
     is @ [\<lparr>is_severity = sev, is_file = file, is_group = grp, is_message = msg\<rparr>]"

definition err :: "string option \<Rightarrow> string option \<Rightarrow> issue_message \<Rightarrow> issues \<Rightarrow> issues" where
  "err = push_issue Error"

definition warn :: "string option \<Rightarrow> string option \<Rightarrow> issue_message \<Rightarrow> issues \<Rightarrow> issues" where
  "warn = push_issue Warning"

definition has_errors :: "issues \<Rightarrow> bool" where
  "has_errors is = list_ex (\<lambda>i. is_severity i = Error) is"

lemma has_errors_simps [simp]:
  "\<not> has_errors []"
  "has_errors (err f g m is)"
  "has_errors (warn f g m is) \<longleftrightarrow> has_errors is"
  "has_errors (push_issue sev f g m is) \<longleftrightarrow> sev = Error \<or> has_errors is"
  by (auto simp: has_errors_def err_def warn_def push_issue_def)

section \<open>Parsed files\<close>

record raw_group =
  rg_source_root :: string
  rg_source :: string
  rg_target_root :: string
  rg_target :: string
  rg_membership :: string
  rg_read_only :: "bool option"
  rg_noexec :: "bool option"
  rg_nosymfollow :: "bool option"

record raw_group_set =
  rs_membership_root :: string
  rs_source_root :: string
  rs_source :: string
  rs_target_root :: string
  rs_target :: string
  rs_read_only :: "bool option"
  rs_noexec :: "bool option"
  rs_nosymfollow :: "bool option"

record raw_daemon =
  rd_user :: "string option"
  rd_state_dir :: "string option"
  rd_resync_interval_secs :: "nat option"

record raw_file =
  rf_daemon :: "raw_daemon option"
  rf_groups :: "(string, raw_group) btree"
  rf_group_sets :: "(string, raw_group_set) btree"

section \<open>Validation\<close>

definition is_valid_user_name :: "string \<Rightarrow> bool" where
  "is_valid_user_name user =
     (let body = (case strip_suffix ''$'' user of Some b \<Rightarrow> b | None \<Rightarrow> user) in
      body \<noteq> [] \<and> length user \<le> 32 \<and> \<not> starts_with ''-'' body
      \<and> list_all (\<lambda>b. is_ascii_alphanumeric b \<or> b = CHR ''_'' \<or> b = CHR ''.'' \<or> b = CHR ''-'') body)"

definition validate_daemon :: "raw_daemon \<Rightarrow> string \<Rightarrow> issues \<Rightarrow> daemon_config \<times> issues" where
  "validate_daemon r path is =
     (let (d, is) =
        (case rd_user r of
           None \<Rightarrow> (default_daemon, is)
         | Some user \<Rightarrow>
             if is_valid_user_name user then (default_daemon\<lparr>dc_user := Some user\<rparr>, is)
             else (default_daemon, err (Some path) None (Msg_InvalidUser user) is));
          (d, is) =
        (case rd_state_dir r of
           None \<Rightarrow> (d, is)
         | Some dir \<Rightarrow>
             (case abs_path_new dir of
                Inr p \<Rightarrow> (d\<lparr>dc_state_dir := p\<rparr>, is)
              | Inl e \<Rightarrow> (d, err (Some path) None (Msg_Path ''daemon.state_dir'' e) is)))
      in (case rd_resync_interval_secs r of
            None \<Rightarrow> (d, is)
          | Some secs \<Rightarrow>
              if secs > MAX_RESYNC_INTERVAL_SECS
              then (d, err (Some path) None (Msg_ResyncTooLong secs) is)
              else (d\<lparr>dc_resync_interval := (if secs \<noteq> 0 then Some secs else None)\<rparr>, is)))"

text \<open>The closures \<open>abs\<close> and \<open>template\<close> of \<open>validate_group\<close>.\<close>

definition check_abs ::
  "string \<Rightarrow> string \<Rightarrow> string \<Rightarrow> string \<Rightarrow> issues \<Rightarrow> abs_path option \<times> issues" where
  "check_abs path g field v is =
     (case abs_path_new v of
        Inr p \<Rightarrow> (Some p, is) | Inl e \<Rightarrow> (None, err (Some path) (Some g) (Msg_Path field e) is))"

definition check_template ::
  "(string \<Rightarrow> template_error + template) \<Rightarrow> string \<Rightarrow> string \<Rightarrow> string \<Rightarrow> string \<Rightarrow> issues
     \<Rightarrow> template option \<times> issues" where
  "check_template parse path g field v is =
     (case parse v of
        Inr t \<Rightarrow> (Some t, is) | Inl e \<Rightarrow> (None, err (Some path) (Some g) (Msg_Template field e) is))"

definition raw_attrs :: "bool option \<Rightarrow> bool option \<Rightarrow> bool option \<Rightarrow> mount_attrs" where
  "raw_attrs ro ne nf =
     \<lparr>read_only = (case ro of Some b \<Rightarrow> b | None \<Rightarrow> read_only default_attrs),
      noexec = (case ne of Some b \<Rightarrow> b | None \<Rightarrow> noexec default_attrs),
      nosymfollow = (case nf of Some b \<Rightarrow> b | None \<Rightarrow> nosymfollow default_attrs)\<rparr>"

definition validate_group ::
  "name \<Rightarrow> raw_group \<Rightarrow> string \<Rightarrow> issues \<Rightarrow> group_config option \<times> issues" where
  "validate_group n r path is =
     (let g = as_str n;
          (source_root, is) = check_abs path g ''source_root'' (rg_source_root r) is;
          (target_root, is) = check_abs path g ''target_root'' (rg_target_root r) is;
          (membership, is) = check_abs path g ''membership'' (rg_membership r) is;
          (source, is) = check_template template_parse path g ''source'' (rg_source r) is;
          (target, is) = check_template template_parse path g ''target'' (rg_target r) is
      in (case (source_root, source, target_root, target, membership) of
            (Some sr, Some s, Some tr, Some t, Some m) \<Rightarrow>
              (Some \<lparr>gc_name = statically n, gc_source_root = sr, gc_source = s,
                     gc_target_root = tr, gc_target = t, gc_membership = m,
                     gc_attrs = raw_attrs (rg_read_only r) (rg_noexec r) (rg_nosymfollow r),
                     gc_origin = path\<rparr>, is)
          | _ \<Rightarrow> (None, is)))"

text \<open>The loop over the levels: the first missing one is reported.\<close>

fun check_levels :: "template \<Rightarrow> nat list \<Rightarrow> nat option" where
  "check_levels t [] = None"
| "check_levels t (l # ls) = (if \<not> has_level t l then Some l else check_levels t ls)"

definition set_label :: "name \<Rightarrow> string" where
  "set_label st = as_str st @ ''/*''"

definition validate_group_set ::
  "name \<Rightarrow> raw_group_set \<Rightarrow> string \<Rightarrow> issues \<Rightarrow> group_set_config option \<times> issues" where
  "validate_group_set n r path is =
     (let g = set_label n;
          (membership_root, is) = check_abs path g ''membership_root'' (rs_membership_root r) is;
          (source_root, is) = check_abs path g ''source_root'' (rs_source_root r) is;
          (target_root, is) = check_abs path g ''target_root'' (rs_target_root r) is;
          (source, is) = check_template template_parse_for_set path g ''source'' (rs_source r) is;
          (target, is) = check_template template_parse_for_set path g ''target'' (rs_target r) is;
          dp = (case (source, target) of
                  (Some s, Some t) \<Rightarrow> max (max (depth s) (depth t)) 1 | _ \<Rightarrow> 1)
      in (case (case target of Some t \<Rightarrow> check_levels t [0..<dp] | None \<Rightarrow> None) of
            Some level \<Rightarrow>
              (None, err (Some path) (Some g)
                 (Msg_Template ''target'' (T_MissingLevel (level_placeholder level))) is)
          | None \<Rightarrow>
              (case (membership_root, source_root, source, target_root, target) of
                 (Some m, Some sr, Some s, Some tr, Some t) \<Rightarrow>
                   (Some \<lparr>sc_name = n, sc_membership_root = m, sc_source_root = sr, sc_source = s,
                          sc_target_root = tr, sc_target = t, sc_depth = dp,
                          sc_attrs = raw_attrs (rs_read_only r) (rs_noexec r) (rs_nosymfollow r),
                          sc_origin = path\<rparr>, is)
               | _ \<Rightarrow> (None, is))))"

section \<open>Checks across groups\<close>

record membership_area =
  ma_label :: string
  ma_origin :: string
  ma_path :: abs_path
  ma_target_root :: abs_path
  ma_is_set :: bool

definition areas :: "config \<Rightarrow> membership_area list" where
  "areas cfg =
     map (\<lambda>g. \<lparr>ma_label = show_group_id (gc_name g), ma_origin = gc_origin g,
                ma_path = gc_membership g, ma_target_root = gc_target_root g, ma_is_set = False\<rparr>)
       (bt_values (cfg_groups cfg))
     @ map (\<lambda>s. \<lparr>ma_label = set_label (sc_name s), ma_origin = sc_origin s,
                ma_path = sc_membership_root s, ma_target_root = sc_target_root s, ma_is_set = True\<rparr>)
       (bt_values (cfg_group_sets cfg))"

definition check_pair :: "membership_area \<Rightarrow> membership_area \<Rightarrow> issues \<Rightarrow> issues" where
  "check_pair area other is =
     (let is = (if is_at_or_beneath (ma_path area) (ma_target_root other)
                then err (Some (ma_origin area)) (Some (ma_label area))
                       (Msg_InTargetRoot (ma_path area) (ma_target_root other)
                          (if ma_label area = ma_label other then None else Some (ma_label other))) is
                else is)
      in if ma_label area \<noteq> ma_label other \<and> ma_is_set other
            \<and> (is_at_or_beneath (ma_path area) (ma_path other)
               \<or> is_at_or_beneath (ma_path other) (ma_path area))
         then err (Some (ma_origin area)) (Some (ma_label area))
                (Msg_Overlap (ma_path area) (ma_path other) (ma_label other)) is
         else is)"

definition check_cross_group :: "config \<Rightarrow> issues \<Rightarrow> issues" where
  "check_cross_group cfg is =
     fold (\<lambda>area is. fold (\<lambda>other is. check_pair area other is) (areas cfg) is) (areas cfg) is"

section \<open>Assembling\<close>

record assembling =
  as_config :: config
  as_origins :: "(name, string) btree"
  as_set_origins :: "(name, string) btree"
  as_issues :: issues

definition add_group :: "string \<Rightarrow> string \<times> raw_group \<Rightarrow> assembling \<Rightarrow> assembling" where
  "add_group path e a =
     (case e of (group_name, r) \<Rightarrow>
        (case name_new group_name of
           Inl e \<Rightarrow>
             a\<lparr>as_issues := err (Some path) (Some group_name) (Msg_InvalidGroupName e) (as_issues a)\<rparr>
         | Inr n \<Rightarrow>
             (case bt_get (as_origins a) n of
                Some first \<Rightarrow>
                  a\<lparr>as_issues := err (Some path) (Some group_name) (Msg_GroupDefined first) (as_issues a)\<rparr>
              | None \<Rightarrow>
                  let a = a\<lparr>as_origins := bt_insert n path (as_origins a)\<rparr> in
                  (case validate_group n r path (as_issues a) of
                     (None, is) \<Rightarrow> a\<lparr>as_issues := is\<rparr>
                   | (Some g, is) \<Rightarrow>
                       a\<lparr>as_issues := is,
                         as_config := (as_config a)\<lparr>cfg_groups :=
                           bt_insert (hd (gid_path (gc_name g))) g (cfg_groups (as_config a))\<rparr>\<rparr>))))"

definition add_group_set :: "string \<Rightarrow> string \<times> raw_group_set \<Rightarrow> assembling \<Rightarrow> assembling" where
  "add_group_set path e a =
     (case e of (set_name, r) \<Rightarrow>
      let label = set_name @ ''/*'' in
        (case name_new set_name of
           Inl e \<Rightarrow>
             a\<lparr>as_issues := err (Some path) (Some label) (Msg_InvalidSetName e) (as_issues a)\<rparr>
         | Inr n \<Rightarrow>
             (case bt_get (as_set_origins a) n of
                Some first \<Rightarrow>
                  a\<lparr>as_issues := err (Some path) (Some label) (Msg_SetDefined first) (as_issues a)\<rparr>
              | None \<Rightarrow>
                  let a = a\<lparr>as_set_origins := bt_insert n path (as_set_origins a)\<rparr> in
                  (case validate_group_set n r path (as_issues a) of
                     (None, is) \<Rightarrow> a\<lparr>as_issues := is\<rparr>
                   | (Some s, is) \<Rightarrow>
                       a\<lparr>as_issues := is,
                         as_config := (as_config a)\<lparr>cfg_group_sets :=
                           bt_insert (sc_name s) s (cfg_group_sets (as_config a))\<rparr>\<rparr>))))"

definition add_file :: "string \<times> raw_file \<times> bool \<Rightarrow> assembling \<Rightarrow> assembling" where
  "add_file f a =
     (case f of (path, r, is_main) \<Rightarrow>
      let a = a\<lparr>as_config := (as_config a)\<lparr>cfg_files := cfg_files (as_config a) @ [path]\<rparr>\<rparr>;
          a = (case rf_daemon r of
                 None \<Rightarrow> a
               | Some d \<Rightarrow>
                   if is_main then
                     (case validate_daemon d path (as_issues a) of
                        (dc, is) \<Rightarrow> a\<lparr>as_config := (as_config a)\<lparr>cfg_daemon := dc\<rparr>, as_issues := is\<rparr>)
                   else a\<lparr>as_issues := err (Some path) None Msg_DaemonNotMain (as_issues a)\<rparr>);
          a = fold (add_group path) (rf_groups r) a
      in fold (add_group_set path) (rf_group_sets r) a)"

definition assemble :: "(string \<times> raw_file \<times> bool) list \<Rightarrow> issues \<Rightarrow> config \<times> issues" where
  "assemble files is =
     (let a = fold add_file files
            \<lparr>as_config = default_config, as_origins = [], as_set_origins = [], as_issues = is\<rparr>
      in (as_config a, check_cross_group (as_config a) (as_issues a)))"

text \<open>\<open>load_from_strs\<close>, with the TOML library as a parameter.\<close>

fun parse_documents ::
  "(string \<Rightarrow> string + raw_file) \<Rightarrow> (string \<times> string \<times> bool) list \<Rightarrow> issues
     \<Rightarrow> (string \<times> raw_file \<times> bool) list \<times> issues" where
  "parse_documents toml [] is = ([], is)"
| "parse_documents toml ((path, content, is_main) # ds) is =
     (case toml content of
        Inr r \<Rightarrow> (case parse_documents toml ds is of (fs, is) \<Rightarrow> ((path, r, is_main) # fs, is))
      | Inl e \<Rightarrow> parse_documents toml ds (err (Some path) None (Msg_InvalidToml e) is))"

record loaded =
  ld_config :: config
  ld_warnings :: issues

definition load_from_strs ::
  "(string \<Rightarrow> string + raw_file) \<Rightarrow> (string \<times> string \<times> bool) list \<Rightarrow> issues + loaded" where
  "load_from_strs toml documents =
     (let (parsed, is) = parse_documents toml documents [];
          (cfg, is) = assemble parsed is
      in if has_errors is then Inl is else Inr \<lparr>ld_config = cfg, ld_warnings = is\<rparr>)"

end
