(* ===== verification/Config_Props.thy ===== *)
theory Config_Props
  imports Config
begin

text \<open>
  What a configuration that loads without errors guarantees.
\<close>

section \<open>What validation establishes\<close>

definition group_ok :: "group_config \<Rightarrow> bool" where
  "group_ok g =
     (gid_valid (gc_name g) \<and> abs_path_valid (gc_source_root g) \<and> abs_path_valid (gc_target_root g)
      \<and> abs_path_valid (gc_membership g) \<and> template_ok False (gc_source g)
      \<and> template_ok False (gc_target g))"

definition group_set_ok :: "group_set_config \<Rightarrow> bool" where
  "group_set_ok s =
     (name_valid (sc_name s) \<and> abs_path_valid (sc_membership_root s)
      \<and> abs_path_valid (sc_source_root s) \<and> abs_path_valid (sc_target_root s)
      \<and> (\<exists>text. template_parse_for_set text = Inr (sc_source s))
      \<and> (\<exists>text. template_parse_for_set text = Inr (sc_target s))
      \<and> depth (sc_source s) \<le> sc_depth s \<and> depth (sc_target s) \<le> sc_depth s
      \<and> 1 \<le> sc_depth s \<and> sc_depth s \<le> MAX_SET_DEPTH
      \<and> (\<forall>l<sc_depth s. has_level (sc_target s) l))"

definition daemon_ok :: "daemon_config \<Rightarrow> bool" where
  "daemon_ok d =
     (abs_path_valid (dc_state_dir d)
      \<and> (case dc_user d of Some u \<Rightarrow> is_valid_user_name u | None \<Rightarrow> True)
      \<and> (case dc_resync_interval d of
           Some secs \<Rightarrow> 1 \<le> secs \<and> secs \<le> MAX_RESYNC_INTERVAL_SECS | None \<Rightarrow> True))"

text \<open>No membership directory lies at or beneath a target root, and no two membership
  locations, one of which is a set's, overlap.\<close>

definition areas_ok :: "config \<Rightarrow> bool" where
  "areas_ok cfg =
     (\<forall>a\<in>set (areas cfg). \<forall>b\<in>set (areas cfg).
        \<not> is_at_or_beneath (ma_path a) (ma_target_root b)
        \<and> (ma_label a \<noteq> ma_label b \<and> ma_is_set b \<longrightarrow>
             \<not> is_at_or_beneath (ma_path a) (ma_path b)
             \<and> \<not> is_at_or_beneath (ma_path b) (ma_path a)))"

definition config_ok :: "config \<Rightarrow> bool" where
  "config_ok cfg =
     (daemon_ok (cfg_daemon cfg)
      \<and> bt_wf (cfg_groups cfg) \<and> bt_wf (cfg_group_sets cfg)
      \<and> (\<forall>(n, g)\<in>set (cfg_groups cfg). gc_name g = statically n \<and> group_ok g)
      \<and> (\<forall>(n, s)\<in>set (cfg_group_sets cfg). sc_name s = n \<and> group_set_ok s)
      \<and> areas_ok cfg)"

lemma default_daemon_ok: "daemon_ok default_daemon"
  by (simp add: daemon_ok_def default_daemon_def DEFAULT_STATE_DIR_def abs_path_valid_def
      abs_component_ok_def DEFAULT_RESYNC_INTERVAL_SECS_def MAX_RESYNC_INTERVAL_SECS_def)

lemma validate_daemon_ok: "daemon_ok (fst (validate_daemon r path is))"
  using default_daemon_ok
  by (auto simp: validate_daemon_def daemon_ok_def Let_def abs_path_new_valid
      split: option.splits sum.splits if_splits)

lemma check_abs_Some: "check_abs path g field v is = (Some p, is') \<Longrightarrow> abs_path_valid p \<and> is' = is"
  by (auto simp: check_abs_def abs_path_new_valid split: sum.splits)

lemma check_template_Some:
  "check_template parse path g field v is = (Some t, is') \<Longrightarrow> parse v = Inr t \<and> is' = is"
  by (auto simp: check_template_def split: sum.splits)

lemma gid_valid_statically: "name_valid n \<Longrightarrow> gid_valid (statically n)"
  by (simp add: gid_valid_def statically_def)

lemma validate_group_Some:
  assumes "validate_group n r path is = (Some g, is')" "name_valid n"
  shows "gc_name g = statically n \<and> group_ok g"
  using assms
  by (auto simp: validate_group_def Let_def group_ok_def gid_valid_statically template_parse_def
      dest!: check_abs_Some check_template_Some split: prod.splits option.splits
      intro: parse_inner_ok(1))

lemma depth_le:
  assumes "\<And>k. Level k \<in> set (concat (comps t)) \<Longrightarrow> k < m"
  shows "depth t \<le> m"
proof -
  let ?ls = "[Suc l. Level l \<leftarrow> concat (comps t)]"
  have "Suc k \<le> m" if "Level k \<in> set ps" "ps \<in> set (comps t)" for k ps
    using assms[of k] that by (auto simp: Suc_le_eq)
  then have "\<forall>n\<in>set ?ls. n \<le> m" by (auto split: piece.splits)
  moreover have "\<forall>n\<in>set ls. n \<le> m \<Longrightarrow> ls \<noteq> [] \<Longrightarrow> Max (set ls) \<le> m" for ls by simp
  ultimately show ?thesis unfolding depth_def Let_def by presburger
qed

lemma depth_for_set: "template_parse_for_set s = Inr t \<Longrightarrow> depth t \<le> MAX_SET_DEPTH"
proof (rule depth_le)
  fix k assume "template_parse_for_set s = Inr t" "Level k \<in> set (concat (comps t))"
  then obtain ps where "component_ok True ps" "Level k \<in> set ps"
    using parse_inner_ok(1)[of s True t] by (auto simp: template_parse_for_set_def template_ok_def)
  then show "k < MAX_SET_DEPTH"
    by (auto simp: component_ok_def piece_ok_def MAX_SET_DEPTH_def LEVEL_PLACEHOLDERS_def)
qed

lemma check_levels_None: "check_levels t ls = None \<longleftrightarrow> (\<forall>l\<in>set ls. has_level t l)"
  by (induction ls) auto

lemma validate_group_set_Some:
  assumes "validate_group_set n r path is = (Some s, is')" "name_valid n"
  shows "sc_name s = n \<and> group_set_ok s"
proof -
  let ?g = "set_label n"
  obtain m is1 where 1: "check_abs path ?g ''membership_root'' (rs_membership_root r) is = (m, is1)" by fastforce
  obtain sr is2 where 2: "check_abs path ?g ''source_root'' (rs_source_root r) is1 = (sr, is2)" by fastforce
  obtain tr is3 where 3: "check_abs path ?g ''target_root'' (rs_target_root r) is2 = (tr, is3)" by fastforce
  obtain src is4 where 4: "check_template template_parse_for_set path ?g ''source'' (rs_source r) is3 = (src, is4)"
    by fastforce
  obtain tgt is5 where 5: "check_template template_parse_for_set path ?g ''target'' (rs_target r) is4 = (tgt, is5)"
    by fastforce
  from assms(1) obtain m' sr' tr' src' tgt' where some: "m = Some m'" "sr = Some sr'" "tr = Some tr'"
    "src = Some src'" "tgt = Some tgt'"
    by (auto simp: validate_group_set_def 1 2 3 4 5 Let_def split: option.splits)
  let ?d = "max (max (depth src') (depth tgt')) 1"
  have s: "s = \<lparr>sc_name = n, sc_membership_root = m', sc_source_root = sr', sc_source = src',
      sc_target_root = tr', sc_target = tgt', sc_depth = ?d,
      sc_attrs = raw_attrs (rs_read_only r) (rs_noexec r) (rs_nosymfollow r), sc_origin = path\<rparr>"
    and lv: "check_levels tgt' [0..<?d] = None"
    using assms(1) by (auto simp: validate_group_set_def 1 2 3 4 5 some Let_def split: option.splits)
  note abs = check_abs_Some[OF 1[unfolded some]] check_abs_Some[OF 2[unfolded some]]
    check_abs_Some[OF 3[unfolded some]]
  note parse = check_template_Some[OF 4[unfolded some]] check_template_Some[OF 5[unfolded some]]
  have "?d \<le> MAX_SET_DEPTH"
    using depth_for_set[OF conjunct1[OF parse(1)]] depth_for_set[OF conjunct1[OF parse(2)]]
    by (simp add: MAX_SET_DEPTH_def)
  with abs parse lv assms(2) show ?thesis by (auto simp: s group_set_ok_def check_levels_None)
qed

section \<open>Assembling\<close>

definition assembling_ok :: "assembling \<Rightarrow> bool" where
  "assembling_ok a =
     (let cfg = as_config a in
      daemon_ok (cfg_daemon cfg) \<and> bt_wf (cfg_groups cfg) \<and> bt_wf (cfg_group_sets cfg)
      \<and> (\<forall>(n, g)\<in>set (cfg_groups cfg). gc_name g = statically n \<and> group_ok g)
      \<and> (\<forall>(n, s)\<in>set (cfg_group_sets cfg). sc_name s = n \<and> group_set_ok s))"

lemma bt_insert_all:
  "\<forall>(k, v)\<in>set m. P k v \<Longrightarrow> P k v \<Longrightarrow> \<forall>(k, v)\<in>set (bt_insert k v m). P k v"
  using set_bt_insert[of k v m] by blast

lemma add_group_ok: "assembling_ok a \<Longrightarrow> assembling_ok (add_group path e a)"
proof -
  assume a: "assembling_ok a"
  obtain gn r where e: "e = (gn, r)" by (cases e)
  show ?thesis
  proof (cases "name_new gn")
    case (Inl err)
    with a show ?thesis by (simp add: add_group_def e assembling_ok_def)
  next
    case (Inr n)
    then have nv: "name_valid n" by (rule nm.parse_valid)
    show ?thesis
    proof (cases "bt_get (as_origins a) n")
      case (Some first)
      with a Inr show ?thesis by (simp add: add_group_def e assembling_ok_def)
    next
      case None
      obtain g is' where v: "validate_group n r path (as_issues a) = (g, is')" by fastforce
      show ?thesis
      proof (cases g)
        case None
        with a Inr v \<open>bt_get (as_origins a) n = None\<close> show ?thesis
          by (simp add: add_group_def e assembling_ok_def)
      next
        case (Some gc)
        have "gc_name gc = statically n" "group_ok gc"
          using validate_group_Some[OF v[unfolded Some] nv] by blast+
        moreover from this have "hd (gid_path (gc_name gc)) = n" by (simp add: statically_def)
        ultimately show ?thesis
          using a Inr v None Some bt_insert_all[of "cfg_groups (as_config a)"
              "\<lambda>n g. gc_name g = statically n \<and> group_ok g" n gc]
          by (simp add: add_group_def e assembling_ok_def Let_def bt_wf_insert)
      qed
    qed
  qed
qed

lemma add_group_set_ok: "assembling_ok a \<Longrightarrow> assembling_ok (add_group_set path e a)"
proof -
  assume a: "assembling_ok a"
  obtain sn r where e: "e = (sn, r)" by (cases e)
  show ?thesis
  proof (cases "name_new sn")
    case (Inl err)
    with a show ?thesis by (simp add: add_group_set_def e assembling_ok_def Let_def)
  next
    case (Inr n)
    then have nv: "name_valid n" by (rule nm.parse_valid)
    show ?thesis
    proof (cases "bt_get (as_set_origins a) n")
      case (Some first)
      with a Inr show ?thesis by (simp add: add_group_set_def e assembling_ok_def Let_def)
    next
      case None
      obtain s is' where v: "validate_group_set n r path (as_issues a) = (s, is')" by fastforce
      show ?thesis
      proof (cases s)
        case None
        with a Inr v \<open>bt_get (as_set_origins a) n = None\<close> show ?thesis
          by (simp add: add_group_set_def e assembling_ok_def Let_def)
      next
        case (Some sc)
        have "sc_name sc = n \<and> group_set_ok sc"
          using validate_group_set_Some[OF v[unfolded Some] nv] .
        then show ?thesis
          using a Inr v None Some bt_insert_all[of "cfg_group_sets (as_config a)"
              "\<lambda>n s. sc_name s = n \<and> group_set_ok s" n sc]
          by (simp add: add_group_set_def e assembling_ok_def Let_def bt_wf_insert)
      qed
    qed
  qed
qed

lemma fold_invariant_simple: "P a \<Longrightarrow> (\<And>x a. P a \<Longrightarrow> P (f x a)) \<Longrightarrow> P (fold f xs a)"
  by (induction xs arbitrary: a) auto

lemma add_file_ok: "assembling_ok a \<Longrightarrow> assembling_ok (add_file f a)"
proof -
  assume a: "assembling_ok a"
  obtain path r is_main where f: "f = (path, r, is_main)" by (cases f)
  have rest: "assembling_ok (fold (add_group_set path) (rf_group_sets r) (fold (add_group path) (rf_groups r) b))"
    if "assembling_ok b" for b
    using that by (intro fold_invariant_simple[where P = assembling_ok] add_group_set_ok add_group_ok)
  let ?a = "a\<lparr>as_config := (as_config a)\<lparr>cfg_files := cfg_files (as_config a) @ [path]\<rparr>\<rparr>"
  have a': "assembling_ok ?a" using a by (simp add: assembling_ok_def Let_def)
  let ?b = "case rf_daemon r of
       None \<Rightarrow> ?a
     | Some d \<Rightarrow>
         if is_main then
           (case validate_daemon d path (as_issues ?a) of
              (dc, is) \<Rightarrow> ?a\<lparr>as_config := (as_config ?a)\<lparr>cfg_daemon := dc\<rparr>, as_issues := is\<rparr>)
         else ?a\<lparr>as_issues := err (Some path) None Msg_DaemonNotMain (as_issues ?a)\<rparr>"
  have "assembling_ok ?b"
  proof (cases "rf_daemon r")
    case None
    with a' show ?thesis by simp
  next
    case (Some d)
    obtain dc is' where v: "validate_daemon d path (as_issues a) = (dc, is')" by fastforce
    then have "daemon_ok dc" using validate_daemon_ok[of d path "as_issues a"] by simp
    with a' Some v show ?thesis by (simp add: assembling_ok_def Let_def)
  qed
  from rest[OF this] show ?thesis unfolding add_file_def f Let_def prod.case .
qed

lemma check_pair_errors:
  "has_errors (check_pair a b is) \<longleftrightarrow> has_errors is
     \<or> is_at_or_beneath (ma_path a) (ma_target_root b)
     \<or> (ma_label a \<noteq> ma_label b \<and> ma_is_set b
        \<and> (is_at_or_beneath (ma_path a) (ma_path b) \<or> is_at_or_beneath (ma_path b) (ma_path a)))"
  by (auto simp: check_pair_def Let_def)

lemma fold_errors:
  assumes "\<And>x is. has_errors (f x is) \<longleftrightarrow> has_errors is \<or> Q x"
  shows "has_errors (fold f xs is) \<longleftrightarrow> has_errors is \<or> (\<exists>x\<in>set xs. Q x)"
  by (induction xs arbitrary: "is") (auto simp: assms)

lemma check_cross_group_errors:
  "has_errors (check_cross_group cfg is) \<longleftrightarrow> has_errors is \<or> \<not> areas_ok cfg"
  unfolding check_cross_group_def fold_errors[OF fold_errors[OF check_pair_errors]] areas_ok_def
  by blast

lemma assemble_ok:
  assumes "assemble files is = (cfg, is')" "\<not> has_errors is'"
  shows "config_ok cfg"
proof -
  let ?a0 = "\<lparr>as_config = default_config, as_origins = [], as_set_origins = [], as_issues = is\<rparr>"
  have "assembling_ok ?a0"
    by (simp add: assembling_ok_def default_config_def default_daemon_ok)
  then have "assembling_ok (fold add_file files ?a0)"
    by (rule fold_invariant_simple) (rule add_file_ok)
  moreover have "cfg = as_config (fold add_file files ?a0)" "areas_ok cfg"
    using assms check_cross_group_errors by (auto simp: assemble_def Let_def)
  ultimately show ?thesis by (simp add: config_ok_def assembling_ok_def Let_def)
qed

lemma load_from_strs_config:
  assumes "load_from_strs toml documents = Inr l"
  shows "config_ok (ld_config l) \<and> (\<forall>i\<in>set (ld_warnings l). is_severity i = Warning)"
proof -
  obtain parsed is1 where p: "parse_documents toml documents [] = (parsed, is1)" by fastforce
  obtain cfg is2 where a: "assemble parsed is1 = (cfg, is2)" by fastforce
  from assms p a have "\<not> has_errors is2" "l = \<lparr>ld_config = cfg, ld_warnings = is2\<rparr>"
    by (auto simp: load_from_strs_def split: if_splits)
  moreover from this have "\<forall>i\<in>set is2. is_severity i = Warning"
    by (auto simp: has_errors_def list_ex_iff) (metis severity.exhaust)
  ultimately show ?thesis using assemble_ok[OF a] by simp
qed

section \<open>Properties\<close>

text \<open>C28. Loading is all or nothing: a configuration is returned only when no error was
  found, and then everything in it is valid: its names, paths and templates, the depth and
  the level placeholders of every set, the daemon's settings; and no membership directory
  lies at or beneath any target root or overlaps a set's membership root.\<close>

theorem load_from_strs_ok:
  assumes "load_from_strs toml documents = Inr l"
  shows "config_ok (ld_config l) \<and> (\<forall>i\<in>set (ld_warnings l). is_severity i = Warning)"
  using assms by (rule load_from_strs_config)

definition example_raw_group :: raw_group where
  "example_raw_group =
     \<lparr>rg_source_root = ''/src'', rg_source = ''{name}'', rg_target_root = ''/mnt'',
      rg_target = ''{name}/data'', rg_membership = ''/members'', rg_read_only = None,
      rg_noexec = None, rg_nosymfollow = Some True\<rparr>"

definition example_raw_file :: raw_file where
  "example_raw_file = \<lparr>rf_daemon = None, rf_groups = [(''g'', example_raw_group)], rf_group_sets = []\<rparr>"

definition example_loaded :: loaded where
  "example_loaded =
     \<lparr>ld_config = default_config
        \<lparr>cfg_groups := [(Name ''g'',
           \<lparr>gc_name = statically (Name ''g''), gc_source_root = AbsPath [''src''],
            gc_source = \<lparr>raw = ''{name}'', comps = [[Piece_Name]]\<rparr>, gc_target_root = AbsPath [''mnt''],
            gc_target = \<lparr>raw = ''{name}/data'', comps = [[Piece_Name], [Literal ''data'']]\<rparr>,
            gc_membership = AbsPath [''members''],
            gc_attrs = \<lparr>read_only = True, noexec = True, nosymfollow = True\<rparr>,
            gc_origin = ''/etc/a.toml''\<rparr>)],
         cfg_files := [''/etc/a.toml'']\<rparr>,
      ld_warnings = []\<rparr>"

lemma example_load:
  "load_from_strs (\<lambda>_. Inr example_raw_file) [(''/etc/a.toml'', [], True)] = Inr example_loaded"
  by code_simp

theorem load_from_strs_ok_witness: "config_ok (ld_config example_loaded)"
  using load_from_strs_ok[OF example_load] by blast

lemma set_group_value:
  assumes "group_set_ok s" "length path = sc_depth s" "\<forall>n\<in>set path. name_valid n"
  shows "(\<exists>k. set_group s path = Some (Inl (I_ComponentTooLong k)) \<and> k > 255)
    \<or> (\<exists>g. set_group s path = Some (Inr g) \<and> group_ok g
         \<and> gc_name g = GroupId (Some (sc_name s)) path
         \<and> path_comps (gc_membership g) = path_comps (sc_membership_root s) @ map as_str path
         \<and> gc_target_root g = sc_target_root s \<and> gc_source_root g = sc_source_root s
         \<and> gc_attrs g = sc_attrs s)"
proof -
  from assms(1) obtain s1 s2 where t: "template_parse_for_set s1 = Inr (sc_source s)"
    "template_parse_for_set s2 = Inr (sc_target s)"
    and d: "depth (sc_source s) \<le> length path" "depth (sc_target s) \<le> length path"
    and len: "1 \<le> length path" "length path \<le> MAX_SET_DEPTH"
    using assms(2) by (auto simp: group_set_ok_def)
  have gid: "in_set (sc_name s) path = Some (GroupId (Some (sc_name s)) path)"
    using len by (auto simp: in_set_def)
  have gv: "gid_valid (GroupId (Some (sc_name s)) path)"
    using assms(1,3) len by (simp add: gid_valid_def group_set_ok_def)
  have mem: "path_comps (fold (\<lambda>level dir. join_name dir level) ns p) = path_comps p @ map as_str ns" for ns p
    by (induction ns arbitrary: p) (simp_all add: join_name_def)
  have memv: "abs_path_valid (fold (\<lambda>level dir. join_name dir level) ns p)"
    if "\<forall>n\<in>set ns. name_valid n" "abs_path_valid p" for ns p
    using that by (induction ns arbitrary: p) (simp_all add: abs_path_valid_join)
  note bind_levels_cases[OF t(1) d(1) assms(3)] bind_levels_cases[OF t(2) d(2) assms(3)]
  then show ?thesis
    using gid gv assms mem memv[OF assms(3)]
    by (elim disjE exE conjE) (simp_all add: set_group_def group_ok_def group_set_ok_def)
qed

text \<open>A validated group set can instantiate every directory it discovers: for one valid
  name per level, \<open>GroupSetConfig::group\<close> never panics, and it either refuses the group
  because a template component would be longer than 255 bytes, or gives a group whose
  identifier, paths and templates are valid, whose membership directory is the discovered
  one, and whose targets can be interpolated.\<close>

theorem set_group_total:
  assumes "group_set_ok s" "length path = sc_depth s" "\<forall>n\<in>set path. name_valid n"
  shows "(\<exists>k. set_group s path = Some (Inl (I_ComponentTooLong k)) \<and> k > 255)
    \<or> (\<exists>g. set_group s path = Some (Inr g) \<and> group_ok g
         \<and> gc_name g = GroupId (Some (sc_name s)) path
         \<and> path_comps (gc_membership g) = path_comps (sc_membership_root s) @ map as_str path
         \<and> gc_target_root g = sc_target_root s \<and> gc_source_root g = sc_source_root s
         \<and> gc_attrs g = sc_attrs s)"
  using assms by (rule set_group_value)

definition example_set :: group_set_config where
  "example_set =
     \<lparr>sc_name = Name ''s'', sc_membership_root = AbsPath [''members''], sc_source_root = AbsPath [''src''],
      sc_source = \<lparr>raw = ''{group}/{name}'', comps = [[Level 0], [Piece_Name]]\<rparr>,
      sc_target_root = AbsPath [''mnt''],
      sc_target = \<lparr>raw = ''{group}/{name}'', comps = [[Level 0], [Piece_Name]]\<rparr>, sc_depth = 1,
      sc_attrs = default_attrs, sc_origin = ''/etc/a.toml''\<rparr>"

lemma example_set_ok: "group_set_ok example_set"
proof -
  have p: "template_parse_for_set ''{group}/{name}'' = Inr (sc_source example_set)"
    "template_parse_for_set ''{group}/{name}'' = Inr (sc_target example_set)"
    by code_simp+
  have n: "name_valid (Name ''s'')"
    by (simp add: name_valid_def is_allowed_byte_def is_ascii_alphanumeric_def byte_def)
  have d: "depth (sc_source example_set) = 1" "depth (sc_target example_set) = 1"
    "has_level (sc_target example_set) 0"
    by code_simp+
  show ?thesis
    unfolding group_set_ok_def using p n d
    by (auto simp: example_set_def abs_path_valid_def abs_component_ok_def MAX_SET_DEPTH_def)
qed

theorem set_group_total_witness:
  "\<exists>g. set_group example_set [Name ''acme''] = Some (Inr g) \<and> group_ok g"
proof -
  have n: "name_valid (Name ''acme'')"
    by (simp add: name_valid_def is_allowed_byte_def is_ascii_alphanumeric_def byte_def)
  from set_group_total[OF example_set_ok, of "[Name ''acme'']"] n
  consider k where "set_group example_set [Name ''acme''] = Some (Inl (I_ComponentTooLong k))"
    | g where "set_group example_set [Name ''acme''] = Some (Inr g)" "group_ok g"
    by (auto simp: example_set_def)
  then show ?thesis
  proof cases
    case 1
    moreover have "(case set_group example_set [Name ''acme''] of Some (Inl e) \<Rightarrow> False | _ \<Rightarrow> True)"
      by code_simp
    ultimately show ?thesis by simp
  qed blast
qed

end
