(* ===== verification/Runtime.thy ===== *)
theory Runtime
  imports Mount Config_Props
begin

text \<open>
  \<open>src/src/runtime.rs\<close>: the opened roots and membership directories, and the discovery of the
  groups of group sets.  The state threaded through is the environment of a pass: the cache
  of root descriptors and the world.
\<close>

section \<open>Roots\<close>

record ('w, 'fd) env =
  e_roots :: "(abs_path, 'fd) btree"
  e_world :: 'w

definition on_world :: "('w \<Rightarrow> 'r \<times> 'w) \<Rightarrow> ('w, 'fd) env \<Rightarrow> 'r \<times> ('w, 'fd) env" where
  "on_world m e = (case m (e_world e) of (r, w) \<Rightarrow> (r, e\<lparr>e_world := w\<rparr>))"

definition roots_get ::
  "('w, 'fd) kernel \<Rightarrow> abs_path \<Rightarrow> ('w, 'fd) env \<Rightarrow> (string + 'fd) \<times> ('w, 'fd) env" where
  "roots_get K root e =
     (case bt_get (e_roots e) root of
        Some fd \<Rightarrow> (Inr fd, e)
      | None \<Rightarrow>
          (case open_root K (show_abs_path root) (e_world e) of
             (Inl er, w) \<Rightarrow> (Inl (show_io_error K er), e\<lparr>e_world := w\<rparr>)
           | (Inr fd, w) \<Rightarrow>
               (Inr fd, e\<lparr>e_roots := bt_insert root fd (e_roots e), e_world := w\<rparr>)))"

definition roots_insert :: "abs_path \<Rightarrow> 'fd \<Rightarrow> ('w, 'fd) env \<Rightarrow> ('w, 'fd) env" where
  "roots_insert root fd e = e\<lparr>e_roots := bt_insert root fd (e_roots e)\<rparr>"

section \<open>The opened groups and sets\<close>

text \<open>Notes of \<open>src/src/reconcile/observe.rs\<close>, which discovery reports too.\<close>

datatype obs_note =
    Rejected group_id rejection
  | InterpolationFailed group_id name string interpolate_error
  | SetEntryRejected name rejection
  | SetRootDeleted name
  | SetRootUnreadable name string
  | MembershipDeleted group_id
  | MembershipUnreadable group_id string

record 'fd group_runtime =
  gr_config :: group_config
  gr_membership_dir :: 'fd

record 'fd set_runtime =
  sr_config :: group_set_config
  sr_root_dir :: 'fd

datatype subject = Subject_Group group_id | Subject_Set name

definition show_subject :: "subject \<Rightarrow> string" where
  "show_subject s =
     (case s of
        Subject_Group g \<Rightarrow> ''group '' @ [CHR 0x27] @ show_group_id g @ [CHR 0x27]
      | Subject_Set st \<Rightarrow> ''group set '' @ [CHR 0x27] @ as_str st @ [CHR 0x27])"

record open_group_error =
  og_subject :: subject
  og_field :: string
  og_path :: abs_path
  og_source :: io_error

record 'fd runtime =
  rt_groups :: "(group_id, 'fd group_runtime) btree"
  rt_sets :: "(name, 'fd set_runtime) btree"
  rt_intermediates :: "(group_id, abs_path) btree"

definition default_runtime :: "'fd runtime" where
  "default_runtime = \<lparr>rt_groups = [], rt_sets = [], rt_intermediates = []\<rparr>"

text \<open>Opening: the runtime is only changed after all three directories are open.\<close>

type_synonym ('w, 'fd) open_state = "'fd runtime \<times> ('w, 'fd) env"

definition open_or ::
  "subject \<Rightarrow> string \<Rightarrow> abs_path \<Rightarrow> (string \<Rightarrow> ('w, 'fd) io)
     \<Rightarrow> ('w, 'fd) open_state \<Rightarrow> (open_group_error + 'fd) \<times> ('w, 'fd) open_state" where
  "open_or subj field path opn s =
     (case s of (rt, e) \<Rightarrow>
        (case on_world (opn (show_abs_path path)) e of
           (Inl er, e) \<Rightarrow>
             (Inl \<lparr>og_subject = subj, og_field = field, og_path = path, og_source = er\<rparr>, (rt, e))
         | (Inr fd, e) \<Rightarrow> (Inr fd, (rt, e))))"

definition open_group ::
  "('w, 'fd) kernel \<Rightarrow> group_config \<Rightarrow> ('w, 'fd) open_state
     \<Rightarrow> (open_group_error + unit) \<times> ('w, 'fd) open_state" where
  "open_group K g =
     (let subj = Subject_Group (gc_name g) in
      bindE (open_or subj ''source_root'' (gc_source_root g) (open_root K)) (\<lambda>source_root.
      bindE (open_or subj ''target_root'' (gc_target_root g) (open_root K)) (\<lambda>target_root.
      bindE (open_or subj ''membership'' (gc_membership g) (open_dir_for_reading K)) (\<lambda>membership_dir s.
        case s of (rt, e) \<Rightarrow>
          (Inr (),
           (rt\<lparr>rt_groups := bt_insert (gc_name g)
                 \<lparr>gr_config = g, gr_membership_dir = membership_dir\<rparr> (rt_groups rt)\<rparr>,
            roots_insert (gc_target_root g) target_root
              (roots_insert (gc_source_root g) source_root e)))))))"

definition open_set ::
  "('w, 'fd) kernel \<Rightarrow> group_set_config \<Rightarrow> ('w, 'fd) open_state
     \<Rightarrow> (open_group_error + unit) \<times> ('w, 'fd) open_state" where
  "open_set K sc =
     (let subj = Subject_Set (sc_name sc) in
      bindE (open_or subj ''source_root'' (sc_source_root sc) (open_root K)) (\<lambda>source_root.
      bindE (open_or subj ''target_root'' (sc_target_root sc) (open_root K)) (\<lambda>target_root.
      bindE (open_or subj ''membership_root'' (sc_membership_root sc) (open_dir_for_reading K))
        (\<lambda>root_dir s.
        case s of (rt, e) \<Rightarrow>
          (Inr (),
           (rt\<lparr>rt_sets := bt_insert (sc_name sc)
                 \<lparr>sr_config = sc, sr_root_dir = root_dir\<rparr> (rt_sets rt)\<rparr>,
            roots_insert (sc_target_root sc) target_root
              (roots_insert (sc_source_root sc) source_root e)))))))"

text \<open>\<open>Runtime::open\<close> stops at the first error, \<open>open_lenient\<close> collects them.\<close>

fun each_strict ::
  "('a \<Rightarrow> 's \<Rightarrow> ('e + unit) \<times> 's) \<Rightarrow> 'a list \<Rightarrow> 's \<Rightarrow> ('e + unit) \<times> 's" where
  "each_strict f [] = retE ()"
| "each_strict f (x # xs) = bindE (f x) (\<lambda>_. each_strict f xs)"

fun each_lenient ::
  "('a \<Rightarrow> 's \<Rightarrow> ('e + unit) \<times> 's) \<Rightarrow> 'a list \<Rightarrow> 's \<Rightarrow> 'e list \<times> 's" where
  "each_lenient f [] s = ([], s)"
| "each_lenient f (x # xs) s =
     (case f x s of
        (Inl e, s') \<Rightarrow> (case each_lenient f xs s' of (es, s'') \<Rightarrow> (e # es, s''))
      | (Inr _, s') \<Rightarrow> each_lenient f xs s')"

definition runtime_open ::
  "('w, 'fd) kernel \<Rightarrow> config \<Rightarrow> 'w \<Rightarrow> (open_group_error + unit) \<times> ('w, 'fd) open_state" where
  "runtime_open K cfg w =
     bindE (each_strict (open_group K) (bt_values (cfg_groups cfg)))
       (\<lambda>_. each_strict (open_set K) (bt_values (cfg_group_sets cfg)))
       (default_runtime, \<lparr>e_roots = [], e_world = w\<rparr>)"

definition runtime_open_lenient ::
  "('w, 'fd) kernel \<Rightarrow> config \<Rightarrow> 'w \<Rightarrow> open_group_error list \<times> ('w, 'fd) open_state" where
  "runtime_open_lenient K cfg w =
     (case each_lenient (open_group K) (bt_values (cfg_groups cfg))
             (default_runtime, \<lparr>e_roots = [], e_world = w\<rparr>) of
        (es, s) \<Rightarrow>
          (case each_lenient (open_set K) (bt_values (cfg_group_sets cfg)) s of
             (es', s') \<Rightarrow> (es @ es', s')))"

section \<open>Discovery\<close>

record 'fd set_scan =
  ss_groups :: "'fd group_runtime list"
  ss_intermediates :: "(group_id \<times> abs_path) list"
  ss_notes :: "obs_note list"
  ss_unavailable :: "group_id list"

definition default_scan :: "'fd set_scan" where
  "default_scan = \<lparr>ss_groups = [], ss_intermediates = [], ss_notes = [], ss_unavailable = []\<rparr>"

text \<open>Rust's match on the file type here maps a regular file to size 0.\<close>

fun set_entry_kind :: "file_type \<Rightarrow> entry_kind" where
  "set_entry_kind FT_Regular = Regular 0"
| "set_entry_kind FT_Symlink = Symlink"
| "set_entry_kind FT_Fifo = Fifo"
| "set_entry_kind FT_Socket = Socket"
| "set_entry_kind FT_CharDevice = CharDevice"
| "set_entry_kind FT_BlockDevice = BlockDevice"
| "set_entry_kind FT_Directory = Unknown"
| "set_entry_kind FT_Unknown = Unknown"

definition classify_set_entry ::
  "('w, 'fd) kernel \<Rightarrow> 'fd \<Rightarrow> string \<Rightarrow> 'w \<Rightarrow> (reject_reason + name option) \<times> 'w" where
  "classify_set_entry K dir file_name w =
     (case from_bytes file_name of
        Inl e \<Rightarrow> (Inl (InvalidName e), w)
      | Inr n \<Rightarrow>
          (case k_statx K dir file_name [AT_SYMLINK_NOFOLLOW] STATX_TYPE w of
             (Inr st, w') \<Rightarrow>
               if stx_type st = FT_Directory then (Inr (Some n), w')
               else (Inl (NotDirectory (set_entry_kind (stx_type st))), w')
           | (Inl e, w') \<Rightarrow>
               if e = ENOENT then (Inr None, w') else (Inl (Inaccessible (k_text K e)), w')))"

text \<open>\<open>display_name\<close>: the levels above, then the escaped file name.\<close>

definition set_display_name :: "name list \<Rightarrow> string \<Rightarrow> string" where
  "set_display_name pre bytes = join_with ''/'' (map as_str pre @ [display_bytes bytes])"

text \<open>
  \<open>scan_level\<close>, with the levels still to descend as fuel: a set is at most
  \<open>MAX_SET_DEPTH\<close> deep, and \<open>scan_level_fuel\<close> below shows that the depth of the set is
  enough.  A panic of the source is \<open>None\<close>.
\<close>

fun scan_level ::
  "nat \<Rightarrow> ('w, 'fd) kernel \<Rightarrow> 'fd set_runtime \<Rightarrow> 'fd \<Rightarrow> name list \<Rightarrow> 'fd set_scan \<Rightarrow> 'w
     \<Rightarrow> ((io_error option \<times> 'fd set_scan) \<times> 'w) option"
and scan_set_entries ::
  "nat \<Rightarrow> ('w, 'fd) kernel \<Rightarrow> 'fd set_runtime \<Rightarrow> 'fd \<Rightarrow> name list \<Rightarrow> (errno + string) list
     \<Rightarrow> 'fd set_scan \<Rightarrow> 'w \<Rightarrow> ((io_error option \<times> 'fd set_scan) \<times> 'w) option"
where
  "scan_level 0 K st dir pre scan w = None"
| "scan_level (Suc n) K st dir pre scan w =
     (case k_read_dir K dir w of
        (Inl e, w') \<Rightarrow> Some ((Some (Os e), scan), w')
      | (Inr es, w') \<Rightarrow> scan_set_entries n K st dir pre es scan w')"
| "scan_set_entries n K st dir pre [] scan w = Some ((None, scan), w)"
| "scan_set_entries n K st dir pre (Inl e # es) scan w = Some ((Some (Os e), scan), w)"
| "scan_set_entries n K st dir pre (Inr bytes # es) scan w =
     (if starts_with ''.'' bytes then scan_set_entries n K st dir pre es scan w
      else
        let reject = (\<lambda>why. SetEntryRejected (sc_name (sr_config st))
                        \<lparr>display_name = set_display_name pre bytes, reason = why\<rparr>) in
        (case classify_set_entry K dir bytes w of
           (Inr None, w') \<Rightarrow> scan_set_entries n K st dir pre es scan w'
         | (Inl why, w') \<Rightarrow>
             scan_set_entries n K st dir pre es (scan\<lparr>ss_notes := ss_notes scan @ [reject why]\<rparr>) w'
         | (Inr (Some nm), w') \<Rightarrow>
             let path = pre @ [nm] in
             (case in_set (sc_name (sr_config st)) path of
                None \<Rightarrow> None
              | Some gid \<Rightarrow>
                (case k_openat2 K dir bytes [O_RDONLY, O_DIRECTORY, O_CLOEXEC] CONFINED w' of
                   (Inl e, w'') \<Rightarrow>
                     if e = ENOENT then scan_set_entries n K st dir pre es scan w''
                     else scan_set_entries n K st dir pre es
                            (scan\<lparr>ss_notes := ss_notes scan @ [MembershipUnreadable gid (k_text K e)],
                                  ss_unavailable := ss_unavailable scan @ [gid]\<rparr>) w''
                 | (Inr opened, w'') \<Rightarrow>
                     if length path < sc_depth (sr_config st) then
                       (case scan_level n K st opened path scan w'' of
                          None \<Rightarrow> None
                        | Some ((Some e, scan'), w3) \<Rightarrow>
                            scan_set_entries n K st dir pre es
                              (scan'\<lparr>ss_notes := ss_notes scan' @
                                        [MembershipUnreadable gid (show_io_error K e)],
                                     ss_unavailable := ss_unavailable scan' @ [gid]\<rparr>) w3
                        | Some ((None, scan'), w3) \<Rightarrow>
                            scan_set_entries n K st dir pre es
                              (scan'\<lparr>ss_intermediates := ss_intermediates scan' @
                                 [(gid, fold (\<lambda>level d. join_name d level) path
                                          (sc_membership_root (sr_config st)))]\<rparr>) w3)
                     else
                       (case set_group (sr_config st) path of
                          None \<Rightarrow> None
                        | Some (Inr cfg) \<Rightarrow>
                            scan_set_entries n K st dir pre es
                              (scan\<lparr>ss_groups := ss_groups scan @
                                 [\<lparr>gr_config = cfg, gr_membership_dir = opened\<rparr>]\<rparr>) w''
                        | Some (Inl e) \<Rightarrow>
                            scan_set_entries n K st dir pre es
                              (scan\<lparr>ss_notes := ss_notes scan @
                                 [reject (Inaccessible (''template: '' @ show_interpolate_error e))]\<rparr>) w'')))))"

definition discover_set ::
  "('w, 'fd) kernel \<Rightarrow> 'fd set_runtime \<Rightarrow> 'w \<Rightarrow> ((obs_note + 'fd set_scan) \<times> 'w) option" where
  "discover_set K st w =
     (case is_deleted K (sr_root_dir st) w of
        (r, w1) \<Rightarrow>
          if r = Inr True then Some (Inl (SetRootDeleted (sc_name (sr_config st))), w1)
          else
            map_option (\<lambda>((e, scan), w2).
              (case e of
                 Some e \<Rightarrow> (Inl (SetRootUnreadable (sc_name (sr_config st)) (show_io_error K e)), w2)
               | None \<Rightarrow> (Inr scan, w2)))
              (scan_level (sc_depth (sr_config st)) K st (sr_root_dir st) [] default_scan w1))"

record discovery =
  dy_notes :: "obs_note list"
  dy_unavailable :: "group_id list"
  dy_unavailable_sets :: "name list"
  dy_scanned_sets :: "name list"

definition default_discovery :: discovery where
  "default_discovery =
     \<lparr>dy_notes = [], dy_unavailable = [], dy_unavailable_sets = [], dy_scanned_sets = []\<rparr>"

definition add_scan ::
  "name \<Rightarrow> 'fd set_scan \<Rightarrow> 'fd runtime \<times> discovery \<Rightarrow> 'fd runtime \<times> discovery" where
  "add_scan st scan rd =
     (case rd of (rt, d) \<Rightarrow>
       (rt\<lparr>rt_groups := fold (\<lambda>g. bt_insert (gc_name (gr_config g)) g) (ss_groups scan) (rt_groups rt),
           rt_intermediates := bt_extend (ss_intermediates scan) (rt_intermediates rt)\<rparr>,
        d\<lparr>dy_scanned_sets := bs_insert st (dy_scanned_sets d),
          dy_notes := dy_notes d @ ss_notes scan,
          dy_unavailable := bs_extend (ss_unavailable scan) (dy_unavailable d)\<rparr>))"

fun discover_sets ::
  "('w, 'fd) kernel \<Rightarrow> name list \<Rightarrow> (name \<times> 'fd set_runtime) list \<Rightarrow> 'fd runtime \<times> discovery \<Rightarrow> 'w
     \<Rightarrow> (('fd runtime \<times> discovery) \<times> 'w) option" where
  "discover_sets K skip [] rd w = Some (rd, w)"
| "discover_sets K skip ((st, s) # sets) rd w =
     (if st \<in> set skip then discover_sets K skip sets rd w
      else (case discover_set K s w of
              None \<Rightarrow> None
            | Some (Inr scan, w') \<Rightarrow> discover_sets K skip sets (add_scan st scan rd) w'
            | Some (Inl nt, w') \<Rightarrow>
                discover_sets K skip sets
                  (fst rd, (snd rd)\<lparr>dy_notes := dy_notes (snd rd) @ [nt],
                     dy_unavailable_sets := bs_insert st (dy_unavailable_sets (snd rd))\<rparr>) w'))"

definition discover ::
  "('w, 'fd) kernel \<Rightarrow> name list \<Rightarrow> 'fd runtime \<Rightarrow> 'w \<Rightarrow> (('fd runtime \<times> discovery) \<times> 'w) option" where
  "discover K skip rt w =
     (let rt = rt\<lparr>rt_groups := bt_retain (\<lambda>gid _. gid_set gid = None) (rt_groups rt),
                   rt_intermediates := []\<rparr>
      in discover_sets K skip (rt_sets rt) (rt, default_discovery) w)"

end
