(* ===== verification/Runtime_Props.thy ===== *)
theory Runtime_Props
  imports Runtime
begin

text \<open>
  Discovery of the groups of a set: it never panics on a validated configuration, and what
  it finds are valid groups of that set.
\<close>

text \<open>A note about something that could not be read or was deleted is covered by the groups and
  sets that must be left alone.\<close>

definition covered :: "group_id set \<Rightarrow> name set \<Rightarrow> obs_note \<Rightarrow> bool" where
  "covered gids sts nt =
     (case nt of
        MembershipUnreadable g _ \<Rightarrow> g \<in> gids
      | MembershipDeleted g \<Rightarrow> g \<in> gids
      | SetRootDeleted st \<Rightarrow> st \<in> sts
      | SetRootUnreadable st _ \<Rightarrow> st \<in> sts
      | _ \<Rightarrow> True)"

lemma covered_mono: "covered gids sts nt \<Longrightarrow> gids \<subseteq> gids' \<Longrightarrow> sts \<subseteq> sts' \<Longrightarrow> covered gids' sts' nt"
  by (auto simp: covered_def split: obs_note.splits)

lemma covered_simps [simp]:
  "covered gids sts (Rejected g r)" "covered gids sts (InterpolationFailed g n f e)"
  "covered gids sts (SetEntryRejected st r)"
  "covered gids sts (MembershipUnreadable g x) \<longleftrightarrow> g \<in> gids"
  "covered gids sts (MembershipDeleted g) \<longleftrightarrow> g \<in> gids"
  "covered gids sts (SetRootDeleted st) \<longleftrightarrow> st \<in> sts"
  "covered gids sts (SetRootUnreadable st x) \<longleftrightarrow> st \<in> sts"
  by (simp_all add: covered_def)

definition scan_ok :: "group_set_config \<Rightarrow> 'fd set_scan \<Rightarrow> bool" where
  "scan_ok sc scan =
     ((\<forall>g\<in>set (ss_groups scan). group_ok (gr_config g) \<and> gid_set (gc_name (gr_config g)) = Some (sc_name sc)
         \<and> length (gid_path (gc_name (gr_config g))) = sc_depth sc)
      \<and> (\<forall>(gid, p)\<in>set (ss_intermediates scan). gid_valid gid \<and> gid_set gid = Some (sc_name sc)
         \<and> length (gid_path gid) < sc_depth sc)
      \<and> (\<forall>gid\<in>set (ss_unavailable scan). gid_valid gid \<and> gid_set gid = Some (sc_name sc))
      \<and> (\<forall>nt\<in>set (ss_notes scan). covered (set (ss_unavailable scan)) {} nt))"

lemma scan_ok_default: "scan_ok sc default_scan"
  by (simp add: scan_ok_def default_scan_def)

lemma scan_ok_simps:
  "scan_ok sc (scan\<lparr>ss_notes := ss_notes scan @ [SetEntryRejected a b]\<rparr>) \<longleftrightarrow> scan_ok sc scan"
  "scan_ok sc (scan\<lparr>ss_groups := ss_groups scan @ [g]\<rparr>) \<longleftrightarrow> scan_ok sc scan
     \<and> group_ok (gr_config g) \<and> gid_set (gc_name (gr_config g)) = Some (sc_name sc)
     \<and> length (gid_path (gc_name (gr_config g))) = sc_depth sc"
  "scan_ok sc (scan\<lparr>ss_intermediates := ss_intermediates scan @ [(gid, p)]\<rparr>) \<longleftrightarrow> scan_ok sc scan
     \<and> gid_valid gid \<and> gid_set gid = Some (sc_name sc) \<and> length (gid_path gid) < sc_depth sc"
  "scan_ok sc scan \<Longrightarrow>
     scan_ok sc (scan\<lparr>ss_notes := ss_notes scan @ [MembershipUnreadable gid x],
                     ss_unavailable := ss_unavailable scan @ [gid]\<rparr>)
       \<longleftrightarrow> gid_valid gid \<and> gid_set gid = Some (sc_name sc)"
  by (auto simp: scan_ok_def intro: covered_mono)

lemma classify_set_entry_Some:
  "classify_set_entry K dir bytes w = (Inr (Some n), w') \<Longrightarrow> name_valid n"
  by (auto simp: classify_set_entry_def from_bytes_Inr_iff split: sum.splits prod.splits if_splits)

lemma set_group_cases:
  assumes "group_set_ok s" "length path = sc_depth s" "\<forall>n\<in>set path. name_valid n"
  obtains e where "set_group s path = Some (Inl e)"
  | g where "set_group s path = Some (Inr g)" "group_ok g" "gc_name g = GroupId (Some (sc_name s)) path"
  using set_group_value[OF assms] by blast

definition scans_to :: "group_set_config \<Rightarrow> ((io_error option \<times> 'fd set_scan) \<times> 'w) option \<Rightarrow> bool" where
  "scans_to sc r = (case r of None \<Rightarrow> False | Some ((e, scan), w) \<Rightarrow> scan_ok sc scan)"

lemma scans_to_Some [simp]: "scans_to sc (Some ((e, scan), w)) \<longleftrightarrow> scan_ok sc scan"
  by (simp add: scans_to_def)

text \<open>
  An entry of a directory of a set leaves the scan in order and the loop going on with the other
  entries, if scanning one level deeper does.  First a directory with a valid name.
\<close>

definition continues ::
  "nat \<Rightarrow> ('w, 'fd) kernel \<Rightarrow> 'fd set_runtime \<Rightarrow> 'fd \<Rightarrow> name list \<Rightarrow> (errno + string) \<Rightarrow> (errno + string) list
     \<Rightarrow> 'fd set_scan \<Rightarrow> 'w \<Rightarrow> bool" where
  "continues n K st dir pre e es scan w \<longleftrightarrow>
     (\<exists>scan' w'. scan_ok (sr_config st) scan'
        \<and> scan_set_entries n K st dir pre (e # es) scan w = scan_set_entries n K st dir pre es scan' w')"

definition level_total :: "nat \<Rightarrow> ('w, 'fd) kernel \<Rightarrow> 'fd set_runtime \<Rightarrow> bool" where
  "level_total n K st \<longleftrightarrow>
     (\<forall>dir pre scan w. (\<forall>nm\<in>set pre. name_valid nm) \<longrightarrow> length pre < sc_depth (sr_config st)
        \<longrightarrow> sc_depth (sr_config st) \<le> n + length pre \<longrightarrow> scan_ok (sr_config st) scan
        \<longrightarrow> scans_to (sr_config st) (scan_level n K st dir pre scan w))"

lemma continuesI:
  "scan_set_entries n K st dir pre (e # es) scan w = scan_set_entries n K st dir pre es scan' w'
     \<Longrightarrow> scan_ok (sr_config st) scan' \<Longrightarrow> continues n K st dir pre e es scan w"
  by (auto simp: continues_def)

lemma group_dir_continues:
  assumes "group_set_ok (sr_config st)" "\<forall>nm\<in>set (pre @ [nm]). name_valid nm"
    and "length (pre @ [nm]) \<le> sc_depth (sr_config st)"
    and "sc_depth (sr_config st) \<le> Suc n + length pre" "scan_ok (sr_config st) scan" "level_total n K st"
    and vis: "\<not> starts_with ''.'' bytes" and c: "classify_set_entry K dir bytes w = (Inr (Some nm), w1)"
  shows "continues n K st dir pre (Inr bytes) es scan w"
proof -
  let ?sc = "sr_config st" let ?path = "pre @ [nm]"
  let ?gid = "GroupId (Some (sc_name ?sc)) ?path"
  have len: "sc_depth ?sc \<le> MAX_SET_DEPTH" using assms(1) by (simp add: group_set_ok_def)
  have ins: "in_set (sc_name ?sc) ?path = Some ?gid" using len assms(3) by (simp add: in_set_def)
  have gv: "gid_valid ?gid" using len assms(1-3) by (auto simp: gid_valid_def group_set_ok_def)
  obtain r w2 where o: "k_openat2 K dir bytes [O_RDONLY, O_DIRECTORY, O_CLOEXEC] CONFINED w1 = (r, w2)"
    by fastforce
  note here = vis c ins o assms(5) gv Let_def
  consider e where "r = Inl e" "e = ENOENT" | e where "r = Inl e" "e \<noteq> ENOENT"
    | opened where "r = Inr opened" "length ?path < sc_depth ?sc"
    | opened where "r = Inr opened" "length ?path = sc_depth ?sc"
    using assms(3) by (cases r) (auto simp: le_less)
  then show ?thesis
  proof cases
    case 1
    then show ?thesis by (intro continuesI) (simp add: here)+
  next
    case 2
    then show ?thesis by (intro continuesI) (simp add: here scan_ok_simps)+
  next
    case (3 opened)
    then have "scans_to ?sc (scan_level n K st opened ?path scan w2)"
      using assms by (auto simp: level_total_def)
    then obtain oe scan' w3 where lvl: "scan_level n K st opened ?path scan w2 = Some ((oe, scan'), w3)"
      and ok: "scan_ok ?sc scan'"
      by (auto simp: scans_to_def split: option.splits)
    show ?thesis
    proof (cases oe)
      case None
      with 3 lvl ok show ?thesis by (intro continuesI) (simp add: here scan_ok_simps)+
    next
      case (Some er)
      with 3 lvl ok show ?thesis by (intro continuesI) (simp add: here scan_ok_simps)+
    qed
  next
    case (4 opened)
    from assms(1) 4(2) assms(2) show ?thesis
    proof (cases rule: set_group_cases)
      case (1 e)
      with 4 show ?thesis by (intro continuesI) (simp add: here scan_ok_simps)+
    next
      case (2 g)
      with 4 show ?thesis by (intro continuesI) (simp add: here scan_ok_simps)+
    qed
  qed
qed

lemma set_entry_continues:
  assumes "group_set_ok (sr_config st)" "\<forall>nm\<in>set pre. name_valid nm" "length pre < sc_depth (sr_config st)"
    and "sc_depth (sr_config st) \<le> Suc n + length pre" "scan_ok (sr_config st) scan" "level_total n K st"
  shows "continues n K st dir pre (Inr bytes) es scan w"
proof (cases "starts_with ''.'' bytes")
  case True
  with assms(5) show ?thesis by (intro continuesI) simp+
next
  case visible: False
  obtain r w1 where c: "classify_set_entry K dir bytes w = (r, w1)" by fastforce
  consider why where "r = Inl why" | "r = Inr None" | nm where "r = Inr (Some nm)"
    by (metis old.sum.exhaust option.exhaust)
  then show ?thesis
  proof cases
    case 1
    with visible c assms(5) show ?thesis by (intro continuesI) (simp add: scan_ok_simps Let_def)+
  next
    case 2
    with visible c assms(5) show ?thesis by (intro continuesI) simp+
  next
    case (3 nm)
    then have "name_valid nm" using c classify_set_entry_Some by metis
    with assms 3 c visible show ?thesis by (intro group_dir_continues) auto
  qed
qed

lemma scan_entries_total:
  assumes "group_set_ok (sr_config st)" "\<forall>nm\<in>set pre. name_valid nm" "length pre < sc_depth (sr_config st)"
    and "sc_depth (sr_config st) \<le> Suc n + length pre" "level_total n K st"
  shows "scan_ok (sr_config st) scan \<Longrightarrow> scans_to (sr_config st) (scan_set_entries n K st dir pre es scan w)"
proof (induction es arbitrary: scan w)
  case (Cons e es)
  show ?case
  proof (cases e)
    case (Inr bytes)
    then obtain scan' w' where "scan_ok (sr_config st) scan'"
      "scan_set_entries n K st dir pre (e # es) scan w = scan_set_entries n K st dir pre es scan' w'"
      using set_entry_continues[OF assms(1-4) Cons.prems assms(5)] unfolding continues_def by blast
    with Cons.IH show ?thesis by simp
  qed (use Cons.prems in simp)
qed simp

lemma scan_level_total: "group_set_ok (sr_config st) \<Longrightarrow> level_total n K st"
proof (induction n)
  case (Suc n)
  then show ?case
    by (auto simp: level_total_def[of "Suc n"] intro!: scan_entries_total split: prod.splits sum.splits)
qed (simp add: level_total_def)

lemma scan_total:
  "group_set_ok (sr_config st) \<Longrightarrow> \<forall>nm\<in>set pre. name_valid nm \<Longrightarrow> length pre < sc_depth (sr_config st)
     \<Longrightarrow> sc_depth (sr_config st) \<le> n + length pre \<Longrightarrow> scan_ok (sr_config st) scan
     \<Longrightarrow> scans_to (sr_config st) (scan_level n K st dir pre scan w)"
  using scan_level_total[of st n K] by (simp add: level_total_def)

section \<open>Discovery\<close>

text \<open>Every group of the runtime is filed under its identifier; the set groups belong to a
  configured set.\<close>

definition runtime_ok :: "'fd runtime \<Rightarrow> bool" where
  "runtime_ok rt =
     (bt_wf (rt_groups rt) \<and> bt_wf (rt_sets rt)
      \<and> (\<forall>(gid, g)\<in>set (rt_groups rt). gc_name (gr_config g) = gid \<and> group_ok (gr_config g))
      \<and> (\<forall>(st, s)\<in>set (rt_sets rt). sc_name (sr_config s) = st \<and> group_set_ok (sr_config s)))"

definition discovery_ok :: "'fd runtime \<Rightarrow> 'fd runtime \<times> discovery \<Rightarrow> bool" where
  "discovery_ok rt0 rd =
     (runtime_ok (fst rd) \<and> rt_sets (fst rd) = rt_sets rt0
      \<and> bs_wf (dy_unavailable (snd rd)) \<and> bs_wf (dy_unavailable_sets (snd rd))
      \<and> bs_wf (dy_scanned_sets (snd rd))
      \<and> (\<forall>nt\<in>set (dy_notes (snd rd)).
           covered (set (dy_unavailable (snd rd))) (set (dy_unavailable_sets (snd rd))) nt)
      \<and> (\<forall>gid. gid_set gid = None \<longrightarrow> bt_get (rt_groups (fst rd)) gid = bt_get (rt_groups rt0) gid)
      \<and> (\<forall>(gid, g)\<in>set (rt_groups (fst rd)). \<forall>st. gid_set gid = Some st \<longrightarrow> st \<in> set (dy_scanned_sets (snd rd))))"

lemma discover_set_cases:
  assumes "group_set_ok (sr_config s)"
  obtains nt w' where "discover_set K s w = Some (Inl nt, w')" "covered {} {sc_name (sr_config s)} nt"
  | scan w' where "discover_set K s w = Some (Inr scan, w')" "scan_ok (sr_config s) scan"
proof -
  obtain r w1 where d: "is_deleted K (sr_root_dir s) w = (r, w1)" by fastforce
  have "scans_to (sr_config s) (scan_level (sc_depth (sr_config s)) K s (sr_root_dir s) [] default_scan w1)"
    using assms by (intro scan_total) (auto simp: group_set_ok_def scan_ok_default)
  then obtain e scan w2 where "scan_level (sc_depth (sr_config s)) K s (sr_root_dir s) [] default_scan w1
      = Some ((e, scan), w2)" "scan_ok (sr_config s) scan"
    by (auto simp: scans_to_def split: option.splits)
  with d that show ?thesis
    by (cases "r = Inr True"; cases e) (auto simp: discover_set_def)
qed

lemma fold_insert_groups:
  assumes "bt_wf m" "\<forall>(gid, g)\<in>set m. gc_name (gr_config g) = gid \<and> P g"
    and "\<forall>g\<in>set gs. P g"
  shows "bt_wf (fold (\<lambda>g. bt_insert (gc_name (gr_config g)) g) gs m)
    \<and> (\<forall>(gid, g)\<in>set (fold (\<lambda>g. bt_insert (gc_name (gr_config g)) g) gs m).
         gc_name (gr_config g) = gid \<and> P g)"
  using assms
proof (induction gs arbitrary: m)
  case (Cons g gs)
  have "bt_wf (bt_insert (gc_name (gr_config g)) g m)" using Cons.prems by (simp add: bt_wf_insert)
  moreover have "\<forall>(gid, g)\<in>set (bt_insert (gc_name (gr_config g)) g m). gc_name (gr_config g) = gid \<and> P g"
    using Cons.prems by (intro bt_insert_all[where P = "\<lambda>gid g. gc_name (gr_config g) = gid \<and> P g"]) auto
  moreover have "\<forall>g\<in>set gs. P g" using Cons.prems by simp
  ultimately show ?case unfolding fold_simps by (rule Cons.IH)
qed simp

lemma fold_insert_get:
  "\<forall>g\<in>set gs. gc_name (gr_config g) \<noteq> k \<Longrightarrow>
     bt_get (fold (\<lambda>g. bt_insert (gc_name (gr_config g)) g) gs m) k = bt_get m k"
  by (induction gs arbitrary: m) (auto simp: bt_get_insert)

lemma discovery_ok_add_scan:
  assumes ok: "discovery_ok rt0 (rt, d)" and s: "sc_name sc = st" "scan_ok sc scan"
  shows "discovery_ok rt0 (add_scan st scan (rt, d))"
proof -
  let ?P = "\<lambda>g. group_ok (gr_config g) \<and> (\<forall>st'. gid_set (gc_name (gr_config g)) = Some st'
      \<longrightarrow> st' \<in> set (bs_insert st (dy_scanned_sets d)))"
  let ?gs = "fold (\<lambda>g. bt_insert (gc_name (gr_config g)) g) (ss_groups scan) (rt_groups rt)"
  have all: "bt_wf ?gs \<and> (\<forall>(gid, g)\<in>set ?gs. gc_name (gr_config g) = gid \<and> ?P g)"
  proof (rule fold_insert_groups)
    show "bt_wf (rt_groups rt)" using ok by (simp add: discovery_ok_def runtime_ok_def)
    show "\<forall>g\<in>set (ss_groups scan). ?P g" using s by (auto simp: scan_ok_def)
    have "gc_name (gr_config g) = gid \<and> ?P g" if "(gid, g) \<in> set (rt_groups rt)" for gid g
      using ok that unfolding discovery_ok_def runtime_ok_def fst_conv snd_conv
      by (metis (mono_tags, lifting) case_prodD insertCI set_bs_insert)
    then show "\<forall>(gid, g)\<in>set (rt_groups rt). gc_name (gr_config g) = gid \<and> ?P g" by blast
  qed
  have "\<forall>x\<in>set ?gs. gc_name (gr_config (snd x)) = fst x \<and> group_ok (gr_config (snd x))"
    and "\<forall>x\<in>set ?gs. \<forall>st'. gid_set (fst x) = Some st' \<longrightarrow> st' = st \<or> st' \<in> set (dy_scanned_sets d)"
    using all by fastforce+
  moreover have "bt_get ?gs gid = bt_get (rt_groups rt) gid" if "gid_set gid = None" for gid
    using that s by (intro fold_insert_get) (auto simp: scan_ok_def)
  moreover have "\<forall>nt\<in>set (dy_notes d @ ss_notes scan).
      covered (set (bs_extend (ss_unavailable scan) (dy_unavailable d))) (set (dy_unavailable_sets d)) nt"
    using ok s by (auto simp: discovery_ok_def scan_ok_def intro: covered_mono)
  ultimately show ?thesis
    using ok unfolding discovery_ok_def add_scan_def runtime_ok_def
    by (simp add: bs_wf_insert bs_wf_extend case_prod_unfold all) metis
qed

lemma discover_sets_ok:
  assumes "discovery_ok rt0 rd" "\<forall>(st, s)\<in>set sets. sc_name (sr_config s) = st \<and> group_set_ok (sr_config s)"
  shows "\<exists>rd' w'. discover_sets K skip sets rd w = Some (rd', w') \<and> discovery_ok rt0 rd'"
  using assms
proof (induction K skip sets rd w rule: discover_sets.induct)
  case (2 K skip st s sets rd w)
  show ?case
  proof (cases "st \<in> set skip")
    case True
    with 2 show ?thesis by simp
  next
    case False
    have ok: "group_set_ok (sr_config s)" and st: "sc_name (sr_config s) = st" using "2.prems" by auto
    from ok show ?thesis
    proof (cases rule: discover_set_cases[of s K w])
      case (1 nt w')
      have "discovery_ok rt0 (fst rd, (snd rd)\<lparr>dy_notes := dy_notes (snd rd) @ [nt],
          dy_unavailable_sets := bs_insert st (dy_unavailable_sets (snd rd))\<rparr>)"
        using "2.prems"(1) 1(2) st unfolding discovery_ok_def
        by (auto simp: bs_wf_insert intro: covered_mono)
      from "2.IH"(2)[OF False 1(1) refl refl this] 1(1) False "2.prems"(2) show ?thesis by simp
    next
      case (2 scan w')
      note discovery_ok_add_scan[of rt0 "fst rd" "snd rd" "sr_config s" st scan]
      then have "discovery_ok rt0 (add_scan st scan rd)" using "2.prems"(1) st 2 by simp
      from "2.IH"(3)[OF False 2(1) refl refl this] 2 False "2.prems"(2) show ?thesis by simp
    qed
  qed
qed simp

lemma discover_ok:
  assumes "runtime_ok rt"
  shows "\<exists>rt' d w'. discover K skip rt w = Some ((rt', d), w') \<and> discovery_ok rt (rt', d)"
proof -
  let ?rt = "rt\<lparr>rt_groups := bt_retain (\<lambda>gid _. gid_set gid = None) (rt_groups rt), rt_intermediates := []\<rparr>"
  have wf: "bt_wf (rt_groups rt)" using assms by (simp add: runtime_ok_def)
  have "bt_get (bt_retain (\<lambda>gid _. gid_set gid = None) (rt_groups rt)) gid = bt_get (rt_groups rt) gid"
    if "gid_set gid = None" for gid
  proof -
    have "bt_get (bt_retain (\<lambda>gid _. gid_set gid = None) (rt_groups rt)) gid = Some g
        \<longleftrightarrow> bt_get (rt_groups rt) gid = Some g" for g
      using that by (simp add: bt_get_iff[OF wf] bt_get_iff[OF bt_wf_retain[OF wf]])
        (auto simp: bt_retain_def)
    then show ?thesis by (metis not_Some_eq)
  qed
  then have "discovery_ok rt (?rt, default_discovery)"
    using assms by (auto simp: discovery_ok_def runtime_ok_def default_discovery_def bt_wf_retain)
      (auto simp: bt_retain_def)
  from discover_sets_ok[OF this, of "rt_sets rt" K skip w] assms show ?thesis
    by (auto simp: discover_def runtime_ok_def)
qed

text \<open>C27. Discovery on a validated configuration always completes (no panic, and the scan
  never goes deeper than the set), leaves the statically configured groups as they were,
  and every group it adds is valid, is filed under its own identifier, and belongs to a set
  whose membership root was scanned successfully in this pass.\<close>

theorem discover_sound:
  assumes "runtime_ok rt"
  shows "\<exists>rt' d w'. discover K skip rt w = Some ((rt', d), w') \<and> runtime_ok rt'
    \<and> (\<forall>gid. gid_set gid = None \<longrightarrow> bt_get (rt_groups rt') gid = bt_get (rt_groups rt) gid)
    \<and> (\<forall>gid g st. bt_get (rt_groups rt') gid = Some g \<and> gid_set gid = Some st
         \<longrightarrow> st \<in> set (dy_scanned_sets d))"
proof -
  obtain rt' d w' where *: "discover K skip rt w = Some ((rt', d), w')" "discovery_ok rt (rt', d)"
    using discover_ok[OF assms, of K skip w] by blast
  then show ?thesis by (fastforce simp: discovery_ok_def dest: bt_get_SomeD)
qed

definition example_set_runtime :: "string runtime" where
  "example_set_runtime =
     \<lparr>rt_groups = [], rt_sets = [(Name ''s'', \<lparr>sr_config = example_set, sr_root_dir = ''/m''\<rparr>)],
      rt_intermediates = []\<rparr>"

lemma example_set_runtime_ok: "runtime_ok example_set_runtime"
  using example_set_ok
  by (simp add: runtime_ok_def example_set_runtime_def bt_wf_def) (simp add: example_set_def)

theorem discover_sound_witness:
  "\<exists>rt' d. discover toy_kernel [] example_set_runtime (toy_world False) = Some ((rt', d), toy_world False)
     \<and> runtime_ok rt' \<and> rt_groups rt' \<noteq> [] \<and> dy_scanned_sets d = [Name ''s'']"
proof -
  have run: "map_option (\<lambda>((rt', d), w'). (rt_groups rt' \<noteq> [], dy_scanned_sets d, w'))
      (discover toy_kernel [] example_set_runtime (toy_world False))
        = Some (True, [Name ''s''], toy_world False)"
    by code_simp
  obtain rt' d w' where "discover toy_kernel [] example_set_runtime (toy_world False) = Some ((rt', d), w')"
    "runtime_ok rt'"
    using discover_sound[OF example_set_runtime_ok, of toy_kernel "[]" "toy_world False"] by blast
  with run show ?thesis by simp
qed

end
