(* ===== verification/Observe.thy ===== *)
theory Observe
  imports Runtime_Props
begin

text \<open>
  \<open>src/src/reconcile/observe.rs\<close>: scanning the membership directories, resolving the sources
  and inspecting the targets.  A panic of the source is \<open>None\<close>.
\<close>

record observed =
  ob_desired :: "desired_mount list"
  ob_observations :: observations
  ob_frozen :: "group_id list"
  ob_members :: "(group_id, name list) btree"
  ob_scanned_sets :: "name list"
  ob_ignored :: "(group_id, string list) btree"
  ob_notes :: "obs_note list"

definition observed_with_frozen :: "group_id list \<Rightarrow> observed" where
  "observed_with_frozen frozen =
     \<lparr>ob_desired = [], ob_observations = \<lparr>obs_sources = [], obs_targets = []\<rparr>, ob_frozen = frozen,
      ob_members = [], ob_scanned_sets = [], ob_ignored = [], ob_notes = []\<rparr>"

section \<open>Membership\<close>

text \<open>The loop over the members of a scanned group.\<close>

fun observe_members :: "group_id \<Rightarrow> group_config \<Rightarrow> name list \<Rightarrow> observed \<Rightarrow> observed option" where
  "observe_members gid cfg [] out = Some out"
| "observe_members gid cfg (n # ns) out =
     (case (interpolate (gc_source cfg) n, interpolate (gc_target cfg) n) of
        (Some (Inr source), Some (Inr target)) \<Rightarrow>
          observe_members gid cfg ns
            (out\<lparr>ob_desired := ob_desired out @
               [\<lparr>dm_key = RecordKey gid n,
                 dm_source = Location (gc_source_root cfg) source,
                 dm_target = Location (gc_target_root cfg) target,
                 dm_attrs = gc_attrs cfg\<rparr>]\<rparr>)
      | (Some (Inl e), Some _) \<Rightarrow>
          observe_members gid cfg ns
            (out\<lparr>ob_notes := ob_notes out @ [InterpolationFailed gid n ''source'' e]\<rparr>)
      | (Some _, Some (Inl e)) \<Rightarrow>
          observe_members gid cfg ns
            (out\<lparr>ob_notes := ob_notes out @ [InterpolationFailed gid n ''target'' e]\<rparr>)
      | _ \<Rightarrow> None)"

definition freeze :: "group_id \<Rightarrow> obs_note \<Rightarrow> observed \<Rightarrow> observed" where
  "freeze gid nt out =
     out\<lparr>ob_frozen := bs_insert gid (ob_frozen out), ob_notes := ob_notes out @ [nt]\<rparr>"

definition observe_membership ::
  "group_id \<Rightarrow> group_config \<Rightarrow> membership \<Rightarrow> observed \<Rightarrow> observed option" where
  "observe_membership gid cfg m out =
     (let out = (if ignored m \<noteq> [] then out\<lparr>ob_ignored := bt_insert gid (ignored m) (ob_ignored out)\<rparr>
                 else out);
          out = out\<lparr>ob_notes := ob_notes out @ map (Rejected gid) (rejected m)\<rparr>
      in map_option (\<lambda>out. out\<lparr>ob_members := bt_insert gid (members m) (ob_members out)\<rparr>)
           (observe_members gid cfg (members m) out))"

definition observe_group ::
  "('w, 'fd) kernel \<Rightarrow> group_id list \<Rightarrow> group_id \<times> 'fd group_runtime \<Rightarrow> observed \<Rightarrow> 'w
     \<Rightarrow> (observed \<times> 'w) option" where
  "observe_group K degraded e out w =
     (case e of (gid, g) \<Rightarrow>
        if gid \<in> set degraded then Some (out, w)
        else
          (case is_deleted K (gr_membership_dir g) w of
             (r, w) \<Rightarrow>
               if r = Inr True then Some (freeze gid (MembershipDeleted gid) out, w)
               else
                 (case scan_membership K (gr_membership_dir g) w of
                    (Inl e, w) \<Rightarrow>
                      Some (freeze gid (MembershipUnreadable gid (show_io_error K e)) out, w)
                  | (Inr m, w) \<Rightarrow>
                      map_option (\<lambda>out. (out, w)) (observe_membership gid (gr_config g) m out))))"

fun observe_groups ::
  "('w, 'fd) kernel \<Rightarrow> group_id list \<Rightarrow> (group_id \<times> 'fd group_runtime) list \<Rightarrow> observed \<Rightarrow> 'w
     \<Rightarrow> (observed \<times> 'w) option" where
  "observe_groups K degraded [] out w = Some (out, w)"
| "observe_groups K degraded (e # es) out w =
     (case observe_group K degraded e out w of
        None \<Rightarrow> None
      | Some (out, w) \<Rightarrow> observe_groups K degraded es out w)"

section \<open>The kernel\<close>

definition observe_source ::
  "('w, 'fd) kernel \<Rightarrow> desired_mount \<Rightarrow> ('w, 'fd) env \<Rightarrow> source_state \<times> ('w, 'fd) env" where
  "observe_source K d e =
     (let src = dm_source d;
          unavailable = (\<lambda>er. SS_Unavailable (show_location src @ '': '' @ show_io_error K er)) in
      case roots_get K (loc_root src) e of
        (Inl er, e) \<Rightarrow>
          (SS_Unavailable (''source root '' @ show_abs_path (loc_root src) @ '': '' @ er), e)
      | (Inr root, e) \<Rightarrow>
          (case on_world (resolve_dir K root (loc_path src)) e of
             (Inl er, e) \<Rightarrow> (unavailable er, e)
           | (Inr fd, e) \<Rightarrow>
               (case on_world (fd_dev_ino K fd) e of
                  (Inl er, e) \<Rightarrow> (unavailable er, e)
                | (Inr i, e) \<Rightarrow> (Resolved i, e))))"

definition observe_target ::
  "('w, 'fd) kernel \<Rightarrow> bool \<Rightarrow> location \<Rightarrow> ('w, 'fd) env \<Rightarrow> target_state \<times> ('w, 'fd) env" where
  "observe_target K unique_supported l e =
     (case roots_get K (loc_root l) e of
        (Inl er, e) \<Rightarrow>
          (TS_Unavailable (''target root '' @ show_abs_path (loc_root l) @ '': '' @ er), e)
      | (Inr root, e) \<Rightarrow> on_world (inspect K root (loc_path l) unique_supported) e)"

fun observe_sources ::
  "('w, 'fd) kernel \<Rightarrow> desired_mount list \<Rightarrow> (record_key, source_state) btree \<Rightarrow> ('w, 'fd) env
     \<Rightarrow> (record_key, source_state) btree \<times> ('w, 'fd) env" where
  "observe_sources K [] m e = (m, e)"
| "observe_sources K (d # ds) m e =
     (case observe_source K d e of (s, e) \<Rightarrow> observe_sources K ds (bt_insert (dm_key d) s m) e)"

fun observe_targets ::
  "('w, 'fd) kernel \<Rightarrow> bool \<Rightarrow> location list \<Rightarrow> (location, target_state) btree \<Rightarrow> ('w, 'fd) env
     \<Rightarrow> (location, target_state) btree \<times> ('w, 'fd) env" where
  "observe_targets K u [] m e = (m, e)"
| "observe_targets K u (l # ls) m e =
     (case observe_target K u l e of (t, e) \<Rightarrow> observe_targets K u ls (bt_insert l t m) e)"

definition target_locations :: "state \<Rightarrow> observed \<Rightarrow> location list" where
  "target_locations s out =
     bs_extend (map target_location (filter (\<lambda>r. mr_group r \<notin> set (ob_frozen out)) (records s)))
       (bs_from (map dm_target (ob_desired out)))"

definition observe_kernel ::
  "('w, 'fd) kernel \<Rightarrow> state \<Rightarrow> bool \<Rightarrow> observed \<Rightarrow> ('w, 'fd) env \<Rightarrow> observed \<times> ('w, 'fd) env" where
  "observe_kernel K s unique_supported out e =
     (case observe_sources K (ob_desired out) (obs_sources (ob_observations out)) e of
        (sources, e) \<Rightarrow>
          (case observe_targets K unique_supported (target_locations s out)
                  (obs_targets (ob_observations out)) e of
             (targets, e) \<Rightarrow>
               (out\<lparr>ob_observations := \<lparr>obs_sources = sources, obs_targets = targets\<rparr>\<rparr>, e)))"

definition observe ::
  "('w, 'fd) kernel \<Rightarrow> 'fd runtime \<Rightarrow> state \<Rightarrow> group_id list \<Rightarrow> bool \<Rightarrow> ('w, 'fd) env
     \<Rightarrow> (observed \<times> ('w, 'fd) env) option" where
  "observe K rt s degraded unique_supported e =
     (case observe_groups K degraded (rt_groups rt) (observed_with_frozen degraded) (e_world e) of
        None \<Rightarrow> None
      | Some (out, w) \<Rightarrow> Some (observe_kernel K s unique_supported out (e\<lparr>e_world := w\<rparr>)))"

section \<open>What is observed\<close>

text \<open>The desired mounts of a group are those of its members, at the places its templates
  give them.\<close>

definition desired_for :: "group_id \<Rightarrow> group_config \<Rightarrow> name list \<Rightarrow> desired_mount \<Rightarrow> bool" where
  "desired_for gid cfg ns d =
     (rk_group (dm_key d) = gid \<and> rk_name (dm_key d) \<in> set ns
      \<and> interpolate (gc_source cfg) (rk_name (dm_key d)) = Some (Inr (loc_path (dm_source d)))
      \<and> interpolate (gc_target cfg) (rk_name (dm_key d)) = Some (Inr (loc_path (dm_target d)))
      \<and> loc_root (dm_source d) = gc_source_root cfg \<and> loc_root (dm_target d) = gc_target_root cfg
      \<and> dm_attrs d = gc_attrs cfg)"

lemma desired_for_mono: "desired_for gid cfg ns d \<Longrightarrow> set ns \<subseteq> set ns' \<Longrightarrow> desired_for gid cfg ns' d"
  by (auto simp: desired_for_def)

lemma interpolate_total:
  assumes "template_ok False t" "name_valid n"
  shows "\<exists>r. interpolate t n = Some r"
  using components_cases[OF assms] by (auto simp: interpolate_def)

lemma observe_members_value:
  assumes "group_ok cfg" "\<forall>n\<in>set ns. name_valid n"
  shows "\<exists>ds nts. observe_members gid cfg ns out =
      Some (out\<lparr>ob_desired := ob_desired out @ ds, ob_notes := ob_notes out @ nts\<rparr>)
    \<and> (\<forall>d\<in>set ds. desired_for gid cfg ns d) \<and> (distinct ns \<longrightarrow> distinct (map dm_key ds))"
  using assms
proof (induction ns arbitrary: out)
  case Nil
  show ?case by (intro exI[of _ "[]"]) simp
next
  case (Cons n ns)
  have t: "template_ok False (gc_source cfg)" "template_ok False (gc_target cfg)" "name_valid n"
    using Cons.prems by (auto simp: group_ok_def)
  obtain r1 r2 where r: "interpolate (gc_source cfg) n = Some r1" "interpolate (gc_target cfg) n = Some r2"
    using interpolate_total[OF t(1,3)] interpolate_total[OF t(2,3)] by blast
  show ?case
  proof (cases "\<exists>s t. r1 = Inr s \<and> r2 = Inr t")
    case True
    then obtain src tgt where st: "r1 = Inr src" "r2 = Inr tgt" by blast
    let ?d = "\<lparr>dm_key = RecordKey gid n, dm_source = Location (gc_source_root cfg) src,
      dm_target = Location (gc_target_root cfg) tgt, dm_attrs = gc_attrs cfg\<rparr>"
    from Cons.IH[of "out\<lparr>ob_desired := ob_desired out @ [?d]\<rparr>"] Cons.prems obtain ds nts where
      *: "observe_members gid cfg ns (out\<lparr>ob_desired := ob_desired out @ [?d]\<rparr>) =
        Some (out\<lparr>ob_desired := ob_desired out @ ?d # ds, ob_notes := ob_notes out @ nts\<rparr>)"
      and ds: "\<forall>d\<in>set ds. desired_for gid cfg ns d"
      and dist: "distinct ns \<longrightarrow> distinct (map dm_key ds)"
      by auto
    have "RecordKey gid n \<notin> dm_key ` set ds" if new: "n \<notin> set ns"
    proof
      assume "RecordKey gid n \<in> dm_key ` set ds"
      then obtain d where d: "d \<in> set ds" "dm_key d = RecordKey gid n" by force
      have "rk_name (dm_key d) \<in> set ns" using ds d(1) by (simp add: desired_for_def)
      then show False using new d(2) by simp
    qed
    moreover have "desired_for gid cfg (n # ns) ?d"
      using r st by (simp add: desired_for_def)
    moreover have "\<forall>d\<in>set ds. desired_for gid cfg (n # ns) d"
      using ds desired_for_mono[of gid cfg ns _ "n # ns"] by auto
    ultimately show ?thesis
      using * dist r st by (intro exI[of _ "?d # ds"] exI[of _ nts]) auto
  next
    case False
    then obtain nt where step: "observe_members gid cfg (n # ns) out =
        observe_members gid cfg ns (out\<lparr>ob_notes := ob_notes out @ [nt]\<rparr>)"
      using r by (cases r1; cases r2) auto
    from Cons.IH[of "out\<lparr>ob_notes := ob_notes out @ [nt]\<rparr>"] Cons.prems obtain ds nts where
      *: "observe_members gid cfg ns (out\<lparr>ob_notes := ob_notes out @ [nt]\<rparr>) =
        Some (out\<lparr>ob_desired := ob_desired out @ ds, ob_notes := ob_notes out @ nt # nts\<rparr>)"
      and ds: "\<forall>d\<in>set ds. desired_for gid cfg ns d"
      and dist: "distinct ns \<longrightarrow> distinct (map dm_key ds)"
      by auto
    have "\<forall>d\<in>set ds. desired_for gid cfg (n # ns) d"
      using ds desired_for_mono[of gid cfg ns _ "n # ns"] by auto
    with * dist show ?thesis unfolding step
      by (intro exI[of _ ds] exI[of _ "nt # nts"]) auto
  qed
qed

text \<open>The invariant of the loop over the groups.\<close>

definition observed_ok :: "'fd runtime \<Rightarrow> group_id list \<Rightarrow> observed \<Rightarrow> bool" where
  "observed_ok rt degraded out =
     (distinct (map dm_key (ob_desired out))
      \<and> set degraded \<subseteq> set (ob_frozen out)
      \<and> (\<forall>d\<in>set (ob_desired out).
           rk_group (dm_key d) \<notin> set (ob_frozen out) \<and> name_valid (rk_name (dm_key d))
           \<and> (\<exists>g ns. bt_get (rt_groups rt) (rk_group (dm_key d)) = Some g
                \<and> bt_get (ob_members out) (rk_group (dm_key d)) = Some ns
                \<and> desired_for (rk_group (dm_key d)) (gr_config g) ns d))
      \<and> (\<forall>gid. bt_get (ob_members out) gid \<noteq> None \<longrightarrow> gid \<notin> set (ob_frozen out)))"

text \<open>What one group adds.\<close>

lemma scan_membership_valid:
  assumes "scan_membership K dir w = (Inr m, w')"
  shows "distinct (members m) \<and> (\<forall>n\<in>set (members m). name_valid n)"
proof -
  obtain es where m: "m = from_entries es"
    using assms by (auto simp: scan_membership_def bindE_Inr_iff)
  have "bs_wf (members m)" "set (members m) = (Name \<circ> fst) ` {e \<in> set es. admitted e}"
    using fold_add_entry[of es membership_default]
    by (auto simp: m from_entries_def membership_default_def)
  then show ?thesis using bs_wf_distinct by (auto simp: admitted_def)
qed

lemma observe_membership_ok:
  assumes inv: "observed_ok rt degraded out" and g: "bt_get (rt_groups rt) gid = Some g" "group_ok (gr_config g)"
    and new: "bt_get (ob_members out) gid = None" "gid \<notin> set (ob_frozen out)"
    and m: "distinct (members m)" "\<forall>n\<in>set (members m). name_valid n"
  shows "\<exists>out'. observe_membership gid (gr_config g) m out = Some out' \<and> observed_ok rt degraded out'
    \<and> ob_frozen out' = ob_frozen out
    \<and> (\<forall>k. k \<noteq> gid \<longrightarrow> bt_get (ob_members out') k = bt_get (ob_members out) k)"
proof -
  define out1 where "out1 = (if ignored m \<noteq> [] then out\<lparr>ob_ignored := bt_insert gid (ignored m) (ob_ignored out)\<rparr>
      else out)\<lparr>ob_notes := ob_notes out @ map (Rejected gid) (rejected m)\<rparr>"
  have out1: "ob_desired out1 = ob_desired out" by (simp add: out1_def)
  obtain ds nts where om: "observe_members gid (gr_config g) (members m) out1 =
      Some (out1\<lparr>ob_desired := ob_desired out @ ds, ob_notes := ob_notes out1 @ nts\<rparr>)"
    and ds: "\<forall>d\<in>set ds. desired_for gid (gr_config g) (members m) d" "distinct (map dm_key ds)"
    using observe_members_value[OF g(2) m(2), of gid out1] m(1) unfolding out1 by blast
  define out' where "out' = out1\<lparr>ob_desired := ob_desired out @ ds, ob_notes := ob_notes out1 @ nts,
    ob_members := bt_insert gid (members m) (ob_members out)\<rparr>"
  have eq: "observe_membership gid (gr_config g) m out = Some out'"
    unfolding observe_membership_def Let_def using om
    by (auto simp: out1_def out'_def)
  have sel: "ob_desired out' = ob_desired out @ ds" "ob_frozen out' = ob_frozen out"
    "ob_members out' = bt_insert gid (members m) (ob_members out)"
    by (simp_all add: out'_def out1_def)
  have old: "rk_group (dm_key d) \<noteq> gid" if "d \<in> set (ob_desired out)" for d
    using inv that new(1) by (auto simp: observed_ok_def)
  have disj: "dm_key ` set (ob_desired out) \<inter> dm_key ` set ds = {}"
    using old ds(1) by (fastforce simp: desired_for_def)
  have fresh: "rk_group (dm_key d) = gid \<and> name_valid (rk_name (dm_key d))" if "d \<in> set ds" for d
    using that ds(1) m(2) by (auto simp: desired_for_def)
  have each: "rk_group (dm_key d) \<notin> set (ob_frozen out) \<and> name_valid (rk_name (dm_key d))
       \<and> (\<exists>g ns. bt_get (rt_groups rt) (rk_group (dm_key d)) = Some g
            \<and> bt_get (ob_members out') (rk_group (dm_key d)) = Some ns
            \<and> desired_for (rk_group (dm_key d)) (gr_config g) ns d)"
    if "d \<in> set (ob_desired out')" for d
  proof (cases "d \<in> set ds")
    case True
    with fresh[OF True] ds(1) g(1) new(2) show ?thesis by (auto simp: sel bt_get_insert)
  next
    case False
    with that have d: "d \<in> set (ob_desired out)" by (simp add: sel)
    with inv old[OF d] show ?thesis by (simp add: observed_ok_def sel bt_get_insert)
  qed
  have "observed_ok rt degraded out'"
    unfolding observed_ok_def
  proof (intro conjI)
    show "distinct (map dm_key (ob_desired out'))"
      using inv ds(2) disj by (simp add: observed_ok_def sel)
    show "set degraded \<subseteq> set (ob_frozen out')" using inv by (simp add: observed_ok_def sel)
    show "\<forall>gid'. bt_get (ob_members out') gid' \<noteq> None \<longrightarrow> gid' \<notin> set (ob_frozen out')"
      using inv new(2) by (simp add: observed_ok_def sel bt_get_insert)
  qed (use each in \<open>simp add: sel(2)\<close>)
  with eq show ?thesis by (auto simp: sel bt_get_insert)
qed

definition pending_ok :: "group_id list \<Rightarrow> (group_id \<times> 'fd group_runtime) list \<Rightarrow> observed \<Rightarrow> bool" where
  "pending_ok degraded es out =
     (\<forall>(gid, g)\<in>set es. bt_get (ob_members out) gid = None
        \<and> (gid \<in> set (ob_frozen out) \<longrightarrow> gid \<in> set degraded))"

lemma observe_membership_members:
  "observe_membership gid cfg m out = Some out' \<Longrightarrow> bt_get (ob_members out') gid \<noteq> None"
  by (auto simp: observe_membership_def Let_def bt_get_insert)

lemma observed_ok_freeze:
  assumes "observed_ok rt degraded out" "bt_get (ob_members out) gid = None"
  shows "observed_ok rt degraded (freeze gid nt out)"
proof -
  have "rk_group (dm_key d) \<noteq> gid" if "d \<in> set (ob_desired out)" for d
    using assms that by (auto simp: observed_ok_def)
  moreover have "bt_get (ob_members out) g \<noteq> None \<Longrightarrow> g \<noteq> gid" for g
    using assms(2) by auto
  ultimately show ?thesis using assms(1) by (auto simp: observed_ok_def freeze_def)
qed

lemma observe_group_ok:
  assumes inv: "observed_ok rt degraded out" "pending_ok degraded ((gid, g) # es) out"
    and g: "bt_get (rt_groups rt) gid = Some g" "group_ok (gr_config g)"
    and es: "gid \<notin> fst ` set es"
  shows "\<exists>out' w'. observe_group K degraded (gid, g) out w = Some (out', w')
    \<and> observed_ok rt degraded out' \<and> pending_ok degraded es out'
    \<and> (gid \<in> set (ob_frozen out') \<or> bt_get (ob_members out') gid \<noteq> None)
    \<and> set (ob_frozen out) \<subseteq> set (ob_frozen out')
    \<and> (\<forall>k. bt_get (ob_members out) k \<noteq> None \<longrightarrow> bt_get (ob_members out') k \<noteq> None)"
proof (cases "gid \<in> set degraded")
  case True
  with inv show ?thesis by (auto simp: observe_group_def observed_ok_def pending_ok_def)
next
  case False
  have none: "bt_get (ob_members out) gid = None" "gid \<notin> set (ob_frozen out)"
    using inv(2) False by (auto simp: pending_ok_def)
  have rest: "pending_ok degraded es out" using inv(2) by (simp add: pending_ok_def)
  have frz: "observed_ok rt degraded (freeze gid nt out) \<and> pending_ok degraded es (freeze gid nt out)
      \<and> gid \<in> set (ob_frozen (freeze gid nt out)) \<and> set (ob_frozen out) \<subseteq> set (ob_frozen (freeze gid nt out))
      \<and> ob_members (freeze gid nt out) = ob_members out" for nt
    using observed_ok_freeze[OF inv(1) none(1)] rest es
    by (auto simp: pending_ok_def freeze_def image_iff)
  obtain r w1 where d: "is_deleted K (gr_membership_dir g) w = (r, w1)" by fastforce
  obtain r2 w2 where sc: "scan_membership K (gr_membership_dir g) w1 = (r2, w2)" by fastforce
  show ?thesis
  proof (cases "r = Inr True")
    case True
    with frz[of "MembershipDeleted gid"] False d show ?thesis by (simp add: observe_group_def)
  next
    case alive: False
    show ?thesis
    proof (cases r2)
      case (Inl er)
      with frz[of "MembershipUnreadable gid (show_io_error K er)"] False d sc alive show ?thesis
        by (simp add: observe_group_def)
    next
      case (Inr m)
      have m: "distinct (members m)" "\<forall>n\<in>set (members m). name_valid n"
        using scan_membership_valid[OF sc[unfolded Inr]] by blast+
      obtain out' where out': "observe_membership gid (gr_config g) m out = Some out'"
        "observed_ok rt degraded out'" "ob_frozen out' = ob_frozen out"
        "\<forall>k. k \<noteq> gid \<longrightarrow> bt_get (ob_members out') k = bt_get (ob_members out) k"
        "bt_get (ob_members out') gid \<noteq> None"
        using observe_membership_ok[OF inv(1) g none m] observe_membership_members by metis
      have "pending_ok degraded es out'"
        unfolding pending_ok_def
      proof (clarify)
        fix k h assume kh: "(k, h) \<in> set es"
        then have "k \<noteq> gid" using es by force
        with kh rest out'(3,4) show "bt_get (ob_members out') k = None
            \<and> (k \<in> set (ob_frozen out') \<longrightarrow> k \<in> set degraded)"
          by (auto simp: pending_ok_def)
      qed
      with out' False d sc alive Inr show ?thesis
        by (simp add: observe_group_def) (metis option.distinct(1))
    qed
  qed
qed

lemma observe_groups_ok:
  assumes "observed_ok rt degraded out" "pending_ok degraded es out"
    "\<forall>(gid, g)\<in>set es. bt_get (rt_groups rt) gid = Some g \<and> group_ok (gr_config g)"
    "distinct (map fst es)"
  shows "\<exists>out' w'. observe_groups K degraded es out w = Some (out', w') \<and> observed_ok rt degraded out'
    \<and> (\<forall>(gid, g)\<in>set es. gid \<in> set (ob_frozen out') \<or> bt_get (ob_members out') gid \<noteq> None)
    \<and> set (ob_frozen out) \<subseteq> set (ob_frozen out')
    \<and> (\<forall>k. bt_get (ob_members out) k \<noteq> None \<longrightarrow> bt_get (ob_members out') k \<noteq> None)"
  using assms
proof (induction es arbitrary: out w)
  case (Cons e es)
  obtain gid g where e: "e = (gid, g)" by (cases e)
  obtain out1 w1 where 1: "observe_group K degraded (gid, g) out w = Some (out1, w1)"
    "observed_ok rt degraded out1" "pending_ok degraded es out1"
    "gid \<in> set (ob_frozen out1) \<or> bt_get (ob_members out1) gid \<noteq> None"
    "set (ob_frozen out) \<subseteq> set (ob_frozen out1)"
    "\<forall>k. bt_get (ob_members out) k \<noteq> None \<longrightarrow> bt_get (ob_members out1) k \<noteq> None"
    using observe_group_ok[of rt degraded out gid g es K w] Cons.prems by (auto simp: e)
  from Cons.IH[OF 1(2,3), of w1] Cons.prems obtain out2 w2 where
    2: "observe_groups K degraded es out1 w1 = Some (out2, w2)" "observed_ok rt degraded out2"
    "\<forall>(gid, g)\<in>set es. gid \<in> set (ob_frozen out2) \<or> bt_get (ob_members out2) gid \<noteq> None"
    "set (ob_frozen out1) \<subseteq> set (ob_frozen out2)"
    "\<forall>k. bt_get (ob_members out1) k \<noteq> None \<longrightarrow> bt_get (ob_members out2) k \<noteq> None"
    by auto
  show ?case
  proof (intro exI conjI)
    show "observe_groups K degraded (e # es) out w = Some (out2, w2)" by (simp add: e 1(1) 2(1))
  qed (use 1 2 in \<open>auto simp: e\<close>)
qed simp

section \<open>What the planner gets\<close>

lemma observe_sources_get:
  "bt_get (fst (observe_sources K ds m e)) k \<noteq> None \<longleftrightarrow> k \<in> dm_key ` set ds \<or> bt_get m k \<noteq> None"
  by (induction ds arbitrary: m e) (auto simp: bt_get_insert split: prod.splits)

lemma observe_targets_get:
  "bt_get (fst (observe_targets K u ls m e)) l \<noteq> None \<longleftrightarrow> l \<in> set ls \<or> bt_get m l \<noteq> None"
  by (induction ls arbitrary: m e) (auto simp: bt_get_insert split: prod.splits)

lemma observe_kernel_value:
  "\<exists>obs e'. observe_kernel K s u out e = (out\<lparr>ob_observations := obs\<rparr>, e')
    \<and> (\<forall>d\<in>set (ob_desired out). bt_get (obs_sources obs) (dm_key d) \<noteq> None
         \<and> bt_get (obs_targets obs) (dm_target d) \<noteq> None)
    \<and> (\<forall>r\<in>set (records s). mr_group r \<notin> set (ob_frozen out) \<longrightarrow>
         bt_get (obs_targets obs) (target_location r) \<noteq> None)"
proof -
  obtain ss e1 where s: "observe_sources K (ob_desired out) (obs_sources (ob_observations out)) e = (ss, e1)"
    by fastforce
  obtain ts e2 where t: "observe_targets K u (target_locations s out) (obs_targets (ob_observations out)) e1 = (ts, e2)"
    by fastforce
  have "\<forall>d\<in>set (ob_desired out). bt_get ss (dm_key d) \<noteq> None"
    using observe_sources_get[of K "ob_desired out" "obs_sources (ob_observations out)" e] s by auto
  moreover have "\<forall>l\<in>set (target_locations s out). bt_get ts l \<noteq> None"
    using observe_targets_get[of K u "target_locations s out" "obs_targets (ob_observations out)" e1] t
    by auto
  ultimately show ?thesis
    using s t by (auto simp: observe_kernel_def target_locations_def)
qed

lemma observe_ok:
  assumes "runtime_ok rt"
  shows "\<exists>out e'. observe K rt s degraded u e = Some (out, e') \<and> observed_ok rt degraded out
    \<and> (\<forall>(gid, g)\<in>set (rt_groups rt). gid \<in> set (ob_frozen out) \<or> bt_get (ob_members out) gid \<noteq> None)
    \<and> (\<forall>d\<in>set (ob_desired out). bt_get (obs_sources (ob_observations out)) (dm_key d) \<noteq> None
         \<and> bt_get (obs_targets (ob_observations out)) (dm_target d) \<noteq> None)
    \<and> (\<forall>r\<in>set (records s). mr_group r \<notin> set (ob_frozen out) \<longrightarrow>
         bt_get (obs_targets (ob_observations out)) (target_location r) \<noteq> None)"
proof -
  have "observed_ok rt degraded (observed_with_frozen degraded)"
    "pending_ok degraded (rt_groups rt) (observed_with_frozen degraded)"
    by (auto simp: observed_ok_def pending_ok_def observed_with_frozen_def)
  moreover have "\<forall>(gid, g)\<in>set (rt_groups rt). bt_get (rt_groups rt) gid = Some g \<and> group_ok (gr_config g)"
    "distinct (map fst (rt_groups rt))"
    using assms bt_wf_distinct by (auto simp: runtime_ok_def bt_get_iff)
  ultimately obtain out w where o: "observe_groups K degraded (rt_groups rt) (observed_with_frozen degraded) (e_world e)
      = Some (out, w)" "observed_ok rt degraded out"
    "\<forall>(gid, g)\<in>set (rt_groups rt). gid \<in> set (ob_frozen out) \<or> bt_get (ob_members out) gid \<noteq> None"
    using observe_groups_ok[of rt degraded "observed_with_frozen degraded" "rt_groups rt" K "e_world e"]
    by blast
  obtain obs e' where k: "observe_kernel K s u out (e\<lparr>e_world := w\<rparr>) = (out\<lparr>ob_observations := obs\<rparr>, e')"
    "\<forall>d\<in>set (ob_desired out). bt_get (obs_sources obs) (dm_key d) \<noteq> None
         \<and> bt_get (obs_targets obs) (dm_target d) \<noteq> None"
    "\<forall>r\<in>set (records s). mr_group r \<notin> set (ob_frozen out) \<longrightarrow>
         bt_get (obs_targets obs) (target_location r) \<noteq> None"
    using observe_kernel_value[of K s u out "e\<lparr>e_world := w\<rparr>"] by blast
  show ?thesis
  proof (intro exI conjI)
    show "observe K rt s degraded u e = Some (out\<lparr>ob_observations := obs\<rparr>, e')"
      using o(1) k(1) by (simp add: observe_def)
    show "observed_ok rt degraded (out\<lparr>ob_observations := obs\<rparr>)"
      using o(2) by (simp add: observed_ok_def)
  qed (use o(3) k(2,3) in simp_all)
qed

text \<open>C26. Observing a well-formed runtime always completes.  The desired mounts have distinct
  members, belong to groups that are neither degraded nor frozen, and each is a valid member
  of its scanned group at the location the group's templates give it; every group is either
  scanned or frozen; and everything the planner will look up (the source and target of
  every desired mount, the target of every record of an unfrozen group) was observed.\<close>

theorem observe_sound:
  assumes "runtime_ok rt"
  shows "\<exists>out e'. observe K rt s degraded u e = Some (out, e') \<and> observed_ok rt degraded out
    \<and> (\<forall>(gid, g)\<in>set (rt_groups rt). gid \<in> set (ob_frozen out) \<or> bt_get (ob_members out) gid \<noteq> None)
    \<and> (\<forall>d\<in>set (ob_desired out). bt_get (obs_sources (ob_observations out)) (dm_key d) \<noteq> None
         \<and> bt_get (obs_targets (ob_observations out)) (dm_target d) \<noteq> None)
    \<and> (\<forall>r\<in>set (records s). mr_group r \<notin> set (ob_frozen out) \<longrightarrow>
         bt_get (obs_targets (ob_observations out)) (target_location r) \<noteq> None)"
  using assms by (rule observe_ok)

text \<open>The same on the runtime that discovery finds on the toy kernel.\<close>

definition example_runtime :: "string runtime" where
  "example_runtime = fst (fst (the (discover toy_kernel [] example_set_runtime (toy_world False))))"

lemma example_runtime_ok: "runtime_ok example_runtime"
proof -
  obtain rt' d w' where "discover toy_kernel [] example_set_runtime (toy_world False) = Some ((rt', d), w')"
    "discovery_ok example_set_runtime (rt', d)"
    using discover_ok[OF example_set_runtime_ok, of toy_kernel "[]" "toy_world False"] by blast
  then show ?thesis by (simp add: example_runtime_def discovery_ok_def)
qed

theorem observe_sound_witness:
  "\<exists>out e'. observe toy_kernel example_runtime state_default [] False
       \<lparr>e_roots = [], e_world = toy_world False\<rparr> = Some (out, e')
     \<and> observed_ok example_runtime [] out \<and> ob_desired out \<noteq> []"
proof -
  have run: "map_option (\<lambda>(out, _). ob_desired out \<noteq> [])
      (observe toy_kernel example_runtime state_default [] False
         \<lparr>e_roots = [], e_world = toy_world False\<rparr>) = Some True"
    by code_simp
  obtain out e' where "observe toy_kernel example_runtime state_default [] False
      \<lparr>e_roots = [], e_world = toy_world False\<rparr> = Some (out, e')" "observed_ok example_runtime [] out"
    using observe_sound[OF example_runtime_ok, of toy_kernel state_default "[]" False
      "\<lparr>e_roots = [], e_world = toy_world False\<rparr>"] by blast
  with run show ?thesis by simp
qed

end
