(* ===== verification/Execute.thy ===== *)
theory Execute
  imports Observe
begin

text \<open>
  \<open>src/src/reconcile/execute.rs\<close>: executing a plan.  The executor's mutable state is the
  in-memory state, the root cache and the world; the \<open>StateSink\<close> it persists to is a
  parameter.  Log messages are not modelled.
\<close>

section \<open>Results\<close>

datatype step_result = Done | Skipped | Failed string

record execution =
  exec_results :: "step_result list"

definition failures :: "execution \<Rightarrow> nat" where
  "failures x = length (filter (\<lambda>r. case r of Failed _ \<Rightarrow> True | _ \<Rightarrow> False) (exec_results x))"

definition completed :: "execution \<Rightarrow> nat" where
  "completed x = length (filter (\<lambda>r. r = Done) (exec_results x))"

section \<open>The executor\<close>

record ('w, 'fd) exec =
  x_state :: state
  x_env :: "('w, 'fd) env"

type_synonym 'w sink = "state \<Rightarrow> ('w, unit) io"

record ('w, 'fd) executor =
  ex_kernel :: "('w, 'fd) kernel"
  ex_sink :: "'w sink"
  ex_unique :: bool

type_synonym ('w, 'fd, 'a) act = "('w, 'fd) exec \<Rightarrow> (string + 'a) \<times> ('w, 'fd) exec"

definition on_env :: "(('w, 'fd) env \<Rightarrow> 'r \<times> ('w, 'fd) env) \<Rightarrow> ('w, 'fd) exec \<Rightarrow> 'r \<times> ('w, 'fd) exec" where
  "on_env m x = (case m (x_env x) of (r, e) \<Rightarrow> (r, x\<lparr>x_env := e\<rparr>))"

definition get_root :: "('w, 'fd) executor \<Rightarrow> abs_path \<Rightarrow> ('w, 'fd, 'fd) act" where
  "get_root X root = on_env (roots_get (ex_kernel X) root)"

text \<open>An I/O operation whose error is put into a message.\<close>

definition doing :: "('e \<Rightarrow> string) \<Rightarrow> ('w \<Rightarrow> ('e + 'a) \<times> 'w) \<Rightarrow> ('w, 'fd, 'a) act" where
  "doing msg m = mapErrE msg (on_env (on_world m))"

definition persist :: "('w, 'fd) executor \<Rightarrow> ('w, 'fd, unit) act" where
  "persist X x =
     doing (\<lambda>e. ''cannot write state file: '' @ show_io_error (ex_kernel X) e) (ex_sink X (x_state x)) x"

definition make_record :: "desired_mount \<Rightarrow> mount_identity \<Rightarrow> timestamp \<Rightarrow> mount_record" where
  "make_record d ident now =
     \<lparr>mr_group = rk_group (dm_key d), mr_name = rk_name (dm_key d),
      mr_source_root = loc_root (dm_source d), mr_source = loc_path (dm_source d),
      mr_target_root = loc_root (dm_target d), mr_target = loc_path (dm_target d),
      mr_mnt_id = mnt_id ident, mr_mnt_id_unique = mnt_id_unique ident,
      mr_root_dev_major = dev_major (mroot ident), mr_root_dev_minor = dev_minor (mroot ident),
      mr_root_ino = ino (mroot ident), mr_read_only = read_only (dm_attrs d),
      mr_noexec = noexec (dm_attrs d), mr_nosymfollow = nosymfollow (dm_attrs d),
      mr_created_at = now\<rparr>"

text \<open>The first part of \<open>try_mount\<close>: everything up to the new mount.\<close>

definition attach :: "('w, 'fd) executor \<Rightarrow> desired_mount \<Rightarrow> ('w, 'fd, mount_identity) act" where
  "attach X d =
     (let K = ex_kernel X;
          at_source = (\<lambda>e. ''source '' @ show_location (dm_source d) @ '': '' @ show_io_error K e);
          at_target = (\<lambda>e. ''target '' @ show_location (dm_target d) @ '': '' @ show_io_error K e)
      in
      bindE (get_root X (loc_root (dm_source d))) (\<lambda>source_root.
      bindE (doing at_source (resolve_dir K source_root (loc_path (dm_source d)))) (\<lambda>source.
      bindE (get_root X (loc_root (dm_target d))) (\<lambda>root.
      bindE (doing at_target
               (ensure_dirs_beneath K root (split_on SLASH (loc_path (dm_target d))))) (\<lambda>target.
      bindE (doing at_target (is_mount_root K target)) (\<lambda>occupied.
        if occupied
        then failE (''target '' @ show_location (dm_target d) @ '' became occupied by another mount'')
        else doing (show_io_error K) (create_bind K source target (dm_attrs d) (ex_unique X))))))))"

text \<open>The undoing of a mount that could not be recorded.\<close>

definition roll_back ::
  "('w, 'fd) executor \<Rightarrow> desired_mount \<Rightarrow> mount_identity \<Rightarrow> mount_record option \<Rightarrow> string
     \<Rightarrow> ('w, 'fd, unit) act" where
  "roll_back X d ident previous save_error x =
     (let x = (case previous of
                 Some prev \<Rightarrow> x\<lparr>x_state := snd (state_insert prev (x_state x))\<rparr>
               | None \<Rightarrow> x\<lparr>x_state := snd (state_remove (dm_key d) (x_state x))\<rparr>)
      in bindE (get_root X (loc_root (dm_target d))) (\<lambda>root x.
           case on_env (on_world (unmount_verified (ex_kernel X) root (loc_path (dm_target d)) ident
                  (ex_unique X))) x of
             (Inr _, x) \<Rightarrow> (Inl (save_error @ ''; mount rolled back''), x)
           | (Inl e, x) \<Rightarrow>
               (Inl (save_error @ ''; rollback unmount also failed: ''
                     @ show_verified_op_error (ex_kernel X) e), x)) x)"

definition try_mount :: "('w, 'fd) executor \<Rightarrow> desired_mount \<Rightarrow> ('w, 'fd, unit) act" where
  "try_mount X d =
     bindE (attach X d) (\<lambda>ident x.
       case on_env (on_world (k_now (ex_kernel X))) x of
         (now, x) \<Rightarrow>
           (case state_insert (make_record d ident now) (x_state x) of
              (previous, s) \<Rightarrow>
                (case persist X (x\<lparr>x_state := s\<rparr>) of
                   (Inr _, x) \<Rightarrow> (Inr (), x)
                 | (Inl save_error, x) \<Rightarrow> roll_back X d ident previous save_error x)))"

definition remove_target_dir :: "('w, 'fd) executor \<Rightarrow> location \<Rightarrow> ('w, 'fd) exec \<Rightarrow> ('w, 'fd) exec" where
  "remove_target_dir X target x =
     (let (parent, leaf) =
        (case rsplit_once SLASH (loc_path target) of
           Some (parent, leaf) \<Rightarrow> (Some parent, leaf) | None \<Rightarrow> (None, loc_path target))
      in (case get_root X (loc_root target) x of
            (Inl _, x) \<Rightarrow> x
          | (Inr root, x) \<Rightarrow> snd (on_env (on_world (remove_empty_dir (ex_kernel X) root parent leaf)) x)))"

definition unmount_message :: "('w, 'fd) kernel \<Rightarrow> verified_op_error \<Rightarrow> string" where
  "unmount_message K e =
     (case e of
        VO_Io io \<Rightarrow> show_io_error K io
      | _ \<Rightarrow> ''refusing to unmount: '' @ show_verified_op_error K e)"

definition try_unmount :: "('w, 'fd) executor \<Rightarrow> mount_record \<Rightarrow> ('w, 'fd, unit) act" where
  "try_unmount X r =
     bindE (get_root X (loc_root (target_location r))) (\<lambda>root.
     bindE (doing (unmount_message (ex_kernel X))
              (unmount_verified (ex_kernel X) root (loc_path (target_location r)) (mr_identity r)
                 (ex_unique X))) (\<lambda>_ x.
       case persist X (x\<lparr>x_state := snd (state_remove (mr_key r) (x_state x))\<rparr>) of
         (persisted, x) \<Rightarrow> (persisted, remove_target_dir X (target_location r) x)))"

definition try_drop :: "('w, 'fd) executor \<Rightarrow> mount_record \<Rightarrow> ('w, 'fd, unit) act" where
  "try_drop X r x = persist X (x\<lparr>x_state := snd (state_remove (mr_key r) (x_state x))\<rparr>)"

definition into_result :: "string + unit \<Rightarrow> step_result" where
  "into_result r = (case r of Inr _ \<Rightarrow> Done | Inl e \<Rightarrow> Failed e)"

definition run_action ::
  "('w, 'fd) executor \<Rightarrow> action \<Rightarrow> ('w, 'fd) exec \<Rightarrow> step_result \<times> ('w, 'fd) exec" where
  "run_action X a x =
     (case (case a of
              Mount d \<Rightarrow> try_mount X d x
            | Unmount r _ \<Rightarrow> try_unmount X r x
            | DropRecord r _ \<Rightarrow> try_drop X r x) of
        (r, x) \<Rightarrow> (into_result r, x))"

text \<open>The loop of \<open>execute\<close>: \<open>results.get(d)\<close> is \<open>None\<close> for a step that is not done yet.\<close>

definition result_at :: "step_result list \<Rightarrow> nat \<Rightarrow> step_result option" where
  "result_at results d = (if d < length results then Some (results ! d) else None)"

fun execute_steps ::
  "('w, 'fd) executor \<Rightarrow> step list \<Rightarrow> step_result list \<Rightarrow> ('w, 'fd) exec
     \<Rightarrow> step_result list \<times> ('w, 'fd) exec" where
  "execute_steps X [] results x = (results, x)"
| "execute_steps X (s # ss) results x =
     (let blocked = list_ex (\<lambda>d. result_at results d \<noteq> Some Done) (depends_on s) in
      case (if blocked then (Skipped, x) else run_action X (step_action s) x) of
        (r, x) \<Rightarrow> execute_steps X ss (results @ [r]) x)"

definition execute :: "('w, 'fd) executor \<Rightarrow> plan \<Rightarrow> ('w, 'fd) exec \<Rightarrow> execution \<times> ('w, 'fd) exec" where
  "execute X p x =
     (case execute_steps X (plan_steps p) [] x of (rs, x) \<Rightarrow> (\<lparr>exec_results = rs\<rparr>, x))"

section \<open>Effects on the state\<close>

lemma on_env_state [simp]: "x_state (snd (on_env m x)) = x_state x"
  by (simp add: on_env_def split: prod.splits)

lemma on_env_eqD: "on_env m x = (r, x') \<Longrightarrow> x_state x' = x_state x"
  by (metis on_env_state snd_conv)

lemma doing_eqD: "doing f m x = (r, x') \<Longrightarrow> x_state x' = x_state x"
  by (auto simp: doing_def mapErrE_def split: prod.splits dest: on_env_eqD)

lemma get_root_eqD: "get_root X root x = (r, x') \<Longrightarrow> x_state x' = x_state x"
  by (auto simp: get_root_def dest: on_env_eqD)

lemma persist_eqD: "persist X x = (r, x') \<Longrightarrow> x_state x' = x_state x"
  by (auto simp: persist_def dest: doing_eqD)

text \<open>Actions that leave the state alone.\<close>

definition stateless :: "('w, 'fd, 'a) act \<Rightarrow> bool" where
  "stateless m = (\<forall>x. x_state (snd (m x)) = x_state x)"

lemma stateless_bindE: "stateless m \<Longrightarrow> (\<And>y. stateless (f y)) \<Longrightarrow> stateless (bindE m f)"
  unfolding stateless_def bindE_def by (auto split: prod.splits sum.splits) (metis snd_conv)+

lemma stateless_doing: "stateless (doing f m)"
  unfolding stateless_def using doing_eqD by (metis prod.collapse)

lemma stateless_get_root: "stateless (get_root X root)"
  unfolding stateless_def using get_root_eqD by (metis prod.collapse)

lemma stateless_failE: "stateless (failE e)"
  by (simp add: stateless_def failE_def)

lemma stateless_attach: "stateless (attach X d)"
  unfolding attach_def Let_def
  by (intro stateless_bindE stateless_doing stateless_get_root)
    (simp add: stateless_failE stateless_doing)

lemma mr_key_make_record [simp]: "mr_key (make_record d ident now) = dm_key d"
  by (simp add: mr_key_def make_record_def record_key.expand)

lemma make_record_facts [simp]:
  "mr_identity (make_record d ident now) = ident"
  "mr_attrs (make_record d ident now) = dm_attrs d"
  "source_location (make_record d ident now) = dm_source d"
  "target_location (make_record d ident now) = dm_target d"
  by (simp_all add: make_record_def mr_identity_def mr_attrs_def source_location_def
      target_location_def)

lemma remove_target_dir_state: "x_state (remove_target_dir X l x) = x_state x"
proof -
  obtain r x' where g: "get_root X (loc_root l) x = (r, x')" by fastforce
  then have "x_state x' = x_state x" by (rule get_root_eqD)
  with g show ?thesis
    by (cases r) (auto simp: remove_target_dir_def Let_def split: option.splits prod.splits)
qed

lemma state_undo:
  assumes "state_wf s"
  shows "(case fst (state_insert r s) of
      Some prev \<Rightarrow> snd (state_insert prev (snd (state_insert r s)))
    | None \<Rightarrow> snd (state_remove (mr_key r) (snd (state_insert r s)))) = s"
proof (cases "state_get s (mr_key r)")
  case None
  then have "fst (state_insert r s) = None" by (simp add: state_insert_def state_get_def)
  with st.undo_put_None[OF assms refl None] show ?thesis by simp
next
  case (Some prev)
  then have "fst (state_insert r s) = Some prev" by (simp add: state_insert_def state_get_def)
  with st.undo_put_Some[OF assms refl Some] show ?thesis by simp
qed

lemma try_mount_state:
  assumes wf: "state_wf (x_state x)" and run: "try_mount X d x = (r, x')"
  shows "case r of
      Inl e \<Rightarrow> x_state x' = x_state x
    | Inr _ \<Rightarrow> \<exists>ident now x1. attach X d x = (Inr ident, x1)
        \<and> x_state x' = snd (state_insert (make_record d ident now) (x_state x))"
proof -
  obtain r1 x1 where a: "attach X d x = (r1, x1)" by fastforce
  have s1: "x_state x1 = x_state x" using stateless_attach[of X d] a
    unfolding stateless_def by (metis snd_conv)
  show ?thesis
  proof (cases r1)
    case (Inl e)
    with run a s1 show ?thesis by (auto simp: try_mount_def bindE_def)
  next
    case (Inr ident)
    obtain now x2 where n: "on_env (on_world (k_now (ex_kernel X))) x1 = (now, x2)" by fastforce
    then have s2: "x_state x2 = x_state x" using on_env_eqD s1 by metis
    let ?r = "make_record d ident now"
    obtain previous s where ins: "state_insert ?r (x_state x2) = (previous, s)" by fastforce
    obtain p x3 where p: "persist X (x2\<lparr>x_state := s\<rparr>) = (p, x3)" by fastforce
    then have s3: "x_state x3 = s" using persist_eqD by fastforce
    show ?thesis
    proof (cases p)
      case pr: (Inr y)
      with run a Inr n ins p have "r = Inr ()" "x' = x3" by (auto simp: try_mount_def bindE_def)
      moreover have "x_state x3 = snd (state_insert ?r (x_state x))" using s3 ins s2 by (metis snd_conv)
      ultimately show ?thesis using a Inr by auto
    next
      case (Inl e)
      let ?x4 = "case previous of Some prev \<Rightarrow> x3\<lparr>x_state := snd (state_insert prev (x_state x3))\<rparr>
        | None \<Rightarrow> x3\<lparr>x_state := snd (state_remove (dm_key d) (x_state x3))\<rparr>"
      have restored: "x_state ?x4 = x_state x"
        using state_undo[OF wf, of ?r] ins s2 s3 by (simp split: option.splits)
      have rb: "(r, x') = roll_back X d ident previous e x3"
        using run a Inr n ins p Inl by (simp add: try_mount_def bindE_def)
      obtain g x5 where g: "get_root X (loc_root (dm_target d)) ?x4 = (g, x5)" by fastforce
      have s5: "x_state x5 = x_state x" using get_root_eqD[OF g] restored by simp
      show ?thesis
      proof (cases g)
        case (Inl er)
        with rb g s5 show ?thesis by (auto simp: roll_back_def bindE_def)
      next
        case (Inr root)
        obtain u x6 where u: "on_env (on_world (unmount_verified (ex_kernel X) root
            (loc_path (dm_target d)) ident (ex_unique X))) x5 = (u, x6)" by fastforce
        then have "x_state x6 = x_state x" using on_env_eqD s5 by metis
        with rb g Inr u show ?thesis by (cases u) (auto simp: roll_back_def bindE_def)
      qed
    qed
  qed
qed

lemma try_unmount_state:
  assumes run: "try_unmount X r x = (res, x')"
  shows "case res of
      Inl e \<Rightarrow> x_state x' = x_state x \<or> x_state x' = snd (state_remove (mr_key r) (x_state x))
    | Inr _ \<Rightarrow> x_state x' = snd (state_remove (mr_key r) (x_state x))"
proof -
  obtain g x1 where g: "get_root X (loc_root (target_location r)) x = (g, x1)" by fastforce
  have s1: "x_state x1 = x_state x" using get_root_eqD[OF g] .
  show ?thesis
  proof (cases g)
    case (Inl e)
    with run g s1 show ?thesis by (auto simp: try_unmount_def bindE_def)
  next
    case (Inr root)
    obtain u x2 where u: "doing (unmount_message (ex_kernel X))
        (unmount_verified (ex_kernel X) root (loc_path (target_location r)) (mr_identity r) (ex_unique X)) x1
        = (u, x2)" by fastforce
    have s2: "x_state x2 = x_state x" using doing_eqD[OF u] s1 by simp
    show ?thesis
    proof (cases u)
      case (Inl e)
      with run g Inr u s2 show ?thesis by (auto simp: try_unmount_def bindE_def)
    next
      case u': (Inr y)
      obtain p x3 where p: "persist X (x2\<lparr>x_state := snd (state_remove (mr_key r) (x_state x2))\<rparr>) = (p, x3)"
        by fastforce
      have s3: "x_state x3 = snd (state_remove (mr_key r) (x_state x))"
        using persist_eqD[OF p] s2 by simp
      have "res = p" "x' = remove_target_dir X (target_location r) x3"
        using run g Inr u u' p by (auto simp: try_unmount_def bindE_def)
      with s3 remove_target_dir_state[of X "target_location r" x3] show ?thesis
        by (auto split: sum.splits)
    qed
  qed
qed

lemma try_drop_state: "try_drop X r x = (res, x') \<Longrightarrow> x_state x' = snd (state_remove (mr_key r) (x_state x))"
  using persist_eqD by (fastforce simp: try_drop_def)

end
