(* ===== verification/Execute_Props.thy ===== *)
theory Execute_Props
  imports Execute Plan_Claims
begin

text \<open>
  What executing a plan does to the recorded state, and what was checked before a mount was
  removed.
\<close>

section \<open>The run of a plan\<close>

text \<open>The states between the steps, and the result of each step.\<close>

definition runs_step ::
  "('w, 'fd) executor \<Rightarrow> step list \<Rightarrow> step_result list \<Rightarrow> ('w, 'fd) exec list \<Rightarrow> nat \<Rightarrow> bool" where
  "runs_step X ss rs xs j =
     (if \<forall>d\<in>set (depends_on (ss ! j)). d < j \<and> rs ! d = Done
      then run_action X (step_action (ss ! j)) (xs ! j) = (rs ! j, xs ! Suc j)
      else rs ! j = Skipped \<and> xs ! Suc j = xs ! j)"

lemma execute_steps_run:
  assumes "execute_steps X (drop (length rs) ss) rs x = (rs', x')" "length rs \<le> length ss"
    "length xs = Suc (length rs)" "last xs = x" "\<forall>j<length rs. runs_step X ss rs xs j"
  shows "\<exists>xs'. length xs' = Suc (length ss) \<and> length rs' = length ss \<and> take (length xs) xs' = xs
    \<and> last xs' = x' \<and> (\<forall>j<length ss. runs_step X ss rs' xs' j)"
  using assms
proof (induction "length ss - length rs" arbitrary: rs x xs)
  case 0
  then show ?case by (intro exI[of _ xs]) auto
next
  case (Suc n)
  then have less: "length rs < length ss" by simp
  let ?s = "ss ! length rs"
  have drop: "drop (length rs) ss = ?s # drop (Suc (length rs)) ss"
    using less by (simp add: Cons_nth_drop_Suc)
  let ?blocked = "list_ex (\<lambda>d. result_at rs d \<noteq> Some Done) (depends_on ?s)"
  obtain r y where ry: "(if ?blocked then (Skipped, x) else run_action X (step_action ?s) x) = (r, y)"
    by fastforce
  have next_run: "execute_steps X (drop (length (rs @ [r])) ss) (rs @ [r]) y = (rs', x')"
    using Suc.prems(1) ry unfolding drop by (simp add: Let_def)
  have blocked: "?blocked \<longleftrightarrow> \<not> (\<forall>d\<in>set (depends_on ?s). d < length rs \<and> rs ! d = Done)"
    by (auto simp: list_ex_iff result_at_def)
  have cur: "xs ! length rs = x" using Suc.prems(3,4) by (metis diff_Suc_1 last_conv_nth length_0_conv nat.distinct(1))
  have here: "runs_step X ss (rs @ [r]) (xs @ [y]) (length rs)"
    using ry blocked cur Suc.prems(3) unfolding runs_step_def
    by (auto simp: nth_append split: if_splits)
  have before: "runs_step X ss (rs @ [r]) (xs @ [y]) j" if "j < length rs" for j
    using Suc.prems(5) that Suc.prems(3) unfolding runs_step_def
    by (simp add: nth_append)
  have "\<forall>j<length (rs @ [r]). runs_step X ss (rs @ [r]) (xs @ [y]) j"
    using here before by (auto simp: less_Suc_eq)
  from Suc.hyps(1)[OF _ next_run _ _ _ this] Suc.hyps(2) Suc.prems(3) less obtain xs' where
    "length xs' = Suc (length ss)" "length rs' = length ss" "take (length (xs @ [y])) xs' = xs @ [y]"
    "last xs' = x'" "\<forall>j<length ss. runs_step X ss rs' xs' j"
    by fastforce
  moreover from this have "take (length xs) xs' = xs"
    by (metis append_eq_conv_conj append_take_drop_id append_assoc)
  ultimately show ?case by blast
qed

lemma execute_run:
  assumes "execute X p x = (ex, x')"
  obtains xs where "length xs = Suc (length (plan_steps p))" "xs ! 0 = x" "last xs = x'"
    "length (exec_results ex) = length (plan_steps p)"
    "\<forall>j<length (plan_steps p). runs_step X (plan_steps p) (exec_results ex) xs j"
proof -
  obtain rs where rs: "execute_steps X (plan_steps p) [] x = (rs, x')" "ex = \<lparr>exec_results = rs\<rparr>"
    using assms by (auto simp: execute_def split: prod.splits)
  obtain xs where xs: "length xs = Suc (length (plan_steps p))" "length rs = length (plan_steps p)"
    "take 1 xs = [x]" "last xs = x'" "\<forall>j<length (plan_steps p). runs_step X (plan_steps p) rs xs j"
    using execute_steps_run[of X "[]" "plan_steps p" x rs x' "[x]"] rs(1) by auto
  moreover have "xs ! 0 = x" using xs(1,3) by (cases xs) auto
  ultimately show ?thesis using rs(2) that by simp
qed

text \<open>C7. Execution follows the dependencies: there is one result per step; a step is run
  exactly when all the steps it depends on completed, in the order of the plan; any other
  step is skipped, and a skipped step changes nothing (neither state, nor descriptors, nor
  the world).\<close>

theorem execute_respects_dependencies:
  assumes "execute X p x = (ex, x')"
  shows "length (exec_results ex) = length (plan_steps p)
    \<and> (\<exists>xs. length xs = Suc (length (plan_steps p)) \<and> xs ! 0 = x \<and> last xs = x'
         \<and> (\<forall>j<length (plan_steps p).
              if \<forall>d\<in>set (depends_on (plan_steps p ! j)). d < j \<and> exec_results ex ! d = Done
              then run_action X (step_action (plan_steps p ! j)) (xs ! j)
                     = (exec_results ex ! j, xs ! Suc j)
              else exec_results ex ! j = Skipped \<and> xs ! Suc j = xs ! j))"
  using execute_run[OF assms] unfolding runs_step_def by metis

text \<open>The plan of the example, executed on the toy kernel with a state file that is always
  written.\<close>

definition toy_executor :: "(toy, string) executor" where
  "toy_executor = \<lparr>ex_kernel = toy_kernel, ex_sink = (\<lambda>_ w. (Inr (), w)), ex_unique = False\<rparr>"

definition toy_exec :: "(toy, string) exec" where
  "toy_exec = \<lparr>x_state = example_state, x_env = \<lparr>e_roots = [], e_world = toy_world True\<rparr>\<rparr>"

lemma toy_execution:
  "execute toy_executor example_plan toy_exec
     = (\<lparr>exec_results = [Done, Done]\<rparr>, snd (execute toy_executor example_plan toy_exec))"
proof -
  have "fst (execute toy_executor example_plan toy_exec) = \<lparr>exec_results = [Done, Done]\<rparr>"
    by code_simp
  then show ?thesis by (metis prod.collapse)
qed

lemma example_plan_length: "length (plan_steps example_plan) = 2"
  by (simp add: example_plan_def)

theorem execute_respects_dependencies_witness:
  "\<exists>x1 x2. run_action toy_executor (Unmount example_record NotMember) toy_exec = (Done, x1)
     \<and> run_action toy_executor (Mount example_desired) x1 = (Done, x2)"
proof -
  obtain xs where xs: "xs ! 0 = toy_exec"
    and run: "\<forall>j<2. if \<forall>d\<in>set (depends_on (plan_steps example_plan ! j)). d < j \<and> [Done, Done] ! d = Done
              then run_action toy_executor (step_action (plan_steps example_plan ! j)) (xs ! j)
                     = ([Done, Done] ! j, xs ! Suc j)
              else [Done, Done] ! j = Skipped \<and> xs ! Suc j = xs ! j"
    using execute_respects_dependencies[OF toy_execution, unfolded execution.select_convs example_plan_length]
    by blast
  from run[rule_format, of 0] xs
  have "run_action toy_executor (Unmount example_record NotMember) toy_exec = (Done, xs ! 1)"
    by (simp add: example_plan_def)
  moreover from run[rule_format, of 1]
  have "run_action toy_executor (Mount example_desired) (xs ! 1) = (Done, xs ! 2)"
    by (simp add: example_plan_def numeral_2_eq_2)
  ultimately show ?thesis by blast
qed

section \<open>Effects\<close>

text \<open>The effect a step with a given result has on the state.\<close>

definition effect :: "action \<Rightarrow> step_result \<Rightarrow> state \<Rightarrow> state \<Rightarrow> bool" where
  "effect a r s s' =
     (case a of
        Mount d \<Rightarrow>
          (if r = Done then \<exists>ident now. s' = snd (state_insert (make_record d ident now) s) else s' = s)
      | Unmount q _ \<Rightarrow> s' = snd (state_remove (mr_key q) s) \<or> (r \<noteq> Done \<and> s' = s)
      | DropRecord q _ \<Rightarrow> s' = snd (state_remove (mr_key q) s) \<or> (r = Skipped \<and> s' = s))"

lemma effect_wf: "effect a r s s' \<Longrightarrow> state_wf s \<Longrightarrow> state_wf s'"
  by (auto simp: effect_def intro: wf_intros split: action.splits if_splits)

lemma effect_other: "effect a r s s' \<Longrightarrow> action_key a \<noteq> k \<Longrightarrow> state_get s' k = state_get s k"
  by (auto simp: effect_def state_get_insert state_get_remove split: action.splits if_splits)

lemma effect_mount_done:
  "effect (Mount d) Done s s' \<Longrightarrow> \<exists>ident now. state_get s' (dm_key d) = Some (make_record d ident now)"
  by (simp add: effect_def) (metis mr_key_make_record state_get_insert)

lemma effect_removal_done:
  "effect a Done s s' \<Longrightarrow> phase a = 0 \<Longrightarrow> state_get s' (action_key a) = None"
  by (auto simp: effect_def state_get_remove split: action.splits)

lemma effect_not_done:
  "effect a r s s' \<Longrightarrow> r \<noteq> Done \<Longrightarrow> phase a = 1 \<Longrightarrow> s' = s"
  by (auto simp: effect_def split: action.splits)

lemma run_action_effect:
  assumes "state_wf (x_state x)" "run_action X a x = (r, x')"
  shows "effect a r (x_state x) (x_state x')"
proof (cases a)
  case (Unmount q why)
  obtain u where "try_unmount X q x = (u, x')" "r = into_result u"
    using assms(2) Unmount by (auto simp: run_action_def split: prod.splits)
  with try_unmount_state[OF this(1)] Unmount show ?thesis
    by (auto simp: effect_def into_result_def split: sum.splits)
next
  case (DropRecord q why)
  obtain u where "try_drop X q x = (u, x')" "r = into_result u"
    using assms(2) DropRecord by (auto simp: run_action_def split: prod.splits)
  with try_drop_state[OF this(1)] DropRecord show ?thesis by (simp add: effect_def)
next
  case (Mount d)
  obtain u where "try_mount X d x = (u, x')" "r = into_result u"
    using assms(2) Mount by (auto simp: run_action_def split: prod.splits)
  with try_mount_state[OF assms(1) this(1)] Mount show ?thesis
    by (auto simp: effect_def into_result_def split: sum.splits)
qed

lemma runs_step_effect:
  assumes "runs_step X ss rs xs j" "state_wf (x_state (xs ! j))"
  shows "effect (step_action (ss ! j)) (rs ! j) (x_state (xs ! j)) (x_state (xs ! Suc j))"
proof (cases "\<forall>d\<in>set (depends_on (ss ! j)). d < j \<and> rs ! d = Done")
  case True
  with assms run_action_effect show ?thesis by (auto simp: runs_step_def)
next
  case False
  then have "rs ! j = Skipped" "xs ! Suc j = xs ! j" using assms(1) by (auto simp: runs_step_def)
  then show ?thesis by (auto simp: effect_def split: action.splits)
qed

text \<open>A chain of states, one per step.\<close>

definition chain :: "action list \<Rightarrow> step_result list \<Rightarrow> state list \<Rightarrow> bool" where
  "chain as rs ss = (length rs = length as \<and> length ss = Suc (length as)
     \<and> (\<forall>j<length as. effect (as ! j) (rs ! j) (ss ! j) (ss ! Suc j)))"

lemma chain_wf: "chain as rs ss \<Longrightarrow> state_wf (ss ! 0) \<Longrightarrow> j \<le> length as \<Longrightarrow> state_wf (ss ! j)"
proof (induction j)
  case (Suc j)
  then show ?case using effect_wf[of "as ! j" "rs ! j" "ss ! j" "ss ! Suc j"] by (simp add: chain_def)
qed simp

lemma chain_between:
  assumes "chain as rs ss" "i \<le> j" "j \<le> length as" "\<forall>m. i \<le> m \<and> m < j \<longrightarrow> action_key (as ! m) \<noteq> k \<or> ss ! Suc m = ss ! m"
  shows "state_get (ss ! j) k = state_get (ss ! i) k"
  using assms(2-)
proof (induction j)
  case (Suc j)
  show ?case
  proof (cases "i = Suc j")
    case False
    with Suc have ij: "i \<le> j" "j < length as" by auto
    then have "state_get (ss ! j) k = state_get (ss ! i) k" using Suc by simp
    moreover have "state_get (ss ! Suc j) k = state_get (ss ! j) k"
      using assms(1) ij Suc.prems(3) effect_other[of "as ! j" "rs ! j" "ss ! j" "ss ! Suc j" k]
      by (auto simp: chain_def)
    ultimately show ?thesis by simp
  qed simp
qed simp

lemma distinct_filter_nth:
  assumes "distinct (map f (filter P xs))" "i < j" "j < length xs" "P (xs ! i)" "P (xs ! j)"
  shows "f (xs ! i) \<noteq> f (xs ! j)"
  using assms
proof (induction xs arbitrary: i j)
  case (Cons x xs)
  then obtain j' where j: "j = Suc j'" by (cases j) auto
  show ?case
  proof (cases i)
    case 0
    have "xs ! j' \<in> set (filter P xs)" using Cons.prems j by simp
    then show ?thesis using Cons.prems 0 j by (auto simp: image_iff)
  next
    case (Suc i')
    with Cons j show ?thesis by (auto split: if_splits)
  qed
qed simp

lemma sorted_phase_nth:
  "sorted (map phase as) \<Longrightarrow> i < j \<Longrightarrow> j < length as \<Longrightarrow> phase (as ! i) = 1 \<Longrightarrow> phase (as ! j) = 1"
  using phase_cases[of "as ! j"] by (fastforce simp: sorted_iff_nth_mono_less)

lemma executed_chain:
  assumes "execute X p x = (ex, x')" "state_wf (x_state x)"
  obtains ss where "chain (map step_action (plan_steps p)) (exec_results ex) ss"
    "ss ! 0 = x_state x" "ss ! length (plan_steps p) = x_state x'"
proof -
  obtain xs where xs: "length xs = Suc (length (plan_steps p))" "xs ! 0 = x" "last xs = x'"
    "length (exec_results ex) = length (plan_steps p)"
    "\<forall>j<length (plan_steps p). runs_step X (plan_steps p) (exec_results ex) xs j"
    using execute_run[OF assms(1)] by metis
  have wf: "state_wf (x_state (xs ! j))" if "j \<le> length (plan_steps p)" for j
    using that
  proof (induction j)
    case (Suc j)
    then have "runs_step X (plan_steps p) (exec_results ex) xs j" "state_wf (x_state (xs ! j))"
      using xs(5) by auto
    then show ?case using runs_step_effect effect_wf by blast
  qed (simp add: xs(2) assms(2))
  have "effect (step_action (plan_steps p ! j)) (exec_results ex ! j) (x_state (xs ! j)) (x_state (xs ! Suc j))"
    if "j < length (plan_steps p)" for j
    using that xs(5) wf[of j] runs_step_effect[of X "plan_steps p" "exec_results ex" xs j] by simp
  then have "chain (map step_action (plan_steps p)) (exec_results ex) (map x_state xs)"
    using xs(1,4) by (simp add: chain_def)
  moreover have "last xs = xs ! length (plan_steps p)" using xs(1) by (metis diff_Suc_1 last_conv_nth list.size(3) nat.distinct(1))
  ultimately show ?thesis using that[of "map x_state xs"] xs(1,2,3) by simp
qed

text \<open>What a completed mount recorded, and what a completed removal dropped, stays that way.\<close>

lemma chain_mounted:
  assumes ch: "chain as rs ss" and ord: "sorted (map phase as)"
    and mnt: "distinct (map action_key (filter (\<lambda>a. phase a = 1) as))"
    and j: "j < length as" "as ! j = Mount d" "rs ! j = Done"
  shows "\<exists>ident now. state_get (ss ! length as) (dm_key d) = Some (make_record d ident now)"
proof -
  have "effect (Mount d) Done (ss ! j) (ss ! Suc j)" using ch j by (auto simp: chain_def)
  then obtain ident now where r: "state_get (ss ! Suc j) (dm_key d) = Some (make_record d ident now)"
    using effect_mount_done by blast
  have "action_key (as ! m) \<noteq> dm_key d" if "Suc j \<le> m" "m < length as" for m
  proof -
    have "phase (as ! m) = 1" using sorted_phase_nth[OF ord, of j m] that j by simp
    then show ?thesis using distinct_filter_nth[OF mnt, of j m] that j by fastforce
  qed
  then have "state_get (ss ! length as) (dm_key d) = state_get (ss ! Suc j) (dm_key d)"
    using j by (intro chain_between[OF ch]) auto
  with r show ?thesis by auto
qed

lemma chain_removed:
  assumes ch: "chain as rs ss"
    and rem: "distinct (map action_key (filter (\<lambda>a. phase a = 0) as))"
    and j: "j < length as" "phase (as ! j) = 0" "rs ! j = Done"
    and no: "\<And>m d. m < length as \<Longrightarrow> as ! m = Mount d \<Longrightarrow> dm_key d = action_key (as ! j) \<Longrightarrow> rs ! m \<noteq> Done"
  shows "state_get (ss ! length as) (action_key (as ! j)) = None"
proof -
  let ?k = "action_key (as ! j)"
  have "effect (as ! j) Done (ss ! j) (ss ! Suc j)" using ch j by (auto simp: chain_def)
  then have gone: "state_get (ss ! Suc j) ?k = None" using effect_removal_done j(2) by blast
  have "action_key (as ! m) \<noteq> ?k \<or> ss ! Suc m = ss ! m" if m: "Suc j \<le> m" "m < length as" for m
  proof (cases "phase (as ! m) = 0")
    case True
    then show ?thesis using distinct_filter_nth[OF rem, of j m] m j by fastforce
  next
    case False
    then obtain d where d: "as ! m = Mount d" by (cases "as ! m") auto
    moreover have "effect (Mount d) (rs ! m) (ss ! m) (ss ! Suc m)" using ch m d by (auto simp: chain_def)
    ultimately show ?thesis using no[OF m(2) d] effect_not_done by auto
  qed
  then have "state_get (ss ! length as) ?k = state_get (ss ! Suc j) ?k"
    using j by (intro chain_between[OF ch]) auto
  with gone show ?thesis by simp
qed

lemma executed_state:
  assumes "state_wf (x_state x)" "make_plan i = Some p" "pi_state i = x_state x"
    and "execute X p x = (ex, x')"
  shows "state_wf (x_state x')
    \<and> (\<forall>k. k \<notin> action_key ` set (map step_action (plan_steps p)) \<longrightarrow>
         state_get (x_state x') k = state_get (x_state x) k)
    \<and> (\<forall>k. rk_group k \<in> set (pi_frozen i) \<longrightarrow> state_get (x_state x') k = state_get (x_state x) k)
    \<and> (\<forall>j<length (plan_steps p). \<forall>d. step_action (plan_steps p ! j) = Mount d \<and> exec_results ex ! j = Done
         \<longrightarrow> (\<exists>ident now. state_get (x_state x') (dm_key d) = Some (make_record d ident now)))
    \<and> (\<forall>j<length (plan_steps p). phase (step_action (plan_steps p ! j)) = 0 \<and> exec_results ex ! j = Done
         \<and> \<not> (\<exists>m<length (plan_steps p). \<exists>d. step_action (plan_steps p ! m) = Mount d
                \<and> dm_key d = action_key (step_action (plan_steps p ! j)) \<and> exec_results ex ! m = Done)
         \<longrightarrow> state_get (x_state x') (action_key (step_action (plan_steps p ! j))) = None)"
proof -
  let ?as = "map step_action (plan_steps p)"
  let ?n = "length (plan_steps p)"
  obtain ss where ch: "chain ?as (exec_results ex) ss" "ss ! 0 = x_state x" "ss ! ?n = x_state x'"
    using executed_chain[OF assms(4,1)] by metis
  have wf: "state_wf (pi_state i)" using assms(1,3) by simp
  have ord: "sorted (map phase ?as)" unfolding plan_actions(1)[OF wf assms(2)] by (rule sorted_phases)
  have rem: "distinct (map action_key (filter (\<lambda>a. phase a = 0) ?as))"
    using distinct_removals[OF wf] unfolding plan_actions(1)[OF wf assms(2)] filter_phases removals_def .
  have mnt: "distinct (map action_key (filter (\<lambda>a. phase a = 1) ?as))"
    using distinct_mounts(1)[of i] unfolding plan_actions(1)[OF wf assms(2)] filter_phases mounts_def .
  have final_wf: "state_wf (x_state x')"
    using chain_wf[OF ch(1), of ?n] ch(2,3) assms(1) by simp
  have untouched: "state_get (x_state x') k = state_get (x_state x) k" if "k \<notin> action_key ` set ?as" for k
  proof -
    have "action_key (?as ! m) \<noteq> k" if "m < ?n" for m
      using \<open>k \<notin> _\<close> that by (metis image_eqI length_map nth_mem)
    then show ?thesis using chain_between[OF ch(1), of 0 ?n k] ch(2,3) by simp
  qed
  have frozen: "rk_group (action_key a) \<notin> set (pi_frozen i)" if "a \<in> set ?as" for a
    using plan_action_active[OF wf assms(2) that] .
  have mounted: "\<exists>ident now. state_get (x_state x') (dm_key d) = Some (make_record d ident now)"
    if "j < ?n" "step_action (plan_steps p ! j) = Mount d" "exec_results ex ! j = Done" for j d
    using chain_mounted[OF ch(1) ord mnt, of j d] that ch(3) by simp
  have removed: "state_get (x_state x') (action_key (step_action (plan_steps p ! j))) = None"
    if "j < ?n" "phase (step_action (plan_steps p ! j)) = 0" "exec_results ex ! j = Done"
      and "\<not> (\<exists>m<?n. \<exists>d. step_action (plan_steps p ! m) = Mount d
                \<and> dm_key d = action_key (step_action (plan_steps p ! j)) \<and> exec_results ex ! m = Done)" for j
    using chain_removed[OF ch(1) rem, of j] that ch(3) by auto
  have kept: "state_get (x_state x') k = state_get (x_state x) k" if "rk_group k \<in> set (pi_frozen i)" for k
    using untouched[of k] frozen that by blast
  show ?thesis
  proof (intro conjI allI impI)
    fix j assume "j < ?n" "phase (step_action (plan_steps p ! j)) = 0 \<and> exec_results ex ! j = Done
       \<and> \<not> (\<exists>m<?n. \<exists>d. step_action (plan_steps p ! m) = Mount d
              \<and> dm_key d = action_key (step_action (plan_steps p ! j)) \<and> exec_results ex ! m = Done)"
    then show "state_get (x_state x') (action_key (step_action (plan_steps p ! j))) = None"
      by (intro removed) simp_all
  qed (use final_wf untouched kept mounted in simp_all)
qed



end
