(* ===== verification/State_Store.thy ===== *)
theory State_Store
  imports State_File Std_Paths Toy_Kernel
begin

text \<open>
  \<open>src/src/state.rs\<close>, the second half: reading and atomically replacing the state file
  through a descriptor for its directory.  The rendering of a timestamp (the crate \<open>jiff\<close>)
  and the JSON library are parameters.
\<close>

section \<open>The store\<close>

datatype load_outcome =
    Loaded state
  | Missing
  | Corrupt malformed "string option"

definition into_state :: "load_outcome \<Rightarrow> state" where
  "into_state out = (case out of Loaded s \<Rightarrow> s | _ \<Rightarrow> state_default)"

datatype load_error =
    LE_UnsupportedVersion string decode_error
  | LE_Io string io_error

record 'fd state_store =
  sto_dir :: 'fd
  sto_dir_path :: string

definition TMP_FILE_NAME :: string where "TMP_FILE_NAME = ''state.json.tmp''"

definition store_open :: "('w, 'fd) kernel \<Rightarrow> string \<Rightarrow> ('w, 'fd state_store) io" where
  "store_open K dir_path =
     bindE (osE (k_open K dir_path [O_RDONLY, O_DIRECTORY, O_CLOEXEC]))
       (\<lambda>dir. retE \<lparr>sto_dir = dir, sto_dir_path = dir_path\<rparr>)"

definition store_path :: "'fd state_store \<Rightarrow> string" where
  "store_path st = path_join (sto_dir_path st) STATE_FILE_NAME"

definition aside_name :: "(timestamp \<Rightarrow> string) \<Rightarrow> timestamp \<Rightarrow> string" where
  "aside_name strftime now = STATE_FILE_NAME @ ''.corrupt-'' @ strftime now"

text \<open>The arm of \<open>load_inner\<close> for a file that cannot be decoded.\<close>

definition load_corrupt ::
  "('w, 'fd) kernel \<Rightarrow> (timestamp \<Rightarrow> string) \<Rightarrow> 'fd state_store \<Rightarrow> timestamp option \<Rightarrow> malformed
     \<Rightarrow> 'w \<Rightarrow> (load_error + load_outcome) \<times> 'w" where
  "load_corrupt K strftime st rename_corrupt_at why =
     (case rename_corrupt_at of
        None \<Rightarrow> retE (Corrupt why None)
      | Some now \<Rightarrow>
          let aside = aside_name strftime now in
          bindE (mapErrE (\<lambda>e. LE_Io (store_path st) (Os e))
                   (k_renameat K (sto_dir st) STATE_FILE_NAME aside))
            (\<lambda>_. retE (Corrupt why (Some (path_join (sto_dir_path st) aside)))))"

definition load_inner ::
  "('w, 'fd) kernel \<Rightarrow> 'v serde_json \<Rightarrow> (timestamp \<Rightarrow> string) \<Rightarrow> 'fd state_store \<Rightarrow> timestamp option
     \<Rightarrow> 'w \<Rightarrow> (load_error + load_outcome) \<times> 'w" where
  "load_inner K js strftime st rename_corrupt_at w =
     (case k_openat K (sto_dir st) STATE_FILE_NAME [O_RDONLY, O_CLOEXEC, O_NOFOLLOW] 0 w of
        (Inl e, w) \<Rightarrow>
          if e = ENOENT then (Inr Missing, w) else (Inl (LE_Io (store_path st) (Os e)), w)
      | (Inr fd, w) \<Rightarrow>
          bindE (mapErrE (\<lambda>e. LE_Io (store_path st) (Os e)) (k_read_to_end K fd)) (\<lambda>bytes.
            case decode js bytes of
              Inr s \<Rightarrow> retE (Loaded s)
            | Inl (UnsupportedVersion v) \<Rightarrow>
                failE (LE_UnsupportedVersion (store_path st) (UnsupportedVersion v))
            | Inl (Malformed why) \<Rightarrow> load_corrupt K strftime st rename_corrupt_at why) w)"

definition load_read_only ::
  "('w, 'fd) kernel \<Rightarrow> 'v serde_json \<Rightarrow> (timestamp \<Rightarrow> string) \<Rightarrow> 'fd state_store
     \<Rightarrow> 'w \<Rightarrow> (load_error + load_outcome) \<times> 'w" where
  "load_read_only K js strftime st = load_inner K js strftime st None"

definition load_for_write ::
  "('w, 'fd) kernel \<Rightarrow> 'v serde_json \<Rightarrow> (timestamp \<Rightarrow> string) \<Rightarrow> 'fd state_store \<Rightarrow> timestamp
     \<Rightarrow> 'w \<Rightarrow> (load_error + load_outcome) \<times> 'w" where
  "load_for_write K js strftime st now = load_inner K js strftime st (Some now)"

definition write_atomically ::
  "('w, 'fd) kernel \<Rightarrow> 'fd state_store \<Rightarrow> string \<Rightarrow> ('w, unit) io" where
  "write_atomically K st contents =
     bindE (osE (k_openat K (sto_dir st) TMP_FILE_NAME
                   [O_WRONLY, O_CREATE, O_TRUNC, O_CLOEXEC, O_NOFOLLOW] STATE_FILE_MODE)) (\<lambda>fd.
     bindE (osE (k_fchmod K fd STATE_FILE_MODE)) (\<lambda>_.
     bindE (osE (k_write_all K fd contents)) (\<lambda>_.
     bindE (osE (k_fsync K fd)) (\<lambda>_.
     bindE (osE (k_renameat K (sto_dir st) TMP_FILE_NAME STATE_FILE_NAME)) (\<lambda>_.
       osE (k_fsync K (sto_dir st)))))))"

definition save ::
  "('w, 'fd) kernel \<Rightarrow> 'v serde_json \<Rightarrow> 'fd state_store \<Rightarrow> state \<Rightarrow> ('w, unit) io" where
  "save K js st s w =
     (case write_atomically K st (encode js s) w of
        (Inl e, w) \<Rightarrow> (Inl e, snd (k_unlinkat K (sto_dir st) TMP_FILE_NAME [] w))
      | (Inr _, w) \<Rightarrow> (Inr (), w))"

section \<open>What the calls do to the files of a directory\<close>

text \<open>
  The documented behaviour of the calls on one directory: which bytes each name has, and
  which name a descriptor was opened under.  A failed call may have any effect the manual
  allows (a failed write may have written something), but only on its own file; renaming
  happens completely or not at all.
\<close>

record ('w, 'fd) dir_view =
  dv_file :: "'w \<Rightarrow> string \<Rightarrow> string option"
  dv_opened :: "'w \<Rightarrow> 'fd \<Rightarrow> string \<Rightarrow> bool"

definition same_files :: "('w, 'fd) dir_view \<Rightarrow> string set \<Rightarrow> 'w \<Rightarrow> 'w \<Rightarrow> bool" where
  "same_files V except w w' =
     ((\<forall>f. f \<notin> except \<longrightarrow> dv_file V w' f = dv_file V w f) \<and> dv_opened V w' = dv_opened V w)"

definition open_contract :: "('w, 'fd) kernel \<Rightarrow> 'fd \<Rightarrow> ('w, 'fd) dir_view \<Rightarrow> bool" where
  "open_contract K dir V =
     (\<forall>f flags mode w r w'. k_openat K dir f flags mode w = (r, w') \<longrightarrow>
        (\<forall>g. g \<noteq> f \<or> O_TRUNC \<notin> set flags \<and> O_CREATE \<notin> set flags \<longrightarrow> dv_file V w' g = dv_file V w g)
        \<and> (\<forall>fd. r = Inr fd \<longrightarrow> dv_opened V w' fd f
             \<and> (O_TRUNC \<in> set flags \<longrightarrow> dv_file V w' f = Some []))
        \<and> (r = Inl ENOENT \<and> O_CREATE \<notin> set flags \<longrightarrow> dv_file V w f = None))"

definition fd_contract :: "('w, 'fd) kernel \<Rightarrow> ('w, 'fd) dir_view \<Rightarrow> bool" where
  "fd_contract K V =
     ((\<forall>fd s w r w' f. k_write_all K fd s w = (r, w') \<and> dv_opened V w fd f \<longrightarrow> same_files V {f} w w')
      \<and> (\<forall>fd s w u w' f. k_write_all K fd s w = (Inr u, w') \<and> dv_opened V w fd f \<longrightarrow>
           dv_file V w' f = map_option (\<lambda>c. c @ s) (dv_file V w f))
      \<and> (\<forall>fd m w r w'. k_fchmod K fd m w = (r, w') \<longrightarrow> same_files V {} w w')
      \<and> (\<forall>fd w r w'. k_fsync K fd w = (r, w') \<longrightarrow> same_files V {} w w')
      \<and> (\<forall>fd w r w'. k_read_to_end K fd w = (r, w') \<longrightarrow> same_files V {} w w')
      \<and> (\<forall>fd w s w' f. k_read_to_end K fd w = (Inr s, w') \<and> dv_opened V w fd f \<longrightarrow>
           dv_file V w f = Some s))"

definition name_contract :: "('w, 'fd) kernel \<Rightarrow> 'fd \<Rightarrow> ('w, 'fd) dir_view \<Rightarrow> bool" where
  "name_contract K dir V =
     ((\<forall>f g w r w' h. k_renameat K dir f g w = (r, w') \<and> f \<noteq> g \<and> h \<noteq> f \<and> h \<noteq> g \<longrightarrow>
         dv_file V w' h = dv_file V w h)
      \<and> (\<forall>f g w e w'. k_renameat K dir f g w = (Inl e, w') \<and> f \<noteq> g \<longrightarrow>
           dv_file V w' f = dv_file V w f \<and> dv_file V w' g = dv_file V w g)
      \<and> (\<forall>f g w u w'. k_renameat K dir f g w = (Inr u, w') \<and> f \<noteq> g \<longrightarrow>
           dv_file V w f \<noteq> None \<and> dv_file V w' g = dv_file V w f \<and> dv_file V w' f = None)
      \<and> (\<forall>f flags w r w' h. k_unlinkat K dir f flags w = (r, w') \<and> h \<noteq> f \<longrightarrow>
           dv_file V w' h = dv_file V w h))"

definition dir_contract :: "('w, 'fd) kernel \<Rightarrow> 'fd \<Rightarrow> ('w, 'fd) dir_view \<Rightarrow> bool" where
  "dir_contract K dir V = (open_contract K dir V \<and> fd_contract K V \<and> name_contract K dir V)"

lemma open_contractD:
  assumes "dir_contract K dir V" "k_openat K dir f flags mode w = (r, w')"
  shows "g \<noteq> f \<or> O_TRUNC \<notin> set flags \<and> O_CREATE \<notin> set flags \<Longrightarrow> dv_file V w' g = dv_file V w g"
    and "r = Inr fd \<Longrightarrow> dv_opened V w' fd f"
    and "r = Inr fd \<Longrightarrow> O_TRUNC \<in> set flags \<Longrightarrow> dv_file V w' f = Some []"
    and "r = Inl ENOENT \<Longrightarrow> O_CREATE \<notin> set flags \<Longrightarrow> dv_file V w f = None"
  using assms unfolding dir_contract_def open_contract_def by blast+

lemma fd_contractD:
  assumes "dir_contract K dir V"
  shows "k_write_all K fd s w = (r, w') \<Longrightarrow> dv_opened V w fd f \<Longrightarrow> same_files V {f} w w'"
    and "k_write_all K fd s w = (Inr u, w') \<Longrightarrow> dv_opened V w fd f
       \<Longrightarrow> dv_file V w' f = map_option (\<lambda>c. c @ s) (dv_file V w f)"
    and "k_fchmod K fd m w = (r, w') \<Longrightarrow> same_files V {} w w'"
    and "k_fsync K fd w = (r, w') \<Longrightarrow> same_files V {} w w'"
    and "k_read_to_end K fd w = (q, w') \<Longrightarrow> same_files V {} w w'"
    and "k_read_to_end K fd w = (Inr c, w') \<Longrightarrow> dv_opened V w fd f \<Longrightarrow> dv_file V w f = Some c"
  using assms unfolding dir_contract_def fd_contract_def by (elim conjE; metis)+

lemma name_contractD:
  assumes "dir_contract K dir V"
  shows "k_renameat K dir f g w = (r, w') \<Longrightarrow> f \<noteq> g \<Longrightarrow> h \<noteq> f \<Longrightarrow> h \<noteq> g \<Longrightarrow> dv_file V w' h = dv_file V w h"
    and "k_renameat K dir f g w = (Inl e, w') \<Longrightarrow> f \<noteq> g \<Longrightarrow>
       dv_file V w' f = dv_file V w f \<and> dv_file V w' g = dv_file V w g"
    and "k_renameat K dir f g w = (Inr u, w') \<Longrightarrow> f \<noteq> g \<Longrightarrow>
       dv_file V w f \<noteq> None \<and> dv_file V w' g = dv_file V w f \<and> dv_file V w' f = None"
    and "k_unlinkat K dir f flags w = (r, w') \<Longrightarrow> h \<noteq> f \<Longrightarrow> dv_file V w' h = dv_file V w h"
  using assms unfolding dir_contract_def name_contract_def by (elim conjE; metis)+

lemma same_filesD: "same_files V X w w' \<Longrightarrow> f \<notin> X \<Longrightarrow> dv_file V w' f = dv_file V w f"
  and same_files_opened: "same_files V X w w' \<Longrightarrow> dv_opened V w' = dv_opened V w"
  by (simp_all add: same_files_def)

lemma file_names [simp]:
  "TMP_FILE_NAME \<noteq> STATE_FILE_NAME" "STATE_FILE_NAME \<noteq> TMP_FILE_NAME"
  "aside_name strftime now \<noteq> STATE_FILE_NAME" "STATE_FILE_NAME \<noteq> aside_name strftime now"
  by (simp_all add: TMP_FILE_NAME_def STATE_FILE_NAME_def aside_name_def)

section \<open>Writing\<close>

text \<open>The successful run: which calls succeeded, in which order.\<close>

definition committed ::
  "('w, 'fd) kernel \<Rightarrow> 'v serde_json \<Rightarrow> 'fd state_store \<Rightarrow> state \<Rightarrow> 'w \<Rightarrow> 'w \<Rightarrow> bool" where
  "committed K js st s w w' =
     (\<exists>fd w1 w2 w3 w4 w5.
        k_openat K (sto_dir st) TMP_FILE_NAME
          [O_WRONLY, O_CREATE, O_TRUNC, O_CLOEXEC, O_NOFOLLOW] STATE_FILE_MODE w = (Inr fd, w1)
        \<and> k_fchmod K fd STATE_FILE_MODE w1 = (Inr (), w2)
        \<and> k_write_all K fd (encode js s) w2 = (Inr (), w3)
        \<and> k_fsync K fd w3 = (Inr (), w4)
        \<and> k_renameat K (sto_dir st) TMP_FILE_NAME STATE_FILE_NAME w4 = (Inr (), w5)
        \<and> k_fsync K (sto_dir st) w5 = (Inr (), w'))"

lemma write_committed:
  "write_atomically K st (encode js s) w = (Inr (), w') \<longleftrightarrow> committed K js st s w w'"
  by (auto simp: write_atomically_def bindE_Inr_iff committed_def)

lemma save_committed: "save K js st s w = (Inr (), w') \<longleftrightarrow> committed K js st s w w'"
  unfolding write_committed[symmetric] by (auto simp: save_def split: prod.splits sum.splits)

text \<open>Up to the renaming, only the temporary file changes.\<close>

lemma write_atomic:
  assumes dir: "dir_contract K (sto_dir st) V" and run: "write_atomically K st c w = (r, w')"
  shows "(\<forall>f. f \<noteq> TMP_FILE_NAME \<and> f \<noteq> STATE_FILE_NAME \<longrightarrow> dv_file V w' f = dv_file V w f)
    \<and> (dv_file V w' STATE_FILE_NAME = dv_file V w STATE_FILE_NAME
        \<or> dv_file V w' STATE_FILE_NAME = Some c)
    \<and> (r = Inr () \<longrightarrow> dv_file V w' STATE_FILE_NAME = Some c)"
proof -
  let ?dir = "sto_dir st"
  obtain r1 w1 where 1: "k_openat K ?dir TMP_FILE_NAME
      [O_WRONLY, O_CREATE, O_TRUNC, O_CLOEXEC, O_NOFOLLOW] STATE_FILE_MODE w = (r1, w1)"
    by fastforce
  have s1: "dv_file V w1 f = dv_file V w f" if "f \<noteq> TMP_FILE_NAME" for f
    using open_contractD(1)[OF dir 1] that by blast
  show ?thesis
  proof (cases r1)
    case (Inl e)
    with run 1 s1 show ?thesis by (auto simp: write_atomically_def bindE_def osE_def mapErrE_def)
  next
    case (Inr fd)
    have opened: "dv_opened V w1 fd TMP_FILE_NAME" using open_contractD(2)[OF dir 1 Inr] .
    have empty: "dv_file V w1 TMP_FILE_NAME = Some []" using open_contractD(3)[OF dir 1 Inr] by simp
    obtain r2 w2 where 2: "k_fchmod K fd STATE_FILE_MODE w1 = (r2, w2)" by fastforce
    note s2 = fd_contractD(3)[OF dir 2]
    obtain r3 w3 where 3: "k_write_all K fd c w2 = (r3, w3)" by fastforce
    have o2: "dv_opened V w2 fd TMP_FILE_NAME" using opened same_files_opened[OF s2] by simp
    note s3 = fd_contractD(1)[OF dir 3 o2]
    obtain r4 w4 where 4: "k_fsync K fd w3 = (r4, w4)" by fastforce
    note s4 = fd_contractD(4)[OF dir 4]
    obtain r5 w5 where 5: "k_renameat K ?dir TMP_FILE_NAME STATE_FILE_NAME w4 = (r5, w5)" by fastforce
    obtain r6 w6 where 6: "k_fsync K ?dir w5 = (r6, w6)" by fastforce
    note s6 = fd_contractD(4)[OF dir 6]
    have e2: "dv_file V w2 f = dv_file V w f" if "f \<noteq> TMP_FILE_NAME" for f
      using same_filesD[OF s2] s1 that by simp
    have e3: "dv_file V w3 f = dv_file V w f" if "f \<noteq> TMP_FILE_NAME" for f
      using same_filesD[OF s3] e2 that by simp
    have e4: "dv_file V w4 f = dv_file V w f" if "f \<noteq> TMP_FILE_NAME" for f
      using same_filesD[OF s4] e3 that by simp
    have e5: "dv_file V w5 f = dv_file V w f" if "f \<noteq> TMP_FILE_NAME" "f \<noteq> STATE_FILE_NAME" for f
      using name_contractD(1)[OF dir 5] e4 that by simp
    have written: "dv_file V w4 TMP_FILE_NAME = Some c" if "r3 = Inr ()"
      using fd_contractD(2)[OF dir 3[unfolded that] o2] same_filesD[OF s2] same_filesD[OF s4] empty
      by simp
    have r3: "r3 = Inr ()" if "r3 = Inr x" for x using that by simp
    have kept: "dv_file V w5 STATE_FILE_NAME = dv_file V w STATE_FILE_NAME" if "r5 = Inl e" for e
      using name_contractD(2)[OF dir 5[unfolded that]] e4 by simp
    have moved: "dv_file V w5 STATE_FILE_NAME = Some c" if "r5 = Inr x" "r3 = Inr ()" for x
      using name_contractD(3)[OF dir 5[unfolded that(1)]] written that(2) by simp
    have e6: "dv_file V w6 f = dv_file V w5 f" for f using same_filesD[OF s6] by simp
    have "(\<exists>e. r = Inl e) \<and> (w' = w2 \<or> w' = w3 \<or> w' = w4 \<or> (\<exists>e. w' = w5 \<and> r5 = Inl e))
        \<or> w' = w6 \<and> r3 = Inr () \<and> (\<exists>x. r5 = Inr x)"
      using run 1 2 3 4 5 6 Inr
      by (cases r2; cases r3; cases r4; cases r5)
        (auto simp: write_atomically_def bindE_def osE_def mapErrE_def)
    then consider (early) e where "r = Inl e" "w' = w2 \<or> w' = w3 \<or> w' = w4"
      | (rename) e e' where "r = Inl e" "w' = w5" "r5 = Inl e'"
      | (late) x where "w' = w6" "r3 = Inr ()" "r5 = Inr x"
      by blast
    then show ?thesis
    proof cases
      case early
      then show ?thesis using e2 e3 e4 file_names(2) by (metis Inl_Inr_False)
    next
      case rename
      then show ?thesis using e5 kept by simp
    next
      case late
      then show ?thesis using e5 e6 moved by simp
    qed
  qed
qed

lemma save_effect:
  assumes dir: "dir_contract K (sto_dir st) V" and run: "save K js st s w = (r, w')"
  shows "(\<forall>f. f \<noteq> TMP_FILE_NAME \<and> f \<noteq> STATE_FILE_NAME \<longrightarrow> dv_file V w' f = dv_file V w f)
    \<and> (dv_file V w' STATE_FILE_NAME = dv_file V w STATE_FILE_NAME
        \<or> dv_file V w' STATE_FILE_NAME = Some (encode js s))
    \<and> (r = Inr () \<longrightarrow> dv_file V w' STATE_FILE_NAME = Some (encode js s))"
proof -
  obtain r1 w1 where 1: "write_atomically K st (encode js s) w = (r1, w1)" by fastforce
  obtain r2 w2 where 2: "k_unlinkat K (sto_dir st) TMP_FILE_NAME [] w1 = (r2, w2)" by fastforce
  have "dv_file V w2 f = dv_file V w1 f" if "f \<noteq> TMP_FILE_NAME" for f
    using name_contractD(4)[OF dir 2] that by blast
  with write_atomic[OF dir 1] run 1 2 show ?thesis by (cases r1) (auto simp: save_def)
qed

section \<open>Reading\<close>

definition bytes_kept ::
  "'v serde_json \<Rightarrow> (timestamp \<Rightarrow> string) \<Rightarrow> timestamp option \<Rightarrow> (string \<Rightarrow> string option)
     \<Rightarrow> (string \<Rightarrow> string option) \<Rightarrow> bool" where
  "bytes_kept js strftime at before after =
     (\<forall>bytes. before STATE_FILE_NAME = Some bytes \<longrightarrow>
        after STATE_FILE_NAME = Some bytes
        \<or> (\<exists>now why. at = Some now \<and> after (aside_name strftime now) = Some bytes
             \<and> decode js bytes = Inl (Malformed why)))"

definition outcome_ok :: "'v serde_json \<Rightarrow> string option \<Rightarrow> load_error + load_outcome \<Rightarrow> bool" where
  "outcome_ok js content r =
     (case r of
        Inr Missing \<Rightarrow> content = None
      | Inr (Loaded s) \<Rightarrow> (\<exists>bytes. content = Some bytes \<and> decode js bytes = Inr s)
      | Inr (Corrupt why _) \<Rightarrow> (\<exists>bytes. content = Some bytes \<and> decode js bytes = Inl (Malformed why))
      | Inl (LE_UnsupportedVersion _ e) \<Rightarrow> (\<exists>bytes. content = Some bytes \<and> decode js bytes = Inl e)
      | Inl (LE_Io _ _) \<Rightarrow> True)"

lemma load_corrupt_effect:
  assumes dir: "dir_contract K (sto_dir st) V"
    and run: "load_corrupt K strftime st at why w = (r, w')"
    and content: "dv_file V w STATE_FILE_NAME = Some bytes" "decode js bytes = Inl (Malformed why)"
  shows "bytes_kept js strftime at (dv_file V w) (dv_file V w')
    \<and> outcome_ok js (dv_file V w STATE_FILE_NAME) r
    \<and> (at = None \<longrightarrow> w' = w)
    \<and> (\<forall>f. f \<noteq> STATE_FILE_NAME \<and> (\<forall>now. at = Some now \<longrightarrow> f \<noteq> aside_name strftime now)
         \<longrightarrow> dv_file V w' f = dv_file V w f)"
proof (cases at)
  case None
  with run content show ?thesis by (auto simp: load_corrupt_def bytes_kept_def outcome_ok_def)
next
  case (Some now)
  let ?aside = "aside_name strftime now"
  obtain r1 w1 where 1: "k_renameat K (sto_dir st) STATE_FILE_NAME ?aside w = (r1, w1)" by fastforce
  have others: "dv_file V w1 f = dv_file V w f" if "f \<noteq> STATE_FILE_NAME" "f \<noteq> ?aside" for f
    using name_contractD(1)[OF dir 1] that by simp
  show ?thesis
  proof (cases r1)
    case (Inl e)
    have "dv_file V w1 STATE_FILE_NAME = dv_file V w STATE_FILE_NAME"
      using name_contractD(2)[OF dir 1[unfolded Inl]] by simp
    moreover have "r = Inl (LE_Io (store_path st) (Os e))" "w' = w1"
      using run 1 Some Inl by (auto simp: load_corrupt_def bindE_def mapErrE_def Let_def)
    ultimately show ?thesis using others Some by (auto simp: bytes_kept_def outcome_ok_def)
  next
    case (Inr u)
    have "dv_file V w1 ?aside = Some bytes"
      using name_contractD(3)[OF dir 1[unfolded Inr]] content by simp
    moreover have "r = Inr (Corrupt why (Some (path_join (sto_dir_path st) ?aside)))" "w' = w1"
      using run 1 Some Inr by (auto simp: load_corrupt_def bindE_def mapErrE_def Let_def)
    ultimately show ?thesis using others Some content by (auto simp: bytes_kept_def outcome_ok_def)
  qed
qed

lemma load_inner_effect:
  assumes dir: "dir_contract K (sto_dir st) V" and run: "load_inner K js strftime st at w = (r, w')"
  shows "bytes_kept js strftime at (dv_file V w) (dv_file V w')
    \<and> outcome_ok js (dv_file V w STATE_FILE_NAME) r
    \<and> (at = None \<longrightarrow> dv_file V w' = dv_file V w)
    \<and> (\<forall>f. f \<noteq> STATE_FILE_NAME \<and> (\<forall>now. at = Some now \<longrightarrow> f \<noteq> aside_name strftime now)
         \<longrightarrow> dv_file V w' f = dv_file V w f)"
proof -
  obtain r1 w1 where 1: "k_openat K (sto_dir st) STATE_FILE_NAME [O_RDONLY, O_CLOEXEC, O_NOFOLLOW] 0 w
      = (r1, w1)" by fastforce
  have s1: "dv_file V w1 = dv_file V w" using open_contractD(1)[OF dir 1] by fastforce
  show ?thesis
  proof (cases r1)
    case (Inl e)
    have "e = ENOENT \<Longrightarrow> dv_file V w STATE_FILE_NAME = None"
      using open_contractD(4)[OF dir 1] Inl by simp
    with run 1 Inl s1 show ?thesis
      by (auto simp: load_inner_def bytes_kept_def outcome_ok_def split: if_splits)
  next
    case (Inr fd)
    have opened: "dv_opened V w1 fd STATE_FILE_NAME" using open_contractD(2)[OF dir 1 Inr] .
    obtain r2 w2 where 2: "k_read_to_end K fd w1 = (r2, w2)" by fastforce
    have s2: "dv_file V w2 = dv_file V w"
      using same_filesD[OF fd_contractD(5)[OF dir 2]] s1 by fastforce
    show ?thesis
    proof (cases r2)
      case (Inl e)
      with run 1 2 Inr s2 show ?thesis
        by (auto simp: load_inner_def bindE_def mapErrE_def bytes_kept_def outcome_ok_def)
    next
      case bytes: (Inr bytes)
      have content: "dv_file V w STATE_FILE_NAME = Some bytes"
        using fd_contractD(6)[OF dir 2[unfolded bytes] opened] s1 by simp
      have step: "load_inner K js strftime st at w =
          (case decode js bytes of
             Inr s \<Rightarrow> (Inr (Loaded s), w2)
           | Inl (UnsupportedVersion v) \<Rightarrow>
               (Inl (LE_UnsupportedVersion (store_path st) (UnsupportedVersion v)), w2)
           | Inl (Malformed why) \<Rightarrow> load_corrupt K strftime st at why w2)"
        using 1 2 Inr bytes
        by (simp add: load_inner_def bindE_def mapErrE_def failE_def retE_def
            split: sum.splits decode_error.splits)
      show ?thesis
      proof (cases "\<exists>why. decode js bytes = Inl (Malformed why)")
        case True
        then obtain why where why: "decode js bytes = Inl (Malformed why)" by blast
        with run step have "load_corrupt K strftime st at why w2 = (r, w')" by simp
        from load_corrupt_effect[OF dir this _ why] content s2 show ?thesis by auto
      next
        case False
        with run step content s2 show ?thesis
          by (auto simp: bytes_kept_def outcome_ok_def split: sum.splits decode_error.splits)
      qed
    qed
  qed
qed

section \<open>Properties\<close>

text \<open>The contract holds of the toy kernel.\<close>

definition toy_view :: "(toy, string) dir_view" where
  "toy_view = \<lparr>dv_file = (\<lambda>w. map_of (ty_files w)), dv_opened = (\<lambda>_ fd f. fd = f)\<rparr>"

lemma toy_contract: "dir_contract toy_kernel dir toy_view"
proof -
  have "open_contract toy_kernel dir toy_view"
    by (auto simp: open_contract_def toy_kernel_def toy_view_def update_conv split: if_splits)
  moreover have "fd_contract toy_kernel toy_view"
    by (auto simp: fd_contract_def same_files_def toy_kernel_def toy_view_def update_conv
        split: option.splits)
  moreover have "name_contract toy_kernel dir toy_view"
    by (auto simp: name_contract_def toy_kernel_def toy_view_def update_conv delete_conv
        split: option.splits if_splits)
  ultimately show ?thesis by (simp add: dir_contract_def)
qed

text \<open>C22. The state file is replaced atomically: whatever call fails, afterwards the file holds
  either exactly what it held before or exactly the encoding of the new state, never a part
  of it; after a successful save it holds the new state; and no file other than the state
  file and the temporary file changes.\<close>

theorem save_atomic:
  assumes "dir_contract K (sto_dir st) V" "save K js st s w = (r, w')"
  shows "(dv_file V w' STATE_FILE_NAME = dv_file V w STATE_FILE_NAME
      \<or> dv_file V w' STATE_FILE_NAME = Some (encode js s))
    \<and> (r = Inr () \<longrightarrow> dv_file V w' STATE_FILE_NAME = Some (encode js s))
    \<and> (\<forall>f. f \<noteq> TMP_FILE_NAME \<and> f \<noteq> STATE_FILE_NAME \<longrightarrow> dv_file V w' f = dv_file V w f)"
  using save_effect[OF assms] by blast

text \<open>C24. Loading never loses the bytes of the state file: they stay where they are, except
  that a writer moves a file that cannot be decoded aside, whole; a reader changes nothing.
  The outcome tells the truth: \<open>Missing\<close> only when there is no file, \<open>Loaded\<close> only with
  the state the bytes decode to, \<open>Corrupt\<close> and the version error only when decoding says so.\<close>

theorem load_keeps_bytes:
  assumes "dir_contract K (sto_dir st) V" "load_inner K js strftime st at w = (r, w')"
  shows "bytes_kept js strftime at (dv_file V w) (dv_file V w')
    \<and> outcome_ok js (dv_file V w STATE_FILE_NAME) r
    \<and> (at = None \<longrightarrow> dv_file V w' = dv_file V w)"
  using load_inner_effect[OF assms] by blast

text \<open>C23. A saved state is read back: after a successful save, a load that does not fail gives
  the same state, for every well-formed state with clean paths (the only ones the program
  holds), if the JSON library reads back what it wrote.\<close>

theorem load_after_save:
  assumes "dir_contract K (sto_dir st) V" "state_wf s" "\<forall>r\<in>set (records s). clean_record r"
    and "reads_back js s" "save K js st s w = (Inr (), w1)"
    and "load_read_only K js strftime st w1 = (Inr out, w2)"
  shows "out = Loaded s"
proof -
  have "dv_file V w1 STATE_FILE_NAME = Some (encode js s)" using save_effect[OF assms(1,5)] by simp
  moreover have "decode js (encode js s) = Inr s" using decode_written assms(2-4) by blast
  moreover have "outcome_ok js (dv_file V w1 STATE_FILE_NAME) (Inr out)"
    using load_inner_effect[OF assms(1)] assms(6) unfolding load_read_only_def by blast
  ultimately show ?thesis by (cases out) (auto simp: outcome_ok_def)
qed

definition toy_store :: "string state_store" where
  "toy_store = \<lparr>sto_dir = ''/var'', sto_dir_path = ''/var''\<rparr>"

definition stored_state :: state where
  "stored_state = \<lparr>st_map = [(mr_key example_record, example_record)]\<rparr>"

definition stored_world :: toy where
  "stored_world = (toy_world False)\<lparr>ty_files := [(STATE_FILE_NAME, encode example_json stored_state)]\<rparr>"

lemma toy_save: "save toy_kernel example_json toy_store stored_state (toy_world False) = (Inr (), stored_world)"
  by code_simp

theorem save_atomic_witness:
  "dv_file toy_view stored_world STATE_FILE_NAME = Some (encode example_json stored_state)"
  using save_atomic[OF toy_contract toy_save] by simp

theorem load_keeps_bytes_witness:
  "bytes_kept example_json (\<lambda>_. ''T'') (Some 3) (dv_file toy_view stored_world) (dv_file toy_view stored_world)"
proof -
  have "load_inner toy_kernel example_json (\<lambda>_. ''T'') toy_store (Some 3) stored_world
      = (Inr (Loaded stored_state), stored_world)"
    by code_simp
  from load_keeps_bytes[OF toy_contract this] show ?thesis by blast
qed

theorem load_after_save_witness:
  "load_read_only toy_kernel example_json (\<lambda>_. ''T'') toy_store stored_world
     = (Inr (Loaded stored_state), stored_world)"
proof -
  have wf: "state_wf stored_state" by (simp add: stored_state_def state_wf_def bt_wf_def)
  have recs: "records stored_state = [example_record]"
    by (simp add: stored_state_def records_def bt_values_def)
  then have clean: "\<forall>r\<in>set (records stored_state). clean_record r"
    unfolding clean_record_def example_record_def by (simp, code_simp)
  have reads: "reads_back example_json stored_state"
    using recs by (simp add: reads_back_def example_json_def example_document_def)
  let ?run = "load_read_only toy_kernel example_json (\<lambda>_. ''T'') toy_store stored_world"
  have "is_ok (fst ?run) \<and> snd ?run = stored_world" by code_simp
  then obtain out where run: "?run = (Inr out, stored_world)"
    by (cases "fst ?run") (auto simp: prod_eq_iff)
  show ?thesis using load_after_save[OF toy_contract wf clean reads toy_save run] run by simp
qed

end
