(* ===== verification/Execute_Sink.thy ===== *)
theory Execute_Sink
  imports Execute_Props State_Store
begin

text \<open>
  The executor and the state file.  The trait \<open>StateSink\<close> of
  \<open>src/src/reconcile/execute.rs\<close> is an interface: what it promises of a save that returned
  is all the executor relies on.  \<open>StateStore\<close> provides it.
\<close>

locale state_sink =
  fixes put :: "state \<Rightarrow> ('w, unit) io"
    and saved :: "state \<Rightarrow> 'w \<Rightarrow> 'w \<Rightarrow> bool"
  assumes put_saved: "put s w = (Inr (), w') \<Longrightarrow> saved s w w'"
begin

lemma persist_saved:
  assumes "ex_sink X = put" "persist X x = (Inr (), x')"
  shows "saved (x_state x') (e_world (x_env x)) (e_world (x_env x'))"
  using assms put_saved
  by (auto simp: persist_def doing_def on_env_def on_world_def split: prod.splits)

lemma done_saved:
  assumes sink: "ex_sink X = put" and run: "run_action X a x = (Done, x')"
  shows "\<exists>w w'. saved (x_state x') w w'"
proof (cases a)
  case (Mount d)
  from run Mount have ok: "try_mount X d x = (Inr (), x')"
    by (auto simp: run_action_def into_result_def split: prod.splits sum.splits)
  obtain ident x1 where "attach X d x = (Inr ident, x1)"
    and rest: "(case on_env (on_world (k_now (ex_kernel X))) x1 of
         (now, x) \<Rightarrow>
           (case state_insert (make_record d ident now) (x_state x) of
              (previous, s) \<Rightarrow>
                (case persist X (x\<lparr>x_state := s\<rparr>) of
                   (Inr _, x) \<Rightarrow> (Inr (), x)
                 | (Inl save_error, x) \<Rightarrow> roll_back X d ident previous save_error x))) = (Inr (), x')"
    using ok by (auto simp: try_mount_def bindE_Inr_iff)
  have fails: "roll_back X d ident previous save_error y \<noteq> (Inr (), x')" for previous save_error y
    by (auto simp: roll_back_def bindE_Inr_iff split: prod.splits sum.splits)
  from rest obtain y where "persist X y = (Inr (), x')"
    using fails by (auto split: prod.splits sum.splits)
  with persist_saved[OF sink] show ?thesis by blast
next
  case (Unmount r why)
  from run Unmount have ok: "try_unmount X r x = (Inr (), x')"
    by (auto simp: run_action_def into_result_def split: prod.splits sum.splits)
  then obtain y where y: "(case persist X y of (persisted, x) \<Rightarrow>
      (persisted, remove_target_dir X (target_location r) x)) = (Inr (), x')"
    by (auto simp: try_unmount_def bindE_Inr_iff)
  obtain q x2 where "persist X y = (q, x2)" by fastforce
  with y have p: "persist X y = (Inr (), x2)" "x' = remove_target_dir X (target_location r) x2"
    by simp_all
  from persist_saved[OF sink p(1)] p(2) show ?thesis using remove_target_dir_state by metis
next
  case (DropRecord r why)
  from run DropRecord have "try_drop X r x = (Inr (), x')"
    by (auto simp: run_action_def into_result_def split: prod.splits sum.splits)
  with persist_saved[OF sink] show ?thesis unfolding try_drop_def by blast
qed

end

interpretation store: state_sink "save K js st" "committed K js st" for K js st
  by unfold_locales (simp add: save_committed)

section \<open>Properties\<close>

lemma unmount_done:
  fixes X :: "('w, 'fd) executor"
  assumes "run_action X (Unmount r why) x = (Done, x')"
  shows "\<exists>root w link w3 w'. verified_link (ex_kernel X) root (loc_path (target_location r)) (mr_identity r)
      (ex_unique X) w link w3
    \<and> k_umount (ex_kernel X) link [MNT_DETACH] w3 = (Inr (), w')"
proof -
  let ?unmount = "\<lambda>root. unmount_verified (ex_kernel X) root (loc_path (target_location r)) (mr_identity r)
      (ex_unique X)"
  have "try_unmount X r x = (Inr (), x')"
    using assms by (auto simp: run_action_def into_result_def split: prod.splits sum.splits)
  then have "\<exists>root (x1 :: ('w, 'fd) exec) y x2. doing (unmount_message (ex_kernel X)) (?unmount root) x1 = (Inr y, x2)"
    unfolding try_unmount_def bindE_Inr_iff by (elim exE conjE) (intro exI)
  then obtain root w y w' where "?unmount root w = (Inr y, w')"
    by (auto simp: doing_def on_env_def on_world_def split: prod.splits)
  then show ?thesis using unmount_verified_Inr by (metis (full_types) unit.exhaust)
qed

lemma run_action_not_skipped: "run_action X a x \<noteq> (Skipped, x')"
  by (auto simp: run_action_def into_result_def split: prod.splits sum.splits)

lemma last_done:
  assumes "\<forall>j<n. rs ! j = Skipped \<longrightarrow> xs ! Suc j = xs ! j" "\<forall>j<n. rs ! j = Done \<or> rs ! j = Skipped"
    and "\<exists>j<n. rs ! j = Done" and "\<forall>j<n. rs ! j = Done \<longrightarrow> P (xs ! Suc j)"
  shows "P (xs ! n)"
  using assms
proof (induction n)
  case (Suc n)
  show ?case
  proof (cases "rs ! n = Done")
    case False
    then have "rs ! n = Skipped" using Suc.prems(2) by blast
    then have "xs ! Suc n = xs ! n" using Suc.prems(1) by simp
    moreover have "\<exists>j<n. rs ! j = Done" using Suc.prems(3) False less_Suc_eq by metis
    ultimately show ?thesis using Suc by simp
  qed (use Suc.prems(4) in simp)
qed simp


definition saving_executor :: "(toy, string) executor" where
  "saving_executor =
     \<lparr>ex_kernel = toy_kernel, ex_sink = save toy_kernel example_json toy_store, ex_unique = False\<rparr>"


end
