(* ===== verification/Reconcile.thy ===== *)
theory Reconcile
  imports Execute_Sink
begin

text \<open>
  \<open>src/src/reconcile/mod.rs\<close>: one reconciliation pass (discover, observe, report, plan,
  execute) and the log of notes already reported.  What the caller does between discovery
  and observation (the daemon adds watches) is a parameter acting on the world and on a
  state of its own.  Log messages are values: the events that are logged.
\<close>

section \<open>Passes\<close>

datatype trigger = Startup | Inotify | Resync | Reload | Cli

fun show_trigger :: "trigger \<Rightarrow> string" where
  "show_trigger Startup = ''startup''"
| "show_trigger Inotify = ''inotify''"
| "show_trigger Resync = ''resync''"
| "show_trigger Reload = ''reload''"
| "show_trigger Cli = ''cli''"

record pass =
  ps_observed :: observed
  ps_plan :: plan
  ps_execution :: execution

record degraded =
  dg_groups :: "group_id list"
  dg_sets :: "name list"

definition default_degraded :: degraded where
  "default_degraded = \<lparr>dg_groups = [], dg_sets = []\<rparr>"

definition degraded_is_empty :: "degraded \<Rightarrow> bool" where
  "degraded_is_empty d = (dg_groups d = [] \<and> dg_sets d = [])"

text \<open>The groups whose records must be left alone in this pass.\<close>

definition in_unreadable :: "name list \<Rightarrow> group_id list \<Rightarrow> group_id \<Rightarrow> bool" where
  "in_unreadable frozen_sets unavailable g =
     ((case gid_set g of Some st \<Rightarrow> st \<in> set frozen_sets | None \<Rightarrow> False)
      \<or> list_ex (\<lambda>pre. gid_starts_with g pre) unavailable)"

definition frozen_groups :: "degraded \<Rightarrow> discovery \<Rightarrow> state \<Rightarrow> group_id list" where
  "frozen_groups deg d s =
     (let frozen_sets = bs_extend (dy_unavailable_sets d) (dg_sets deg);
          frozen = bs_extend (dy_unavailable d) (dg_groups deg)
      in bs_extend (map mr_group (filter (\<lambda>r. in_unreadable frozen_sets (dy_unavailable d) (mr_group r))
                                   (records s))) frozen)"

text \<open>The runtime with its root cache, the world, and the caller's own state.\<close>

record ('w, 'fd, 'c) host =
  h_runtime :: "'fd runtime"
  h_env :: "('w, 'fd) env"
  h_caller :: 'c

type_synonym ('w, 'fd, 'c) after_discovery = "'fd runtime \<Rightarrow> 'c \<Rightarrow> 'w \<Rightarrow> 'c \<times> 'w"

definition run_after ::
  "('w, 'fd, 'c) after_discovery \<Rightarrow> ('w, 'fd, 'c) host \<Rightarrow> ('w, 'fd, 'c) host" where
  "run_after after h =
     (case after (h_runtime h) (h_caller h) (e_world (h_env h)) of
        (c, w) \<Rightarrow> h\<lparr>h_caller := c, h_env := (h_env h)\<lparr>e_world := w\<rparr>\<rparr>)"

definition discover_and_observe ::
  "('w, 'fd) kernel \<Rightarrow> state \<Rightarrow> degraded \<Rightarrow> bool \<Rightarrow> ('w, 'fd, 'c) after_discovery
     \<Rightarrow> ('w, 'fd, 'c) host \<Rightarrow> (observed \<times> ('w, 'fd, 'c) host) option" where
  "discover_and_observe K s deg unique_supported after h =
     (case discover K (dg_sets deg) (h_runtime h) (e_world (h_env h)) of
        None \<Rightarrow> None
      | Some ((rt, d), w) \<Rightarrow>
          let h = run_after after (h\<lparr>h_runtime := rt, h_env := (h_env h)\<lparr>e_world := w\<rparr>\<rparr>) in
          (case observe K rt s (frozen_groups deg d s) unique_supported (h_env h) of
             None \<Rightarrow> None
           | Some (out, e) \<Rightarrow>
               Some (out\<lparr>ob_notes := dy_notes d @ ob_notes out,
                         ob_scanned_sets := dy_scanned_sets d\<rparr>,
                     h\<lparr>h_env := e\<rparr>)))"

section \<open>The note log\<close>

datatype note_event =
    Raised obs_note
  | Cleared string string

type_synonym note_log = "(string \<times> string, string) btree"

fun note_identity :: "obs_note \<Rightarrow> (string \<times> string) \<times> string" where
  "note_identity (Rejected g r) = ((show_group_id g, display_name r), show_reject_reason (reason r))"
| "note_identity (InterpolationFailed g n field e) =
     ((show_group_id g, as_str n), field @ '' template: '' @ show_interpolate_error e)"
| "note_identity (MembershipDeleted g) = ((show_group_id g, []), ''deleted'')"
| "note_identity (MembershipUnreadable g e) = ((show_group_id g, []), e)"
| "note_identity (SetEntryRejected st r) =
     ((set_label st, display_name r), show_reject_reason (reason r))"
| "note_identity (SetRootDeleted st) = ((set_label st, []), ''deleted'')"
| "note_identity (SetRootUnreadable st e) = ((set_label st, []), e)"

definition note_key :: "obs_note \<Rightarrow> string \<times> string" where
  "note_key nt = fst (note_identity nt)"

definition note_detail :: "obs_note \<Rightarrow> string" where
  "note_detail nt = snd (note_identity nt)"

text \<open>The two loops of \<open>NoteLog::update\<close>: the notes of this pass, then the notes that were
  active before.\<close>

fun update_notes ::
  "note_log \<Rightarrow> obs_note list \<Rightarrow> note_event list \<Rightarrow> note_log \<Rightarrow> string list
     \<Rightarrow> note_event list \<times> note_log \<times> string list" where
  "update_notes prev [] events current examined = (events, current, examined)"
| "update_notes prev (nt # nts) events current examined =
     (case note_identity nt of (key, detail) \<Rightarrow>
        update_notes prev nts
          (if bt_get prev key \<noteq> Some detail then events @ [Raised nt] else events)
          (bt_insert key detail current) (bs_insert (fst key) examined))"

fun update_active ::
  "((string \<times> string) \<times> string) list \<Rightarrow> string list \<Rightarrow> note_event list \<Rightarrow> note_log
     \<Rightarrow> note_event list \<times> note_log" where
  "update_active [] examined events current = (events, current)"
| "update_active ((key, detail) # es) examined events current =
     (if bt_contains current key then update_active es examined events current
      else if fst key \<in> set examined
      then update_active es examined (events @ [Cleared (fst key) (snd key)]) current
      else update_active es examined events (bt_insert key detail current))"

definition examined_subjects :: "observed \<Rightarrow> string list" where
  "examined_subjects out =
     bs_extend (map set_label (ob_scanned_sets out)) (bs_from (map show_group_id (bt_keys (ob_members out))))"

definition note_log_update :: "observed \<Rightarrow> note_log \<Rightarrow> note_event list \<times> note_log" where
  "note_log_update out prev =
     (case update_notes prev (ob_notes out) [] [] (examined_subjects out) of
        (events, current, examined) \<Rightarrow> update_active prev examined events current)"

section \<open>One pass\<close>

record ('w, 'fd, 'c) reconciler =
  rc_host :: "('w, 'fd, 'c) host"
  rc_state :: state
  rc_notes :: note_log

text \<open>The options \<open>degraded\<close>, \<open>unique_supported\<close>; the trigger is only logged.\<close>

definition plan_input_of :: "observed \<Rightarrow> state \<Rightarrow> plan_input" where
  "plan_input_of out s =
     \<lparr>pi_desired = ob_desired out, pi_state = s, pi_frozen = ob_frozen out,
      pi_observations = ob_observations out\<rparr>"

definition run_pass ::
  "('w, 'fd) kernel \<Rightarrow> 'w sink \<Rightarrow> degraded \<Rightarrow> bool \<Rightarrow> ('w, 'fd, 'c) after_discovery
     \<Rightarrow> ('w, 'fd, 'c) reconciler \<Rightarrow> (pass \<times> note_event list \<times> ('w, 'fd, 'c) reconciler) option" where
  "run_pass K sink deg unique_supported after rc =
     (case discover_and_observe K (rc_state rc) deg unique_supported after (rc_host rc) of
        None \<Rightarrow> None
      | Some (out, h) \<Rightarrow>
          (case note_log_update out (rc_notes rc) of
             (events, notes) \<Rightarrow>
               (case make_plan (plan_input_of out (rc_state rc)) of
                  None \<Rightarrow> None
                | Some p \<Rightarrow>
                    (case execute \<lparr>ex_kernel = K, ex_sink = sink, ex_unique = unique_supported\<rparr> p
                            \<lparr>x_state = rc_state rc, x_env = h_env h\<rparr> of
                       (ex, x) \<Rightarrow>
                         Some (\<lparr>ps_observed = out, ps_plan = p, ps_execution = ex\<rparr>, events,
                               \<lparr>rc_host = h\<lparr>h_env := x_env x\<rparr>, rc_state = x_state x,
                                rc_notes = notes\<rparr>)))))"

end
