(* ===== verification/Reconcile_Props.thy ===== *)
theory Reconcile_Props
  imports Reconcile
begin

text \<open>
  What a pass does: it always completes on a validated runtime, it leaves frozen groups
  alone, and it reports each note once.
\<close>

section \<open>The note log\<close>

lemma note_identity_split: "note_identity nt = (note_key nt, note_detail nt)"
  by (simp add: note_key_def note_detail_def)

definition raised :: "note_log \<Rightarrow> obs_note list \<Rightarrow> note_event list" where
  "raised prev nts =
     map Raised (filter (\<lambda>nt. bt_get prev (note_key nt) \<noteq> Some (note_detail nt)) nts)"

definition put_notes :: "obs_note list \<Rightarrow> note_log \<Rightarrow> note_log" where
  "put_notes nts m = fold (\<lambda>nt. bt_insert (note_key nt) (note_detail nt)) nts m"

lemma put_notes_simps [simp]:
  "put_notes [] m = m"
  "put_notes (nt # nts) m = put_notes nts (bt_insert (note_key nt) (note_detail nt) m)"
  by (simp_all add: put_notes_def)

lemma update_notes_eq:
  "\<exists>ex'. update_notes prev nts events current ex = (events @ raised prev nts, put_notes nts current, ex')
     \<and> set ex' = set ex \<union> (fst \<circ> note_key) ` set nts"
proof (induction nts arbitrary: events current ex)
  case (Cons nt nts)
  show ?case
    using Cons.IH[of "if bt_get prev (note_key nt) \<noteq> Some (note_detail nt) then events @ [Raised nt] else events"
        "bt_insert (note_key nt) (note_detail nt) current" "bs_insert (fst (note_key nt)) ex"]
    by (auto simp: note_identity_split raised_def)
qed (simp add: raised_def)

lemma bt_wf_put_notes [wf_intros]: "bt_wf m \<Longrightarrow> bt_wf (put_notes nts m)"
  by (induction nts arbitrary: m) (auto intro: wf_intros)

lemma put_notes_absent: "k \<notin> note_key ` set nts \<Longrightarrow> bt_get (put_notes nts m) k = bt_get m k"
  by (induction nts arbitrary: m) (auto simp: btree_simps)

lemma put_notes_present:
  "k \<in> note_key ` set nts \<Longrightarrow>
     \<exists>nt\<in>set nts. note_key nt = k \<and> bt_get (put_notes nts m) k = Some (note_detail nt)"
proof (induction nts arbitrary: m)
  case (Cons nt nts)
  show ?case
  proof (cases "k \<in> note_key ` set nts")
    case True
    with Cons.IH[OF this, of "bt_insert (note_key nt) (note_detail nt) m"] show ?thesis by auto
  next
    case False
    then show ?thesis using Cons.prems by (auto simp: put_notes_absent btree_simps)
  qed
qed simp

lemma update_active_eq:
  assumes "distinct (map fst es)" "bt_wf current" "update_active es ex events current = (events', current')"
  shows "bt_wf current'
    \<and> events' = events @ map (\<lambda>(k, _). Cleared (fst k) (snd k))
         (filter (\<lambda>(k, _). bt_get current k = None \<and> fst k \<in> set ex) es)
    \<and> (\<forall>k. bt_get current' k =
         (if bt_get current k \<noteq> None then bt_get current k
          else if fst k \<in> set ex then None else map_of es k))"
  using assms
proof (induction es arbitrary: events current)
  case (Cons e es)
  obtain k d where e: "e = (k, d)" by fastforce
  have keys: "distinct (map fst es)" "k \<notin> fst ` set es" using Cons.prems(1) e by auto
  then have out: "map_of es k = None" by (simp add: map_of_eq_None_iff)
  consider (present) "bt_get current k \<noteq> None" | (cleared) "bt_get current k = None" "fst k \<in> set ex"
    | (kept) "bt_get current k = None" "fst k \<notin> set ex" by blast
  then show ?case
  proof cases
    case present
    with Cons.prems(3) e have "update_active es ex events current = (events', current')"
      by (simp add: bt_contains_def)
    from Cons.IH[OF keys(1) Cons.prems(2) this] e present show ?thesis by auto
  next
    case cleared
    with Cons.prems(3) e have "update_active es ex (events @ [Cleared (fst k) (snd k)]) current
        = (events', current')"
      by (simp add: bt_contains_def)
    from Cons.IH[OF keys(1) Cons.prems(2) this] e cleared show ?thesis by auto
  next
    case kept
    let ?c = "bt_insert k d current"
    have "update_active es ex events ?c = (events', current')"
      using Cons.prems(3) e kept by (simp add: bt_contains_def)
    from Cons.IH[OF keys(1) bt_wf_insert[OF Cons.prems(2)] this]
    have ih: "bt_wf current'"
      "events' = events @ map (\<lambda>(k, _). Cleared (fst k) (snd k))
         (filter (\<lambda>(k, _). bt_get ?c k = None \<and> fst k \<in> set ex) es)"
      "\<forall>k. bt_get current' k = (if bt_get ?c k \<noteq> None then bt_get ?c k
          else if fst k \<in> set ex then None else map_of es k)"
      by blast+
    have "filter (\<lambda>(k, _). bt_get ?c k = None \<and> fst k \<in> set ex) es
        = filter (\<lambda>(k, _). bt_get current k = None \<and> fst k \<in> set ex) es"
    proof (intro filter_cong refl)
      fix e' assume "e' \<in> set es"
      then have "fst e' \<noteq> k" using keys(2) by (metis image_eqI)
      then show "(case e' of (k, _) \<Rightarrow> bt_get ?c k = None \<and> fst k \<in> set ex)
          = (case e' of (k, _) \<Rightarrow> bt_get current k = None \<and> fst k \<in> set ex)"
        by (cases e') (simp add: bt_get_insert)
    qed
    with ih e kept out show ?thesis by (auto simp: btree_simps)
  qed
qed simp

text \<open>The subjects a pass examined: those scanned, and those it has a note about.\<close>

definition examined :: "observed \<Rightarrow> string set" where
  "examined out = set (examined_subjects out) \<union> (fst \<circ> note_key) ` set (ob_notes out)"

lemma note_log_update_eq:
  assumes "bt_wf prev" "note_log_update out prev = (events, prev')"
  shows "bt_wf prev'
    \<and> events = raised prev (ob_notes out) @ map (\<lambda>(k, _). Cleared (fst k) (snd k))
         (filter (\<lambda>(k, _). k \<notin> note_key ` set (ob_notes out) \<and> fst k \<in> examined out) prev)
    \<and> (\<forall>k. bt_get prev' k =
         (if k \<in> note_key ` set (ob_notes out) then bt_get (put_notes (ob_notes out) []) k
          else if fst k \<in> examined out then None else bt_get prev k))"
proof -
  obtain ex where ex: "update_notes prev (ob_notes out) [] [] (examined_subjects out)
      = (raised prev (ob_notes out), put_notes (ob_notes out) [], ex)" "set ex = examined out"
    using update_notes_eq[of prev "ob_notes out" "[]" "[]" "examined_subjects out"]
    by (auto simp: examined_def)
  let ?c = "put_notes (ob_notes out) []"
  have absent: "bt_get ?c k = None \<longleftrightarrow> k \<notin> note_key ` set (ob_notes out)" for k
    using put_notes_absent[of k "ob_notes out" "[]"] put_notes_present[of k "ob_notes out" "[]"] by auto
  have run: "update_active prev ex (raised prev (ob_notes out)) ?c = (events, prev')"
    using assms(2) ex(1) by (simp add: note_log_update_def)
  have "distinct (map fst prev)" using bt_wf_distinct[OF assms(1)] .
  from update_active_eq[OF this _ run] have eq: "bt_wf prev'
    \<and> events = raised prev (ob_notes out) @ map (\<lambda>(k, _). Cleared (fst k) (snd k))
         (filter (\<lambda>(k, _). bt_get ?c k = None \<and> fst k \<in> examined out) prev)
    \<and> (\<forall>k. bt_get prev' k =
         (if bt_get ?c k \<noteq> None then bt_get ?c k
          else if fst k \<in> examined out then None else map_of prev k))"
    unfolding ex(2) by (simp add: bt_wf_put_notes)
  show ?thesis using eq unfolding absent not_not bt_get_def[of prev] by blast
qed

text \<open>Two notes about the same subject say the same.\<close>

definition consistent_notes :: "obs_note list \<Rightarrow> bool" where
  "consistent_notes nts = (\<forall>a\<in>set nts. \<forall>b\<in>set nts. note_key a = note_key b \<longrightarrow> note_detail a = note_detail b)"

lemma consistent_get:
  assumes "consistent_notes nts" "nt \<in> set nts"
  shows "bt_get (put_notes nts m) (note_key nt) = Some (note_detail nt)"
proof -
  obtain nt' where "nt' \<in> set nts" "note_key nt' = note_key nt"
    "bt_get (put_notes nts m) (note_key nt) = Some (note_detail nt')"
    using put_notes_present[of "note_key nt" nts m] assms(2) by blast
  with assms show ?thesis unfolding consistent_notes_def by metis
qed

lemma raised_Nil: "\<forall>nt\<in>set nts. bt_get prev (note_key nt) = Some (note_detail nt) \<Longrightarrow> raised prev nts = []"
  by (simp add: raised_def filter_empty_conv)

lemma note_log_quiet:
  assumes wf: "bt_wf prev" and cons: "consistent_notes (ob_notes out)"
    and upd: "note_log_update out prev = (events, prev')"
  shows "note_log_update out prev' = ([], prev')"
proof -
  let ?keys = "note_key ` set (ob_notes out)" and ?c = "put_notes (ob_notes out) []"
  note first = note_log_update_eq[OF wf upd]
  have get1: "\<forall>k. bt_get prev' k = (if k \<in> ?keys then bt_get ?c k
      else if fst k \<in> examined out then None else bt_get prev k)"
    using first by (rule conjunct2[OF conjunct2])
  obtain ev2 prev2 where upd2: "note_log_update out prev' = (ev2, prev2)" by fastforce
  note second = note_log_update_eq[OF conjunct1[OF first] upd2]
  have "bt_get prev' (note_key nt) = Some (note_detail nt)" if "nt \<in> set (ob_notes out)" for nt
    using get1[rule_format, of "note_key nt"] consistent_get[OF cons that, of "[]"] that by simp
  then have raised: "raised prev' (ob_notes out) = []" by (intro raised_Nil) blast
  have "\<not> (fst e \<notin> ?keys \<and> fst (fst e) \<in> examined out)" if "e \<in> set prev'" for e
  proof -
    have "bt_get prev' (fst e) \<noteq> None"
      using that bt_get_iff[OF conjunct1[OF first], of "fst e" "snd e"] by auto
    then show ?thesis using get1 by metis
  qed
  then have "filter (\<lambda>(k, _). k \<notin> ?keys \<and> fst k \<in> examined out) prev' = []"
    unfolding filter_empty_conv case_prod_unfold by blast
  then have "ev2 = []" using conjunct1[OF conjunct2[OF second]] raised by (simp only: append_Nil list.map)
  moreover have "prev2 = prev'"
  proof (rule bt_ext)
    have "\<forall>k. bt_get prev2 k = (if k \<in> ?keys then bt_get ?c k
        else if fst k \<in> examined out then None else bt_get prev' k)"
      using second by (rule conjunct2[OF conjunct2])
    then show "bt_get prev2 k = bt_get prev' k" for k using get1 by metis
  qed (use first second in blast)+
  ultimately show ?thesis using upd2 by simp
qed

section \<open>Notes of an observation\<close>

definition notes_covered :: "observed \<Rightarrow> bool" where
  "notes_covered out = (\<forall>nt\<in>set (ob_notes out). covered (set (ob_frozen out)) {} nt)"

lemma notes_covered_members:
  "observe_members gid cfg ns out = Some out' \<Longrightarrow> notes_covered out \<Longrightarrow>
     notes_covered out' \<and> ob_frozen out' = ob_frozen out"
  by (induction gid cfg ns out rule: observe_members.induct)
    (fastforce simp: notes_covered_def split: option.splits sum.splits)+

lemma notes_covered_group:
  assumes "observe_group K deg e out w = Some (out', w')" "notes_covered out"
  shows "notes_covered out'"
proof -
  obtain gid g where e: "e = (gid, g)" by fastforce
  have freeze: "notes_covered (freeze gid nt out)" if "covered {gid} {} nt" for nt
    using assms(2) that unfolding notes_covered_def freeze_def by (auto intro: covered_mono)
  have members: "notes_covered out2" if mem: "observe_membership gid cfg m out = Some out2" for cfg m out2
  proof -
    let ?out1 = "(if ignored m \<noteq> [] then out\<lparr>ob_ignored := bt_insert gid (ignored m) (ob_ignored out)\<rparr>
        else out)\<lparr>ob_notes := ob_notes out @ map (Rejected gid) (rejected m)\<rparr>"
    have same: "ob_notes (if ignored m \<noteq> []
        then out\<lparr>ob_ignored := bt_insert gid (ignored m) (ob_ignored out)\<rparr> else out) = ob_notes out"
      by simp
    have "notes_covered ?out1" using assms(2) by (auto simp: notes_covered_def)
    moreover obtain out3 where "observe_members gid cfg (members m) ?out1 = Some out3"
      "out2 = out3\<lparr>ob_members := bt_insert gid (members m) (ob_members out3)\<rparr>"
      using mem unfolding observe_membership_def Let_def same by auto
    ultimately show ?thesis using notes_covered_members by (fastforce simp: notes_covered_def)
  qed
  show ?thesis
    using assms freeze members unfolding observe_group_def e
    by (auto split: if_splits prod.splits sum.splits)
qed

lemma notes_covered_groups:
  "observe_groups K deg es out w = Some (out', w') \<Longrightarrow> notes_covered out \<Longrightarrow> notes_covered out'"
  by (induction K deg es out w rule: observe_groups.induct)
    (auto split: option.splits dest: notes_covered_group)

lemma notes_covered_observe:
  assumes "observe K rt s deg u e = Some (out, e')"
  shows "notes_covered out"
proof -
  obtain out1 w1 where "observe_groups K deg (rt_groups rt) (observed_with_frozen deg) (e_world e) = Some (out1, w1)"
    and "observe_kernel K s u out1 (e\<lparr>e_world := w1\<rparr>) = (out, e')"
    using assms by (auto simp: observe_def split: option.splits)
  moreover have "notes_covered (observed_with_frozen deg)"
    by (simp add: notes_covered_def observed_with_frozen_def)
  ultimately show ?thesis
    using notes_covered_groups by (fastforce simp: observe_kernel_def notes_covered_def split: prod.splits)
qed

section \<open>A pass\<close>

lemma frozen_groups_set:
  "set (frozen_groups deg d s) =
     {mr_group r |r. r \<in> set (records s)
        \<and> in_unreadable (bs_extend (dy_unavailable_sets d) (dg_sets deg)) (dy_unavailable d) (mr_group r)}
     \<union> set (dy_unavailable d) \<union> set (dg_groups deg)"
  by (auto simp: frozen_groups_def Let_def)

lemma discover_and_observe_ok:
  assumes ok: "runtime_ok (h_runtime h)"
  shows "\<exists>out h' rt d w. discover_and_observe K s deg u after h = Some (out, h')
    \<and> discover K (dg_sets deg) (h_runtime h) (e_world (h_env h)) = Some ((rt, d), w)
    \<and> runtime_ok (h_runtime h')
    \<and> set (frozen_groups deg d s) \<subseteq> set (ob_frozen out)
    \<and> (\<forall>nt\<in>set (ob_notes out). covered (set (ob_frozen out)) (set (dy_unavailable_sets d)) nt)"
proof -
  obtain rt d w where disc: "discover K (dg_sets deg) (h_runtime h) (e_world (h_env h)) = Some ((rt, d), w)"
    and dok: "discovery_ok (h_runtime h) (rt, d)"
    using discover_ok[OF ok, of K "dg_sets deg" "e_world (h_env h)"] by blast
  let ?h = "run_after after (h\<lparr>h_runtime := rt, h_env := (h_env h)\<lparr>e_world := w\<rparr>\<rparr>)"
  have same: "h_runtime ?h = rt" by (simp add: run_after_def split: prod.splits)
  have rok: "runtime_ok rt" using dok by (simp add: discovery_ok_def)
  obtain out e where obs: "observe K rt s (frozen_groups deg d s) u (h_env ?h) = Some (out, e)"
    and ook: "observed_ok rt (frozen_groups deg d s) out"
    using observe_ok[OF rok, of K s "frozen_groups deg d s" u "h_env ?h"] by blast
  have cov: "notes_covered out" using notes_covered_observe[OF obs] .
  have frozen: "set (frozen_groups deg d s) \<subseteq> set (ob_frozen out)" using ook by (simp add: observed_ok_def)
  have "covered (set (ob_frozen out)) (set (dy_unavailable_sets d)) nt"
    if "nt \<in> set (dy_notes d) \<union> set (ob_notes out)" for nt
    using that
  proof
    assume "nt \<in> set (dy_notes d)"
    then have "covered (set (dy_unavailable d)) (set (dy_unavailable_sets d)) nt"
      using dok by (simp add: discovery_ok_def)
    then show ?thesis by (rule covered_mono) (use frozen in \<open>auto simp: frozen_groups_set\<close>)
  next
    assume "nt \<in> set (ob_notes out)"
    with cov have "covered (set (ob_frozen out)) {} nt" by (simp add: notes_covered_def)
    then show ?thesis by (rule covered_mono) auto
  qed
  with disc obs same rok frozen show ?thesis
    by (auto simp: discover_and_observe_def Let_def)
qed

text \<open>The groups a pass must leave alone: degraded ones, those it reports as deleted or
  unreadable, and those with a record whose set is degraded or could not be read, or which
  lie at or beneath a directory that could not be read.\<close>

definition left_alone :: "degraded \<Rightarrow> state \<Rightarrow> discovery \<Rightarrow> obs_note set \<Rightarrow> group_id \<Rightarrow> bool" where
  "left_alone deg s d nts g =
     (g \<in> set (dg_groups deg) \<or> MembershipDeleted g \<in> nts \<or> (\<exists>e. MembershipUnreadable g e \<in> nts)
      \<or> (\<exists>r\<in>set (records s). mr_group r = g
           \<and> ((\<exists>st. gid_set g = Some st
                 \<and> (st \<in> set (dg_sets deg) \<or> SetRootDeleted st \<in> nts \<or> (\<exists>e. SetRootUnreadable st e \<in> nts)))
              \<or> (\<exists>pre\<in>set (dy_unavailable d). gid_starts_with g pre))))"

lemma left_alone_frozen:
  assumes "set (frozen_groups deg d s) \<subseteq> F" "\<forall>nt\<in>nts. covered F (set (dy_unavailable_sets d)) nt"
    and "left_alone deg s d nts g"
  shows "g \<in> F"
proof -
  have rec: "g \<in> F" if "r \<in> set (records s)" "mr_group r = g"
    "in_unreadable (bs_extend (dy_unavailable_sets d) (dg_sets deg)) (dy_unavailable d) g" for r
    using assms(1) that unfolding frozen_groups_set by blast
  have set: "st \<in> set (dy_unavailable_sets d)"
    if "SetRootDeleted st \<in> nts \<or> (\<exists>e. SetRootUnreadable st e \<in> nts)" for st
    using assms(2) that by fastforce
  from assms(3) consider "g \<in> set (dg_groups deg)"
    | "MembershipDeleted g \<in> nts \<or> (\<exists>e. MembershipUnreadable g e \<in> nts)"
    | (of_set) r st where "r \<in> set (records s)" "mr_group r = g" "gid_set g = Some st"
        "st \<in> set (dg_sets deg) \<or> SetRootDeleted st \<in> nts \<or> (\<exists>e. SetRootUnreadable st e \<in> nts)"
    | (beneath) r pre where "r \<in> set (records s)" "mr_group r = g" "pre \<in> set (dy_unavailable d)"
        "gid_starts_with g pre"
    unfolding left_alone_def by blast
  then show ?thesis
  proof cases
    case 1
    then show ?thesis using assms(1) frozen_groups_set by blast
  next
    case 2
    then show ?thesis using assms(2) covered_simps(4,5) by metis
  next
    case of_set
    then have "in_unreadable (bs_extend (dy_unavailable_sets d) (dg_sets deg)) (dy_unavailable d) g"
      using set by (auto simp: in_unreadable_def)
    with of_set rec show ?thesis by blast
  next
    case beneath
    then have "in_unreadable (bs_extend (dy_unavailable_sets d) (dg_sets deg)) (dy_unavailable d) g"
      by (auto simp: in_unreadable_def list_ex_iff)
    with beneath rec show ?thesis by blast
  qed
qed

lemma run_pass_ok:
  assumes ok: "runtime_ok (h_runtime (rc_host rc))" and wf: "state_wf (rc_state rc)"
  shows "\<exists>ps events rc' rt d w. run_pass K sink deg u after rc = Some (ps, events, rc')
    \<and> discover K (dg_sets deg) (h_runtime (rc_host rc)) (e_world (h_env (rc_host rc))) = Some ((rt, d), w)
    \<and> runtime_ok (h_runtime (rc_host rc')) \<and> state_wf (rc_state rc')
    \<and> (\<forall>g. left_alone deg (rc_state rc) d (set (ob_notes (ps_observed ps))) g \<longrightarrow>
         (\<forall>a\<in>set (map step_action (plan_steps (ps_plan ps))). rk_group (action_key a) \<noteq> g)
         \<and> (\<forall>k. rk_group k = g \<longrightarrow> state_get (rc_state rc') k = state_get (rc_state rc) k))"
proof -
  obtain out h rt d w where dao: "discover_and_observe K (rc_state rc) deg u after (rc_host rc) = Some (out, h)"
    and disc: "discover K (dg_sets deg) (h_runtime (rc_host rc)) (e_world (h_env (rc_host rc)))
      = Some ((rt, d), w)"
    and rok: "runtime_ok (h_runtime h)"
    and frozen: "set (frozen_groups deg d (rc_state rc)) \<subseteq> set (ob_frozen out)"
    and cov: "\<forall>nt\<in>set (ob_notes out). covered (set (ob_frozen out)) (set (dy_unavailable_sets d)) nt"
    using discover_and_observe_ok[OF ok] by metis
  let ?i = "plan_input_of out (rc_state rc)"
  have i: "pi_state ?i = rc_state rc" "pi_frozen ?i = ob_frozen out" by (simp_all add: plan_input_of_def)
  have iwf: "state_wf (pi_state ?i)" using wf i by simp
  obtain p where p: "make_plan ?i = Some p" using make_plan_Some[OF iwf] by blast
  obtain events nlog where upd: "note_log_update out (rc_notes rc) = (events, nlog)" by fastforce
  let ?X = "\<lparr>ex_kernel = K, ex_sink = sink, ex_unique = u\<rparr>" and ?x = "\<lparr>x_state = rc_state rc, x_env = h_env h\<rparr>"
  obtain ex x where ex: "execute ?X p ?x = (ex, x)" by fastforce
  have "state_wf (x_state ?x)" "pi_state ?i = x_state ?x" using wf i by simp_all
  note finished = executed_state[OF this(1) p this(2) ex]
  let ?ps = "\<lparr>ps_observed = out, ps_plan = p, ps_execution = ex\<rparr>"
  let ?rc = "\<lparr>rc_host = h\<lparr>h_env := x_env x\<rparr>, rc_state = x_state x, rc_notes = nlog\<rparr>"
  have run: "run_pass K sink deg u after rc = Some (?ps, events, ?rc)"
    using dao upd p ex by (simp add: run_pass_def)
  have "(\<forall>a\<in>set (map step_action (plan_steps p)). rk_group (action_key a) \<noteq> g)
      \<and> (\<forall>k. rk_group k = g \<longrightarrow> state_get (x_state x) k = state_get (rc_state rc) k)"
    if "left_alone deg (rc_state rc) d (set (ob_notes out)) g" for g
  proof -
    have g: "g \<in> set (pi_frozen ?i)" using left_alone_frozen[OF frozen cov that] i by simp
    then have "\<forall>a\<in>set (map step_action (plan_steps p)). rk_group (action_key a) \<noteq> g"
      using plan_action_active[OF iwf p] by blast
    moreover have "\<forall>k. rk_group k \<in> set (pi_frozen ?i) \<longrightarrow> state_get (x_state x) k = state_get (x_state ?x) k"
      using finished by blast
    ultimately show ?thesis using g by simp
  qed
  then show ?thesis using run disc rok finished by (intro exI[of _ ?ps] exI[of _ events] exI[of _ ?rc] exI) auto
qed

section \<open>Properties\<close>

text \<open>C10. A pass over a validated runtime always completes, keeps the runtime and the state
  well formed, and leaves alone what it must: no step is planned for a degraded group, for a
  group this pass reports as deleted or unreadable, or for a group with records whose set is
  degraded or unreadable or which lies beneath an unreadable directory; and every record of
  such a group is afterwards what it was before.\<close>

theorem run_pass_protects:
  assumes "runtime_ok (h_runtime (rc_host rc))" "state_wf (rc_state rc)"
  shows "\<exists>ps events rc' rt d w. run_pass K sink deg u after rc = Some (ps, events, rc')
    \<and> discover K (dg_sets deg) (h_runtime (rc_host rc)) (e_world (h_env (rc_host rc))) = Some ((rt, d), w)
    \<and> runtime_ok (h_runtime (rc_host rc')) \<and> state_wf (rc_state rc')
    \<and> (\<forall>g. left_alone deg (rc_state rc) d (set (ob_notes (ps_observed ps))) g \<longrightarrow>
         (\<forall>a\<in>set (map step_action (plan_steps (ps_plan ps))). rk_group (action_key a) \<noteq> g)
         \<and> (\<forall>k. rk_group k = g \<longrightarrow> state_get (rc_state rc') k = state_get (rc_state rc) k))"
  using assms by (rule run_pass_ok)

text \<open>A pass of the toy host that finds a record of a degraded group.\<close>

definition example_reconciler :: "(toy, string, unit) reconciler" where
  "example_reconciler =
     \<lparr>rc_host = \<lparr>h_runtime = example_set_runtime, h_env = \<lparr>e_roots = [], e_world = toy_world True\<rparr>,
                 h_caller = ()\<rparr>,
      rc_state = example_state, rc_notes = []\<rparr>"

definition example_degraded :: degraded where
  "example_degraded = \<lparr>dg_groups = [mr_group example_record], dg_sets = []\<rparr>"

theorem run_pass_protects_witness:
  "\<exists>ps events rc'. run_pass toy_kernel (save toy_kernel example_json toy_store) example_degraded False
       (\<lambda>_ c w. (c, w)) example_reconciler = Some (ps, events, rc')
     \<and> state_get (rc_state rc') (mr_key example_record) = Some example_record"
proof -
  have rt: "runtime_ok (h_runtime (rc_host example_reconciler))"
    using example_set_runtime_ok by (simp add: example_reconciler_def)
  have wf: "state_wf (rc_state example_reconciler)"
    using example_wf by (simp add: example_reconciler_def example_input_def)
  obtain ps events rc' d where
    run: "run_pass toy_kernel (save toy_kernel example_json toy_store) example_degraded False
       (\<lambda>_ c w. (c, w)) example_reconciler = Some (ps, events, rc')"
    and kept: "\<forall>g. left_alone example_degraded (rc_state example_reconciler) d (set (ob_notes (ps_observed ps))) g \<longrightarrow>
         (\<forall>k. rk_group k = g \<longrightarrow> state_get (rc_state rc') k = state_get (rc_state example_reconciler) k)"
    using run_pass_protects[OF rt wf, of toy_kernel "save toy_kernel example_json toy_store"
        example_degraded False "\<lambda>_ c w. (c, w)"] by blast
  have "left_alone example_degraded (rc_state example_reconciler) d (set (ob_notes (ps_observed ps)))
      (mr_group example_record)"
    by (simp add: left_alone_def example_degraded_def)
  with kept have "state_get (rc_state rc') (mr_key example_record)
      = state_get example_state (mr_key example_record)"
    by (simp add: example_reconciler_def mr_key_def)
  then show ?thesis using run by (simp add: example_state_def state_get_def bt_get_def)
qed

text \<open>C36. Each note is reported once.  An update raises exactly the notes whose detail differs
  from what was last reported about their subject, clears exactly the reported subjects that
  were examined and have no note any more, and keeps what it did not examine; updating again
  with the same observation reports nothing and changes nothing (when notes about one subject
  agree).\<close>

theorem note_log_reports_once:
  assumes "bt_wf prev" "note_log_update out prev = (events, prev')"
  shows "(\<forall>nt. Raised nt \<in> set events \<longleftrightarrow>
        nt \<in> set (ob_notes out) \<and> bt_get prev (note_key nt) \<noteq> Some (note_detail nt))
    \<and> (\<forall>g sub. Cleared g sub \<in> set events \<longleftrightarrow>
        bt_get prev (g, sub) \<noteq> None \<and> (g, sub) \<notin> note_key ` set (ob_notes out) \<and> g \<in> examined out)
    \<and> (\<forall>k. k \<notin> note_key ` set (ob_notes out) \<longrightarrow>
        bt_get prev' k = (if fst k \<in> examined out then None else bt_get prev k))
    \<and> (consistent_notes (ob_notes out) \<longrightarrow> note_log_update out prev' = ([], prev'))"
proof (intro conjI allI impI)
  note eq = note_log_update_eq[OF assms]
  have ev: "events = raised prev (ob_notes out) @ map (\<lambda>(k, _). Cleared (fst k) (snd k))
         (filter (\<lambda>(k, _). k \<notin> note_key ` set (ob_notes out) \<and> fst k \<in> examined out) prev)"
    using eq by blast
  show "Raised nt \<in> set events \<longleftrightarrow>
      nt \<in> set (ob_notes out) \<and> bt_get prev (note_key nt) \<noteq> Some (note_detail nt)" for nt
    unfolding ev by (auto simp: raised_def)
  have "(\<exists>v. ((g, sub), v) \<in> set prev) \<longleftrightarrow> bt_get prev (g, sub) \<noteq> None" for g sub
    using bt_get_iff[OF assms(1)] by (metis not_None_eq)
  then show "Cleared g sub \<in> set events \<longleftrightarrow>
      bt_get prev (g, sub) \<noteq> None \<and> (g, sub) \<notin> note_key ` set (ob_notes out) \<and> g \<in> examined out" for g sub
    unfolding ev by (auto simp: raised_def image_iff)
  show "bt_get prev' k = (if fst k \<in> examined out then None else bt_get prev k)"
    if "k \<notin> note_key ` set (ob_notes out)" for k
    using eq that by metis
  show "note_log_update out prev' = ([], prev')" if "consistent_notes (ob_notes out)"
    using note_log_quiet[OF assms(1) that assms(2)] .
qed

definition example_noted :: observed where
  "example_noted = (observed_with_frozen [])\<lparr>ob_notes := [MembershipDeleted (statically (Name ''g''))]\<rparr>"

theorem note_log_reports_once_witness:
  "\<exists>nlog. note_log_update example_noted [((''h'', []), ''deleted'')]
       = ([Raised (MembershipDeleted (statically (Name ''g'')))], nlog)
     \<and> note_log_update example_noted nlog = ([], nlog)"
proof -
  let ?prev = "[((''h'', []), ''deleted'')] :: note_log"
  have run: "note_log_update example_noted ?prev
      = ([Raised (MembershipDeleted (statically (Name ''g'')))],
         [((''g'', []), ''deleted''), ((''h'', []), ''deleted'')])"
    by code_simp
  have wf: "bt_wf ?prev" by (simp add: bt_wf_def)
  have "consistent_notes (ob_notes example_noted)" by (simp add: example_noted_def consistent_notes_def)
  then show ?thesis using note_log_reports_once[OF wf run] run by blast
qed

end
