(* ===== verification/Std_Text.thy ===== *)
theory Std_Text
  imports Std_Paths
begin

text \<open>
  What the program uses of the standard library on text: \<open>str::lines\<close>, \<open>str::trim\<close> and
  \<open>String::from_utf8_lossy\<close>.  Text is the bytes of its UTF-8 encoding.
\<close>

section \<open>Lines\<close>

abbreviation CR :: char where "CR \<equiv> CHR 0x0D"

definition chop_cr :: "string \<Rightarrow> string" where
  "chop_cr l = (case strip_suffix [CR] l of Some k \<Rightarrow> k | None \<Rightarrow> l)"

text \<open>A line ends at a line feed, or a carriage return and a line feed; an empty last line is
  no line.\<close>

definition text_lines :: "string \<Rightarrow> string list" where
  "text_lines s =
     (let ps = split_on NEWLINE s in
      map chop_cr (butlast ps) @ (if last ps = [] then [] else [last ps]))"

lemma chop_cr_free: "CR \<notin> set l \<Longrightarrow> chop_cr l = l"
  by (auto simp: chop_cr_def strip_suffix_Some_iff split: option.split)

lemma split_on_terminated:
  "\<forall>l\<in>set ls. NEWLINE \<notin> set l \<Longrightarrow> split_on NEWLINE (concat (map (\<lambda>l. l @ [NEWLINE]) ls)) = ls @ [[]]"
  by (induction ls) (simp_all add: split_on_append_sep)

text \<open>A text of lines, each ended by a line feed, has those lines.\<close>

lemma text_lines_terminated:
  assumes "\<forall>l\<in>set ls. NEWLINE \<notin> set l \<and> CR \<notin> set l"
  shows "text_lines (concat (map (\<lambda>l. l @ [NEWLINE]) ls)) = ls"
proof -
  have "map chop_cr ls = ls" using assms by (simp add: chop_cr_free map_idI)
  then show ?thesis using assms by (simp add: text_lines_def split_on_terminated)
qed

section \<open>Trimming\<close>

text \<open>The UTF-8 encodings of the characters with the Unicode property \<open>White_Space\<close>.\<close>

definition white_space :: "string list" where
  "white_space =
     [[CHR 0x09], [CHR 0x0A], [CHR 0x0B], [CHR 0x0C], [CHR 0x0D], [CHR 0x20], [CHR 0xC2, CHR 0x85],
      [CHR 0xC2, CHR 0xA0], [CHR 0xE1, CHR 0x9A, CHR 0x80], [CHR 0xE2, CHR 0x80, CHR 0x80],
      [CHR 0xE2, CHR 0x80, CHR 0x81], [CHR 0xE2, CHR 0x80, CHR 0x82],
      [CHR 0xE2, CHR 0x80, CHR 0x83], [CHR 0xE2, CHR 0x80, CHR 0x84],
      [CHR 0xE2, CHR 0x80, CHR 0x85], [CHR 0xE2, CHR 0x80, CHR 0x86],
      [CHR 0xE2, CHR 0x80, CHR 0x87], [CHR 0xE2, CHR 0x80, CHR 0x88],
      [CHR 0xE2, CHR 0x80, CHR 0x89], [CHR 0xE2, CHR 0x80, CHR 0x8A],
      [CHR 0xE2, CHR 0x80, CHR 0xA8], [CHR 0xE2, CHR 0x80, CHR 0xA9],
      [CHR 0xE2, CHR 0x80, CHR 0xAF], [CHR 0xE2, CHR 0x81, CHR 0x9F],
      [CHR 0xE3, CHR 0x80, CHR 0x80]]"

definition drop_space :: "string list \<Rightarrow> string \<Rightarrow> string option" where
  "drop_space ws s = find (\<lambda>_. True) (List.map_filter (\<lambda>w. strip_prefix w s) ws)"

lemma white_space_nonempty: "w \<in> set white_space \<Longrightarrow> w \<noteq> []"
  unfolding white_space_def by auto

lemma drop_space_shorter:
  assumes "drop_space ws s = Some r" "\<forall>w\<in>set ws. w \<noteq> []"
  shows "length r < length s"
proof -
  have "r \<in> set (List.map_filter (\<lambda>w. strip_prefix w s) ws)"
    using assms(1) unfolding drop_space_def find_Some_iff by auto
  then obtain w where "w \<in> set ws" "s = w @ r"
    by (auto simp: List.map_filter_def strip_prefix_Some_iff)
  then show ?thesis using assms(2) by auto
qed

function trim_start :: "string \<Rightarrow> string" where
  "trim_start [] = []"
| "trim_start (c # s) =
     (case drop_space white_space (c # s) of None \<Rightarrow> c # s | Some r \<Rightarrow> trim_start r)"
  by pat_completeness auto
termination
  by (relation "measure length")
     (simp, metis drop_space_shorter in_measure white_space_nonempty)

function trim_back :: "string \<Rightarrow> string" where
  "trim_back [] = []"
| "trim_back (c # s) =
     (case drop_space (map rev white_space) (c # s) of None \<Rightarrow> c # s | Some r \<Rightarrow> trim_back r)"
  by pat_completeness auto
termination
proof (relation "measure length")
  fix c s r
  assume "drop_space (map rev white_space) (c # s) = Some r"
  moreover have "\<forall>w\<in>set (map rev white_space). w \<noteq> []" using white_space_nonempty by fastforce
  ultimately show "(r, c # s) \<in> measure length" using drop_space_shorter by (simp only: in_measure)
qed simp

definition trim :: "string \<Rightarrow> string" where
  "trim s = rev (trim_back (rev (trim_start s)))"

section \<open>Lossy decoding\<close>

text \<open>
  \<open>from_utf8_lossy\<close>: the length of the valid sequence at the front, or of the longest front
  part of one (a maximal subpart), which becomes U+FFFD; at least one byte is consumed.
\<close>

definition second_ok :: "nat \<Rightarrow> nat \<Rightarrow> bool" where
  "second_ok x y =
     (if x = 0xE0 then 0xA0 \<le> y \<and> y \<le> 0xBF
      else if x = 0xED then 0x80 \<le> y \<and> y \<le> 0x9F
      else if x = 0xF0 then 0x90 \<le> y \<and> y \<le> 0xBF
      else if x = 0xF4 then 0x80 \<le> y \<and> y \<le> 0x8F
      else 0x80 \<le> y \<and> y \<le> 0xBF)"

definition sequence_length :: "nat \<Rightarrow> nat" where
  "sequence_length x =
     (if x < 0x80 then 1
      else if 0xC2 \<le> x \<and> x \<le> 0xDF then 2
      else if 0xE0 \<le> x \<and> x \<le> 0xEF then 3
      else if 0xF0 \<le> x \<and> x \<le> 0xF4 then 4
      else 0)"

definition front_part :: "string \<Rightarrow> nat" where
  "front_part s =
     (case s of
        [] \<Rightarrow> 0
      | a # r \<Rightarrow>
          let n = sequence_length (byte a) in
          if n \<le> 1 then 1
          else (case r of
                  [] \<Rightarrow> 1
                | b # r' \<Rightarrow>
                    if second_ok (byte a) (byte b)
                    then 2 + length (takeWhile utf8_cont (take (n - 2) r')) else 1))"

lemma front_part_pos: "s \<noteq> [] \<Longrightarrow> 0 < front_part s"
  by (cases s) (simp_all add: front_part_def Let_def split: list.split)

definition replacement :: string where
  "replacement = [CHR 0xEF, CHR 0xBF, CHR 0xBD]"

function utf8_lossy :: "string \<Rightarrow> string" where
  "utf8_lossy [] = []"
| "utf8_lossy (a # s) =
     (let n = front_part (a # s) in
      (if n = sequence_length (byte a) then take n (a # s) else replacement) @ utf8_lossy (drop n (a # s)))"
  by pat_completeness auto
termination
proof (relation "measure length")
  fix a s n
  assume "n = front_part (a # s)"
  then show "(drop n (a # s), a # s) \<in> measure length" using front_part_pos[of "a # s"] by simp
qed simp

lemma utf8_lossy_ascii: "\<forall>c\<in>set s. byte c < 128 \<Longrightarrow> utf8_lossy s = s"
  by (induction s) (simp_all add: front_part_def sequence_length_def)

end
