(* ===== verification/Config_Load.thy ===== *)
theory Config_Load
  imports Config_Props Sys Std_Text
begin

text \<open>
  \<open>src/src/config.rs\<close>, the loading of files: which files are read, the checks of their
  owner and mode, and the checks that configured directories exist.  The file system is a
  parameter; functions that also collect issues act on the issues and the world.
\<close>

section \<open>The file system\<close>

record file_meta =
  fm_uid :: u32
  fm_mode :: u32
  fm_type :: file_type

record ('w, 'fd) host_files =
  hf_canonicalize :: "string \<Rightarrow> ('w, string) io"
  hf_open_dir :: "string \<Rightarrow> ('w, 'fd) io"
  hf_open_file :: "'fd \<Rightarrow> string \<Rightarrow> ('w, 'fd) sys"
  hf_fstat :: "'fd \<Rightarrow> ('w, file_meta) io"
  hf_stat :: "string \<Rightarrow> ('w, file_meta) io"
  hf_read :: "'fd \<Rightarrow> ('w, string) io"
  hf_list_dir :: "string \<Rightarrow> ('w, (io_error + string) list) io"
  hf_show :: "io_error \<Rightarrow> string"

text \<open>\<open>io::Error::kind\<close>: EPERM is 1 and EACCES 13 on Linux.\<close>

definition not_found :: "io_error \<Rightarrow> bool" where
  "not_found e = (e = Os ENOENT)"

definition permission_denied :: "io_error \<Rightarrow> bool" where
  "permission_denied e = (e = Os (Errno 1) \<or> e = Os (Errno 13))"

section \<open>Options\<close>

datatype ownership_policy = Enforce | Warn

record fragment_changes =
  fc_add :: "string list"
  fc_remove :: "string list"

record load_options =
  lo_main_file :: string
  lo_main_file_required :: bool
  lo_config_dir :: string
  lo_config_dir_required :: bool
  lo_ownership :: ownership_policy
  lo_trusted_uid :: u32
  lo_check_paths :: bool
  lo_changes :: fragment_changes

definition DEFAULT_CONFIG_FILE :: string where "DEFAULT_CONFIG_FILE = ''/etc/byssus/byssus.toml''"
definition DEFAULT_CONFIG_DIR :: string where "DEFAULT_CONFIG_DIR = ''/etc/byssus/conf.d''"

definition default_load_options :: load_options where
  "default_load_options =
     \<lparr>lo_main_file = DEFAULT_CONFIG_FILE, lo_main_file_required = False,
      lo_config_dir = DEFAULT_CONFIG_DIR, lo_config_dir_required = False, lo_ownership = Enforce,
      lo_trusted_uid = 0, lo_check_paths = True, lo_changes = \<lparr>fc_add = [], fc_remove = []\<rparr>\<rparr>"

section \<open>Checks of one file\<close>

type_synonym ('w, 'a) issued = "issues \<times> 'w \<Rightarrow> 'a \<times> (issues \<times> 'w)"

definition on_files :: "('w \<Rightarrow> 'a \<times> 'w) \<Rightarrow> ('w, 'a) issued" where
  "on_files m s = (case s of (is, w) \<Rightarrow> (case m w of (r, w) \<Rightarrow> (r, (is, w))))"

definition severity_of :: "load_options \<Rightarrow> severity" where
  "severity_of lo = (case lo_ownership lo of Enforce \<Rightarrow> Error | Warn \<Rightarrow> Warning)"

definition check_owner_and_mode ::
  "string \<Rightarrow> load_options \<Rightarrow> string \<Rightarrow> file_meta \<Rightarrow> issues \<Rightarrow> issues" where
  "check_owner_and_mode path lo what meta is =
     (let sev = severity_of lo;
          is = (if fm_uid meta \<noteq> lo_trusted_uid lo
                then push_issue sev (Some path) None
                       (Msg_Owner what (unat (fm_uid meta)) (unat (lo_trusted_uid lo))) is
                else is)
      in if fm_mode meta AND 0x12 \<noteq> 0
         then push_issue sev (Some path) None (Msg_Writable what (unat (fm_mode meta AND 0xFFF))) is
         else is)"

definition containing :: "string \<Rightarrow> string" where
  "containing dir = ''containing directory '' @ utf8_lossy dir"

definition check_meta ::
  "string \<Rightarrow> load_options \<Rightarrow> string \<Rightarrow> file_meta \<Rightarrow> issues \<times> 'w \<Rightarrow> (io_error + unit) \<times> (issues \<times> 'w)" where
  "check_meta path lo what meta s =
     (case s of (is, w) \<Rightarrow> (Inr (), (check_owner_and_mode path lo what meta is, w)))"

text \<open>\<open>read_checked\<close> after both descriptors are open.\<close>

definition read_opened ::
  "('w, 'fd) host_files \<Rightarrow> string \<Rightarrow> load_options \<Rightarrow> bool \<Rightarrow> string \<Rightarrow> 'fd \<Rightarrow> 'fd
     \<Rightarrow> ('w, io_error + string option) issued" where
  "read_opened F path lo include_parent parent dir file =
     bindE (on_files (hf_fstat F file)) (\<lambda>meta.
       if fm_type meta \<noteq> FT_Regular then failE (Custom ''not a regular file'')
       else
         bindE (check_meta path lo ''file'' meta) (\<lambda>_.
         bindE (if include_parent
                then bindE (on_files (hf_fstat F dir)) (\<lambda>dir_meta.
                       check_meta path lo (containing parent) dir_meta)
                else retE ()) (\<lambda>_.
         bindE (on_files (hf_read F file)) (\<lambda>content. retE (Some content)))))"

definition read_checked ::
  "('w, 'fd) host_files \<Rightarrow> string \<Rightarrow> load_options \<Rightarrow> bool \<Rightarrow> ('w, io_error + string option) issued" where
  "read_checked F path lo include_parent s =
     (case on_files (hf_canonicalize F path) s of
        (Inl e, s) \<Rightarrow> if not_found e then (Inr None, s) else (Inl e, s)
      | (Inr resolved, s) \<Rightarrow>
          (case canonical_split resolved of
             None \<Rightarrow> (Inl (Custom ''not a file''), s)
           | Some (parent, file_name) \<Rightarrow>
               bindE (on_files (hf_open_dir F parent)) (\<lambda>dir s.
                 case on_files (hf_open_file F dir file_name) s of
                   (Inl e, s) \<Rightarrow> if e = ENOENT then (Inr None, s) else (Inl (Os e), s)
                 | (Inr file, s) \<Rightarrow> read_opened F path lo include_parent parent dir file s) s))"

section \<open>Fragments\<close>

text \<open>The paths share their directory, so they are ordered by file name.\<close>

definition is_fragment_name :: "string \<Rightarrow> bool" where
  "is_fragment_name n = (\<not> starts_with ''.'' n \<and> ends_with ''.toml'' n)"

definition list_fragments ::
  "('w, 'fd) host_files \<Rightarrow> string \<Rightarrow> 'w \<Rightarrow> (io_error + string list option) \<times> 'w" where
  "list_fragments F dir w =
     (case hf_list_dir F dir w of
        (Inl e, w) \<Rightarrow> if not_found e then (Inr None, w) else (Inl e, w)
      | (Inr entries, w) \<Rightarrow>
          (case collect_results entries of
             Inl e \<Rightarrow> (Inl e, w)
           | Inr names \<Rightarrow> (Inr (Some (map (path_join dir) (sort (filter is_fragment_name names)))), w)))"

definition file_name_of :: "string \<Rightarrow> string" where
  "file_name_of path =
     (case path_file_name path of Some n \<Rightarrow> if is_utf8 n then n else [] | None \<Rightarrow> [])"

fun validate_candidates_from :: "string list \<Rightarrow> string list \<Rightarrow> issues \<Rightarrow> string list \<times> issues" where
  "validate_candidates_from [] names is = (names, is)"
| "validate_candidates_from (path # ps) names is =
     (let n = file_name_of path;
          is = (if n = [] \<or> starts_with ''.'' n \<or> \<not> ends_with ''.toml'' n
                then err (Some path) None Msg_CandidateName is else is);
          is = (if n \<in> set names then err (Some path) None (Msg_CandidateTwice n) is else is)
      in validate_candidates_from ps (names @ [n]) is)"

definition validate_candidates :: "fragment_changes \<Rightarrow> issues \<Rightarrow> string list \<times> issues" where
  "validate_candidates changes is = validate_candidates_from (fc_add changes) [] is"

section \<open>The configuration directory\<close>

definition stat_ownership ::
  "('w, 'fd) host_files \<Rightarrow> string \<Rightarrow> load_options \<Rightarrow> string \<Rightarrow> string \<Rightarrow> issues \<times> 'w \<Rightarrow> issues \<times> 'w" where
  "stat_ownership F path lo resolved p s =
     (let what = (if p = resolved then ''file'' else containing p) in
      case on_files (hf_stat F p) s of
        (Inr meta, (is, w)) \<Rightarrow> (check_owner_and_mode path lo what meta is, w)
      | (Inl e, (is, w)) \<Rightarrow>
          (push_issue (severity_of lo) (Some path) None (Msg_CannotStat what (hf_show F e)) is, w))"

definition check_ownership ::
  "('w, 'fd) host_files \<Rightarrow> string \<Rightarrow> load_options \<Rightarrow> bool \<Rightarrow> issues \<times> 'w \<Rightarrow> issues \<times> 'w" where
  "check_ownership F path lo include_parent s =
     (case on_files (hf_canonicalize F path) s of
        (Inl e, (is, w)) \<Rightarrow>
          (push_issue (severity_of lo) (Some path) None (Msg_CannotResolve (hf_show F e)) is, w)
      | (Inr resolved, s) \<Rightarrow>
          let to_check = resolved #
            (case canonical_split resolved of
               Some (parent, _) \<Rightarrow> if include_parent then [parent] else [] | None \<Rightarrow> [])
          in fold (stat_ownership F path lo resolved) to_check s)"

section \<open>Configured directories\<close>

definition check_dir ::
  "('w, 'fd) host_files \<Rightarrow> string option \<Rightarrow> string option \<Rightarrow> string \<times> abs_path
     \<Rightarrow> issues \<times> 'w \<Rightarrow> issues \<times> 'w" where
  "check_dir F origin grp fp s =
     (case fp of (field, path) \<Rightarrow>
        (case on_files (hf_stat F (show_abs_path path)) s of
           (Inr meta, (is, w)) \<Rightarrow>
             (if fm_type meta = FT_Directory then is
              else err origin grp (Msg_NotDirectory field path) is, w)
         | (Inl e, (is, w)) \<Rightarrow>
             (if not_found e then err origin grp (Msg_PathMissing field path) is
              else if permission_denied e then warn origin grp (Msg_CannotVerify field path (hf_show F e)) is
              else err origin grp (Msg_CannotAccess field path (hf_show F e)) is, w)))"

text \<open>\<open>check_paths_exist\<close>; \<open>byssus\<close> also calls it on its own (\<open>check_paths\<close>).\<close>

definition check_paths_exist ::
  "('w, 'fd) host_files \<Rightarrow> config \<Rightarrow> issues \<times> 'w \<Rightarrow> issues \<times> 'w" where
  "check_paths_exist F cfg s =
     (let s = check_dir F (case cfg_files cfg of [] \<Rightarrow> None | f # _ \<Rightarrow> Some f) None
                (''daemon.state_dir'', dc_state_dir (cfg_daemon cfg)) s;
          s = fold (\<lambda>g. fold (check_dir F (Some (gc_origin g)) (Some (show_group_id (gc_name g))))
                     [(''source_root'', gc_source_root g), (''target_root'', gc_target_root g),
                      (''membership'', gc_membership g)])
                (bt_values (cfg_groups cfg)) s
      in fold (\<lambda>st. fold (check_dir F (Some (sc_origin st)) (Some (set_label (sc_name st))))
                 [(''membership_root'', sc_membership_root st), (''source_root'', sc_source_root st),
                  (''target_root'', sc_target_root st)])
           (bt_values (cfg_group_sets cfg)) s)"

definition check_paths :: "('w, 'fd) host_files \<Rightarrow> config \<Rightarrow> 'w \<Rightarrow> issues \<times> 'w" where
  "check_paths F cfg w = check_paths_exist F cfg ([], w)"

section \<open>Loading\<close>

type_synonym source_text = "string \<times> string \<times> bool"

definition read_main ::
  "('w, 'fd) host_files \<Rightarrow> load_options \<Rightarrow> ('w, source_text list) issued" where
  "read_main F lo s =
     (let path = lo_main_file lo in
      case read_checked F path lo True s of
        (Inr (Some content), s) \<Rightarrow> ([(path, content, True)], s)
      | (Inr None, (is, w)) \<Rightarrow>
          ([], (if lo_main_file_required lo then err (Some path) None Msg_FileMissing is else is, w))
      | (Inl e, (is, w)) \<Rightarrow> ([], (err (Some path) None (Msg_CannotRead (hf_show F e)) is, w)))"

definition installed_fragments ::
  "('w, 'fd) host_files \<Rightarrow> load_options \<Rightarrow> ('w, string list) issued" where
  "installed_fragments F lo s =
     (let dir = lo_config_dir lo in
      case on_files (list_fragments F dir) s of
        (Inr (Some paths), s) \<Rightarrow> (paths, s)
      | (Inr None, (is, w)) \<Rightarrow>
          ([], (if lo_config_dir_required lo then err (Some dir) None Msg_DirMissing is else is, w))
      | (Inl e, (is, w)) \<Rightarrow> ([], (err (Some dir) None (Msg_CannotList (hf_show F e)) is, w)))"

definition check_removals :: "load_options \<Rightarrow> string list \<Rightarrow> issues \<Rightarrow> issues" where
  "check_removals lo installed is =
     fold (\<lambda>n is. if list_ex (\<lambda>p. file_name_of p = n) installed then is
                  else err (Some (lo_config_dir lo)) None (Msg_CannotRemove n) is)
       (fc_remove (lo_changes lo)) is"

text \<open>The fragments in the order they are read, and which of them are candidates.\<close>

definition fragments_of :: "fragment_changes \<Rightarrow> string list \<Rightarrow> string list \<Rightarrow> (string \<times> bool) list" where
  "fragments_of changes candidate_names installed =
     sort_key (\<lambda>f. file_name_of (fst f))
       (map (\<lambda>p. (p, False))
          (filter (\<lambda>p. file_name_of p \<notin> set (fc_remove changes) \<and> file_name_of p \<notin> set candidate_names)
             installed)
        @ map (\<lambda>p. (p, True)) (fc_add changes))"

fun read_fragments ::
  "('w, 'fd) host_files \<Rightarrow> load_options \<Rightarrow> (string \<times> bool) list \<Rightarrow> ('w, source_text list) issued" where
  "read_fragments F lo [] s = ([], s)"
| "read_fragments F lo ((path, is_candidate) # fs) s =
     (case read_checked F path lo (\<not> is_candidate) s of
        (Inr (Some content), s) \<Rightarrow>
          (case read_fragments F lo fs s of (srcs, s) \<Rightarrow> ((path, content, False) # srcs, s))
      | (Inr None, (is, w)) \<Rightarrow>
          read_fragments F lo fs
            (if is_candidate then err (Some path) None Msg_FileMissing is else is, w)
      | (Inl e, (is, w)) \<Rightarrow>
          read_fragments F lo fs (err (Some path) None (Msg_CannotRead (hf_show F e)) is, w))"

definition read_sources ::
  "('w, 'fd) host_files \<Rightarrow> load_options \<Rightarrow> ('w, source_text list) issued" where
  "read_sources F lo s =
     (case read_main F lo s of
        (main, (is, w)) \<Rightarrow>
          (case validate_candidates (lo_changes lo) is of
             (candidate_names, is) \<Rightarrow>
               (case installed_fragments F lo (is, w) of
                  (installed, (is, w)) \<Rightarrow>
                    (case read_fragments F lo
                            (fragments_of (lo_changes lo) candidate_names installed)
                            (check_removals lo installed is, w) of
                       (fragments, s) \<Rightarrow>
                         (main @ fragments,
                          (if list_ex (\<lambda>(_, _, is_main). \<not> is_main) (main @ fragments)
                           then check_ownership F (lo_config_dir lo) lo True s else s))))))"

definition load ::
  "('w, 'fd) host_files \<Rightarrow> (string \<Rightarrow> string + raw_file) \<Rightarrow> load_options \<Rightarrow> 'w
     \<Rightarrow> (issues + loaded) \<times> 'w" where
  "load F toml lo w =
     (case read_sources F lo ([], w) of
        (sources, (is, w)) \<Rightarrow>
          (case parse_documents toml sources is of
             (parsed, is) \<Rightarrow>
               let is = (if parsed = [] \<and> \<not> has_errors is then warn None None Msg_NoFiles is else is) in
               (case assemble parsed is of
                  (cfg, is) \<Rightarrow>
                    (case (if lo_check_paths lo \<and> \<not> has_errors is
                           then check_paths_exist F cfg (is, w) else (is, w)) of
                       (is, w) \<Rightarrow>
                         (if has_errors is then Inl is
                          else Inr \<lparr>ld_config = cfg, ld_warnings = is\<rparr>, w)))))"

end
