(* ===== verification/Config_Load_Props.thy ===== *)
theory Config_Load_Props
  imports Config_Load
begin

text \<open>
  Loading from files: every file that made it into the configuration was trusted, and the
  configuration is the one its texts define.
\<close>

section \<open>Validation only adds issues\<close>

text \<open>A writer returns the same value whatever issues there already are, and appends to them.\<close>

definition writer :: "(issues \<Rightarrow> 'a \<times> issues) \<Rightarrow> bool" where
  "writer f = (\<exists>x ys. \<forall>is. f is = (x, is @ ys))"

definition appends :: "(issues \<Rightarrow> issues) \<Rightarrow> bool" where
  "appends t = (\<exists>ys. \<forall>is. t is = is @ ys)"

named_theorems writer_intros \<open>functions that only append issues\<close>

lemma appends_id [writer_intros]: "appends (\<lambda>is. is)"
  by (auto simp: appends_def)

lemma appends_comp: "appends t \<Longrightarrow> appends u \<Longrightarrow> appends (\<lambda>is. u (t is))"
  unfolding appends_def by (metis append.assoc)

lemma appends_push [writer_intros]: "appends (push_issue sev f g m)"
  by (auto simp: appends_def push_issue_def)

lemma appends_err [writer_intros]: "appends (err f g m)"
  unfolding err_def by (rule appends_push)

lemma appends_warn [writer_intros]: "appends (warn f g m)"
  unfolding warn_def by (rule appends_push)

lemma appends_if [writer_intros]:
  "(b \<Longrightarrow> appends t) \<Longrightarrow> (\<not> b \<Longrightarrow> appends u) \<Longrightarrow> appends (\<lambda>is. if b then t is else u is)"
  by (cases b) simp_all

lemma appends_fold [writer_intros]: "(\<And>x. appends (f x)) \<Longrightarrow> appends (fold f xs)"
proof (induction xs)
  case (Cons x xs)
  then show ?case using appends_comp[of "f x" "fold f xs"] by (simp add: comp_def)
qed (simp add: appends_def)

lemma writer_ret [writer_intros]: "appends t \<Longrightarrow> writer (\<lambda>is. (x, t is))"
  by (auto simp: writer_def appends_def)

lemma writer_bind [writer_intros]:
  "writer f \<Longrightarrow> (\<And>x. writer (g x)) \<Longrightarrow> writer (\<lambda>is. case f is of (x, is) \<Rightarrow> g x is)"
  unfolding writer_def
proof -
  assume "\<exists>x ys. \<forall>is. f is = (x, is @ ys)" and g: "\<And>x. \<exists>y ys. \<forall>is. g x is = (y, is @ ys)"
  then obtain x ys where f: "\<forall>is. f is = (x, is @ ys)" by blast
  obtain y zs where "\<forall>is. g x is = (y, is @ zs)" using g by blast
  with f show "\<exists>x ys. \<forall>is. (case f is of (x, is) \<Rightarrow> g x is) = (x, is @ ys)"
    by (intro exI[of _ y] exI[of _ "ys @ zs"]) simp
qed

lemma writer_option [writer_intros]:
  "writer f \<Longrightarrow> (\<And>x. writer (g x)) \<Longrightarrow> writer (\<lambda>is. case o' of None \<Rightarrow> f is | Some x \<Rightarrow> g x is)"
  by (cases o') simp_all

lemma writer_sum [writer_intros]:
  "(\<And>e. writer (f e)) \<Longrightarrow> (\<And>x. writer (g x)) \<Longrightarrow> writer (\<lambda>is. case s of Inl e \<Rightarrow> f e is | Inr x \<Rightarrow> g x is)"
  by (cases s) simp_all

lemma writer_if [writer_intros]:
  "writer f \<Longrightarrow> writer g \<Longrightarrow> writer (\<lambda>is. if b then f is else g is)"
  by (cases b) simp_all

lemma appends_let [writer_intros]: "appends t \<Longrightarrow> appends u \<Longrightarrow> appends (\<lambda>is. let is = t is in u is)"
  unfolding Let_def by (rule appends_comp)

lemma writer_check_abs [writer_intros]: "writer (check_abs path g field v)"
  unfolding check_abs_def by (intro writer_intros)

lemma writer_check_template [writer_intros]: "writer (check_template parse path g field v)"
  unfolding check_template_def by (intro writer_intros)

lemma writer_validate_daemon [writer_intros]: "writer (validate_daemon r path)"
  unfolding validate_daemon_def Let_def by (intro writer_intros)

lemma writer_validate_group [writer_intros]: "writer (validate_group n r path)"
  unfolding validate_group_def Let_def prod.case by (intro writer_intros)

lemma writer_validate_group_set [writer_intros]: "writer (validate_group_set n r path)"
  unfolding validate_group_set_def Let_def prod.case by (intro writer_intros)

lemma appends_check_pair [writer_intros]: "appends (check_pair area other)"
  unfolding check_pair_def by (intro writer_intros)

lemma appends_check_cross_group [writer_intros]: "appends (check_cross_group cfg)"
  unfolding check_cross_group_def by (intro writer_intros)

lemma writer_prefix: "writer f \<Longrightarrow> f (pre @ is) = (fst (f is), pre @ snd (f is))"
  unfolding writer_def by (metis append.assoc fst_conv snd_conv)

lemma appends_prefix: "appends t \<Longrightarrow> t (pre @ is) = pre @ t is"
  unfolding appends_def by (metis append.assoc)

section \<open>Assembling is independent of the issues so far\<close>

definition prefixed :: "(assembling \<Rightarrow> assembling) \<Rightarrow> bool" where
  "prefixed f = (\<forall>a pre. f (a\<lparr>as_issues := pre @ as_issues a\<rparr>)
                        = (f a)\<lparr>as_issues := pre @ as_issues (f a)\<rparr>)"

lemma prefixed_fold: "(\<And>x. prefixed (f x)) \<Longrightarrow> prefixed (fold f xs)"
proof (induction xs)
  case (Cons x xs)
  then have "prefixed (f x)" "prefixed (fold f xs)" by simp_all
  then show ?case unfolding prefixed_def by simp
qed (simp add: prefixed_def)

lemma prefixed_add_group: "prefixed (add_group path e)"
proof (cases e)
  case (Pair group_name r)
  have v: "\<And>n pre is. validate_group n r path (pre @ is)
      = (fst (validate_group n r path is), pre @ snd (validate_group n r path is))"
    by (rule writer_prefix, rule writer_validate_group)
  show ?thesis
    unfolding prefixed_def add_group_def Pair prod.case Let_def
    by (auto simp: v err_def push_issue_def split: sum.split option.split prod.split)
qed

lemma prefixed_add_group_set: "prefixed (add_group_set path e)"
proof (cases e)
  case (Pair set_name r)
  have v: "\<And>n pre is. validate_group_set n r path (pre @ is)
      = (fst (validate_group_set n r path is), pre @ snd (validate_group_set n r path is))"
    by (rule writer_prefix, rule writer_validate_group_set)
  show ?thesis
    unfolding prefixed_def add_group_set_def Pair prod.case Let_def
    by (auto simp: v err_def push_issue_def split: sum.split option.split prod.split)
qed

lemma prefixed_add_file: "prefixed (add_file f)"
proof -
  obtain path r is_main where f: "f = (path, r, is_main)" by (cases f) auto
  have d: "\<And>d pre is. validate_daemon d path (pre @ is)
      = (fst (validate_daemon d path is), pre @ snd (validate_daemon d path is))"
    by (rule writer_prefix, rule writer_validate_daemon)
  have groups: "\<And>gs. prefixed (fold (add_group path) gs)" "\<And>ss. prefixed (fold (add_group_set path) ss)"
    by (auto intro: prefixed_fold prefixed_add_group prefixed_add_group_set)
  let ?first = "\<lambda>a. case rf_daemon r of
       None \<Rightarrow> a\<lparr>as_config := (as_config a)\<lparr>cfg_files := cfg_files (as_config a) @ [path]\<rparr>\<rparr>
     | Some d \<Rightarrow>
         let a = a\<lparr>as_config := (as_config a)\<lparr>cfg_files := cfg_files (as_config a) @ [path]\<rparr>\<rparr> in
         if is_main then
           (case validate_daemon d path (as_issues a) of
              (dc, is) \<Rightarrow> a\<lparr>as_config := (as_config a)\<lparr>cfg_daemon := dc\<rparr>, as_issues := is\<rparr>)
         else a\<lparr>as_issues := err (Some path) None Msg_DaemonNotMain (as_issues a)\<rparr>"
  have first: "prefixed ?first"
    unfolding prefixed_def Let_def
    by (auto simp: d err_def push_issue_def split: option.split prod.split)
  have "add_file f = (\<lambda>a. fold (add_group_set path) (rf_group_sets r) (fold (add_group path) (rf_groups r) (?first a)))"
    unfolding add_file_def f Let_def by (rule ext) (simp split: option.split)
  then show ?thesis
    using first groups(1)[of "rf_groups r"] groups(2)[of "rf_group_sets r"] unfolding prefixed_def by simp
qed

lemma assemble_prefix:
  "assemble files (pre @ is) = (fst (assemble files is), pre @ snd (assemble files is))"
proof -
  let ?a = "\<lparr>as_config = default_config, as_origins = [], as_set_origins = [], as_issues = is\<rparr>"
  have "prefixed (fold add_file files)" by (rule prefixed_fold) (rule prefixed_add_file)
  then have "fold add_file files (?a\<lparr>as_issues := pre @ as_issues ?a\<rparr>)
      = (fold add_file files ?a)\<lparr>as_issues := pre @ as_issues (fold add_file files ?a)\<rparr>"
    unfolding prefixed_def by blast
  then show ?thesis
    unfolding assemble_def Let_def by (simp add: appends_prefix[OF appends_check_cross_group])
qed

lemma parse_documents_prefix:
  "parse_documents toml ds (pre @ is) = (fst (parse_documents toml ds is), pre @ snd (parse_documents toml ds is))"
  by (induction toml ds "is" arbitrary: pre rule: parse_documents.induct)
     (simp_all add: err_def push_issue_def split: sum.split prod.split)

section \<open>Issues only grow\<close>

lemma has_errors_append [simp]: "has_errors (a @ b) = (has_errors a \<or> has_errors b)"
  by (induction a) (auto simp: has_errors_def)

definition grows :: "issues \<Rightarrow> issues \<Rightarrow> bool" where
  "grows is is' = (\<exists>ys. is' = is @ ys)"

lemma grows_refl [simp]: "grows is is"
  by (simp add: grows_def)

lemma grows_trans: "grows a b \<Longrightarrow> grows b c \<Longrightarrow> grows a c"
  by (auto simp: grows_def)

lemma grows_errors: "grows is is' \<Longrightarrow> \<not> has_errors is' \<Longrightarrow> \<not> has_errors is"
  by (auto simp: grows_def)

lemma grows_push [simp]: "grows is (push_issue sev f g m is)" "grows is (err f g m is)"
  "grows is (warn f g m is)"
  by (simp_all add: grows_def push_issue_def err_def warn_def)

lemma grows_owner [simp]: "grows is (check_owner_and_mode path lo what meta is)"
  unfolding check_owner_and_mode_def Let_def by (auto simp: grows_def push_issue_def)

lemma grows_fold:
  assumes "\<And>x s. grows (fst s) (fst (f x s))"
  shows "grows (fst s) (fst (fold f xs s))"
proof (induction xs arbitrary: s)
  case (Cons x xs)
  have "grows (fst (f x s)) (fst (fold f xs (f x s)))" by (rule Cons.IH)
  then show ?case using grows_trans[OF assms[of s x]] by simp
qed simp

lemma grows_check_dir: "grows (fst s) (fst (check_dir F origin grp fp s))"
  unfolding check_dir_def on_files_def by (auto split: prod.split sum.split)

lemma grows_check_paths: "grows (fst s) (fst (check_paths_exist F cfg s))"
  unfolding check_paths_exist_def Let_def
  by (rule grows_trans[OF grows_trans[OF grows_check_dir grows_fold] grows_fold];
      rule grows_fold; rule grows_check_dir)

lemma grows_ownership: "grows (fst s) (fst (check_ownership F path lo include_parent s))"
proof -
  have one: "grows (fst t) (fst (stat_ownership F path lo resolved p t))" for resolved p t
    unfolding stat_ownership_def on_files_def Let_def by (auto split: prod.split sum.split)
  have all_of: "grows (fst t) (fst (fold (stat_ownership F path lo resolved) ps t))" for resolved ps t
    by (rule grows_fold) (rule one)
  obtain r w where c: "hf_canonicalize F path (snd s) = (r, w)" by (cases "hf_canonicalize F path (snd s)")
  show ?thesis
  proof (cases r)
    case (Inl e)
    then show ?thesis unfolding check_ownership_def on_files_def using c by (simp add: case_prod_beta')
  next
    case (Inr resolved)
    then show ?thesis
      unfolding check_ownership_def on_files_def Let_def using c
        all_of[of "(fst s, w)"] by (simp add: case_prod_beta' del: fold_simps fold.simps)
  qed
qed

section \<open>Trusted files\<close>

definition trusted :: "load_options \<Rightarrow> file_meta \<Rightarrow> bool" where
  "trusted lo meta = (fm_uid meta = lo_trusted_uid lo \<and> fm_mode meta AND 0x12 = 0)"

text \<open>
  \<open>vetted F lo path include_parent content\<close>: the content was read from a descriptor whose
  metadata was checked, a file of the directory the path resolved to, and for an installed
  file that directory was checked too.
\<close>

definition vetted ::
  "('w, 'fd) host_files \<Rightarrow> load_options \<Rightarrow> string \<Rightarrow> bool \<Rightarrow> string \<Rightarrow> bool" where
  "vetted F lo path include_parent content =
     (\<exists>w0 resolved w1 parent file_name dir w2 file w3 meta w4 w5 w6.
        hf_canonicalize F path w0 = (Inr resolved, w1)
        \<and> canonical_split resolved = Some (parent, file_name)
        \<and> hf_open_dir F parent w1 = (Inr dir, w2)
        \<and> hf_open_file F dir file_name w2 = (Inr file, w3)
        \<and> hf_fstat F file w3 = (Inr meta, w4)
        \<and> fm_type meta = FT_Regular \<and> trusted lo meta
        \<and> (if include_parent
           then \<exists>dir_meta. hf_fstat F dir w4 = (Inr dir_meta, w5) \<and> trusted lo dir_meta
           else w5 = w4)
        \<and> hf_read F file w5 = (Inr content, w6))"

lemma owner_and_mode_silent:
  "lo_ownership lo = Enforce \<Longrightarrow> \<not> has_errors (check_owner_and_mode path lo what meta is) \<Longrightarrow>
     trusted lo meta"
  unfolding check_owner_and_mode_def trusted_def severity_of_def Let_def by (auto split: if_splits)

lemma owner_and_mode_silent2:
  "\<not> has_errors (check_owner_and_mode path lo what meta (check_owner_and_mode path' lo what' meta' is)) \<Longrightarrow>
     \<not> has_errors (check_owner_and_mode path' lo what' meta' is)"
  by (rule grows_errors[OF grows_owner])

lemma read_opened_Some:
  assumes "lo_ownership lo = Enforce"
    and "read_opened F path lo include_parent parent dir file (is, w3) = (Inr (Some content), (is', w6))"
    and "\<not> has_errors is'"
  shows "\<exists>meta w4 w5. hf_fstat F file w3 = (Inr meta, w4) \<and> fm_type meta = FT_Regular \<and> trusted lo meta
        \<and> (if include_parent
           then \<exists>dir_meta. hf_fstat F dir w4 = (Inr dir_meta, w5) \<and> trusted lo dir_meta
           else w5 = w4)
        \<and> hf_read F file w5 = (Inr content, w6)"
  using assms unfolding read_opened_def check_meta_def on_files_def bindE_def retE_def failE_def
  by (auto split: prod.splits sum.splits if_splits
      dest: owner_and_mode_silent2 intro: owner_and_mode_silent)

lemma grows_read_opened:
  "grows (fst s) (fst (snd (read_opened F path lo include_parent parent dir file s)))"
  unfolding read_opened_def check_meta_def on_files_def bindE_def retE_def failE_def
  by (auto split: prod.split sum.split intro: grows_trans[OF grows_owner grows_owner])

lemma grows_read_checked: "grows (fst s) (fst (snd (read_checked F path lo include_parent s)))"
  unfolding read_checked_def on_files_def bindE_def
  by (auto split: prod.split sum.split option.split) (metis grows_read_opened fst_conv)

lemma read_checked_vetted:
  assumes "lo_ownership lo = Enforce"
    and "read_checked F path lo include_parent (is, w) = (Inr (Some content), (is', w'))"
    and "\<not> has_errors is'"
  shows "vetted F lo path include_parent content"
proof -
  from assms(2) obtain resolved w1 parent file_name dir w2 f w3 where
    "hf_canonicalize F path w = (Inr resolved, w1)" "canonical_split resolved = Some (parent, file_name)"
    "hf_open_dir F parent w1 = (Inr dir, w2)" "hf_open_file F dir file_name w2 = (Inr f, w3)"
    and r: "read_opened F path lo include_parent parent dir f (is, w3) = (Inr (Some content), (is', w'))"
    unfolding read_checked_def on_files_def bindE_def
    by (auto split: prod.splits sum.splits option.splits if_splits)
  moreover note read_opened_Some[OF assms(1) r assms(3)]
  ultimately show ?thesis unfolding vetted_def by blast
qed

section \<open>The sources\<close>

lemma grows_read_fragments: "grows (fst s) (fst (snd (read_fragments F lo fs s)))"
proof (induction F lo fs s rule: read_fragments.induct)
  case (2 F lo path is_candidate fs s)
  obtain r "is" w where r: "read_checked F path lo (\<not> is_candidate) s = (r, (is, w))" by (metis surj_pair)
  have first: "grows (fst s) is" using grows_read_checked[of s F path lo "\<not> is_candidate"] r by simp
  show ?case
  proof (cases r)
    case (Inl e)
    have "grows (fst (err (Some path) None (Msg_CannotRead (hf_show F e)) is, w))
        (fst (snd (read_fragments F lo fs (err (Some path) None (Msg_CannotRead (hf_show F e)) is, w))))"
      by (rule 2(1)[OF r[symmetric] Inl refl])
    then show ?thesis using r Inl grows_trans[OF grows_trans[OF first grows_push(2)]] by simp
  next
    case (Inr oc)
    show ?thesis
    proof (cases oc)
      case None
      let ?is = "if is_candidate then err (Some path) None Msg_FileMissing is else is"
      have "grows (fst (?is, w)) (fst (snd (read_fragments F lo fs (?is, w))))"
        by (rule 2(2)[OF r[symmetric] Inr None refl])
      moreover have "grows is ?is" by simp
      ultimately show ?thesis using r Inr None grows_trans[OF grows_trans[OF first]] by simp
    next
      case (Some content)
      have "grows (fst (is, w)) (fst (snd (read_fragments F lo fs (is, w))))"
        by (rule 2(3)[OF r[symmetric] Inr Some])
      then show ?thesis using r Inr Some grows_trans[OF first] by (simp add: case_prod_beta')
    qed
  qed
qed simp

definition source_ok :: "('w, 'fd) host_files \<Rightarrow> load_options \<Rightarrow> source_text \<Rightarrow> bool" where
  "source_ok F lo src =
     (case src of (path, content, _) \<Rightarrow>
        vetted F lo path True content
        \<or> path \<in> set (fc_add (lo_changes lo)) \<and> vetted F lo path False content)"

lemma read_fragments_ok:
  assumes "lo_ownership lo = Enforce" "\<not> has_errors (fst (snd (read_fragments F lo fs s)))"
    and "\<forall>f\<in>set fs. snd f \<longrightarrow> fst f \<in> set (fc_add (lo_changes lo))"
  shows "\<forall>src\<in>set (fst (read_fragments F lo fs s)). source_ok F lo src"
  using assms
proof (induction F lo fs s rule: read_fragments.induct)
  case (2 F lo path is_candidate fs s)
  obtain r "is" w where r: "read_checked F path lo (\<not> is_candidate) s = (r, (is, w))" by (metis surj_pair)
  show ?case
  proof (cases r)
    case (Inl e)
    then show ?thesis using 2(1)[OF r[symmetric] Inl refl] 2(4-6) r by simp
  next
    case (Inr oc)
    show ?thesis
    proof (cases oc)
      case None
      then show ?thesis using 2(2)[OF r[symmetric] Inr None refl] 2(4-6) r Inr by simp
    next
      case (Some content)
      obtain srcs s' where f: "read_fragments F lo fs (is, w) = (srcs, s')" by (metis surj_pair)
      then have no: "\<not> has_errors (fst s')" using 2(5) r Inr Some by simp
      moreover have "grows is (fst s')" using grows_read_fragments[of "(is, w)" F lo fs] f by simp
      ultimately have "\<not> has_errors is" by (rule grows_errors[rotated])
      moreover obtain s1 w1 where s: "s = (s1, w1)" by (cases s)
      ultimately have "vetted F lo path (\<not> is_candidate) content"
        using read_checked_vetted[OF 2(4), of F path "\<not> is_candidate" s1 w1 content "is" w] r Inr Some by simp
      then have "source_ok F lo (path, content, False)" using 2(6) unfolding source_ok_def by (cases is_candidate) auto
      moreover have "\<forall>src\<in>set srcs. source_ok F lo src"
        using 2(3)[OF r[symmetric] Inr Some] 2(4,6) f no by simp
      ultimately show ?thesis using r Inr Some f by simp
    qed
  qed
qed simp

lemma fragments_of_candidates:
  "f \<in> set (fragments_of changes names installed) \<Longrightarrow> snd f \<Longrightarrow> fst f \<in> set (fc_add changes)"
  unfolding fragments_of_def by auto

lemma read_main_ok:
  assumes "lo_ownership lo = Enforce" "read_main F lo s = (srcs, s')" "\<not> has_errors (fst s')"
  shows "\<forall>src\<in>set srcs. source_ok F lo src"
proof -
  obtain "is" w where s: "s = (is, w)" by (cases s)
  obtain r is' w' where r: "read_checked F (lo_main_file lo) lo True (is, w) = (r, (is', w'))"
    by (metis surj_pair)
  show ?thesis
  proof (cases "\<exists>content. r = Inr (Some content)")
    case True
    then obtain content where c: "r = Inr (Some content)" by blast
    then have "srcs = [(lo_main_file lo, content, True)]" "s' = (is', w')"
      using assms(2) r s unfolding read_main_def Let_def by simp_all
    moreover have "vetted F lo (lo_main_file lo) True content"
      using read_checked_vetted[OF assms(1) r[unfolded c]] assms(3) \<open>s' = (is', w')\<close> by simp
    ultimately show ?thesis unfolding source_ok_def by simp
  next
    case False
    then have "srcs = []"
      using assms(2) r s unfolding read_main_def Let_def by (auto split: sum.splits option.splits)
    then show ?thesis by simp
  qed
qed

lemma grows_candidates: "grows is (snd (validate_candidates_from ps names is))"
proof (induction ps names "is" rule: validate_candidates_from.induct)
  case (2 path ps names "is")
  let ?n = "file_name_of path"
  let ?a = "if ?n = [] \<or> starts_with ''.'' ?n \<or> \<not> ends_with ''.toml'' ?n
            then err (Some path) None Msg_CandidateName is else is"
  let ?b = "if ?n \<in> set names then err (Some path) None (Msg_CandidateTwice ?n) ?a else ?a"
  have "grows is ?a" "grows ?a ?b" by simp_all
  then have "grows is ?b" by (rule grows_trans)
  from grows_trans[OF this 2[OF refl refl refl]] show ?case by (simp add: Let_def)
qed simp

lemma grows_installed: "grows (fst s) (fst (snd (installed_fragments F lo s)))"
proof -
  obtain "is" w where s: "s = (is, w)" by (cases s)
  obtain r w' where l: "list_fragments F (lo_config_dir lo) w = (r, w')" by (metis surj_pair)
  consider (e) e where "r = Inl e" | (none) "r = Inr None" | (some) ps where "r = Inr (Some ps)"
    by (cases r) auto
  then show ?thesis
    by cases (simp_all add: installed_fragments_def on_files_def Let_def s l)
qed

lemma grows_removals: "grows is (check_removals lo installed is)"
proof -
  have "appends (check_removals lo installed)"
    unfolding check_removals_def by (intro writer_intros)
  then show ?thesis unfolding appends_def grows_def by blast
qed

lemma read_sources_ok:
  assumes e: "lo_ownership lo = Enforce" and r: "read_sources F lo s = (srcs, s')"
    and no: "\<not> has_errors (fst s')"
  shows "\<forall>src\<in>set srcs. source_ok F lo src"
proof -
  obtain main is1 w1 where main: "read_main F lo s = (main, (is1, w1))" by (metis surj_pair)
  obtain names is2 where names: "validate_candidates (lo_changes lo) is1 = (names, is2)" by (metis surj_pair)
  obtain inst is3 w3 where inst: "installed_fragments F lo (is2, w1) = (inst, (is3, w3))" by (metis surj_pair)
  let ?fs = "fragments_of (lo_changes lo) names inst"
  obtain frags s4 where frags: "read_fragments F lo ?fs (check_removals lo inst is3, w3) = (frags, s4)"
    by (metis surj_pair)
  have srcs: "srcs = main @ frags"
    and s': "s' = (if list_ex (\<lambda>(_, _, is_main). \<not> is_main) (main @ frags)
                   then check_ownership F (lo_config_dir lo) lo True s4 else s4)"
    using r unfolding read_sources_def by (auto simp: main names inst frags)
  have no4: "\<not> has_errors (fst s4)"
    using no s' grows_errors[OF grows_ownership[of s4 F "lo_config_dir lo" lo True]]
    by (simp split: if_splits)
  then have no3: "\<not> has_errors (check_removals lo inst is3)"
    using grows_errors[OF grows_read_fragments[of "(check_removals lo inst is3, w3)" F lo ?fs]] frags by simp
  have "grows is2 is3" using grows_installed[of "(is2, w1)" F lo] inst by simp
  moreover have "grows is1 is2"
    using grows_candidates[of is1 "fc_add (lo_changes lo)" "[]"] names unfolding validate_candidates_def by simp
  ultimately have "\<not> has_errors is1"
    using grows_errors[OF grows_removals no3] grows_errors by blast
  then have "\<forall>src\<in>set main. source_ok F lo src" using read_main_ok[OF e main] by simp
  moreover have "\<forall>src\<in>set frags. source_ok F lo src"
    using read_fragments_ok[OF e, of F ?fs "(check_removals lo inst is3, w3)"] frags no4
      fragments_of_candidates[of _ "lo_changes lo" names inst] by simp
  ultimately show ?thesis using srcs by auto
qed

section \<open>Loading agrees with \<open>load_from_strs\<close>\<close>

lemma fold_keeps: "(\<And>x a. p (f x a) = p a) \<Longrightarrow> p (fold f xs a) = p a"
  by (induction xs arbitrary: a) simp_all

lemma add_group_files: "cfg_files (as_config (add_group path e a)) = cfg_files (as_config a)"
  "cfg_files (as_config (add_group_set path e2 a)) = cfg_files (as_config a)"
  unfolding add_group_def add_group_set_def Let_def
  by (auto split: prod.split sum.split option.split)

lemma add_file_files: "cfg_files (as_config (add_file f a)) = cfg_files (as_config a) @ [fst f]"
  unfolding add_file_def Let_def
  by (simp add: case_prod_beta' fold_keeps[where p = "\<lambda>a. cfg_files (as_config a)", OF add_group_files(1)]
        fold_keeps[where p = "\<lambda>a. cfg_files (as_config a)", OF add_group_files(2)] split: option.split)

lemma assemble_files: "cfg_files (fst (assemble files is)) = map fst files"
proof -
  have "cfg_files (as_config (fold add_file files a)) = cfg_files (as_config a) @ map fst files" for a
    by (induction files arbitrary: a) (simp_all add: add_file_files)
  then show ?thesis unfolding assemble_def Let_def by (simp add: default_config_def)
qed

lemma parse_documents_silent:
  "\<not> has_errors (snd (parse_documents toml ds is)) \<Longrightarrow>
     snd (parse_documents toml ds is) = is \<and> map fst (fst (parse_documents toml ds is)) = map fst ds"
proof (induction toml ds "is" rule: parse_documents.induct)
  case (2 toml path content is_main ds "is")
  show ?case
  proof (cases "toml content")
    case (Inl e)
    have "parse_documents toml ds (err (Some path) None (Msg_InvalidToml e) is @ []) =
       (fst (parse_documents toml ds []), err (Some path) None (Msg_InvalidToml e) is @ snd (parse_documents toml ds []))"
      by (rule parse_documents_prefix)
    then show ?thesis using 2(3) Inl by simp
  next
    case (Inr r)
    then show ?thesis using 2(2)[OF Inr] 2(3) by (simp add: case_prod_beta')
  qed
qed simp

lemma load_sources:
  assumes "load F toml lo w = (Inr ld, w')"
  shows "\<exists>sources is w1 ld'. read_sources F lo ([], w) = (sources, (is, w1)) \<and> \<not> has_errors is
     \<and> load_from_strs toml sources = Inr ld' \<and> ld_config ld' = ld_config ld
     \<and> cfg_files (ld_config ld) = map fst sources \<and> \<not> has_errors (ld_warnings ld)"
proof -
  obtain sources "is" w1 where r: "read_sources F lo ([], w) = (sources, (is, w1))" by (metis surj_pair)
  obtain parsed is1 where p: "parse_documents toml sources [] = (parsed, is1)" by fastforce
  then have p': "parse_documents toml sources is = (parsed, is @ is1)"
    using parse_documents_prefix[of toml sources "is" "[]"] by simp
  define is2 where "is2 = (if parsed = [] \<and> \<not> has_errors (is @ is1)
    then warn None None Msg_NoFiles (is @ is1) else is @ is1)"
  obtain cfg is3 where a: "assemble parsed [] = (cfg, is3)" by fastforce
  then have a': "assemble parsed is2 = (cfg, is2 @ is3)"
    using assemble_prefix[of parsed is2 "[]"] by simp
  define last_step where "last_step = (if lo_check_paths lo \<and> \<not> has_errors (is2 @ is3)
    then check_paths_exist F cfg (is2 @ is3, w1) else (is2 @ is3, w1))"
  have ok: "\<not> has_errors (fst last_step)" "ld = \<lparr>ld_config = cfg, ld_warnings = fst last_step\<rparr>"
    using assms
    unfolding load_def r prod.case p' Let_def is2_def[symmetric] a' last_step_def[symmetric]
    by (auto simp: case_prod_beta' split: if_splits)
  have "grows (is2 @ is3) (fst last_step)"
    unfolding last_step_def using grows_check_paths[of "(is2 @ is3, w1)" F cfg] by simp
  then have no: "\<not> has_errors (is2 @ is3)" using ok(1) by (rule grows_errors)
  then have no1: "\<not> has_errors is" "\<not> has_errors is1" unfolding is2_def by (auto split: if_splits)
  then have "is1 = []" "map fst parsed = map fst sources"
    using parse_documents_silent[of toml sources "[]"] p by simp_all
  moreover from this have "load_from_strs toml sources = Inr \<lparr>ld_config = cfg, ld_warnings = is3\<rparr>"
    using p a no unfolding load_from_strs_def by simp
  moreover have "cfg_files cfg = map fst parsed" using assemble_files[of parsed "[]"] a by simp
  ultimately show ?thesis using r no1(1) ok by auto
qed

lemma load_vetted:
  assumes "lo_ownership lo = Enforce" "load F toml lo w = (Inr ld, w')"
    and "path \<in> set (cfg_files (ld_config ld))"
  shows "\<exists>content. vetted F lo path True content
     \<or> path \<in> set (fc_add (lo_changes lo)) \<and> vetted F lo path False content"
proof -
  obtain sources "is" w1 where r: "read_sources F lo ([], w) = (sources, (is, w1))" "\<not> has_errors is"
    and files: "cfg_files (ld_config ld) = map fst sources"
    using load_sources[OF assms(2)] by blast
  have "\<forall>src\<in>set sources. source_ok F lo src"
    using read_sources_ok[OF assms(1) r(1)] r(2) by simp
  then show ?thesis using assms(3) files unfolding source_ok_def by fastforce
qed

section \<open>The theorems\<close>


text \<open>C29. Loading from files succeeds only when the texts read load on their own, as
  \<open>load_from_strs\<close> loads them, and gives the same configuration; its files are the ones
  read, in the order they were read, and all that is left of the issues are warnings.\<close>

theorem load_matches_strs:
  assumes "load F toml lo w = (Inr ld, w')"
  shows "\<exists>sources s ld'. read_sources F lo ([], w) = (sources, s)
     \<and> load_from_strs toml sources = Inr ld' \<and> ld_config ld' = ld_config ld
     \<and> cfg_files (ld_config ld) = map fst sources \<and> \<not> has_errors (ld_warnings ld)"
  using load_sources[OF assms] by blast

section \<open>An example\<close>

text \<open>A host with \<open>/etc/byssus/byssus.toml\<close> and an empty \<open>/etc/byssus/conf.d\<close>; descriptor 0
  is the file, 1 its directory.\<close>

definition example_host :: "(nat, nat) host_files" where
  "example_host =
     \<lparr>hf_canonicalize = \<lambda>p w. (Inr p, w),
      hf_open_dir = \<lambda>p w. if p = ''/etc/byssus'' then (Inr 1, w) else (Inl (Os ENOENT), w),
      hf_open_file = \<lambda>fd n w. if fd = 1 \<and> n = ''byssus.toml'' then (Inr 0, w) else (Inl ENOENT, w),
      hf_fstat = \<lambda>fd w. (Inr \<lparr>fm_uid = 0, fm_mode = (if fd = 0 then 0x81A4 else 0x41ED),
                              fm_type = (if fd = 0 then FT_Regular else FT_Directory)\<rparr>, w),
      hf_stat = \<lambda>p w. (Inr \<lparr>fm_uid = 0, fm_mode = 0x41ED, fm_type = FT_Directory\<rparr>, w),
      hf_read = \<lambda>fd w. (Inr ''x'', Suc w),
      hf_list_dir = \<lambda>p w. (Inr [], w),
      hf_show = \<lambda>e. ''error''\<rparr>"

definition example_host_loaded :: loaded where
  "example_host_loaded = example_loaded
     \<lparr>ld_config := (ld_config example_loaded)
        \<lparr>cfg_groups := map (\<lambda>(n, g). (n, g\<lparr>gc_origin := DEFAULT_CONFIG_FILE\<rparr>)) (cfg_groups (ld_config example_loaded)),
         cfg_files := [DEFAULT_CONFIG_FILE]\<rparr>\<rparr>"

lemma example_host_load:
  "load example_host (\<lambda>_. Inr example_raw_file) default_load_options (0 :: nat) = (Inr example_host_loaded, 1)"
  by code_simp


theorem load_matches_strs_witness:
  "\<exists>sources ld'. load_from_strs (\<lambda>_. Inr example_raw_file) sources = Inr ld'
     \<and> ld_config ld' = ld_config example_host_loaded"
  using load_matches_strs[OF example_host_load] by blast

end
