(* ===== verification/Privileges.thy ===== *)
theory Privileges
  imports Fsops Std_Text
begin

text \<open>
  \<open>src/src/privileges/plan.rs\<close> and \<open>apply.rs\<close>: planning, applying and verifying the
  normalization of the process's credentials.  The credential system calls are a parameter,
  a record of functions over the world.
\<close>

section \<open>Capabilities and securebits\<close>

text \<open>The bits of the Linux headers.\<close>

definition CAP_SETGID :: u64 where "CAP_SETGID = 0x40"
definition CAP_SETUID :: u64 where "CAP_SETUID = 0x80"
definition CAP_SETPCAP :: u64 where "CAP_SETPCAP = 0x100"
definition CAP_SYS_ADMIN :: u64 where "CAP_SYS_ADMIN = 0x200000"

definition has_caps :: "u64 \<Rightarrow> u64 \<Rightarrow> bool" where
  "has_caps s c = (s AND c = c)"

definition LOCKED_SECURE_BITS :: u32 where
  "LOCKED_SECURE_BITS = 0x1 OR 0x2 OR 0x4 OR 0x8 OR 0x20 OR 0x40 OR 0x80"

record capability_sets =
  cs_effective :: u64
  cs_permitted :: u64
  cs_inheritable :: u64

section \<open>Planning\<close>

record credentials =
  cr_uids :: "u32 list"
  cr_caps :: capability_sets

definition any_uid_is_root :: "credentials \<Rightarrow> bool" where
  "any_uid_is_root c = (0 \<in> set (cr_uids c))"

record service_user =
  su_name :: string
  su_uid :: u32
  su_gid :: u32
  su_groups :: "u32 list"

record final_gids =
  fg_gid :: u32
  fg_groups :: "u32 list"

definition final_groups :: "service_user \<Rightarrow> final_gids" where
  "final_groups u =
     \<lparr>fg_gid = su_gid u,
      fg_groups = (if su_gid u \<in> set (su_groups u) then su_groups u else su_gid u # su_groups u)\<rparr>"

datatype goal = KeepSysAdmin | DropAll

record request =
  rq_goal :: goal
  rq_user :: "service_user option"
  rq_allow_root :: bool

datatype op =
    ClearAmbient
  | SetCaps capability_sets
  | DropBoundingExcept u64
  | SetSecureBits u32
  | SetKeepCaps bool
  | SetGroups "u32 list"
  | SetResGid u32
  | SetResUid u32
  | SetNoNewPrivs

datatype priv_warning =
    RunningAsRoot
  | UserNotApplied string u32

datatype plan_error =
    MissingSysAdmin
  | RootWithoutUser
  | ServiceUserIsRoot string
  | CannotSwitchUser string string

record privilege_plan =
  pp_ops :: "op list"
  pp_warnings :: "priv_warning list"
  pp_uid :: u32
  pp_caps :: u64
  pp_groups :: "final_gids option"

definition keep_of :: "goal \<Rightarrow> u64" where
  "keep_of g = (case g of KeepSysAdmin \<Rightarrow> CAP_SYS_ADMIN | DropAll \<Rightarrow> 0)"

text \<open>The user to switch to, and the warnings.\<close>

definition choose_user ::
  "credentials \<Rightarrow> request \<Rightarrow> plan_error + service_user option \<times> priv_warning list" where
  "choose_user current rq =
     (case (any_uid_is_root current, rq_user rq) of
        (True, Some user) \<Rightarrow>
          if su_uid user = 0 then Inl (ServiceUserIsRoot (su_name user)) else Inr (Some user, [])
      | (True, None) \<Rightarrow>
          if rq_goal rq = KeepSysAdmin then
            (if \<not> rq_allow_root rq then Inl RootWithoutUser else Inr (None, [RunningAsRoot]))
          else Inr (None, [])
      | (False, Some user) \<Rightarrow>
          Inr (None, if cr_uids current ! 1 \<noteq> su_uid user
                     then [UserNotApplied (su_name user) (cr_uids current ! 1)] else [])
      | (False, None) \<Rightarrow> Inr (None, []))"

definition check_switch :: "u64 \<Rightarrow> service_user option \<Rightarrow> plan_error + unit" where
  "check_switch permitted switch_to =
     (case switch_to of
        None \<Rightarrow> Inr ()
      | Some user \<Rightarrow>
          if \<not> has_caps permitted CAP_SETUID then Inl (CannotSwitchUser (su_name user) ''CAP_SETUID'')
          else if \<not> has_caps permitted CAP_SETGID then Inl (CannotSwitchUser (su_name user) ''CAP_SETGID'')
          else Inr ())"

definition needed_caps :: "bool \<Rightarrow> service_user option \<Rightarrow> u64" where
  "needed_caps has_setpcap switch_to =
     (let needed = (if has_setpcap then 0 OR CAP_SETPCAP else 0) in
      if switch_to \<noteq> None then needed OR (CAP_SETUID OR CAP_SETGID) else needed)"

definition switch_ops :: "bool \<Rightarrow> service_user \<Rightarrow> op list" where
  "switch_ops has_setpcap user =
     (if has_setpcap then [] else [SetKeepCaps True])
     @ [SetGroups (fg_groups (final_groups user)), SetResGid (fg_gid (final_groups user)),
        SetResUid (su_uid user)]
     @ (if has_setpcap then [] else [SetKeepCaps False])"

definition plan_ops :: "credentials \<Rightarrow> u64 \<Rightarrow> service_user option \<Rightarrow> op list" where
  "plan_ops current keep switch_to =
     (let permitted = cs_permitted (cr_caps current);
          has_setpcap = has_caps permitted CAP_SETPCAP;
          needed = needed_caps has_setpcap switch_to;
          ops = [ClearAmbient];
          ops = (if \<not> has_caps (cs_effective (cr_caps current)) needed
                 then ops @ [SetCaps \<lparr>cs_effective = cs_effective (cr_caps current) OR needed,
                                      cs_permitted = permitted, cs_inheritable = 0\<rparr>]
                 else ops);
          ops = (if has_setpcap then ops @ [DropBoundingExcept keep, SetSecureBits LOCKED_SECURE_BITS]
                 else ops);
          ops = (case switch_to of Some user \<Rightarrow> ops @ switch_ops has_setpcap user | None \<Rightarrow> ops)
      in ops @ [SetCaps \<lparr>cs_effective = keep, cs_permitted = keep, cs_inheritable = 0\<rparr>, SetNoNewPrivs])"

definition plan_privileges :: "credentials \<Rightarrow> request \<Rightarrow> plan_error + privilege_plan" where
  "plan_privileges current rq =
     (let keep = keep_of (rq_goal rq);
          permitted = cs_permitted (cr_caps current)
      in if rq_goal rq = KeepSysAdmin \<and> \<not> has_caps permitted CAP_SYS_ADMIN then Inl MissingSysAdmin
         else
           and_then (choose_user current rq) (\<lambda>(switch_to, warnings).
           and_then (check_switch permitted switch_to) (\<lambda>_.
             Inr \<lparr>pp_ops = plan_ops current keep switch_to,
                  pp_warnings = warnings,
                  pp_uid = (case switch_to of Some u \<Rightarrow> su_uid u | None \<Rightarrow> cr_uids current ! 1),
                  pp_caps = keep,
                  pp_groups = map_option final_groups switch_to\<rparr>)))"

section \<open>The process's credentials\<close>

record process_state =
  st_uids :: "u32 list"
  st_gids :: "u32 list"
  st_groups :: "u32 list"
  st_threads :: u32
  st_inheritable :: u64
  st_permitted :: u64
  st_effective :: u64
  st_bounding :: u64
  st_ambient :: u64
  st_no_new_privs :: bool
  st_secure_bits :: u32

definition credentials_of :: "process_state \<Rightarrow> credentials" where
  "credentials_of st =
     \<lparr>cr_uids = st_uids st,
      cr_caps = \<lparr>cs_effective = st_effective st, cs_permitted = st_permitted st,
                 cs_inheritable = st_inheritable st\<rparr>\<rparr>"

text \<open>The credential calls; \<open>getresuid\<close> and \<open>getresgid\<close> give the three IDs.\<close>

record 'w creds =
  c_capabilities :: "('w, capability_sets) sys"
  c_getresuid :: "('w, u32 list) sys"
  c_getresgid :: "('w, u32 list) sys"
  c_getgroups :: "('w, u32 list) sys"
  c_in_bounding :: "u64 \<Rightarrow> ('w, bool) sys"
  c_in_ambient :: "u64 \<Rightarrow> ('w, bool) sys"
  c_no_new_privs :: "('w, bool) sys"
  c_secure_bits :: "('w, u32) sys"
  c_clear_ambient :: "('w, unit) sys"
  c_set_caps :: "capability_sets \<Rightarrow> ('w, unit) sys"
  c_drop_bounding :: "u64 \<Rightarrow> ('w, unit) sys"
  c_set_secure_bits :: "u32 \<Rightarrow> ('w, unit) sys"
  c_set_keep_caps :: "bool \<Rightarrow> ('w, unit) sys"
  c_set_groups :: "u32 list \<Rightarrow> ('w, unit) sys"
  c_set_res_gid :: "u32 \<Rightarrow> ('w, unit) sys"
  c_set_res_uid :: "u32 \<Rightarrow> ('w, unit) sys"
  c_set_no_new_privs :: "('w, unit) sys"

definition cap_bit :: "nat \<Rightarrow> u64" where
  "cap_bit n = push_bit n 1"

text \<open>The loop of \<open>read_set\<close> over the capabilities; EINVAL is 22.\<close>

fun read_set_from :: "(u64 \<Rightarrow> ('w, bool) sys) \<Rightarrow> nat list \<Rightarrow> u64 \<Rightarrow> ('w, u64) io" where
  "read_set_from is_set [] bits w = (Inr bits, w)"
| "read_set_from is_set (n # ns) bits w =
     (case is_set (cap_bit n) w of
        (Inr True, w) \<Rightarrow> read_set_from is_set ns (bits OR cap_bit n) w
      | (Inr False, w) \<Rightarrow> read_set_from is_set ns bits w
      | (Inl e, w) \<Rightarrow> if e = Errno 22 \<and> 0 < n then (Inr bits, w) else (Inl (Os e), w))"

definition read_set :: "(u64 \<Rightarrow> ('w, bool) sys) \<Rightarrow> ('w, u64) io" where
  "read_set is_set = read_set_from is_set [0..<64] 0"

text \<open>\<open>io::read_to_string\<close> on the opened status file.\<close>

definition read_text :: "('w, 'fd) kernel \<Rightarrow> 'fd \<Rightarrow> ('w, string) io" where
  "read_text K fd =
     bindE (osE (k_read_to_end K fd)) (\<lambda>bytes.
       if is_utf8 bytes then retE bytes else failE (Custom ''stream did not contain valid UTF-8''))"

definition thread_count :: "('w, 'fd) kernel \<Rightarrow> 'fd \<Rightarrow> ('w, u32) io" where
  "thread_count K proc =
     bindE (retry_eagain (k_openat2 K proc ''self/status'' [O_RDONLY, O_CLOEXEC]
                                 [RESOLVE_BENEATH, RESOLVE_NO_XDEV, RESOLVE_NO_MAGICLINKS])) (\<lambda>fd.
     bindE (read_text K fd) (\<lambda>txt.
       case List.map_filter (strip_prefix ''Threads:'') (text_lines txt) of
         [] \<Rightarrow> failE (Custom ''no thread count in status'')
       | v # _ \<Rightarrow>
           (case parse_uint 32 (trim v) of
              None \<Rightarrow> failE (Custom ''no thread count in status'')
            | Some n \<Rightarrow> retE (word_of_nat n))))"

definition read_self :: "('w, 'fd) kernel \<Rightarrow> 'w creds \<Rightarrow> 'fd \<Rightarrow> ('w, process_state) io" where
  "read_self K C proc =
     bindE (osE (c_capabilities C)) (\<lambda>caps.
     bindE (osE (c_getresuid C)) (\<lambda>uids.
     bindE (osE (c_getresgid C)) (\<lambda>gids.
     bindE (osE (c_getgroups C)) (\<lambda>groups.
     bindE (thread_count K proc) (\<lambda>threads.
     bindE (read_set (c_in_bounding C)) (\<lambda>bounding.
     bindE (read_set (c_in_ambient C)) (\<lambda>ambient.
     bindE (osE (c_no_new_privs C)) (\<lambda>nnp.
     bindE (osE (c_secure_bits C)) (\<lambda>bits.
       retE \<lparr>st_uids = uids, st_gids = gids, st_groups = groups, st_threads = threads,
             st_inheritable = cs_inheritable caps, st_permitted = cs_permitted caps,
             st_effective = cs_effective caps, st_bounding = bounding, st_ambient = ambient,
             st_no_new_privs = nnp, st_secure_bits = bits\<rparr>)))))))))"

section \<open>Verifying\<close>

datatype priv_problem =
    WrongGids "u32 list" u32
  | WrongGroups "u32 list" "u32 list"
  | WrongUids "u32 list" u32
  | WrongCaps string u64 u64
  | Inheritable u64
  | Ambient u64
  | NoNewPrivsUnset
  | WrongSecureBits u32 u32
  | WrongBounding u64 u64

definition sorted_groups :: "u32 list \<Rightarrow> u32 list" where
  "sorted_groups gs = remdups_adj (sort gs)"

definition group_problems :: "privilege_plan \<Rightarrow> process_state \<Rightarrow> priv_problem list" where
  "group_problems p st =
     (case pp_groups p of
        None \<Rightarrow> []
      | Some expected \<Rightarrow>
          (if list_ex (\<lambda>g. g \<noteq> fg_gid expected) (st_gids st)
           then [WrongGids (st_gids st) (fg_gid expected)] else [])
          @ (if sorted_groups (st_groups st) \<noteq> sorted_groups (fg_groups expected)
             then [WrongGroups (st_groups st) (fg_groups expected)] else []))"

definition secure_bits_problems :: "process_state \<Rightarrow> op \<Rightarrow> priv_problem list" where
  "secure_bits_problems st x =
     (case x of
        SetSecureBits bits \<Rightarrow>
          if st_secure_bits st AND bits \<noteq> bits then [WrongSecureBits (st_secure_bits st) bits] else []
      | _ \<Rightarrow> [])"

definition is_drop_bounding :: "op \<Rightarrow> bool" where
  "is_drop_bounding x = (case x of DropBoundingExcept _ \<Rightarrow> True | _ \<Rightarrow> False)"

definition problems :: "privilege_plan \<Rightarrow> process_state \<Rightarrow> priv_problem list" where
  "problems p st =
     group_problems p st
     @ (if list_ex (\<lambda>u. u \<noteq> pp_uid p) (st_uids st) then [WrongUids (st_uids st) (pp_uid p)] else [])
     @ concat (map (\<lambda>(label, actual). if actual \<noteq> pp_caps p then [WrongCaps label actual (pp_caps p)] else [])
         [(''effective'', st_effective st), (''permitted'', st_permitted st)])
     @ (if st_inheritable st \<noteq> 0 then [Inheritable (st_inheritable st)] else [])
     @ (if st_ambient st \<noteq> 0 then [Ambient (st_ambient st)] else [])
     @ (if \<not> st_no_new_privs st then [NoNewPrivsUnset] else [])
     @ concat (map (secure_bits_problems st) (pp_ops p))
     @ (if list_ex is_drop_bounding (pp_ops p) \<and> st_bounding st AND NOT (pp_caps p) \<noteq> 0
        then [WrongBounding (st_bounding st) (pp_caps p)] else [])"

definition verify_state :: "privilege_plan \<Rightarrow> process_state \<Rightarrow> priv_problem list + unit" where
  "verify_state p st = (if problems p st = [] then Inr () else Inl (problems p st))"

section \<open>Applying\<close>

datatype op_label = ReadState | Applying op

datatype apply_error =
    MultiThreaded u32
  | Op_Failed op_label io_error
  | Verification "priv_problem list"

fun each_bit :: "(u64 \<Rightarrow> ('w, unit) sys) \<Rightarrow> nat list \<Rightarrow> ('w, unit) io" where
  "each_bit f [] = retE ()"
| "each_bit f (n # ns) = bindE (osE (f (cap_bit n))) (\<lambda>_. each_bit f ns)"

definition drop_bounding_except :: "'w creds \<Rightarrow> u64 \<Rightarrow> ('w, unit) io" where
  "drop_bounding_except C keep =
     bindE (read_set (c_in_bounding C)) (\<lambda>bits.
       let excess = bits AND NOT keep in
       each_bit (c_drop_bounding C) (filter (\<lambda>n. excess AND cap_bit n \<noteq> 0) [0..<64]))"

fun apply_op :: "'w creds \<Rightarrow> op \<Rightarrow> ('w, unit) io" where
  "apply_op C ClearAmbient = osE (c_clear_ambient C)"
| "apply_op C (SetCaps sets) = osE (c_set_caps C sets)"
| "apply_op C (DropBoundingExcept keep) = drop_bounding_except C keep"
| "apply_op C (SetSecureBits bits) =
     bindE (osE (c_secure_bits C)) (\<lambda>current. osE (c_set_secure_bits C (current OR bits)))"
| "apply_op C (SetKeepCaps enable) = osE (c_set_keep_caps C enable)"
| "apply_op C (SetGroups groups) = osE (c_set_groups C groups)"
| "apply_op C (SetResGid gid) = osE (c_set_res_gid C gid)"
| "apply_op C (SetResUid uid) = osE (c_set_res_uid C uid)"
| "apply_op C SetNoNewPrivs = osE (c_set_no_new_privs C)"

fun apply_ops :: "'w creds \<Rightarrow> op list \<Rightarrow> 'w \<Rightarrow> (apply_error + unit) \<times> 'w" where
  "apply_ops C [] = retE ()"
| "apply_ops C (x # xs) =
     bindE (mapErrE (Op_Failed (Applying x)) (apply_op C x)) (\<lambda>_. apply_ops C xs)"

definition apply_plan ::
  "('w, 'fd) kernel \<Rightarrow> 'w creds \<Rightarrow> privilege_plan \<Rightarrow> 'fd \<Rightarrow> 'w \<Rightarrow> (apply_error + process_state) \<times> 'w" where
  "apply_plan K C p proc =
     (let read_state = mapErrE (Op_Failed ReadState) (read_self K C proc) in
      bindE read_state (\<lambda>before.
        if st_threads before \<noteq> 1 then failE (MultiThreaded (st_threads before))
        else
          bindE (apply_ops C (pp_ops p)) (\<lambda>_.
          bindE read_state (\<lambda>after.
            bindE (liftE (map_err Verification (verify_state p after))) (\<lambda>_. retE after)))))"

section \<open>Describing capabilities\<close>

definition CAPABILITY_NAMES :: "string list" where
  "CAPABILITY_NAMES =
     [''chown'', ''dac_override'', ''dac_read_search'', ''fowner'', ''fsetid'', ''kill'', ''setgid'',
      ''setuid'', ''setpcap'', ''linux_immutable'', ''net_bind_service'', ''net_broadcast'',
      ''net_admin'', ''net_raw'', ''ipc_lock'', ''ipc_owner'', ''sys_module'', ''sys_rawio'',
      ''sys_chroot'', ''sys_ptrace'', ''sys_pacct'', ''sys_admin'', ''sys_boot'', ''sys_nice'',
      ''sys_resource'', ''sys_time'', ''sys_tty_config'', ''mknod'', ''lease'', ''audit_write'',
      ''audit_control'', ''setfcap'', ''mac_override'', ''mac_admin'', ''syslog'', ''wake_alarm'',
      ''block_suspend'', ''audit_read'', ''perfmon'', ''bpf'', ''checkpoint_restore'']"

definition cap_name :: "nat \<Rightarrow> string" where
  "cap_name n =
     (if n < length CAPABILITY_NAMES then ''cap_'' @ CAPABILITY_NAMES ! n else ''cap_'' @ show_nat n)"

definition describe_caps :: "u64 \<Rightarrow> string" where
  "describe_caps s =
     (if s = 0 then ''none''
      else join_with '','' (map cap_name (filter (\<lambda>n. s AND cap_bit n \<noteq> 0) [0..<64])))"

end
