(* ===== verification/Users.thy ===== *)
theory Users
  imports Privileges
begin

text \<open>
  \<open>src/src/users.rs\<close>: the service user from the password and group files.  Reading a file is
  a parameter.
\<close>

datatype resolve_error =
    User_NotFound string string
  | User_Io string io_error

abbreviation COLON :: char where "COLON \<equiv> CHR '':''"
abbreviation COMMA :: char where "COMMA \<equiv> CHR '',''"

definition parse_u32 :: "string \<Rightarrow> u32 option" where
  "parse_u32 s = map_option word_of_nat (parse_uint 32 s)"

text \<open>The closures of \<open>find_user\<close> and \<open>supplementary_groups\<close>, for one line.\<close>

definition passwd_line :: "string \<Rightarrow> string \<Rightarrow> (u32 \<times> u32) option" where
  "passwd_line user_name line =
     (case split_on COLON line of
        n # fs \<Rightarrow>
          if n \<noteq> user_name then None
          else (case fs of
                  _ # uid # gid # _ \<Rightarrow>
                    (case (parse_u32 uid, parse_u32 gid) of
                       (Some u, Some g) \<Rightarrow> Some (u, g) | _ \<Rightarrow> None)
                | _ \<Rightarrow> None)
      | [] \<Rightarrow> None)"

definition find_user :: "string \<Rightarrow> string \<Rightarrow> (u32 \<times> u32) option" where
  "find_user passwd user_name =
     (case List.map_filter (passwd_line user_name) (text_lines passwd) of
        [] \<Rightarrow> None | x # _ \<Rightarrow> Some x)"

definition group_line :: "string \<Rightarrow> string \<Rightarrow> u32 option" where
  "group_line user_name line =
     (case split_on COLON line of
        _ # _ # gid # mems # _ \<Rightarrow>
          (case parse_u32 gid of
             None \<Rightarrow> None
           | Some g \<Rightarrow> if list_ex (\<lambda>m. m = user_name) (split_on COMMA mems) then Some g else None)
      | _ \<Rightarrow> None)"

definition supplementary_groups :: "string \<Rightarrow> string \<Rightarrow> u32 list" where
  "supplementary_groups groups user_name =
     remdups_adj (sort (List.map_filter (group_line user_name) (text_lines groups)))"

definition resolve_from ::
  "(string \<Rightarrow> ('w, string) io) \<Rightarrow> string \<Rightarrow> string \<Rightarrow> string \<Rightarrow> 'w \<Rightarrow> (resolve_error + service_user) \<times> 'w" where
  "resolve_from read_file user_name passwd groups =
     (let read = (\<lambda>path. mapErrE (User_Io path) (read_file path)) in
      bindE (read passwd) (\<lambda>passwd_text.
        case find_user passwd_text user_name of
          None \<Rightarrow> failE (User_NotFound user_name passwd)
        | Some (uid, gid) \<Rightarrow>
            bindE (read groups) (\<lambda>group_text.
              retE \<lparr>su_name = user_name, su_uid = uid, su_gid = gid,
                    su_groups = filter (\<lambda>g. g \<noteq> gid) (supplementary_groups group_text user_name)\<rparr>)))"

definition resolve_user ::
  "(string \<Rightarrow> ('w, string) io) \<Rightarrow> string \<Rightarrow> 'w \<Rightarrow> (resolve_error + service_user) \<times> 'w" where
  "resolve_user read_file user_name = resolve_from read_file user_name ''/etc/passwd'' ''/etc/group''"

section \<open>The files as administrators write them\<close>

record passwd_entry =
  pe_name :: string
  pe_password :: string
  pe_uid :: u32
  pe_gid :: u32
  pe_rest :: "string list"

record group_entry =
  ge_name :: string
  ge_password :: string
  ge_gid :: u32
  ge_members :: "string list"

definition show_u32 :: "u32 \<Rightarrow> string" where
  "show_u32 x = show_nat (unat x)"

definition passwd_fields :: "passwd_entry \<Rightarrow> string list" where
  "passwd_fields e = [pe_name e, pe_password e, show_u32 (pe_uid e), show_u32 (pe_gid e)] @ pe_rest e"

definition group_fields :: "group_entry \<Rightarrow> string list" where
  "group_fields e = [ge_name e, ge_password e, show_u32 (ge_gid e), join_with [COMMA] (ge_members e)]"

definition file_of :: "string list list \<Rightarrow> string" where
  "file_of rows = concat (map (\<lambda>fs. join_with [COLON] fs @ [NEWLINE]) rows)"

definition field_ok :: "string \<Rightarrow> bool" where
  "field_ok f = (COLON \<notin> set f \<and> NEWLINE \<notin> set f \<and> CR \<notin> set f)"

definition passwd_ok :: "passwd_entry \<Rightarrow> bool" where
  "passwd_ok e = (field_ok (pe_name e) \<and> field_ok (pe_password e) \<and> (\<forall>f\<in>set (pe_rest e). field_ok f))"

definition group_ok :: "group_entry \<Rightarrow> bool" where
  "group_ok e = (field_ok (ge_name e) \<and> field_ok (ge_password e)
     \<and> (\<forall>m\<in>set (ge_members e). field_ok m \<and> COMMA \<notin> set m))"

lemma parse_show_u32: "parse_u32 (show_u32 x) = Some x"
proof -
  have "unat x < 2 ^ 32" using unsigned_less[of x] by simp
  then show ?thesis by (simp add: parse_u32_def show_u32_def parse_show_nat)
qed

lemma sorted_strict_remdups:
  fixes xs :: "'a :: linorder list"
  shows "sorted xs \<Longrightarrow> sorted_wrt (<) (remdups_adj xs)"
  by (induction xs rule: remdups_adj.induct) (auto simp: order_less_le)

lemma field_ok_show: "field_ok (show_u32 x)"
proof -
  have "\<not> is_ascii_digit COLON" "\<not> is_ascii_digit NEWLINE" "\<not> is_ascii_digit CR"
    by (simp_all add: is_ascii_digit_def byte_def)
  then show ?thesis unfolding field_ok_def show_u32_def using show_nat_digits by blast
qed

lemma text_lines_file:
  assumes "\<forall>fs\<in>set rows. fs \<noteq> [] \<and> (\<forall>f\<in>set fs. field_ok f)"
  shows "text_lines (file_of rows) = map (join_with [COLON]) rows"
proof -
  have "\<forall>l\<in>set (map (join_with [COLON]) rows). NEWLINE \<notin> set l \<and> CR \<notin> set l"
    using assms set_join_with[of "[COLON]"] unfolding field_ok_def by fastforce
  from text_lines_terminated[OF this] show ?thesis by (simp add: file_of_def comp_def)
qed

lemma split_fields:
  "fs \<noteq> [] \<Longrightarrow> \<forall>f\<in>set fs. field_ok f \<Longrightarrow> split_on COLON (join_with [COLON] fs) = fs"
  by (rule split_join) (auto simp: field_ok_def)

lemma passwd_fields_ok: "passwd_ok e \<Longrightarrow> \<forall>f\<in>set (passwd_fields e). field_ok f"
  by (auto simp: passwd_ok_def passwd_fields_def field_ok_show)

lemma passwd_line_entry:
  "passwd_ok e \<Longrightarrow> passwd_line n (join_with [COLON] (passwd_fields e))
     = (if pe_name e = n then Some (pe_uid e, pe_gid e) else None)"
  using split_fields[OF _ passwd_fields_ok, of e]
  by (simp add: passwd_line_def passwd_fields_def parse_show_u32)

lemma find_user_file:
  assumes "\<forall>e\<in>set es. passwd_ok e"
  shows "find_user (file_of (map passwd_fields es)) n
    = map_of (map (\<lambda>e. (pe_name e, (pe_uid e, pe_gid e))) es) n"
proof -
  have ne: "passwd_fields e \<noteq> []" for e by (simp add: passwd_fields_def)
  have lines: "text_lines (file_of (map passwd_fields es)) = map (\<lambda>e. join_with [COLON] (passwd_fields e)) es"
    by (subst text_lines_file) (use passwd_fields_ok assms ne in \<open>auto simp: comp_def\<close>)
  have "(case List.map_filter (passwd_line n) (map (\<lambda>e. join_with [COLON] (passwd_fields e)) es) of
      [] \<Rightarrow> None | x # _ \<Rightarrow> Some x) = map_of (map (\<lambda>e. (pe_name e, (pe_uid e, pe_gid e))) es) n"
    using assms
  proof (induction es)
    case (Cons e es)
    then show ?case using passwd_line_entry[of e n] by (simp add: map_filter_simps)
  qed (simp add: map_filter_simps)
  then show ?thesis unfolding find_user_def lines .
qed

lemma group_fields_ok: "group_ok e \<Longrightarrow> \<forall>f\<in>set (group_fields e). field_ok f"
  using set_join_with[of "[COMMA]" "ge_members e"]
  by (auto simp: group_ok_def group_fields_def field_ok_show) (fastforce simp: field_ok_def)

lemma group_line_entry:
  assumes "group_ok e" "n \<noteq> []"
  shows "group_line n (join_with [COLON] (group_fields e))
    = (if n \<in> set (ge_members e) then Some (ge_gid e) else None)"
proof -
  have s: "split_on COLON (join_with [COLON] (group_fields e)) = group_fields e"
    using split_fields[OF _ group_fields_ok[OF assms(1)]] by (simp add: group_fields_def)
  have "n \<in> set (split_on COMMA (join_with [COMMA] (ge_members e))) \<longleftrightarrow> n \<in> set (ge_members e)"
  proof (cases "ge_members e = []")
    case True
    then show ?thesis using assms(2) by simp
  next
    case False
    then show ?thesis using split_join[OF False] assms(1) by (auto simp: group_ok_def)
  qed
  then show ?thesis
    by (simp add: group_line_def s) (simp add: group_fields_def parse_show_u32 list_ex_iff)
qed

lemma supplementary_groups_file:
  assumes "\<forall>e\<in>set gs. group_ok e" "n \<noteq> []"
  shows "supplementary_groups (file_of (map group_fields gs)) n
    = sorted_list_of_set (ge_gid ` {e \<in> set gs. n \<in> set (ge_members e)})"
proof -
  have ne: "group_fields e \<noteq> []" for e by (simp add: group_fields_def)
  have lines: "text_lines (file_of (map group_fields gs)) = map (\<lambda>e. join_with [COLON] (group_fields e)) gs"
    by (subst text_lines_file) (use group_fields_ok assms(1) ne in \<open>auto simp: comp_def\<close>)
  have "List.map_filter (group_line n) (map (\<lambda>e. join_with [COLON] (group_fields e)) gs)
      = map ge_gid (filter (\<lambda>e. n \<in> set (ge_members e)) gs)"
    using assms(1)
  proof (induction gs)
    case (Cons e gs)
    then show ?case using group_line_entry[OF _ assms(2), of e] by (simp add: map_filter_simps)
  qed (simp add: map_filter_simps)
  then have "supplementary_groups (file_of (map group_fields gs)) n
      = remdups_adj (sort (map ge_gid (filter (\<lambda>e. n \<in> set (ge_members e)) gs)))"
    unfolding supplementary_groups_def lines by simp
  moreover have "sorted_wrt (<) (remdups_adj (sort (map ge_gid (filter (\<lambda>e. n \<in> set (ge_members e)) gs))))"
    by (rule sorted_strict_remdups) simp
  then have "remdups_adj (sort (map ge_gid (filter (\<lambda>e. n \<in> set (ge_members e)) gs)))
      = sorted_list_of_set (set (map ge_gid (filter (\<lambda>e. n \<in> set (ge_members e)) gs)))"
    by (intro sorted_distinct_set_unique) (simp_all add: strict_sorted_iff)
  ultimately show ?thesis by simp
qed

section \<open>The theorem\<close>


definition example_passwd :: "passwd_entry list" where
  "example_passwd =
     [\<lparr>pe_name = ''root'', pe_password = ''x'', pe_uid = 0, pe_gid = 0, pe_rest = [''root'', ''/root'']\<rparr>,
      \<lparr>pe_name = ''byssus'', pe_password = ''x'', pe_uid = 991, pe_gid = 992, pe_rest = []\<rparr>]"

definition example_groups :: "group_entry list" where
  "example_groups = [\<lparr>ge_name = ''acl'', ge_password = ''x'', ge_gid = 500, ge_members = [''alice'', ''byssus'']\<rparr>]"

definition example_read :: "string \<Rightarrow> (unit, string) io" where
  "example_read p w =
     (Inr (if p = ''/etc/passwd'' then file_of (map passwd_fields example_passwd)
           else file_of (map group_fields example_groups)), w)"


end
