(* ===== verification/Privileges_Props.thy ===== *)
theory Privileges_Props
  imports Privileges
begin

text \<open>
  What a planned normalization does: on a kernel whose credential calls behave as
  \<open>capabilities(7)\<close> and the \<open>prctl\<close> pages document, applying the plan made from the current
  credentials succeeds and reaches the planned state.
\<close>

section \<open>Planning\<close>

lemma has_caps_iff: "has_caps s c \<longleftrightarrow> (\<forall>n. bit c n \<longrightarrow> bit s n)"
proof
  show "has_caps s c \<Longrightarrow> \<forall>n. bit c n \<longrightarrow> bit s n" unfolding has_caps_def by (metis bit_and_iff)
  show "\<forall>n. bit c n \<longrightarrow> bit s n \<Longrightarrow> has_caps s c"
    unfolding has_caps_def by (rule bit_eqI) (auto simp: bit_and_iff)
qed

lemma has_caps_simps [simp]:
  "has_caps s s" "has_caps s 0" "has_caps (s OR t) s" "has_caps (t OR s) s"
  "has_caps s (c OR d) \<longleftrightarrow> has_caps s c \<and> has_caps s d"
  by (auto simp: has_caps_iff bit_or_iff)

lemma has_caps_or: "has_caps s c \<Longrightarrow> has_caps (s OR t) c"
  by (auto simp: has_caps_iff bit_or_iff)

lemma has_caps_trans: "has_caps a b \<Longrightarrow> has_caps b c \<Longrightarrow> has_caps a c"
  by (auto simp: has_caps_iff)

lemma plan_privileges_Inr:
  assumes "plan_privileges current rq = Inr p"
  shows "\<exists>switch_to warnings. choose_user current rq = Inr (switch_to, warnings)
     \<and> check_switch (cs_permitted (cr_caps current)) switch_to = Inr ()
     \<and> (rq_goal rq = KeepSysAdmin \<longrightarrow> has_caps (cs_permitted (cr_caps current)) CAP_SYS_ADMIN)
     \<and> p = \<lparr>pp_ops = plan_ops current (keep_of (rq_goal rq)) switch_to, pp_warnings = warnings,
            pp_uid = (case switch_to of Some u \<Rightarrow> su_uid u | None \<Rightarrow> cr_uids current ! 1),
            pp_caps = keep_of (rq_goal rq), pp_groups = map_option final_groups switch_to\<rparr>"
  using assms unfolding plan_privileges_def Let_def
  by (auto simp: and_then_Inr_iff split: if_splits prod.splits)

lemma credentials_of_simps [simp]:
  "cr_uids (credentials_of st) = st_uids st" "cs_permitted (cr_caps (credentials_of st)) = st_permitted st"
  by (simp_all add: credentials_of_def)

text \<open>Who the process ends up as: the service user if it was root in any way, itself
  otherwise.\<close>

lemma choose_user_cases:
  assumes "choose_user current rq = Inr (switch_to, warnings)"
  shows "if any_uid_is_root current then switch_to = rq_user rq
            \<and> (\<forall>u. switch_to = Some u \<longrightarrow> su_uid u \<noteq> 0)
            \<and> (switch_to = None \<longrightarrow> rq_goal rq = DropAll \<or> rq_allow_root rq)
         else switch_to = None"
  using assms unfolding choose_user_def
  by (cases "rq_goal rq"; cases "rq_user rq") (auto split: if_splits bool.splits dest: sym)

section \<open>The kernel's behaviour\<close>

definition SECBIT_NO_SETUID_FIXUP :: u32 where "SECBIT_NO_SETUID_FIXUP = 0x4"
definition SECBIT_KEEP_CAPS :: u32 where "SECBIT_KEEP_CAPS = 0x10"
definition SECBIT_KEEP_CAPS_LOCKED :: u32 where "SECBIT_KEEP_CAPS_LOCKED = 0x20"

text \<open>
  The effect of each operation on the credentials, and when it is permitted.  Every odd
  securebit locks the bit before it; after a change of all user IDs away from root without
  \<open>NO_SETUID_FIXUP\<close>, the effective set is cleared, and the permitted set too unless
  \<open>KEEP_CAPS\<close> is set.
\<close>

fun op_effect :: "op \<Rightarrow> process_state \<Rightarrow> process_state" where
  "op_effect ClearAmbient st = st\<lparr>st_ambient := 0\<rparr>"
| "op_effect (SetCaps s) st =
     st\<lparr>st_effective := cs_effective s, st_permitted := cs_permitted s,
        st_inheritable := cs_inheritable s, st_ambient := 0\<rparr>"
| "op_effect (DropBoundingExcept keep) st = st\<lparr>st_bounding := st_bounding st AND keep\<rparr>"
| "op_effect (SetSecureBits b) st = st\<lparr>st_secure_bits := st_secure_bits st OR b\<rparr>"
| "op_effect (SetKeepCaps on) st =
     st\<lparr>st_secure_bits := (if on then st_secure_bits st OR SECBIT_KEEP_CAPS
                           else st_secure_bits st AND NOT SECBIT_KEEP_CAPS)\<rparr>"
| "op_effect (SetGroups gs) st = st\<lparr>st_groups := sort gs\<rparr>"
| "op_effect (SetResGid g) st = st\<lparr>st_gids := [g, g, g]\<rparr>"
| "op_effect (SetResUid u) st =
     (if st_secure_bits st AND SECBIT_NO_SETUID_FIXUP = 0 \<and> 0 \<in> set (st_uids st)
      then st\<lparr>st_uids := [u, u, u], st_effective := 0, st_ambient := 0,
              st_permitted := (if st_secure_bits st AND SECBIT_KEEP_CAPS = 0 then 0 else st_permitted st)\<rparr>
      else st\<lparr>st_uids := [u, u, u]\<rparr>)"
| "op_effect SetNoNewPrivs st = st\<lparr>st_no_new_privs := True\<rparr>"

definition unlocked :: "u32 \<Rightarrow> u32 \<Rightarrow> bool" where
  "unlocked bits b = (drop_bit 1 (bits AND 0xAA) AND (b AND NOT bits) = 0)"

fun op_permitted :: "op \<Rightarrow> process_state \<Rightarrow> bool" where
  "op_permitted ClearAmbient st = True"
| "op_permitted (SetCaps s) st =
     (has_caps (st_permitted st) (cs_permitted s) \<and> has_caps (cs_permitted s) (cs_effective s)
      \<and> cs_inheritable s = 0)"
| "op_permitted (DropBoundingExcept keep) st = has_caps (st_effective st) CAP_SETPCAP"
| "op_permitted (SetSecureBits b) st =
     (has_caps (st_effective st) CAP_SETPCAP \<and> unlocked (st_secure_bits st) b \<and> b AND NOT 0xFF = 0)"
| "op_permitted (SetKeepCaps on) st = (st_secure_bits st AND SECBIT_KEEP_CAPS_LOCKED = 0)"
| "op_permitted (SetGroups gs) st = has_caps (st_effective st) CAP_SETGID"
| "op_permitted (SetResGid g) st = has_caps (st_effective st) CAP_SETGID"
| "op_permitted (SetResUid u) st = (has_caps (st_effective st) CAP_SETUID \<and> u \<noteq> 0)"
| "op_permitted SetNoNewPrivs st = True"

fun ops_permitted :: "op list \<Rightarrow> process_state \<Rightarrow> bool" where
  "ops_permitted [] st = True"
| "ops_permitted (x # xs) st = (op_permitted x st \<and> ops_permitted xs (op_effect x st))"

lemma ops_permitted_append [simp]:
  "ops_permitted (xs @ ys) st = (ops_permitted xs st \<and> ops_permitted ys (fold op_effect xs st))"
  by (induction xs arbitrary: st) simp_all

section \<open>The planned operations on the credentials\<close>

definition state_ok :: "process_state \<Rightarrow> bool" where
  "state_ok st = (length (st_uids st) = 3 \<and> has_caps (st_permitted st) (st_effective st))"

text \<open>Nothing the plan changes is locked.\<close>

definition securebits_ok :: "process_state \<Rightarrow> bool" where
  "securebits_ok st =
     (if has_caps (st_permitted st) CAP_SETPCAP
      then unlocked (st_secure_bits st) LOCKED_SECURE_BITS
      else st_secure_bits st AND SECBIT_KEEP_CAPS_LOCKED = 0)"

definition raise_ops :: "process_state \<Rightarrow> u64 \<Rightarrow> op list" where
  "raise_ops st needed =
     (if has_caps (st_effective st) needed then []
      else [SetCaps \<lparr>cs_effective = st_effective st OR needed, cs_permitted = st_permitted st,
                     cs_inheritable = 0\<rparr>])"

definition bound_ops :: "process_state \<Rightarrow> u64 \<Rightarrow> op list" where
  "bound_ops st keep =
     (if has_caps (st_permitted st) CAP_SETPCAP
      then [DropBoundingExcept keep, SetSecureBits LOCKED_SECURE_BITS] else [])"

lemma plan_ops_eq:
  "plan_ops (credentials_of st) keep switch_to =
     ClearAmbient # raise_ops st (needed_caps (has_caps (st_permitted st) CAP_SETPCAP) switch_to)
     @ bound_ops st keep
     @ (case switch_to of Some u \<Rightarrow> switch_ops (has_caps (st_permitted st) CAP_SETPCAP) u | None \<Rightarrow> [])
     @ [SetCaps \<lparr>cs_effective = keep, cs_permitted = keep, cs_inheritable = 0\<rparr>, SetNoNewPrivs]"
  unfolding plan_ops_def raise_ops_def bound_ops_def credentials_of_def Let_def
  by (cases switch_to) simp_all

lemma raised:
  assumes "has_caps (st_permitted st) (st_effective st)" "has_caps (st_permitted st) needed"
  defines "st' \<equiv> fold op_effect (raise_ops st needed) (st\<lparr>st_ambient := 0\<rparr>)"
  shows "ops_permitted (raise_ops st needed) (st\<lparr>st_ambient := 0\<rparr>)"
    and "has_caps (st_effective st') needed"
    and "\<exists>eff inh. st' = st\<lparr>st_effective := eff, st_inheritable := inh, st_ambient := 0\<rparr>"
proof -
  show "ops_permitted (raise_ops st needed) (st\<lparr>st_ambient := 0\<rparr>)"
    using assms(1,2) by (simp add: raise_ops_def)
  show "has_caps (st_effective st') needed"
    unfolding st'_def by (simp add: raise_ops_def)
  show "\<exists>eff inh. st' = st\<lparr>st_effective := eff, st_inheritable := inh, st_ambient := 0\<rparr>"
  proof (cases "has_caps (st_effective st) needed")
    case True
    then have "st' = st\<lparr>st_effective := st_effective st, st_inheritable := st_inheritable st, st_ambient := 0\<rparr>"
      unfolding st'_def raise_ops_def by simp
    then show ?thesis by blast
  next
    case False
    then show ?thesis unfolding st'_def raise_ops_def by auto
  qed
qed

text \<open>The planned final state.\<close>

definition reached :: "u64 \<Rightarrow> service_user option \<Rightarrow> process_state \<Rightarrow> process_state \<Rightarrow> bool" where
  "reached keep switch_to st st' =
     (st_effective st' = keep \<and> st_permitted st' = keep \<and> st_inheritable st' = 0 \<and> st_ambient st' = 0
      \<and> st_no_new_privs st' \<and> st_threads st' = st_threads st
      \<and> (if has_caps (st_permitted st) CAP_SETPCAP
         then st_bounding st' = st_bounding st AND keep
              \<and> st_secure_bits st' = st_secure_bits st OR LOCKED_SECURE_BITS
         else st_bounding st' = st_bounding st)
      \<and> (case switch_to of
           Some u \<Rightarrow> st_uids st' = [su_uid u, su_uid u, su_uid u] \<and> st_gids st' = [su_gid u, su_gid u, su_gid u]
             \<and> st_groups st' = sort (fg_groups (final_groups u))
         | None \<Rightarrow> st_uids st' = st_uids st \<and> st_gids st' = st_gids st \<and> st_groups st' = st_groups st))"

lemma locked_no_fixup: "(b OR LOCKED_SECURE_BITS) AND SECBIT_NO_SETUID_FIXUP \<noteq> 0"
proof -
  have "bit ((b OR LOCKED_SECURE_BITS) AND SECBIT_NO_SETUID_FIXUP) 2"
    by (simp add: LOCKED_SECURE_BITS_def SECBIT_NO_SETUID_FIXUP_def bit_simps)
  then show ?thesis by auto
qed

lemma keep_caps_bits [simp]: "SECBIT_KEEP_CAPS \<noteq> 0"
  by (simp add: SECBIT_KEEP_CAPS_def)

lemma keep_caps_unlocked:
  "b AND SECBIT_KEEP_CAPS_LOCKED = 0 \<Longrightarrow> (b OR SECBIT_KEEP_CAPS) AND SECBIT_KEEP_CAPS_LOCKED = 0"
  by (simp add: SECBIT_KEEP_CAPS_def SECBIT_KEEP_CAPS_LOCKED_def bit.conj_disj_distrib2)

lemma plan_ops_reach:
  assumes ok: "has_caps (st_permitted st) (st_effective st)" "securebits_ok st" "has_caps (st_permitted st) keep"
    and sw: "check_switch (st_permitted st) switch_to = Inr ()"
      "\<And>u. switch_to = Some u \<Longrightarrow> su_uid u \<noteq> 0 \<and> 0 \<in> set (st_uids st)"
  shows "ops_permitted (plan_ops (credentials_of st) keep switch_to) st
    \<and> reached keep switch_to st (fold op_effect (plan_ops (credentials_of st) keep switch_to) st)"
proof -
  let ?pcap = "has_caps (st_permitted st) CAP_SETPCAP"
  let ?needed = "needed_caps ?pcap switch_to"
  let ?raised = "fold op_effect (raise_ops st ?needed) (st\<lparr>st_ambient := 0\<rparr>)"
  have caps: "has_caps (st_permitted st) CAP_SETUID" "has_caps (st_permitted st) CAP_SETGID"
    if "switch_to = Some u" for u
    using sw(1) that unfolding check_switch_def by (auto split: if_splits)
  have needed: "has_caps (st_permitted st) ?needed"
    unfolding needed_caps_def Let_def using caps by (cases switch_to) auto
  note r = raised[OF ok(1) needed]
  obtain eff inh where st1: "?raised = st\<lparr>st_effective := eff, st_inheritable := inh, st_ambient := 0\<rparr>"
    using r(3) by blast
  have eff: "has_caps eff ?needed" using r(2) unfolding st1 by simp
  have setp: "?pcap \<Longrightarrow> has_caps eff CAP_SETPCAP"
    using eff unfolding needed_caps_def Let_def by (simp split: if_splits)
  have setid: "has_caps eff CAP_SETUID" "has_caps eff CAP_SETGID" if "switch_to = Some u" for u
    using eff that unfolding needed_caps_def Let_def by (simp_all split: if_splits)
  have locked: "LOCKED_SECURE_BITS AND NOT 0xFF = 0" by (simp add: LOCKED_SECURE_BITS_def)
  show ?thesis
  proof (cases ?pcap)
    case True
    then have free: "unlocked (st_secure_bits st) LOCKED_SECURE_BITS" using ok(2) by (simp add: securebits_ok_def)
    show ?thesis
    proof (cases switch_to)
      case None
      show ?thesis
        using True None r(1) ok(3) free setp locked st1
        by (simp add: plan_ops_eq reached_def bound_ops_def)
    next
      case (Some u)
      show ?thesis
        using True Some r(1) ok(3) free setp setid[OF Some] sw(2)[OF Some] locked st1
        by (simp add: plan_ops_eq reached_def bound_ops_def switch_ops_def locked_no_fixup final_groups_def)
    qed
  next
    case False
    then have free: "st_secure_bits st AND SECBIT_KEEP_CAPS_LOCKED = 0" using ok(2) by (simp add: securebits_ok_def)
    show ?thesis
    proof (cases switch_to)
      case None
      show ?thesis
        using False None r(1) ok(3) st1 by (simp add: plan_ops_eq reached_def bound_ops_def)
    next
      case (Some u)
      show ?thesis
        using False Some r(1) ok(3) free setid[OF Some] sw(2)[OF Some] st1
        by (simp add: plan_ops_eq reached_def bound_ops_def switch_ops_def keep_caps_unlocked final_groups_def)
    qed
  qed
qed

section \<open>Reading and changing sets, bit by bit\<close>

lemma and_cap_bit: "s AND cap_bit n \<noteq> 0 \<longleftrightarrow> bit s n"
  by (simp add: cap_bit_def bit_iff_and_push_bit_not_eq_0)

lemma bit_cap_bit: "bit (cap_bit n) m \<longleftrightarrow> n = m \<and> m < 64"
  by (auto simp: cap_bit_def bit_simps)

lemma take_bit_step: "take_bit (Suc n) s = (if bit s n then take_bit n s OR cap_bit n else take_bit n (s :: u64))"
  by (rule bit_eqI) (auto simp: bit_simps bit_cap_bit less_Suc_eq)

definition known_caps :: "nat \<Rightarrow> u64 \<Rightarrow> bool" where
  "known_caps last_cap s = (\<forall>n. bit s n \<longrightarrow> n \<le> last_cap)"

lemma read_set_from_value:
  assumes "\<forall>n<64. is_set (cap_bit n) w = (if n \<le> last_cap then Inr (s AND cap_bit n \<noteq> 0) else Inl (Errno 22), w)"
    and "known_caps last_cap s" "m \<le> 64"
  shows "read_set_from is_set [m..<64] (take_bit m s) w = (Inr s, w)"
  using assms(3)
proof (induction "64 - m" arbitrary: m)
  case 0
  have "take_bit 64 s = s" by (rule bit_eqI) (simp add: bit_simps)
  then show ?case using 0 by simp
next
  case (Suc k)
  then have m: "m < 64" by simp
  then have l: "[m..<64] = m # [Suc m..<64]" by (rule upt_conv_Cons)
  have IH: "read_set_from is_set [Suc m..<64] (take_bit (Suc m) s) w = (Inr s, w)"
    using Suc by simp
  have call: "is_set (cap_bit m) w = (if m \<le> last_cap then Inr (bit s m) else Inl (Errno 22), w)"
    using assms(1) m by (simp add: and_cap_bit)
  show ?case
  proof (cases "m \<le> last_cap")
    case True
    show ?thesis using IH call True unfolding l take_bit_step by (cases "bit s m") simp_all
  next
    case False
    have "take_bit m s = s"
      using assms(2) False unfolding known_caps_def by (intro bit_eqI) (auto simp: bit_simps)
    then show ?thesis using call False unfolding l by simp
  qed
qed

lemma read_set_value:
  assumes "\<forall>n<64. is_set (cap_bit n) w = (if n \<le> last_cap then Inr (s AND cap_bit n \<noteq> 0) else Inl (Errno 22), w)"
    and "known_caps last_cap s"
  shows "read_set is_set w = (Inr s, w)"
  using read_set_from_value[where is_set = is_set and w = w and s = s and m = 0, OF assms]
  by (simp add: read_set_def)

section \<open>The credential calls\<close>

definition performs :: "('w \<Rightarrow> process_state) \<Rightarrow> op \<Rightarrow> ('w, unit) sys \<Rightarrow> bool" where
  "performs V x call =
     (\<forall>w. op_permitted x (V w) \<longrightarrow> (\<exists>w'. call w = (Inr (), w') \<and> V w' = op_effect x (V w)))"

text \<open>The reading calls report the credentials; a capability above the last is EINVAL.\<close>

definition reads_creds :: "'w creds \<Rightarrow> ('w \<Rightarrow> process_state) \<Rightarrow> nat \<Rightarrow> bool" where
  "reads_creds C V last_cap =
     (\<forall>w. c_capabilities C w = (Inr \<lparr>cs_effective = st_effective (V w), cs_permitted = st_permitted (V w),
                                     cs_inheritable = st_inheritable (V w)\<rparr>, w)
        \<and> c_getresuid C w = (Inr (st_uids (V w)), w)
        \<and> c_getresgid C w = (Inr (st_gids (V w)), w)
        \<and> c_getgroups C w = (Inr (st_groups (V w)), w)
        \<and> c_no_new_privs C w = (Inr (st_no_new_privs (V w)), w)
        \<and> c_secure_bits C w = (Inr (st_secure_bits (V w)), w)
        \<and> known_caps last_cap (st_bounding (V w)) \<and> known_caps last_cap (st_ambient (V w))
        \<and> (\<forall>n<64. c_in_bounding C (cap_bit n) w =
             (if n \<le> last_cap then Inr (st_bounding (V w) AND cap_bit n \<noteq> 0) else Inl (Errno 22), w))
        \<and> (\<forall>n<64. c_in_ambient C (cap_bit n) w =
             (if n \<le> last_cap then Inr (st_ambient (V w) AND cap_bit n \<noteq> 0) else Inl (Errno 22), w)))"

definition changes_bounding :: "'w creds \<Rightarrow> ('w \<Rightarrow> process_state) \<Rightarrow> nat \<Rightarrow> bool" where
  "changes_bounding C V last_cap =
     (\<forall>w n. has_caps (st_effective (V w)) CAP_SETPCAP \<and> n \<le> last_cap \<longrightarrow>
        (\<exists>w'. c_drop_bounding C (cap_bit n) w = (Inr (), w')
            \<and> V w' = (V w)\<lparr>st_bounding := st_bounding (V w) AND NOT (cap_bit n)\<rparr>))"

definition changes_secure_bits :: "'w creds \<Rightarrow> ('w \<Rightarrow> process_state) \<Rightarrow> bool" where
  "changes_secure_bits C V =
     (\<forall>w b. has_caps (st_effective (V w)) CAP_SETPCAP \<and> unlocked (st_secure_bits (V w)) b \<and> b AND NOT 0xFF = 0
        \<longrightarrow> (\<exists>w'. c_set_secure_bits C (st_secure_bits (V w) OR b) w = (Inr (), w')
            \<and> V w' = (V w)\<lparr>st_secure_bits := st_secure_bits (V w) OR b\<rparr>))"

definition linux_creds :: "'w creds \<Rightarrow> ('w \<Rightarrow> process_state) \<Rightarrow> nat \<Rightarrow> bool" where
  "linux_creds C V last_cap =
     (reads_creds C V last_cap \<and> changes_bounding C V last_cap \<and> changes_secure_bits C V
      \<and> performs V ClearAmbient (c_clear_ambient C)
      \<and> (\<forall>s. performs V (SetCaps s) (c_set_caps C s))
      \<and> (\<forall>b. performs V (SetKeepCaps b) (c_set_keep_caps C b))
      \<and> (\<forall>gs. performs V (SetGroups gs) (c_set_groups C gs))
      \<and> (\<forall>g. performs V (SetResGid g) (c_set_res_gid C g))
      \<and> (\<forall>u. performs V (SetResUid u) (c_set_res_uid C u))
      \<and> performs V SetNoNewPrivs (c_set_no_new_privs C))"

lemma each_bit_drops:
  assumes "changes_bounding C V last_cap" "has_caps (st_effective (V w)) CAP_SETPCAP" "\<forall>n\<in>set ns. n \<le> last_cap"
  shows "\<exists>w'. each_bit (c_drop_bounding C) ns w = (Inr (), w')
     \<and> V w' = (V w)\<lparr>st_bounding := fold (\<lambda>n b. b AND NOT (cap_bit n)) ns (st_bounding (V w))\<rparr>"
  using assms(2,3)
proof (induction ns arbitrary: w)
  case (Cons n ns)
  from Cons.prems assms(1) obtain w1 where c: "c_drop_bounding C (cap_bit n) w = (Inr (), w1)"
    and v: "V w1 = (V w)\<lparr>st_bounding := st_bounding (V w) AND NOT (cap_bit n)\<rparr>"
    unfolding changes_bounding_def by force
  from Cons.IH[of w1] Cons.prems v obtain w2 where "each_bit (c_drop_bounding C) ns w1 = (Inr (), w2)"
    "V w2 = (V w1)\<lparr>st_bounding := fold (\<lambda>n b. b AND NOT (cap_bit n)) ns (st_bounding (V w1))\<rparr>"
    by auto
  then show ?case using c v by (auto simp: bindE_def osE_def mapErrE_def)
qed simp

lemma bit_fold_drop: "m < 64 \<Longrightarrow> bit (fold (\<lambda>n b. b AND NOT (cap_bit n)) ns b) m \<longleftrightarrow> bit (b :: u64) m \<and> m \<notin> set ns"
  by (induction ns arbitrary: b) (auto simp: bit_simps bit_cap_bit)

lemma drop_bounding_works:
  assumes "reads_creds C V last_cap" "changes_bounding C V last_cap" "has_caps (st_effective (V w)) CAP_SETPCAP"
  shows "\<exists>w'. drop_bounding_except C keep w = (Inr (), w') \<and> V w' = op_effect (DropBoundingExcept keep) (V w)"
proof -
  let ?b = "st_bounding (V w)"
  let ?ns = "filter (\<lambda>n. (?b AND NOT keep) AND cap_bit n \<noteq> 0) [0..<64]"
  have known: "known_caps last_cap ?b" using assms(1) unfolding reads_creds_def by blast
  have r: "read_set (c_in_bounding C) w = (Inr ?b, w)"
    by (rule read_set_value[OF _ known]) (use assms(1) in \<open>auto simp: reads_creds_def\<close>)
  have "\<forall>n\<in>set ?ns. n \<le> last_cap"
    using known unfolding and_cap_bit known_caps_def by (auto simp: bit_and_iff)
  from each_bit_drops[OF assms(2,3) this] obtain w' where
    "each_bit (c_drop_bounding C) ?ns w = (Inr (), w')"
    and v: "V w' = (V w)\<lparr>st_bounding := fold (\<lambda>n b. b AND NOT (cap_bit n)) ?ns ?b\<rparr>" by blast
  moreover have "fold (\<lambda>n b. b AND NOT (cap_bit n)) ?ns ?b = ?b AND keep"
  proof (rule bit_eqI)
    fix m :: nat
    assume "possible_bit TYPE(64 word) m"
    then have "m < 64" by simp
    then show "bit (fold (\<lambda>n b. b AND NOT (cap_bit n)) ?ns ?b) m = bit (?b AND keep) m"
      unfolding and_cap_bit by (auto simp: bit_fold_drop bit_simps)
  qed
  ultimately show ?thesis using r by (auto simp: drop_bounding_except_def bindE_def Let_def)
qed

lemma performs_works:
  assumes "performs V x call" "op_permitted x (V w)"
  shows "\<exists>w'. osE call w = (Inr (), w') \<and> V w' = op_effect x (V w)"
  using assms unfolding performs_def by (metis osE_Inr_iff)

lemma apply_op_works:
  assumes "linux_creds C V last_cap" "op_permitted x (V w)"
  shows "\<exists>w'. apply_op C x w = (Inr (), w') \<and> V w' = op_effect x (V w)"
proof (cases x)
  case (DropBoundingExcept keep)
  then show ?thesis using drop_bounding_works[of C V last_cap w keep] assms by (simp add: linux_creds_def)
next
  case (SetSecureBits b)
  then have "has_caps (st_effective (V w)) CAP_SETPCAP" "unlocked (st_secure_bits (V w)) b" "b AND NOT 0xFF = 0"
    using assms(2) by simp_all
  moreover have "changes_secure_bits C V" using assms(1) unfolding linux_creds_def by blast
  ultimately obtain w' where "c_set_secure_bits C (st_secure_bits (V w) OR b) w = (Inr (), w')"
    "V w' = (V w)\<lparr>st_secure_bits := st_secure_bits (V w) OR b\<rparr>"
    unfolding changes_secure_bits_def by blast
  moreover have "c_secure_bits C w = (Inr (st_secure_bits (V w)), w)"
    using assms(1) unfolding linux_creds_def reads_creds_def by blast
  ultimately show ?thesis using SetSecureBits by (simp add: bindE_def osE_def mapErrE_def)
qed (use assms in \<open>simp only: apply_op.simps, intro performs_works; unfold linux_creds_def; blast\<close>)+

lemma apply_ops_works:
  assumes "linux_creds C V last_cap" "ops_permitted xs (V w)"
  shows "\<exists>w'. apply_ops C xs w = (Inr (), w') \<and> V w' = fold op_effect xs (V w)"
  using assms(2)
proof (induction xs arbitrary: w)
  case (Cons x xs)
  then obtain w1 where "apply_op C x w = (Inr (), w1)" and v: "V w1 = op_effect x (V w)"
    using apply_op_works[OF assms(1), of x w] by auto
  moreover obtain w2 where "apply_ops C xs w1 = (Inr (), w2)" "V w2 = fold op_effect xs (V w1)"
    using Cons.IH[of w1] Cons.prems v by auto
  ultimately show ?case by (auto simp: bindE_def mapErrE_def)
qed simp

lemma read_self_works:
  assumes "reads_creds C V last_cap" "thread_count K proc w = (Inr (st_threads (V w)), w)"
  shows "read_self K C proc w = (Inr (V w), w)"
proof -
  note r = assms(1)[unfolded reads_creds_def, rule_format, of w]
  have "read_set (c_in_bounding C) w = (Inr (st_bounding (V w)), w)"
    by (rule read_set_value[where last_cap = last_cap]) (use r in blast)+
  moreover have "read_set (c_in_ambient C) w = (Inr (st_ambient (V w)), w)"
    by (rule read_set_value[where last_cap = last_cap]) (use r in blast)+
  ultimately show ?thesis
    using r assms(2) by (simp add: read_self_def bindE_def osE_def mapErrE_def retE_def)
qed

section \<open>Verification of the reached state\<close>

lemma remdups_sort_sort [simp]: "sorted_groups (sort gs) = sorted_groups gs"
  by (simp add: sorted_groups_def sorted_sort_id)

lemma concat_map_Nil: "concat (map f xs) = [] \<longleftrightarrow> (\<forall>x\<in>set xs. f x = [])"
  by auto

lemma plan_ops_secure_bits:
  "SetSecureBits b \<in> set (plan_ops c keep sw) \<Longrightarrow>
     b = LOCKED_SECURE_BITS \<and> has_caps (cs_permitted (cr_caps c)) CAP_SETPCAP"
  unfolding plan_ops_def Let_def switch_ops_def by (auto split: if_splits option.splits)

lemma plan_ops_bounding:
  "x \<in> set (plan_ops c keep sw) \<Longrightarrow> is_drop_bounding x \<Longrightarrow> has_caps (cs_permitted (cr_caps c)) CAP_SETPCAP"
  unfolding plan_ops_def Let_def switch_ops_def is_drop_bounding_def
  by (auto split: if_splits option.splits)

lemma and_not_and [simp]: "(b AND k) AND NOT k = (0 :: u64)"
  by (rule bit_eqI) (simp add: bit_simps)

lemma or_and_absorb: "(b OR k) AND k = (k :: u32)"
  by (rule bit_eqI) (auto simp: bit_simps)

lemma reached_verified:
  assumes r: "reached keep sw st st'" "pp_caps p = keep" "pp_ops p = plan_ops (credentials_of st) keep sw"
    "pp_groups p = map_option final_groups sw"
    and u: "case sw of Some u \<Rightarrow> pp_uid p = su_uid u | None \<Rightarrow> \<forall>x\<in>set (st_uids st). x = pp_uid p"
  shows "problems p st' = []"
proof -
  have uids: "\<not> list_ex (\<lambda>x. x \<noteq> pp_uid p) (st_uids st')"
    using r(1) u by (auto simp: reached_def list_ex_iff split: option.splits)
  have groups: "group_problems p st' = []"
    using r(1,4) by (auto simp: reached_def group_problems_def final_groups_def split: option.splits)
  have bits: "secure_bits_problems st' x = []" if "x \<in> set (pp_ops p)" for x
  proof (cases x)
    case (SetSecureBits b)
    then have "b = LOCKED_SECURE_BITS" "has_caps (st_permitted st) CAP_SETPCAP"
      using plan_ops_secure_bits[of b "credentials_of st" keep sw] that r(3) by (simp_all add: credentials_of_def)
    then show ?thesis using r(1) SetSecureBits by (simp add: secure_bits_problems_def reached_def or_and_absorb)
  qed (simp_all add: secure_bits_problems_def)
  have bounding: "\<not> (list_ex is_drop_bounding (pp_ops p) \<and> st_bounding st' AND NOT keep \<noteq> 0)"
  proof
    assume b: "list_ex is_drop_bounding (pp_ops p) \<and> st_bounding st' AND NOT keep \<noteq> 0"
    then have "has_caps (st_permitted st) CAP_SETPCAP"
      using plan_ops_bounding[of _ "credentials_of st" keep sw] r(3) by (auto simp: list_ex_iff credentials_of_def)
    then show False using r(1) b by (simp add: reached_def)
  qed
  show ?thesis
    using r(1,2) uids groups bits bounding
    by (auto simp: problems_def reached_def)
qed

lemma apply_reaches:
  assumes kernel: "linux_creds C V last_cap" "\<And>w. thread_count K proc w = (Inr (st_threads (V w)), w)"
    and plan: "plan_privileges (credentials_of (V w)) rq = Inr p"
    and st: "st_threads (V w) = 1" "has_caps (st_permitted (V w)) (st_effective (V w))" "securebits_ok (V w)"
    and ids: "0 \<in> set (st_uids (V w)) \<and> rq_user rq \<noteq> None \<or> (\<forall>u\<in>set (st_uids (V w)). u = st_uids (V w) ! 1)"
  shows "\<exists>w' sw. apply_plan K C p proc w = (Inr (V w'), w') \<and> reached (pp_caps p) sw (V w) (V w')"
proof -
  obtain sw warnings where sw: "choose_user (credentials_of (V w)) rq = Inr (sw, warnings)"
    "check_switch (st_permitted (V w)) sw = Inr ()"
    and sysadm: "rq_goal rq = KeepSysAdmin \<longrightarrow> has_caps (st_permitted (V w)) CAP_SYS_ADMIN"
    and p: "p = \<lparr>pp_ops = plan_ops (credentials_of (V w)) (keep_of (rq_goal rq)) sw, pp_warnings = warnings,
            pp_uid = (case sw of Some u \<Rightarrow> su_uid u | None \<Rightarrow> st_uids (V w) ! 1),
            pp_caps = keep_of (rq_goal rq), pp_groups = map_option final_groups sw\<rparr>"
    using plan_privileges_Inr[OF plan] unfolding credentials_of_simps by blast
  have keep: "has_caps (st_permitted (V w)) (keep_of (rq_goal rq))"
    using sysadm by (cases "rq_goal rq") (simp_all add: keep_of_def)
  have root: "any_uid_is_root (credentials_of (V w)) \<longleftrightarrow> 0 \<in> set (st_uids (V w))"
    by (simp add: any_uid_is_root_def)
  have user: "su_uid u \<noteq> 0 \<and> 0 \<in> set (st_uids (V w))" if "sw = Some u" for u
    using choose_user_cases[OF sw(1)] that by (auto simp: root split: if_splits)
  have none: "sw = None \<Longrightarrow> \<forall>u\<in>set (st_uids (V w)). u = st_uids (V w) ! 1"
    using ids choose_user_cases[OF sw(1)] by (auto simp: root split: if_splits)
  have reach: "ops_permitted (pp_ops p) (V w)"
    "reached (pp_caps p) sw (V w) (fold op_effect (pp_ops p) (V w))"
    using plan_ops_reach[OF st(2,3) keep sw(2) user] by (simp_all add: p)
  obtain w1 where w1: "apply_ops C (pp_ops p) w = (Inr (), w1)" "V w1 = fold op_effect (pp_ops p) (V w)"
    using apply_ops_works[OF kernel(1) reach(1)] by blast
  have "problems p (V w1) = []"
    using reached_verified[OF reach(2)] none by (auto simp: p w1(2) split: option.split)
  moreover have "read_self K C proc x = (Inr (V x), x)" for x
    by (rule read_self_works[where last_cap = last_cap, OF _ kernel(2)]) (use kernel(1) in \<open>simp add: linux_creds_def\<close>)
  ultimately have "apply_plan K C p proc w = (Inr (V w1), w1)"
    using w1(1) st(1) by (simp add: apply_plan_def Let_def bindE_def mapErrE_def liftE_def verify_state_def retE_def)
  then show ?thesis using reach(2) w1(2) by auto
qed

lemma apply_verified:
  assumes "apply_plan K C p proc w = (Inr st, w')"
  shows "problems p st = []"
  using assms unfolding apply_plan_def Let_def verify_state_def
  by (auto simp: bindE_Inr_iff liftE_def failE_def split: if_splits)

lemma problems_Nil:
  assumes "problems p st = []"
  shows "st_effective st = pp_caps p \<and> st_permitted st = pp_caps p \<and> st_inheritable st = 0
     \<and> st_ambient st = 0 \<and> st_no_new_privs st \<and> (\<forall>u\<in>set (st_uids st). u = pp_uid p)
     \<and> (\<forall>g. pp_groups p = Some g \<longrightarrow>
          (\<forall>x\<in>set (st_gids st). x = fg_gid g) \<and> set (st_groups st) = set (fg_groups g))
     \<and> (\<forall>b. SetSecureBits b \<in> set (pp_ops p) \<longrightarrow> st_secure_bits st AND b = b)
     \<and> (list_ex is_drop_bounding (pp_ops p) \<longrightarrow> st_bounding st AND NOT (pp_caps p) = 0)"
proof -
  have g: "group_problems p st = []" and b: "\<forall>x\<in>set (pp_ops p). secure_bits_problems st x = []"
    and u: "\<not> list_ex (\<lambda>u. u \<noteq> pp_uid p) (st_uids st)"
    and caps: "st_effective st = pp_caps p" "st_permitted st = pp_caps p" "st_inheritable st = 0"
      "st_ambient st = 0" "st_no_new_privs st"
    and bound: "list_ex is_drop_bounding (pp_ops p) \<longrightarrow> st_bounding st AND NOT (pp_caps p) = 0"
    using assms unfolding problems_def append_is_Nil_conv
    by (simp_all del: list_ex_iff split: if_splits)
  have "set (st_groups st) = set (fg_groups g')" if "pp_groups p = Some g'" for g'
  proof -
    have "sorted_groups (st_groups st) = sorted_groups (fg_groups g')"
      using g that unfolding group_problems_def by (auto split: if_splits)
    then have "set (sorted_groups (st_groups st)) = set (sorted_groups (fg_groups g'))" by simp
    then show ?thesis by (simp add: sorted_groups_def)
  qed
  moreover have "\<forall>x\<in>set (st_gids st). x = fg_gid g'" if "pp_groups p = Some g'" for g'
    using g that unfolding group_problems_def by (auto simp: list_ex_iff split: if_splits)
  moreover have "st_secure_bits st AND bits = bits" if "SetSecureBits bits \<in> set (pp_ops p)" for bits
    using b that unfolding secure_bits_problems_def by (auto split: if_splits)
  moreover have "\<forall>x\<in>set (st_uids st). x = pp_uid p" using u by (auto simp: list_ex_iff)
  ultimately show ?thesis using caps bound by blast
qed

lemma normalized_facts:
  assumes "plan_privileges (credentials_of st) rq = Inr p" "length (st_uids st) = 3"
    and "apply_plan K C p proc w = (Inr st', w')"
  shows "st_effective st' = keep_of (rq_goal rq) \<and> st_permitted st' = keep_of (rq_goal rq)
    \<and> st_inheritable st' = 0 \<and> st_ambient st' = 0 \<and> st_no_new_privs st'
    \<and> (rq_goal rq = KeepSysAdmin \<and> \<not> rq_allow_root rq \<longrightarrow> 0 \<notin> set (st_uids st'))
    \<and> (\<forall>u. 0 \<in> set (st_uids st) \<and> rq_user rq = Some u \<longrightarrow>
         (\<forall>x\<in>set (st_uids st'). x = su_uid u) \<and> (\<forall>x\<in>set (st_gids st'). x = su_gid u)
         \<and> set (st_groups st') = insert (su_gid u) (set (su_groups u)))
    \<and> (has_caps (st_permitted st) CAP_SETPCAP \<longrightarrow>
         st_secure_bits st' AND LOCKED_SECURE_BITS = LOCKED_SECURE_BITS
         \<and> st_bounding st' AND NOT (keep_of (rq_goal rq)) = 0)"
proof -
  obtain sw warnings where sw: "choose_user (credentials_of st) rq = Inr (sw, warnings)"
    and p: "p = \<lparr>pp_ops = plan_ops (credentials_of st) (keep_of (rq_goal rq)) sw, pp_warnings = warnings,
            pp_uid = (case sw of Some u \<Rightarrow> su_uid u | None \<Rightarrow> st_uids st ! 1),
            pp_caps = keep_of (rq_goal rq), pp_groups = map_option final_groups sw\<rparr>"
    using plan_privileges_Inr[OF assms(1)] unfolding credentials_of_simps by blast
  have root: "any_uid_is_root (credentials_of st) \<longleftrightarrow> 0 \<in> set (st_uids st)"
    by (simp add: any_uid_is_root_def)
  note c = choose_user_cases[OF sw, unfolded root]
  note st' = problems_Nil[OF apply_verified[OF assms(3)]]
  have caps: "pp_caps p = keep_of (rq_goal rq)" by (simp add: p)
  have "st_uids st ! 1 \<in> set (st_uids st)" using assms(2) by simp
  then have "pp_uid p \<noteq> 0" if "rq_goal rq = KeepSysAdmin" "\<not> rq_allow_root rq"
    using c that by (auto simp: p split: if_splits option.split)
  then have uids: "rq_goal rq = KeepSysAdmin \<and> \<not> rq_allow_root rq \<longrightarrow> 0 \<notin> set (st_uids st')"
    using st' by metis
  have user: "(\<forall>x\<in>set (st_uids st'). x = su_uid u) \<and> (\<forall>x\<in>set (st_gids st'). x = su_gid u)
      \<and> set (st_groups st') = insert (su_gid u) (set (su_groups u))"
    if "0 \<in> set (st_uids st) \<and> rq_user rq = Some u" for u
  proof -
    have "sw = Some u" using c that by simp
    then have "pp_uid p = su_uid u" "pp_groups p = Some (final_groups u)" by (simp_all add: p)
    then show ?thesis using st' by (simp add: final_groups_def insert_absorb)
  qed
  have "SetSecureBits LOCKED_SECURE_BITS \<in> set (pp_ops p) \<and> list_ex is_drop_bounding (pp_ops p)"
    if "has_caps (st_permitted st) CAP_SETPCAP"
    using that by (simp add: p plan_ops_eq bound_ops_def is_drop_bounding_def)
  then show ?thesis using st' uids user unfolding caps by blast
qed

section \<open>The theorems\<close>

text \<open>C30. Whatever the kernel does, a normalization that reports success left the process as
  planned: exactly the capability kept (\<open>CAP_SYS_ADMIN\<close>, or none) effective and permitted,
  none inheritable or ambient, \<open>no_new_privs\<close> set; started as root with a service user, all
  its user and group IDs are that user's; keeping \<open>CAP_SYS_ADMIN\<close> it is never root unless
  \<open>allow_root\<close> says so; and where the securebits and the bounding set could be changed, the
  securebits are set and locked and the bounding set holds nothing else.\<close>

theorem normalized_safe:
  assumes "plan_privileges (credentials_of st) rq = Inr p" "length (st_uids st) = 3"
    and "apply_plan K C p proc w = (Inr st', w')"
  shows "st_effective st' = keep_of (rq_goal rq) \<and> st_permitted st' = keep_of (rq_goal rq)
    \<and> st_inheritable st' = 0 \<and> st_ambient st' = 0 \<and> st_no_new_privs st'
    \<and> (rq_goal rq = KeepSysAdmin \<and> \<not> rq_allow_root rq \<longrightarrow> 0 \<notin> set (st_uids st'))
    \<and> (\<forall>u. 0 \<in> set (st_uids st) \<and> rq_user rq = Some u \<longrightarrow>
         (\<forall>x\<in>set (st_uids st'). x = su_uid u) \<and> (\<forall>x\<in>set (st_gids st'). x = su_gid u)
         \<and> set (st_groups st') = insert (su_gid u) (set (su_groups u)))
    \<and> (has_caps (st_permitted st) CAP_SETPCAP \<longrightarrow>
         st_secure_bits st' AND LOCKED_SECURE_BITS = LOCKED_SECURE_BITS
         \<and> st_bounding st' AND NOT (keep_of (rq_goal rq)) = 0)"
  using assms by (rule normalized_facts)

text \<open>C31. Normalization succeeds: on a kernel whose credential calls do what their manual
  pages say, applying the plan made from the current credentials of a single-threaded process
  ends, without an error, in the planned state as read back from the kernel, whether or not
  \<open>CAP_SETPCAP\<close> is there. Assumed of the process: the effective capabilities are among the
  permitted, nothing the plan changes is locked, and its three user IDs agree unless it is to
  switch user.\<close>

theorem apply_plan_succeeds:
  assumes "linux_creds C V last_cap" "\<And>w. thread_count K proc w = (Inr (st_threads (V w)), w)"
    and "plan_privileges (credentials_of (V w)) rq = Inr p"
    and "st_threads (V w) = 1" "has_caps (st_permitted (V w)) (st_effective (V w))" "securebits_ok (V w)"
    and "0 \<in> set (st_uids (V w)) \<and> rq_user rq \<noteq> None \<or> (\<forall>u\<in>set (st_uids (V w)). u = st_uids (V w) ! 1)"
  shows "\<exists>w' sw. apply_plan K C p proc w = (Inr (V w'), w') \<and> reached (pp_caps p) sw (V w) (V w')"
  using assms by (rule apply_reaches)

section \<open>An example\<close>

text \<open>A process whose credentials are the whole world; \<open>self/status\<close> says it has one thread.\<close>

definition status_kernel :: "(process_state, nat) kernel" where
  "status_kernel =
     \<lparr>k_open = \<lambda>_ _ w. (Inl ENOENT, w), k_openat = \<lambda>_ _ _ _ w. (Inl ENOENT, w),
      k_openat2 = \<lambda>_ p _ _ w. (if p = ''self/status'' then Inr 1 else Inl ENOENT, w),
      k_mkdirat = \<lambda>_ _ _ w. (Inl ENOENT, w), k_unlinkat = \<lambda>_ _ _ w. (Inl ENOENT, w),
      k_renameat = \<lambda>_ _ _ w. (Inl ENOENT, w), k_statx = \<lambda>_ _ _ _ w. (Inl ENOENT, w),
      k_fstatvfs = \<lambda>_ w. (Inl ENOENT, w), k_read_dir = \<lambda>_ w. (Inl ENOENT, w),
      k_read_to_end = \<lambda>_ w. (Inr (''Name: x'' @ [NEWLINE] @ ''Threads: 1'' @ [NEWLINE]), w),
      k_write_all = \<lambda>_ _ w. (Inl ENOENT, w), k_fchmod = \<lambda>_ _ w. (Inl ENOENT, w),
      k_fsync = \<lambda>_ w. (Inl ENOENT, w), k_open_tree = \<lambda>_ _ _ w. (Inl ENOENT, w),
      k_mount_setattr = \<lambda>_ _ w. (Inl ENOENT, w), k_move_mount = \<lambda>_ _ _ w. (Inl ENOENT, w),
      k_umount = \<lambda>_ _ w. (Inl ENOENT, w), k_raw_fd = \<lambda>fd. fd, k_now = \<lambda>w. (0, w),
      k_text = \<lambda>_. ''error''\<rparr>"

definition perform :: "op \<Rightarrow> (process_state, unit) sys" where
  "perform x st = (if op_permitted x st then (Inr (), op_effect x st) else (Inl (Errno 1), st))"

definition example_creds :: "process_state creds" where
  "example_creds =
     \<lparr>c_capabilities = \<lambda>st. (Inr \<lparr>cs_effective = st_effective st, cs_permitted = st_permitted st,
                                   cs_inheritable = st_inheritable st\<rparr>, st),
      c_getresuid = \<lambda>st. (Inr (st_uids st), st), c_getresgid = \<lambda>st. (Inr (st_gids st), st),
      c_getgroups = \<lambda>st. (Inr (st_groups st), st),
      c_in_bounding = \<lambda>b st. (Inr (st_bounding st AND b \<noteq> 0), st),
      c_in_ambient = \<lambda>b st. (Inr (st_ambient st AND b \<noteq> 0), st),
      c_no_new_privs = \<lambda>st. (Inr (st_no_new_privs st), st),
      c_secure_bits = \<lambda>st. (Inr (st_secure_bits st), st),
      c_clear_ambient = perform ClearAmbient, c_set_caps = \<lambda>s. perform (SetCaps s),
      c_drop_bounding = \<lambda>b st. (if has_caps (st_effective st) CAP_SETPCAP
         then (Inr (), st\<lparr>st_bounding := st_bounding st AND NOT b\<rparr>) else (Inl (Errno 1), st)),
      c_set_secure_bits = \<lambda>b st. (if has_caps (st_effective st) CAP_SETPCAP
         then (Inr (), st\<lparr>st_secure_bits := b\<rparr>) else (Inl (Errno 1), st)),
      c_set_keep_caps = \<lambda>b. perform (SetKeepCaps b), c_set_groups = \<lambda>gs. perform (SetGroups gs),
      c_set_res_gid = \<lambda>g. perform (SetResGid g), c_set_res_uid = \<lambda>u. perform (SetResUid u),
      c_set_no_new_privs = perform SetNoNewPrivs\<rparr>"

definition one_thread :: "process_state \<Rightarrow> process_state" where
  "one_thread st = st\<lparr>st_threads := 1\<rparr>"

lemma perform_performs: "performs one_thread x (perform x)"
proof -
  have "op_permitted x (one_thread st) = op_permitted x st" for st
    by (cases x) (simp_all add: one_thread_def)
  moreover have "one_thread (op_effect x st) = op_effect x (one_thread st)" for st
    by (cases x) (simp_all add: one_thread_def)
  ultimately show ?thesis by (auto simp: performs_def perform_def)
qed

lemma known_all: "known_caps 63 s"
  unfolding known_caps_def using bit_imp_le_length[of s] by fastforce

lemma example_creds_linux: "linux_creds example_creds one_thread 63"
proof -
  have "reads_creds example_creds one_thread 63"
    unfolding reads_creds_def by (simp add: example_creds_def one_thread_def known_all)
  moreover have "changes_bounding example_creds one_thread 63" "changes_secure_bits example_creds one_thread"
    unfolding changes_bounding_def changes_secure_bits_def by (simp_all add: example_creds_def one_thread_def)
  ultimately show ?thesis
    unfolding linux_creds_def by (simp add: example_creds_def perform_performs)
qed

definition root_process :: process_state where
  "root_process =
     \<lparr>st_uids = [0, 0, 0], st_gids = [0, 0, 0], st_groups = [0], st_threads = 1, st_inheritable = 0,
      st_permitted = 0x1FFFFFFFFFF, st_effective = 0x1FFFFFFFFFF, st_bounding = 0x1FFFFFFFFFF,
      st_ambient = 0, st_no_new_privs = False, st_secure_bits = 0\<rparr>"

definition daemon_request :: request where
  "daemon_request =
     \<lparr>rq_goal = KeepSysAdmin,
      rq_user = Some \<lparr>su_name = ''byssus'', su_uid = 991, su_gid = 991, su_groups = [500]\<rparr>,
      rq_allow_root = False\<rparr>"

definition daemon_plan :: privilege_plan where
  "daemon_plan =
     (case plan_privileges (credentials_of root_process) daemon_request of Inr p \<Rightarrow> p
      | Inl _ \<Rightarrow> \<lparr>pp_ops = [], pp_warnings = [], pp_uid = 0, pp_caps = 0, pp_groups = None\<rparr>)"

lemma daemon_planned: "plan_privileges (credentials_of root_process) daemon_request = Inr daemon_plan"
  by code_simp

lemma one_thread_read: "thread_count status_kernel 0 w = (Inr (st_threads (one_thread w)), w)"
proof -
  have "text_lines (''Name: x'' @ [NEWLINE] @ ''Threads: 1'' @ [NEWLINE]) = [''Name: x'', ''Threads: 1'']"
    by (simp add: text_lines_def chop_cr_def strip_suffix_def)
  moreover have "trim '' 1'' = ''1''"
  proof -
    have "drop_space white_space '' 1'' = Some ''1''" "drop_space white_space ''1'' = None"
      "drop_space (map rev white_space) ''1'' = None"
      by (simp_all add: drop_space_def white_space_def map_filter_simps)
    then show ?thesis by (simp add: trim_def)
  qed
  moreover have "parse_uint 32 ''1'' = Some 1" by (simp add: parse_uint_def is_ascii_digit_def byte_def)
  moreover have "is_utf8 (''Name: x'' @ [NEWLINE] @ ''Threads: 1'' @ [NEWLINE])" by (simp add: byte_def)
  moreover have "retry_eagain f w = (Inr fd, w)" if "f w = (Inr fd, w)" for f and fd :: nat
    using that by (simp add: retry_eagain_def retry_eagain_from.simps)
  ultimately show ?thesis
    by (simp add: thread_count_def status_kernel_def bindE_def osE_def mapErrE_def
        read_text_def retE_def map_filter_simps one_thread_def)
qed

lemma daemon_reaches:
  "\<exists>w'. apply_plan status_kernel example_creds daemon_plan 0 root_process = (Inr (one_thread w'), w')"
proof -
  have r: "one_thread root_process = root_process" by (simp add: one_thread_def root_process_def)
  have ok: "st_threads root_process = 1" "has_caps (st_permitted root_process) (st_effective root_process)"
    "securebits_ok root_process" "0 \<in> set (st_uids root_process) \<and> rq_user daemon_request \<noteq> None"
    by code_simp+
  show ?thesis
    using apply_reaches[OF example_creds_linux one_thread_read, of root_process daemon_request daemon_plan, unfolded r]
      daemon_planned ok by blast
qed

lemma daemon_facts:
  "length (st_uids root_process) = 3" "rq_goal daemon_request = KeepSysAdmin" "\<not> rq_allow_root daemon_request"
  "keep_of KeepSysAdmin = CAP_SYS_ADMIN" "has_caps (st_permitted root_process) CAP_SETPCAP"
  by code_simp+

theorem normalized_safe_witness:
  "\<exists>st :: process_state. 0 \<notin> set (st_uids st) \<and> st_effective st = CAP_SYS_ADMIN \<and> st_bounding st AND NOT CAP_SYS_ADMIN = 0"
proof -
  obtain w' where "apply_plan status_kernel example_creds daemon_plan 0 root_process = (Inr (one_thread w'), w')"
    using daemon_reaches by blast
  note n = normalized_safe[OF daemon_planned daemon_facts(1) this]
  have "0 \<notin> set (st_uids (one_thread w'))" using n daemon_facts(2,3) by blast
  moreover have "st_effective (one_thread w') = CAP_SYS_ADMIN"
    using n unfolding daemon_facts(2,4) by blast
  moreover have "st_bounding (one_thread w') AND NOT CAP_SYS_ADMIN = 0"
    using n daemon_facts(5) unfolding daemon_facts(2,4) by blast
  ultimately show ?thesis by blast
qed

theorem apply_plan_succeeds_witness:
  "\<exists>w'. apply_plan status_kernel example_creds daemon_plan 0 root_process = (Inr (one_thread w'), w')"
proof -
  have r: "one_thread root_process = root_process" by (simp add: one_thread_def root_process_def)
  have ok: "st_threads root_process = 1" "has_caps (st_permitted root_process) (st_effective root_process)"
    "securebits_ok root_process" "0 \<in> set (st_uids root_process) \<and> rq_user daemon_request \<noteq> None"
    by code_simp+
  show ?thesis
    using apply_plan_succeeds[OF example_creds_linux one_thread_read, of root_process daemon_request daemon_plan, unfolded r]
      daemon_planned ok by blast
qed

end
