(* ===== verification/Mountinfo.thy ===== *)
theory Mountinfo
  imports Sys Std_Text
begin

text \<open>
  \<open>src/src/mountinfo.rs\<close>: the parser for \<open>/proc/self/mountinfo\<close>, with its inverse, the
  lines as the kernel prints them.
\<close>

section \<open>The table\<close>

datatype propagation =
    Private
  | Shared u64
  | Slave u64
  | SharedAndSlave u64 u64
  | Unbindable

record mount_info =
  mi_mount_id :: u64
  mi_parent_id :: u64
  mi_major :: u32
  mi_minor :: u32
  mi_root :: string
  mi_mount_point :: string
  mi_options :: string
  mi_propagation :: propagation
  mi_optional :: "string list"
  mi_fs_type :: string
  mi_source :: string
  mi_super :: string

definition has_mount_option :: "mount_info \<Rightarrow> string \<Rightarrow> bool" where
  "has_mount_option m option = list_ex (\<lambda>f. f = option) (split_on (CHR '','') (mi_options m))"

datatype mi_reason =
    NoSeparator
  | TooFewFields nat
  | FieldsAfter nat
  | BadNumber string string
  | BadDevice string
  | BadEscape string
  | EscapeRange string

record mi_error =
  mie_line :: nat
  mie_reason :: mi_reason

type_synonym mount_table = "mount_info list"

section \<open>Parsing\<close>

abbreviation BACKSLASH :: char where "BACKSLASH \<equiv> CHR 0x5C"
abbreviation SPACE :: char where "SPACE \<equiv> CHR '' ''"

definition is_octal :: "char \<Rightarrow> bool" where
  "is_octal d = (48 \<le> byte d \<and> byte d \<le> 55)"

definition octal_value :: "char list \<Rightarrow> nat" where
  "octal_value ds = fold (\<lambda>d acc. acc * 8 + (byte d - 48)) ds 0"

text \<open>The loop of \<open>unescape\<close>; the whole field is kept for the messages.\<close>

fun unescape_from :: "string \<Rightarrow> string \<Rightarrow> mi_reason + string" where
  "unescape_from field [] = Inr []"
| "unescape_from field (c # cs) =
     (if c = BACKSLASH then
        (case cs of
           a # b # d # rest \<Rightarrow>
             if is_octal a \<and> is_octal b \<and> is_octal d then
               (if octal_value [a, b, d] < 256
                then and_then (unescape_from field rest)
                       (\<lambda>s. Inr (char_of (octal_value [a, b, d]) # s))
                else Inl (EscapeRange field))
             else Inl (BadEscape field)
         | _ \<Rightarrow> Inl (BadEscape field))
      else and_then (unescape_from field cs) (\<lambda>s. Inr (c # s)))"

definition unescape :: "string \<Rightarrow> mi_reason + string" where
  "unescape field = unescape_from field field"

definition parse_num :: "nat \<Rightarrow> string \<Rightarrow> string \<Rightarrow> mi_reason + nat" where
  "parse_num bits field what =
     (case (if is_utf8 field then parse_uint bits field else None) of
        Some n \<Rightarrow> Inr n | None \<Rightarrow> Inl (BadNumber what field))"

type_synonym propagation_fields = "u64 option \<times> u64 option \<times> bool"

fun propagation_fields :: "string list \<Rightarrow> propagation_fields \<Rightarrow> mi_reason + propagation_fields" where
  "propagation_fields [] acc = Inr acc"
| "propagation_fields (f # fs) (shared, master, unbindable) =
     (case strip_prefix ''shared:'' f of
        Some v \<Rightarrow>
          and_then (parse_num 64 v ''shared peer group'') (\<lambda>n.
            propagation_fields fs (Some (word_of_nat n), master, unbindable))
      | None \<Rightarrow>
          (case strip_prefix ''master:'' f of
             Some v \<Rightarrow>
               and_then (parse_num 64 v ''master peer group'') (\<lambda>n.
                 propagation_fields fs (shared, Some (word_of_nat n), unbindable))
           | None \<Rightarrow>
               propagation_fields fs (shared, master, unbindable \<or> f = ''unbindable'')))"

definition propagation_of :: "propagation_fields \<Rightarrow> propagation" where
  "propagation_of p =
     (case p of
        (_, _, True) \<Rightarrow> Unbindable
      | (Some g, Some m, False) \<Rightarrow> SharedAndSlave g m
      | (Some g, None, False) \<Rightarrow> Shared g
      | (None, Some m, False) \<Rightarrow> Slave m
      | (None, None, False) \<Rightarrow> Private)"

definition classify_propagation :: "string list \<Rightarrow> mi_reason + propagation" where
  "classify_propagation optional =
     and_then (propagation_fields optional (None, None, False)) (\<lambda>p. Inr (propagation_of p))"

definition parse_line :: "string \<Rightarrow> mi_reason + mount_info" where
  "parse_line line =
     (let fs = split_on SPACE line in
      case position (\<lambda>f. f = ''-'') fs of
        None \<Rightarrow> Inl NoSeparator
      | Some separator \<Rightarrow>
          if separator < 6 then Inl (TooFewFields separator)
          else if length fs \<noteq> separator + 4 then Inl (FieldsAfter (length fs - separator - 1))
          else
            and_then (parse_num 64 (fs ! 0) ''mount ID'') (\<lambda>mount_id.
            and_then (parse_num 64 (fs ! 1) ''parent ID'') (\<lambda>parent_id.
            let device = utf8_lossy (fs ! 2) in
            case split_once (CHR '':'') device of
              None \<Rightarrow> Inl (BadDevice device)
            | Some (major, minor) \<Rightarrow>
                and_then (parse_num 32 major ''device major'') (\<lambda>major.
                and_then (parse_num 32 minor ''device minor'') (\<lambda>minor.
                let optional = map utf8_lossy (drop 6 (take separator fs)) in
                and_then (classify_propagation optional) (\<lambda>propagation.
                and_then (unescape (fs ! 3)) (\<lambda>root.
                and_then (unescape (fs ! 4)) (\<lambda>mount_point.
                and_then (unescape (fs ! (separator + 2))) (\<lambda>source.
                  Inr \<lparr>mi_mount_id = word_of_nat mount_id, mi_parent_id = word_of_nat parent_id,
                       mi_major = word_of_nat major, mi_minor = word_of_nat minor,
                       mi_root = root, mi_mount_point = mount_point,
                       mi_options = utf8_lossy (fs ! 5), mi_propagation = propagation,
                       mi_optional = optional, mi_fs_type = utf8_lossy (fs ! (separator + 1)),
                       mi_source = source, mi_super = utf8_lossy (fs ! (separator + 3))\<rparr>)))))))))"

fun parse_lines :: "nat \<Rightarrow> string list \<Rightarrow> mi_error + mount_table" where
  "parse_lines index [] = Inr []"
| "parse_lines index (line # ls) =
     (if line = [] then parse_lines (index + 1) ls
      else and_then (map_err (\<lambda>r. \<lparr>mie_line = index + 1, mie_reason = r\<rparr>) (parse_line line)) (\<lambda>m.
           and_then (parse_lines (index + 1) ls) (\<lambda>ms. Inr (m # ms))))"

definition parse_table :: "string \<Rightarrow> mi_error + mount_table" where
  "parse_table content = parse_lines 0 (split_on NEWLINE content)"

definition by_id :: "mount_table \<Rightarrow> u64 \<Rightarrow> mount_info option" where
  "by_id ms mount_id = find (\<lambda>m. mi_mount_id m = mount_id) ms"

section \<open>The lines of the kernel\<close>

text \<open>The kernel writes the characters of a set (which contains space, tab, newline and
  backslash) as three octal digits.\<close>

definition octal_digits :: "nat \<Rightarrow> string" where
  "octal_digits n = [char_of (48 + n div 64), char_of (48 + n div 8 mod 8), char_of (48 + n mod 8)]"

definition escape_char :: "char set \<Rightarrow> char \<Rightarrow> string" where
  "escape_char E c = (if c \<in> E then BACKSLASH # octal_digits (byte c) else [c])"

definition escape :: "char set \<Rightarrow> string \<Rightarrow> string" where
  "escape E s = concat (map (escape_char E) s)"

definition line_fields :: "char set \<Rightarrow> mount_info \<Rightarrow> string list" where
  "line_fields E m =
     [show_nat (unat (mi_mount_id m)), show_nat (unat (mi_parent_id m)),
      show_nat (unat (mi_major m)) @ '':'' @ show_nat (unat (mi_minor m)),
      escape E (mi_root m), escape E (mi_mount_point m), mi_options m]
     @ mi_optional m @ [''-'', mi_fs_type m, escape E (mi_source m), mi_super m]"

definition table_text :: "char set \<Rightarrow> mount_table \<Rightarrow> string" where
  "table_text E ms = concat (map (\<lambda>m. join_with [SPACE] (line_fields E m) @ [NEWLINE]) ms)"

definition plain_text :: "string \<Rightarrow> bool" where
  "plain_text s = (\<forall>c\<in>set s. byte c < 128 \<and> c \<noteq> SPACE \<and> c \<noteq> NEWLINE)"

text \<open>What the kernel prints: text fields without white space, no optional field that is the
  separator, and propagation fields of which the propagation is the meaning.\<close>

definition mount_ok :: "mount_info \<Rightarrow> bool" where
  "mount_ok m =
     (plain_text (mi_options m) \<and> plain_text (mi_fs_type m) \<and> plain_text (mi_super m)
      \<and> (\<forall>f\<in>set (mi_optional m). plain_text f \<and> f \<noteq> ''-'')
      \<and> mi_options m \<noteq> ''-'' \<and> mi_root m \<noteq> ''-'' \<and> mi_mount_point m \<noteq> ''-''
      \<and> classify_propagation (mi_optional m) = Inr (mi_propagation m))"

definition escaping :: "char set \<Rightarrow> bool" where
  "escaping E = ({SPACE, NEWLINE, BACKSLASH} \<subseteq> E \<and> CHR ''-'' \<notin> E)"

section \<open>Parsing what the kernel prints\<close>

lemma octal_facts:
  assumes "n < 256"
  shows "list_all is_octal (octal_digits n)" "octal_value (octal_digits n) = n"
proof -
  have d: "byte (char_of (48 + k)) = 48 + k" if "k < 8" for k :: nat
    using that by (simp add: byte_def of_char_of)
  have m7: "k mod 8 \<le> 7" for k :: nat by presburger
  have r: "n div 64 < 8" "n div 8 mod 8 < 8" "n mod 8 < 8" using assms by auto
  show "list_all is_octal (octal_digits n)"
    using r m7 by (simp add: octal_digits_def is_octal_def d less_Suc_eq_le[of _ 7, simplified])
  have "n div 64 * 8 + n div 8 mod 8 = n div 8"
    using div_mult_mod_eq[of "n div 8" 8] by (simp add: div_mult2_eq[of n 8 8, simplified])
  then have "(n div 64 * 8 + n div 8 mod 8) * 8 + n mod 8 = n" by simp
  then show "octal_value (octal_digits n) = n"
    using r by (simp add: octal_digits_def octal_value_def d)
qed

lemma unescape_from_char:
  assumes "escaping E"
  shows "unescape_from field (escape_char E c @ cs) = and_then (unescape_from field cs) (\<lambda>s. Inr (c # s))"
proof (cases "c \<in> E")
  case True
  obtain a b d where ds: "octal_digits (byte c) = [a, b, d]" by (simp add: octal_digits_def)
  have "is_octal a" "is_octal b" "is_octal d" "octal_value [a, b, d] = byte c"
    using octal_facts[of "byte c"] unfolding ds by simp_all
  moreover have "char_of (byte c) = c" by (simp add: byte_def)
  ultimately show ?thesis using True by (simp add: escape_char_def ds)
next
  case False
  then have "c \<noteq> BACKSLASH" using assms by (auto simp: escaping_def)
  then show ?thesis using False by (simp add: escape_char_def)
qed

lemma unescape_escape: "escaping E \<Longrightarrow> unescape (escape E s) = Inr s"
proof -
  assume e: "escaping E"
  have "unescape_from field (escape E s) = Inr s" for field
    by (induction s) (simp_all add: escape_def unescape_from_char[OF e])
  then show ?thesis by (simp add: unescape_def)
qed

lemma octal_digit_chars:
  assumes "c \<in> set (octal_digits n)" "n < 256"
  shows "48 \<le> byte c \<and> byte c \<le> 55"
  using octal_facts(1)[OF assms(2)] assms(1) by (auto simp: list_all_iff is_octal_def)

lemma escape_clean:
  assumes "escaping E"
  shows "SPACE \<notin> set (escape E s)" "NEWLINE \<notin> set (escape E s)" "s \<noteq> ''-'' \<Longrightarrow> escape E s \<noteq> ''-''"
proof -
  have "c \<noteq> SPACE \<and> c \<noteq> NEWLINE" if "c \<in> set (escape_char E x)" for c x
  proof (cases "x \<in> E")
    case True
    then have "c = BACKSLASH \<or> 48 \<le> byte c" using that octal_digit_chars[of c "byte x"] by (auto simp: escape_char_def)
    then show ?thesis by (auto simp: byte_def)
  next
    case False
    then show ?thesis using that assms by (auto simp: escape_char_def escaping_def)
  qed
  then show "SPACE \<notin> set (escape E s)" "NEWLINE \<notin> set (escape E s)" by (auto simp: escape_def)
  show "escape E s \<noteq> ''-''" if "s \<noteq> ''-''"
  proof
    assume "escape E s = ''-''"
    then have "unescape (escape E s) = unescape ''-''" by simp
    then show False using that unescape_escape[OF assms, of s] by (simp add: unescape_def)
  qed
qed

lemma show_nat_plain: "plain_text (show_nat n)"
proof -
  have "is_ascii_digit c \<Longrightarrow> byte c < 128 \<and> c \<noteq> SPACE \<and> c \<noteq> NEWLINE" for c
    by (auto simp: is_ascii_digit_def byte_def)
  then show ?thesis using show_nat_digits unfolding plain_text_def by blast
qed

lemma show_nat_not: "show_nat n \<noteq> ''-''"
proof
  assume "show_nat n = ''-''"
  then have "is_ascii_digit (CHR ''-'')" using show_nat_digits[of "CHR ''-''" n] by simp
  then show False by (simp add: is_ascii_digit_def byte_def)
qed

lemma plain_lossy: "plain_text s \<Longrightarrow> utf8_lossy s = s"
  by (rule utf8_lossy_ascii) (simp add: plain_text_def)

lemma is_utf8_ascii: "\<forall>c\<in>set s. byte c < 128 \<Longrightarrow> is_utf8 s"
  by (induction s) simp_all

lemma parse_num_show: "n < 2 ^ bits \<Longrightarrow> parse_num bits (show_nat n) what = Inr n"
  using show_nat_plain[of n] by (simp add: parse_num_def plain_text_def is_utf8_ascii parse_show_nat)

lemma unat_bounds: "unat (x :: u64) < 2 ^ 64" "unat (y :: u32) < 2 ^ 32"
  using unsigned_less[of x] unsigned_less[of y] by simp_all

lemma plain_clean: "plain_text f \<Longrightarrow> SPACE \<notin> set f \<and> NEWLINE \<notin> set f"
  unfolding plain_text_def by blast

lemma line_fields_clean:
  assumes "escaping E" "mount_ok m" "f \<in> set (line_fields E m)"
  shows "SPACE \<notin> set f \<and> NEWLINE \<notin> set f"
proof -
  have "\<forall>f\<in>set (mi_optional m). SPACE \<notin> set f \<and> NEWLINE \<notin> set f"
    using assms(2) plain_clean unfolding mount_ok_def by blast
  then have "\<forall>f\<in>set (line_fields E m). SPACE \<notin> set f \<and> NEWLINE \<notin> set f"
    using assms(2) unfolding line_fields_def mount_ok_def
    by (simp add: escape_clean(1,2)[OF assms(1)] plain_clean show_nat_plain)
  then show ?thesis using assms(3) by blast
qed

lemma line_fields_position:
  assumes "escaping E" "mount_ok m"
  shows "position (\<lambda>f. f = ''-'') (line_fields E m) = Some (6 + length (mi_optional m))"
proof -
  let ?front = "[show_nat (unat (mi_mount_id m)), show_nat (unat (mi_parent_id m)),
      show_nat (unat (mi_major m)) @ '':'' @ show_nat (unat (mi_minor m)),
      escape E (mi_root m), escape E (mi_mount_point m), mi_options m] @ mi_optional m"
  have "show_nat a @ CHR '':'' # s \<noteq> ''-''" for a s
  proof
    assume "show_nat a @ CHR '':'' # s = ''-''"
    then have "length (show_nat a @ CHR '':'' # s) = length ''-''" by (rule arg_cong)
    then show False by (simp del: length_0_conv) (simp add: length_0_conv)
  qed
  then have "\<forall>f\<in>set ?front. f \<noteq> ''-''"
    using assms escape_clean(3)[OF assms(1)] show_nat_not by (auto simp: mount_ok_def)
  then have "position (\<lambda>f. f = ''-'') (?front @ [''-'', mi_fs_type m, escape E (mi_source m), mi_super m])
      = Some (length ?front)"
    by (subst position_append) simp_all
  then show ?thesis by (simp add: line_fields_def)
qed

lemma parse_line_fields:
  assumes "escaping E" "mount_ok m"
  shows "parse_line (join_with [SPACE] (line_fields E m)) = Inr m"
proof -
  have ne: "line_fields E m \<noteq> []" by (simp add: line_fields_def)
  have fs: "split_on SPACE (join_with [SPACE] (line_fields E m)) = line_fields E m"
    by (rule split_join[OF ne]) (use line_fields_clean[OF assms] in blast)
  let ?n = "6 + length (mi_optional m)"
  have at: "line_fields E m ! (?n + 1) = mi_fs_type m" "line_fields E m ! (?n + 2) = escape E (mi_source m)"
    "line_fields E m ! (?n + 3) = mi_super m" "length (line_fields E m) = ?n + 4"
    "drop 6 (take ?n (line_fields E m)) = mi_optional m"
    by (simp_all add: line_fields_def nth_append numeral_eq_Suc)
  have front: "line_fields E m ! 0 = show_nat (unat (mi_mount_id m))"
    "line_fields E m ! 1 = show_nat (unat (mi_parent_id m))"
    "line_fields E m ! 2 = show_nat (unat (mi_major m)) @ '':'' @ show_nat (unat (mi_minor m))"
    "line_fields E m ! 3 = escape E (mi_root m)" "line_fields E m ! 4 = escape E (mi_mount_point m)"
    "line_fields E m ! 5 = mi_options m"
    by (simp_all add: line_fields_def)
  have plain: "map utf8_lossy (mi_optional m) = mi_optional m" "utf8_lossy (mi_options m) = mi_options m"
    "utf8_lossy (mi_fs_type m) = mi_fs_type m" "utf8_lossy (mi_super m) = mi_super m"
    using assms(2) by (auto simp: mount_ok_def plain_lossy intro: map_idI)
  have "utf8_lossy (show_nat a @ '':'' @ show_nat b) = show_nat a @ '':'' @ show_nat b" for a b
    using show_nat_plain by (intro utf8_lossy_ascii) (auto simp: plain_text_def byte_def)
  moreover have "split_once (CHR '':'') (show_nat a @ '':'' @ show_nat b) = Some (show_nat a, show_nat b)" for a b
  proof -
    have "CHR '':'' \<notin> set (show_nat a)"
      using show_nat_digits[of "CHR '':''" a] by (auto simp: is_ascii_digit_def byte_def)
    then show ?thesis by (simp add: split_once_Some_iff)
  qed
  ultimately show ?thesis
    using assms(2) unat_bounds
    unfolding parse_line_def fs Let_def line_fields_position[OF assms]
    by (simp only: option.case at front plain)
       (simp add: parse_num_show unescape_escape[OF assms(1)] mount_ok_def)
qed

lemma parse_lines_table:
  assumes "escaping E" "\<forall>m\<in>set ms. mount_ok m"
  shows "parse_lines i (map (\<lambda>m. join_with [SPACE] (line_fields E m)) ms @ [[]]) = Inr ms"
  using assms(2)
proof (induction ms arbitrary: i)
  case (Cons m ms)
  have "join_with [SPACE] (line_fields E m) \<noteq> []" by (simp add: line_fields_def)
  then show ?case using Cons parse_line_fields[OF assms(1), of m] by simp
qed simp

lemma split_table:
  assumes "escaping E" "\<forall>m\<in>set ms. mount_ok m"
  shows "split_on NEWLINE (table_text E ms) = map (\<lambda>m. join_with [SPACE] (line_fields E m)) ms @ [[]]"
proof -
  have "NEWLINE \<notin> set (join_with [SPACE] (line_fields E m))" if "m \<in> set ms" for m
    using set_join_with[of "[SPACE]" "line_fields E m"] line_fields_clean[OF assms(1), of m] assms(2) that
    by fastforce
  then have "\<forall>l\<in>set (map (\<lambda>m. join_with [SPACE] (line_fields E m)) ms). NEWLINE \<notin> set l" by simp
  from split_on_terminated[OF this] show ?thesis by (simp add: table_text_def comp_def)
qed

section \<open>The theorem\<close>


definition example_mount :: mount_info where
  "example_mount =
     \<lparr>mi_mount_id = 36, mi_parent_id = 35, mi_major = 98, mi_minor = 0, mi_root = ''/mnt 1'',
      mi_mount_point = ''/mnt2'', mi_options = ''rw,noatime'', mi_propagation = SharedAndSlave 5 1,
      mi_optional = [''shared:5'', ''master:1''], mi_fs_type = ''ext3'', mi_source = ''/dev/root'',
      mi_super = ''rw''\<rparr>"

lemma example_mount_ok: "mount_ok example_mount"
proof -
  have "classify_propagation [''shared:5'', ''master:1''] = Inr (SharedAndSlave 5 1)"
    by (simp add: classify_propagation_def parse_num_def parse_uint_def is_ascii_digit_def byte_def
        propagation_of_def)
  then show ?thesis
    by (simp add: mount_ok_def example_mount_def plain_text_def byte_def)
qed


end
