(* ===== verification/Watcher.thy ===== *)
theory Watcher
  imports Runtime_Props
begin

text \<open>
  \<open>src/src/watcher.rs\<close>: inotify watches on membership directories.  The inotify calls are a
  parameter.  Watches follow inodes, so the kernel may give one watch descriptor to two
  paths.
\<close>

section \<open>Watches\<close>

text \<open>The event and watch bits of the Linux headers.\<close>

definition IN_MODIFY :: u32 where "IN_MODIFY = 0x2"
definition IN_ATTRIB :: u32 where "IN_ATTRIB = 0x4"
definition IN_CLOSE_WRITE :: u32 where "IN_CLOSE_WRITE = 0x8"
definition IN_MOVED_FROM :: u32 where "IN_MOVED_FROM = 0x40"
definition IN_MOVED_TO :: u32 where "IN_MOVED_TO = 0x80"
definition IN_CREATE :: u32 where "IN_CREATE = 0x100"
definition IN_DELETE :: u32 where "IN_DELETE = 0x200"
definition IN_DELETE_SELF :: u32 where "IN_DELETE_SELF = 0x400"
definition IN_MOVE_SELF :: u32 where "IN_MOVE_SELF = 0x800"
definition IN_UNMOUNT :: u32 where "IN_UNMOUNT = 0x2000"
definition IN_Q_OVERFLOW :: u32 where "IN_Q_OVERFLOW = 0x4000"
definition IN_IGNORED :: u32 where "IN_IGNORED = 0x8000"
definition IN_ONLYDIR :: u32 where "IN_ONLYDIR = 0x1000000"
definition IN_DONT_FOLLOW :: u32 where "IN_DONT_FOLLOW = 0x2000000"

definition MEMBERSHIP_EVENTS :: u32 where
  "MEMBERSHIP_EVENTS =
     IN_CREATE OR IN_DELETE OR IN_MOVED_FROM OR IN_MOVED_TO OR IN_CLOSE_WRITE OR IN_ATTRIB
     OR IN_MODIFY OR IN_DELETE_SELF OR IN_MOVE_SELF OR IN_ONLYDIR"

record changes =
  ch_membership :: bool
  ch_overflow :: bool
  ch_lost :: "group_id list"
  ch_lost_sets :: "name list"

definition default_changes :: changes where
  "default_changes = \<lparr>ch_membership = False, ch_overflow = False, ch_lost = [], ch_lost_sets = []\<rparr>"

datatype watched = Watched_Group group_id | Watched_SetRoot name

type_synonym wd = int

record 'fd watcher =
  wt_fd :: 'fd
  wt_watches :: "(wd, watched) btree"
  wt_set_groups :: "(group_id, wd) btree"

record inotify_event =
  ev_wd :: wd
  ev_flags :: u32

record ('w, 'fd) inotify =
  in_init :: "('w, 'fd) sys"
  in_add :: "'fd \<Rightarrow> string \<Rightarrow> u32 \<Rightarrow> ('w, wd) sys"
  in_remove :: "'fd \<Rightarrow> wd \<Rightarrow> ('w, unit) sys"
  in_next :: "'fd \<Rightarrow> ('w, inotify_event) sys"

section \<open>Keeping up with the groups of sets\<close>

text \<open>\<open>release\<close>: a watch shared by another set group, or not a set group's, stays.\<close>

definition release ::
  "('w, 'fd) inotify \<Rightarrow> wd \<Rightarrow> 'fd watcher \<times> 'w \<Rightarrow> 'fd watcher \<times> 'w" where
  "release N d s =
     (case s of (wt, w) \<Rightarrow>
        if list_ex (\<lambda>other. other = d) (bt_values (wt_set_groups wt)) then (wt, w)
        else (case bt_get (wt_watches wt) d of
                Some (Watched_Group gid) \<Rightarrow>
                  if gid_set gid \<noteq> None then
                    (wt\<lparr>wt_watches := bt_remove d (wt_watches wt)\<rparr>, snd (in_remove N (wt_fd wt) d w))
                  else (wt, w)
              | _ \<Rightarrow> (wt, w)))"

text \<open>The loops of \<open>sync\<close>: the groups that are gone, then those that are there.\<close>

definition sync_gone ::
  "('w, 'fd) inotify \<Rightarrow> group_id \<Rightarrow> 'fd watcher \<times> 'w \<Rightarrow> 'fd watcher \<times> 'w" where
  "sync_gone N gid s =
     (case s of (wt, w) \<Rightarrow>
        (case bt_get (wt_set_groups wt) gid of
           None \<Rightarrow> (wt, w)
         | Some d \<Rightarrow> release N d (wt\<lparr>wt_set_groups := bt_remove gid (wt_set_groups wt)\<rparr>, w)))"

definition watch_as :: "wd \<Rightarrow> group_id \<Rightarrow> 'fd watcher \<times> 'w \<Rightarrow> 'fd watcher \<times> 'w" where
  "watch_as d gid s =
     (case s of (wt, w) \<Rightarrow>
        (if bt_contains (wt_watches wt) d then wt
         else wt\<lparr>wt_watches := bt_insert d (Watched_Group gid) (wt_watches wt)\<rparr>, w))"

definition sync_one ::
  "('w, 'fd) inotify \<Rightarrow> group_id \<times> abs_path \<Rightarrow> 'fd watcher \<times> 'w \<Rightarrow> 'fd watcher \<times> 'w" where
  "sync_one N gp s =
     (case gp of (gid, path) \<Rightarrow>
      (case s of (wt, w) \<Rightarrow>
        (case in_add N (wt_fd wt) (show_abs_path path) (MEMBERSHIP_EVENTS OR IN_DONT_FOLLOW) w of
           (Inl e, w) \<Rightarrow> if e = ENOENT then sync_gone N gid (wt, w) else (wt, w)
         | (Inr d, w) \<Rightarrow>
             let old = bt_get (wt_set_groups wt) gid;
                 s = (wt\<lparr>wt_set_groups := bt_insert gid d (wt_set_groups wt)\<rparr>, w)
             in watch_as d gid
                  (case old of Some k \<Rightarrow> (if k \<noteq> d then release N k s else s) | None \<Rightarrow> s))))"

definition current_dirs :: "'fd runtime \<Rightarrow> (group_id, abs_path) btree" where
  "current_dirs rt =
     bt_extend (rt_intermediates rt)
       (map (\<lambda>(gid, g). (gid, gc_membership (gr_config g)))
          (filter (\<lambda>(gid, _). gid_set gid \<noteq> None) (rt_groups rt)))"

definition sync :: "('w, 'fd) inotify \<Rightarrow> 'fd runtime \<Rightarrow> 'fd watcher \<Rightarrow> 'w \<Rightarrow> 'fd watcher \<times> 'w" where
  "sync N rt wt w =
     (let current = current_dirs rt;
          gone = filter (\<lambda>gid. \<not> bt_contains current gid) (bt_keys (wt_set_groups wt))
      in fold (sync_one N) current (fold (sync_gone N) gone (wt, w)))"

section \<open>A new watcher\<close>

datatype watch_error =
    Watch_Init errno
  | Watch_Membership abs_path group_id errno
  | Watch_SetRoot abs_path name errno

fun add_group_watches ::
  "('w, 'fd) inotify \<Rightarrow> (group_id \<times> 'fd group_runtime) list \<Rightarrow> 'fd watcher \<Rightarrow> 'w
     \<Rightarrow> (watch_error + 'fd watcher) \<times> 'w" where
  "add_group_watches N [] wt w = (Inr wt, w)"
| "add_group_watches N ((gid, g) # gs) wt w =
     (let path = gc_membership (gr_config g) in
      (case in_add N (wt_fd wt) (show_abs_path path) MEMBERSHIP_EVENTS w of
         (Inl e, w) \<Rightarrow> (Inl (Watch_Membership path gid e), w)
       | (Inr d, w) \<Rightarrow>
           add_group_watches N gs
             (wt\<lparr>wt_watches := bt_insert d (Watched_Group gid) (wt_watches wt)\<rparr>) w))"

fun add_set_watches ::
  "('w, 'fd) inotify \<Rightarrow> (name \<times> 'fd set_runtime) list \<Rightarrow> 'fd watcher \<Rightarrow> 'w
     \<Rightarrow> (watch_error + 'fd watcher) \<times> 'w" where
  "add_set_watches N [] wt w = (Inr wt, w)"
| "add_set_watches N ((st, s) # ss) wt w =
     (let path = sc_membership_root (sr_config s) in
      (case in_add N (wt_fd wt) (show_abs_path path) MEMBERSHIP_EVENTS w of
         (Inl e, w) \<Rightarrow> (Inl (Watch_SetRoot path st e), w)
       | (Inr d, w) \<Rightarrow>
           add_set_watches N ss
             (wt\<lparr>wt_watches := bt_insert d (Watched_SetRoot st) (wt_watches wt)\<rparr>) w))"

definition watcher_new ::
  "('w, 'fd) inotify \<Rightarrow> 'fd runtime \<Rightarrow> 'w \<Rightarrow> (watch_error + 'fd watcher) \<times> 'w" where
  "watcher_new N rt =
     bindE (mapErrE Watch_Init (in_init N)) (\<lambda>fd.
     bindE (add_group_watches N (filter (\<lambda>(gid, _). gid_set gid = None) (rt_groups rt))
              \<lparr>wt_fd = fd, wt_watches = [], wt_set_groups = []\<rparr>) (\<lambda>wt.
     bindE (add_set_watches N (rt_sets rt) wt) (\<lambda>wt w.
       case sync N rt wt w of (wt, w) \<Rightarrow> (Inr wt, w))))"

section \<open>Events\<close>

definition self_event :: "u32 \<Rightarrow> bool" where
  "self_event flags =
     (flags AND (IN_DELETE_SELF OR IN_MOVE_SELF OR IN_IGNORED) \<noteq> 0 \<or> flags AND IN_UNMOUNT \<noteq> 0)"

text \<open>One turn of the loop of \<open>drain\<close>.\<close>

definition add_event :: "(wd, watched) btree \<Rightarrow> inotify_event \<Rightarrow> changes \<Rightarrow> changes" where
  "add_event watches ev ch =
     (if ev_flags ev AND IN_Q_OVERFLOW = IN_Q_OVERFLOW then ch\<lparr>ch_overflow := True\<rparr>
      else
        (case bt_get watches (ev_wd ev) of
           None \<Rightarrow> ch
         | Some (Watched_Group gid) \<Rightarrow>
             if self_event (ev_flags ev) \<and> gid_set gid = None
             then ch\<lparr>ch_lost := bs_insert gid (ch_lost ch)\<rparr>
             else ch\<lparr>ch_membership := True\<rparr>
         | Some (Watched_SetRoot st) \<Rightarrow>
             if self_event (ev_flags ev)
             then ch\<lparr>ch_lost_sets := bs_insert st (ch_lost_sets ch)\<rparr>
             else ch\<lparr>ch_membership := True\<rparr>))"

text \<open>EINTR is 4.  A queue that never empties is the value \<open>None\<close>.\<close>

partial_function (option) drain_events ::
  "('w, 'fd) inotify \<Rightarrow> 'fd \<Rightarrow> (wd, watched) btree \<Rightarrow> changes \<Rightarrow> 'w \<Rightarrow> ((errno + changes) \<times> 'w) option" where
  "drain_events N fd watches ch w =
     (case in_next N fd w of
        (Inr ev, w) \<Rightarrow> drain_events N fd watches (add_event watches ev ch) w
      | (Inl e, w) \<Rightarrow>
          if e = EAGAIN then Some (Inr ch, w)
          else if e = Errno 4 then drain_events N fd watches ch w
          else Some (Inl e, w))"

definition forget_lost :: "changes \<Rightarrow> 'fd watcher \<Rightarrow> 'fd watcher" where
  "forget_lost ch wt =
     wt\<lparr>wt_watches :=
          bt_retain (\<lambda>_ x. \<not> list_ex (\<lambda>st. x = Watched_SetRoot st) (ch_lost_sets ch))
            (bt_retain (\<lambda>_ x. \<not> list_ex (\<lambda>gid. x = Watched_Group gid) (ch_lost ch)) (wt_watches wt))\<rparr>"

definition drain ::
  "('w, 'fd) inotify \<Rightarrow> 'fd watcher \<Rightarrow> 'w \<Rightarrow> ((errno + changes) \<times> 'fd watcher \<times> 'w) option" where
  "drain N wt w =
     (case drain_events N (wt_fd wt) (wt_watches wt) default_changes w of
        None \<Rightarrow> None
      | Some (Inl e, w) \<Rightarrow> Some (Inl e, wt, w)
      | Some (Inr ch, w) \<Rightarrow> Some (Inr ch, forget_lost ch wt, w))"

end
