(* ===== verification/Watcher_Props.thy ===== *)
theory Watcher_Props
  imports Watcher Toy_Kernel
begin

text \<open>
  The watcher follows the groups of sets without disturbing the other watches, and reads
  every event of the queue once.
\<close>

section \<open>What is tracked\<close>

definition is_set_watch :: "watched \<Rightarrow> bool" where
  "is_set_watch x = (case x of Watched_Group gid \<Rightarrow> gid_set gid \<noteq> None | Watched_SetRoot _ \<Rightarrow> False)"

text \<open>Every watch recorded for a group of a set is one of the groups' watches.\<close>

definition no_stray :: "'fd watcher \<Rightarrow> bool" where
  "no_stray wt =
     (\<forall>d x. bt_get (wt_watches wt) d = Some x \<and> is_set_watch x \<longrightarrow>
        (\<exists>gid. bt_get (wt_set_groups wt) gid = Some d))"

definition watcher_wf :: "'fd watcher \<Rightarrow> bool" where
  "watcher_wf wt = (bt_wf (wt_watches wt) \<and> bt_wf (wt_set_groups wt))"

text \<open>The watches that are not those of groups of sets are as before.\<close>

definition same_others :: "'fd watcher \<Rightarrow> 'fd watcher \<Rightarrow> bool" where
  "same_others wt wt' =
     (wt_fd wt' = wt_fd wt
      \<and> (\<forall>d x. \<not> is_set_watch x \<longrightarrow> (bt_get (wt_watches wt') d = Some x \<longleftrightarrow> bt_get (wt_watches wt) d = Some x)))"

lemma same_others_refl [simp]: "same_others wt wt"
  by (simp add: same_others_def)

lemma same_others_trans: "same_others a b \<Longrightarrow> same_others b c \<Longrightarrow> same_others a c"
  by (simp add: same_others_def)

lemma value_iff: "bt_wf m \<Longrightarrow> (\<exists>v\<in>set (bt_values m). v = d) \<longleftrightarrow> (\<exists>k. bt_get m k = Some d)"
  by (force simp: bt_values_def bt_get_iff)

section \<open>Releasing\<close>

text \<open>The state between the removal of a watch from \<open>set_groups\<close> and its release: only that
  watch may be stray.\<close>

definition only_stray :: "wd \<Rightarrow> 'fd watcher \<Rightarrow> bool" where
  "only_stray d wt =
     (\<forall>k x. bt_get (wt_watches wt) k = Some x \<and> is_set_watch x \<and> k \<noteq> d \<longrightarrow>
        (\<exists>gid. bt_get (wt_set_groups wt) gid = Some k))"

lemma release_ok:
  assumes "watcher_wf wt" "only_stray d wt" "release N d (wt, w) = (wt', w')"
  shows "watcher_wf wt' \<and> no_stray wt' \<and> same_others wt wt' \<and> wt_set_groups wt' = wt_set_groups wt
    \<and> (\<forall>k. (\<exists>gid. bt_get (wt_set_groups wt) gid = Some k) \<longrightarrow> bt_get (wt_watches wt') k = bt_get (wt_watches wt) k)"
proof (cases "\<exists>gid. bt_get (wt_set_groups wt) gid = Some d")
  case True
  then have "list_ex (\<lambda>other. other = d) (bt_values (wt_set_groups wt))"
    using value_iff[of "wt_set_groups wt" d] assms(1) by (simp add: list_ex_iff watcher_wf_def)
  then have "wt' = wt" using assms(3) by (simp add: release_def)
  moreover have "no_stray wt"
    using assms(2) True unfolding no_stray_def only_stray_def by metis
  ultimately show ?thesis using assms(1) by simp
next
  case False
  then have free: "\<not> list_ex (\<lambda>other. other = d) (bt_values (wt_set_groups wt))"
    using value_iff[of "wt_set_groups wt" d] assms(1) by (simp add: list_ex_iff watcher_wf_def)
  show ?thesis
  proof (cases "\<exists>x. bt_get (wt_watches wt) d = Some x \<and> is_set_watch x")
    case True
    then obtain y where y: "bt_get (wt_watches wt) d = Some y" "is_set_watch y" by blast
    then obtain gid where x: "bt_get (wt_watches wt) d = Some (Watched_Group gid)" "gid_set gid \<noteq> None"
      by (cases y) (auto simp: is_set_watch_def)
    then have wt': "wt' = wt\<lparr>wt_watches := bt_remove d (wt_watches wt)\<rparr>"
      using assms(3) free by (auto simp: release_def)
    have "same_others wt wt'"
      using x unfolding wt' same_others_def by (auto simp: bt_get_remove is_set_watch_def)
    moreover have "no_stray wt'"
      using assms(2) unfolding wt' no_stray_def only_stray_def by (auto simp: bt_get_remove split: if_splits)
    moreover have "watcher_wf wt'" using assms(1) unfolding wt' watcher_wf_def by (simp add: bt_wf_remove)
    ultimately show ?thesis using False unfolding wt' by (auto simp: bt_get_remove)
  next
    case no: False
    then have "wt' = wt"
      using assms(3) free unfolding release_def
      by (auto simp: is_set_watch_def split: option.splits watched.splits if_splits)
    moreover have "no_stray wt"
      using assms(2) no unfolding no_stray_def only_stray_def by metis
    ultimately show ?thesis using assms(1) by simp
  qed
qed

lemma sync_gone_ok:
  assumes "watcher_wf wt" "no_stray wt" "sync_gone N gid (wt, w) = (wt', w')"
  shows "watcher_wf wt' \<and> no_stray wt' \<and> same_others wt wt'
    \<and> (\<forall>k. bt_get (wt_set_groups wt') k = (if k = gid then None else bt_get (wt_set_groups wt) k))
    \<and> (\<forall>k d. k \<noteq> gid \<and> bt_get (wt_set_groups wt) k = Some d \<longrightarrow>
         bt_get (wt_watches wt') d = bt_get (wt_watches wt) d)"
proof (cases "bt_get (wt_set_groups wt) gid")
  case None
  then show ?thesis using assms by (auto simp: sync_gone_def)
next
  case (Some d)
  let ?wt = "wt\<lparr>wt_set_groups := bt_remove gid (wt_set_groups wt)\<rparr>"
  have r: "release N d (?wt, w) = (wt', w')" using assms(3) Some by (simp add: sync_gone_def)
  have wf: "watcher_wf ?wt" using assms(1) by (simp add: watcher_wf_def bt_wf_remove)
  have stray: "only_stray d ?wt"
    unfolding only_stray_def
  proof (intro allI impI)
    fix k x
    assume "bt_get (wt_watches ?wt) k = Some x \<and> is_set_watch x \<and> k \<noteq> d"
    then obtain g where "bt_get (wt_set_groups wt) g = Some k" "k \<noteq> d"
      using assms(2) unfolding no_stray_def by auto
    then have "bt_get (wt_set_groups ?wt) g = Some k" using Some by (auto simp: bt_get_remove)
    then show "\<exists>g. bt_get (wt_set_groups ?wt) g = Some k" by blast
  qed
  note ok = release_ok[OF wf stray r]
  show ?thesis
  proof (intro conjI)
    show "watcher_wf wt'" "no_stray wt'" using ok by blast+
    show "same_others wt wt'" using ok unfolding same_others_def by simp
    show "\<forall>k. bt_get (wt_set_groups wt') k = (if k = gid then None else bt_get (wt_set_groups wt) k)"
      using ok by (simp add: bt_get_remove)
    show "\<forall>k d. k \<noteq> gid \<and> bt_get (wt_set_groups wt) k = Some d \<longrightarrow> bt_get (wt_watches wt') d = bt_get (wt_watches wt) d"
    proof (intro allI impI)
      fix k d'
      assume "k \<noteq> gid \<and> bt_get (wt_set_groups wt) k = Some d'"
      then have "bt_get (wt_set_groups ?wt) k = Some d'" by (simp add: bt_get_remove)
      then show "bt_get (wt_watches wt') d' = bt_get (wt_watches wt) d'" using ok by auto
    qed
  qed
qed

section \<open>One directory\<close>

lemma watch_as_ok:
  assumes "watcher_wf wt" "no_stray wt" "bt_get (wt_set_groups wt) gid = Some d" "gid_set gid \<noteq> None"
    and "watch_as d gid (wt, w) = (wt', w')"
  shows "watcher_wf wt' \<and> no_stray wt' \<and> same_others wt wt' \<and> wt_set_groups wt' = wt_set_groups wt
    \<and> bt_get (wt_watches wt') d \<noteq> None
    \<and> (\<forall>k x. bt_get (wt_watches wt) k = Some x \<longrightarrow> bt_get (wt_watches wt') k = Some x)"
proof (cases "bt_contains (wt_watches wt) d")
  case True
  then have "bt_get (wt_watches wt) d \<noteq> None" by (metis bt_contains_iff bt_get_None_iff)
  moreover have "wt' = wt" using assms(5) True by (simp add: watch_as_def)
  ultimately show ?thesis using assms(1-3) by simp
next
  case False
  then have absent: "bt_get (wt_watches wt) d = None" by (simp add: bt_contains_iff bt_get_None_iff)
  have wt': "wt' = wt\<lparr>wt_watches := bt_insert d (Watched_Group gid) (wt_watches wt)\<rparr>"
    using assms(5) False by (simp add: watch_as_def)
  have "no_stray wt'"
    using assms(2,3) unfolding wt' no_stray_def by (auto simp: bt_get_insert split: if_splits)
  moreover have "same_others wt wt'"
    using absent assms(4) unfolding wt' same_others_def by (auto simp: bt_get_insert is_set_watch_def)
  ultimately show ?thesis
    using assms(1) absent unfolding wt' watcher_wf_def by (auto simp: bt_get_insert bt_wf_insert)
qed

text \<open>Recording the new descriptor of a group and releasing the one it had.\<close>

lemma stray_after_insert:
  assumes "no_stray wt" "bt_get (wt_set_groups wt) gid = Some k"
  shows "only_stray k (wt\<lparr>wt_set_groups := bt_insert gid d (wt_set_groups wt)\<rparr>)"
  unfolding only_stray_def
proof (intro allI impI)
  fix j x
  let ?wt = "wt\<lparr>wt_set_groups := bt_insert gid d (wt_set_groups wt)\<rparr>"
  assume "bt_get (wt_watches ?wt) j = Some x \<and> is_set_watch x \<and> j \<noteq> k"
  then obtain h where "bt_get (wt_set_groups wt) h = Some j" "j \<noteq> k"
    using assms(1) unfolding no_stray_def by auto
  then have "bt_get (wt_set_groups ?wt) h = Some j" using assms(2) by (auto simp: bt_get_insert)
  then show "\<exists>h. bt_get (wt_set_groups ?wt) h = Some j" by blast
qed

lemma no_stray_after_insert:
  assumes "no_stray wt" "bt_get (wt_set_groups wt) gid = None \<or> bt_get (wt_set_groups wt) gid = Some d"
  shows "no_stray (wt\<lparr>wt_set_groups := bt_insert gid d (wt_set_groups wt)\<rparr>)"
  unfolding no_stray_def
proof (intro allI impI)
  fix j x
  let ?wt = "wt\<lparr>wt_set_groups := bt_insert gid d (wt_set_groups wt)\<rparr>"
  assume "bt_get (wt_watches ?wt) j = Some x \<and> is_set_watch x"
  then obtain h where "bt_get (wt_set_groups wt) h = Some j" using assms(1) unfolding no_stray_def by auto
  then have "bt_get (wt_set_groups ?wt) h = Some j" using assms(2) by (auto simp: bt_get_insert)
  then show "\<exists>h. bt_get (wt_set_groups ?wt) h = Some j" by blast
qed

lemma replace_old_ok:
  assumes "watcher_wf wt" "no_stray wt"
    and wt1: "wt1 = wt\<lparr>wt_set_groups := bt_insert gid d (wt_set_groups wt)\<rparr>"
    and run: "(case bt_get (wt_set_groups wt) gid of
        Some k \<Rightarrow> (if k \<noteq> d then release N k (wt1, w) else (wt1, w)) | None \<Rightarrow> (wt1, w)) = (wt2, w2)"
  shows "watcher_wf wt2 \<and> no_stray wt2 \<and> same_others wt1 wt2 \<and> wt_set_groups wt2 = wt_set_groups wt1
    \<and> (\<forall>k. (\<exists>gid. bt_get (wt_set_groups wt1) gid = Some k) \<longrightarrow> bt_get (wt_watches wt2) k = bt_get (wt_watches wt1) k)"
proof (cases "bt_get (wt_set_groups wt) gid = None \<or> bt_get (wt_set_groups wt) gid = Some d")
  case True
  then have "wt2 = wt1" using run by auto
  moreover have "watcher_wf wt1" using assms(1) by (simp add: wt1 watcher_wf_def bt_wf_insert)
  moreover have "no_stray wt1" unfolding wt1 by (rule no_stray_after_insert[OF assms(2) True])
  ultimately show ?thesis by simp
next
  case False
  then obtain k where k: "bt_get (wt_set_groups wt) gid = Some k" "k \<noteq> d" by auto
  then have rel: "release N k (wt1, w) = (wt2, w2)" using run by simp
  have wf1: "watcher_wf wt1" using assms(1) by (simp add: wt1 watcher_wf_def bt_wf_insert)
  have "only_stray k wt1" unfolding wt1 by (rule stray_after_insert[OF assms(2) k(1)])
  from release_ok[OF wf1 this rel] show ?thesis .
qed

lemma sync_one_ok:
  assumes wf: "watcher_wf wt" "no_stray wt" and g: "gid_set gid \<noteq> None"
    and s: "sync_one N (gid, path) (wt, w) = (wt', w')"
    and add: "in_add N (wt_fd wt) (show_abs_path path) (MEMBERSHIP_EVENTS OR IN_DONT_FOLLOW) w = (r, w1)"
  shows "watcher_wf wt' \<and> no_stray wt' \<and> same_others wt wt'
    \<and> (\<forall>k. k \<noteq> gid \<longrightarrow> bt_get (wt_set_groups wt') k = bt_get (wt_set_groups wt) k)
    \<and> (\<forall>k d. k \<noteq> gid \<and> bt_get (wt_set_groups wt) k = Some d \<and> bt_get (wt_watches wt) d \<noteq> None
         \<longrightarrow> bt_get (wt_watches wt') d \<noteq> None)
    \<and> (case r of
         Inr d \<Rightarrow> bt_get (wt_set_groups wt') gid = Some d \<and> bt_get (wt_watches wt') d \<noteq> None
       | Inl e \<Rightarrow> bt_get (wt_set_groups wt') gid
           = (if e = ENOENT then None else bt_get (wt_set_groups wt) gid))"
proof (cases r)
  case (Inl e)
  show ?thesis
  proof (cases "e = ENOENT")
    case True
    then have "sync_gone N gid (wt, w1) = (wt', w')" using s add Inl by (simp add: sync_one_def)
    from sync_gone_ok[OF wf this] show ?thesis using Inl True by auto
  next
    case False
    then have "wt' = wt" using s add Inl by (simp add: sync_one_def)
    then show ?thesis using wf Inl False by simp
  qed
next
  case (Inr d)
  let ?wt = "wt\<lparr>wt_set_groups := bt_insert gid d (wt_set_groups wt)\<rparr>"
  let ?old = "bt_get (wt_set_groups wt) gid"
  obtain wt2 w2 where mid: "(case ?old of Some k \<Rightarrow> (if k \<noteq> d then release N k (?wt, w1) else (?wt, w1))
      | None \<Rightarrow> (?wt, w1)) = (wt2, w2)" by fastforce
  have last: "watch_as d gid (wt2, w2) = (wt', w')"
    using s add Inr mid by (simp add: sync_one_def Let_def)
  note m = replace_old_ok[OF wf refl mid]
  have gd: "bt_get (wt_set_groups wt2) gid = Some d" using m by (simp add: bt_get_insert)
  note l = watch_as_ok[OF m[THEN conjunct1] m[THEN conjunct2, THEN conjunct1] gd g last]
  have "bt_get (wt_watches wt') k \<noteq> None"
    if "j \<noteq> gid" "bt_get (wt_set_groups wt) j = Some k" "bt_get (wt_watches wt) k \<noteq> None" for j k
  proof -
    have "bt_get (wt_set_groups ?wt) j = Some k" using that by (simp add: bt_get_insert)
    then have "bt_get (wt_watches wt2) k = bt_get (wt_watches wt) k" using m by auto
    then show ?thesis using l that(3) by auto
  qed
  moreover have "same_others wt wt'" using m l unfolding same_others_def by simp
  moreover have "\<forall>k. k \<noteq> gid \<longrightarrow> bt_get (wt_set_groups wt') k = bt_get (wt_set_groups wt) k"
    using m l by (simp add: bt_get_insert)
  ultimately show ?thesis using l gd Inr by auto
qed

section \<open>All directories\<close>

lemma sync_gone_all:
  assumes "watcher_wf wt" "no_stray wt" "fold (sync_gone N) gone (wt, w) = (wt', w')"
  shows "watcher_wf wt' \<and> no_stray wt' \<and> same_others wt wt'
    \<and> (\<forall>k. bt_get (wt_set_groups wt') k = (if k \<in> set gone then None else bt_get (wt_set_groups wt) k))"
  using assms
proof (induction gone arbitrary: wt w)
  case (Cons g gone)
  obtain wt1 w1 where s: "sync_gone N g (wt, w) = (wt1, w1)" by fastforce
  note one = sync_gone_ok[OF Cons.prems(1,2) s]
  have "fold (sync_gone N) gone (wt1, w1) = (wt', w')" using Cons.prems(3) s by simp
  note rest = Cons.IH[OF one[THEN conjunct1] one[THEN conjunct2, THEN conjunct1] this]
  then show ?case using one same_others_trans by auto
qed simp

text \<open>What the kernel answers for each directory of a pass.\<close>

definition tracked :: "(string \<Rightarrow> errno + wd) \<Rightarrow> 'fd watcher \<Rightarrow> 'fd watcher \<Rightarrow> group_id \<times> abs_path \<Rightarrow> bool" where
  "tracked answer wt wt' gp =
     (case gp of (gid, path) \<Rightarrow>
        (case answer (show_abs_path path) of
           Inr d \<Rightarrow> bt_get (wt_set_groups wt') gid = Some d \<and> bt_get (wt_watches wt') d \<noteq> None
         | Inl e \<Rightarrow> bt_get (wt_set_groups wt') gid
             = (if e = ENOENT then None else bt_get (wt_set_groups wt) gid)))"

lemma sync_one_all:
  assumes "watcher_wf wt" "no_stray wt" "fold (sync_one N) dirs (wt, w) = (wt', w')"
    and "\<forall>(gid, _)\<in>set dirs. gid_set gid \<noteq> None" "distinct (map fst dirs)"
    and "\<forall>p w. fst (in_add N (wt_fd wt) p (MEMBERSHIP_EVENTS OR IN_DONT_FOLLOW) w) = answer p"
  shows "watcher_wf wt' \<and> no_stray wt' \<and> same_others wt wt'
    \<and> (\<forall>k. k \<notin> fst ` set dirs \<longrightarrow> bt_get (wt_set_groups wt') k = bt_get (wt_set_groups wt) k)
    \<and> (\<forall>k d. k \<notin> fst ` set dirs \<and> bt_get (wt_set_groups wt) k = Some d \<and> bt_get (wt_watches wt) d \<noteq> None
         \<longrightarrow> bt_get (wt_watches wt') d \<noteq> None)
    \<and> (\<forall>gp\<in>set dirs. tracked answer wt wt' gp)"
  using assms
proof (induction dirs arbitrary: wt w)
  case (Cons gp dirs)
  obtain gid path where gp: "gp = (gid, path)" by (cases gp)
  obtain wt1 w1 where s: "sync_one N (gid, path) (wt, w) = (wt1, w1)" by fastforce
  obtain r w0 where add: "in_add N (wt_fd wt) (show_abs_path path) (MEMBERSHIP_EVENTS OR IN_DONT_FOLLOW) w = (r, w0)"
    by fastforce
  have r: "r = answer (show_abs_path path)" using Cons.prems(6) add by (metis fst_conv)
  have g: "gid_set gid \<noteq> None" using Cons.prems(4) gp by auto
  note one = sync_one_ok[OF Cons.prems(1,2) g s add]
  have fd: "wt_fd wt1 = wt_fd wt" using one by (simp add: same_others_def)
  have rest: "watcher_wf wt' \<and> no_stray wt' \<and> same_others wt1 wt'
    \<and> (\<forall>k. k \<notin> fst ` set dirs \<longrightarrow> bt_get (wt_set_groups wt') k = bt_get (wt_set_groups wt1) k)
    \<and> (\<forall>k d. k \<notin> fst ` set dirs \<and> bt_get (wt_set_groups wt1) k = Some d \<and> bt_get (wt_watches wt1) d \<noteq> None
         \<longrightarrow> bt_get (wt_watches wt') d \<noteq> None)
    \<and> (\<forall>gp\<in>set dirs. tracked answer wt1 wt' gp)"
    by (rule Cons.IH[of wt1 w1]) (use one Cons.prems gp s fd in auto)
  have new: "gid \<notin> fst ` set dirs" using Cons.prems(5) gp by auto
  have "tracked answer wt wt' gp'" if "gp' \<in> set dirs" for gp'
  proof -
    obtain k p where k: "gp' = (k, p)" by (cases gp')
    then have "k \<noteq> gid" using that new by force
    then have "bt_get (wt_set_groups wt1) k = bt_get (wt_set_groups wt) k" using one by blast
    then show ?thesis using rest that k unfolding tracked_def by (auto split: sum.splits)
  qed
  moreover have "tracked answer wt wt' gp"
  proof (cases r)
    case (Inl e)
    then show ?thesis using one rest new r gp by (simp add: tracked_def)
  next
    case (Inr d)
    then show ?thesis using one rest new r gp unfolding tracked_def by (auto split: sum.splits)
  qed
  moreover have "same_others wt wt'" using one rest same_others_trans by blast
  ultimately show ?case using one rest gp by auto
qed simp

lemma current_dirs_wf:
  assumes "runtime_ok rt" "\<forall>(gid, _)\<in>set (rt_intermediates rt). gid_set gid \<noteq> None"
  shows "bt_wf (current_dirs rt)" "\<forall>(gid, _)\<in>set (current_dirs rt). gid_set gid \<noteq> None"
proof -
  let ?base = "map (\<lambda>(gid, g). (gid, gc_membership (gr_config g)))
          (filter (\<lambda>(gid, _). gid_set gid \<noteq> None) (rt_groups rt))"
  have base: "bt_wf ?base"
  proof -
    have "bt_wf (filter (\<lambda>(gid, _). gid_set gid \<noteq> None) (rt_groups rt))"
      using bt_wf_retain[of "rt_groups rt" "\<lambda>gid _. gid_set gid \<noteq> None"] assms(1)
      by (simp add: runtime_ok_def bt_retain_def)
    then show ?thesis unfolding bt_wf_def by (simp add: comp_def case_prod_beta')
  qed
  have "bt_wf (bt_extend xs m)" if "bt_wf m" for xs and m :: "(group_id, abs_path) btree"
    using that unfolding bt_extend_def by (induction xs arbitrary: m) (auto intro: bt_wf_insert)
  then show "bt_wf (current_dirs rt)" unfolding current_dirs_def using base by blast
  have "set (bt_extend xs m) \<subseteq> set xs \<union> set m" for xs and m :: "(group_id, abs_path) btree"
    unfolding bt_extend_def
  proof (induction xs arbitrary: m)
    case (Cons x xs)
    then show ?case using set_bt_insert[of "fst x" "snd x" m] by (fastforce simp: case_prod_beta')
  qed simp
  then show "\<forall>(gid, _)\<in>set (current_dirs rt). gid_set gid \<noteq> None"
    unfolding current_dirs_def using assms(2) by fastforce
qed

section \<open>The queue\<close>

text \<open>The kernel's event queue: a read takes the first event, or says EAGAIN when there is none.\<close>

definition event_queue :: "('w, 'fd) inotify \<Rightarrow> 'fd \<Rightarrow> ('w \<Rightarrow> inotify_event list) \<Rightarrow> bool" where
  "event_queue N fd q =
     (\<forall>w. (case q w of
             [] \<Rightarrow> (\<exists>w'. in_next N fd w = (Inl EAGAIN, w') \<and> q w' = [])
           | ev # evs \<Rightarrow> (\<exists>w'. in_next N fd w = (Inr ev, w') \<and> q w' = evs)))"

lemma drain_events_all:
  assumes "event_queue N fd q"
  shows "\<exists>w'. drain_events N fd watches ch w = Some (Inr (fold (add_event watches) (q w) ch), w') \<and> q w' = []"
proof (induction "q w" arbitrary: w ch)
  case Nil
  then obtain w' where "in_next N fd w = (Inl EAGAIN, w')" "q w' = []"
    using assms[unfolded event_queue_def, rule_format, of w] Nil[symmetric] by auto
  then show ?case using Nil[symmetric] by (subst drain_events.simps) simp
next
  case (Cons ev evs)
  then obtain w1 where w1: "in_next N fd w = (Inr ev, w1)" "q w1 = evs"
    using assms[unfolded event_queue_def, rule_format, of w] Cons.hyps(2)[symmetric] by auto
  from Cons.hyps(1)[OF w1(2)[symmetric], of "add_event watches ev ch"] obtain w' where
    "drain_events N fd watches (add_event watches ev ch) w1
       = Some (Inr (fold (add_event watches) evs (add_event watches ev ch)), w')" "q w' = []"
    using w1(2) by auto
  then show ?case using w1 Cons.hyps(2)[symmetric] by (subst drain_events.simps) simp
qed

text \<open>What one event means.\<close>

definition overflows :: "inotify_event \<Rightarrow> bool" where
  "overflows ev = (ev_flags ev AND IN_Q_OVERFLOW = IN_Q_OVERFLOW)"

definition loses :: "(wd, watched) btree \<Rightarrow> watched \<Rightarrow> inotify_event \<Rightarrow> bool" where
  "loses watches x ev =
     (\<not> overflows ev \<and> bt_get watches (ev_wd ev) = Some x \<and> self_event (ev_flags ev) \<and> \<not> is_set_watch x)"

definition alters :: "(wd, watched) btree \<Rightarrow> inotify_event \<Rightarrow> bool" where
  "alters watches ev =
     (\<not> overflows ev \<and> (\<exists>x. bt_get watches (ev_wd ev) = Some x \<and> (\<not> self_event (ev_flags ev) \<or> is_set_watch x)))"

lemma add_event_meaning:
  "ch_overflow (add_event watches ev ch) \<longleftrightarrow> ch_overflow ch \<or> overflows ev"
  "ch_membership (add_event watches ev ch) \<longleftrightarrow> ch_membership ch \<or> alters watches ev"
  "set (ch_lost (add_event watches ev ch)) = set (ch_lost ch) \<union> {gid. loses watches (Watched_Group gid) ev}"
  "set (ch_lost_sets (add_event watches ev ch)) = set (ch_lost_sets ch) \<union> {st. loses watches (Watched_SetRoot st) ev}"
  unfolding add_event_def overflows_def[symmetric] loses_def alters_def is_set_watch_def
  by (auto split: option.split watched.split)

lemma fold_add_event:
  "ch_overflow (fold (add_event watches) evs ch) \<longleftrightarrow> ch_overflow ch \<or> (\<exists>ev\<in>set evs. overflows ev)"
  "ch_membership (fold (add_event watches) evs ch) \<longleftrightarrow> ch_membership ch \<or> (\<exists>ev\<in>set evs. alters watches ev)"
  "set (ch_lost (fold (add_event watches) evs ch))
     = set (ch_lost ch) \<union> {gid. \<exists>ev\<in>set evs. loses watches (Watched_Group gid) ev}"
  "set (ch_lost_sets (fold (add_event watches) evs ch))
     = set (ch_lost_sets ch) \<union> {st. \<exists>ev\<in>set evs. loses watches (Watched_SetRoot st) ev}"
  by (induction evs arbitrary: ch) (auto simp: add_event_meaning)

section \<open>The theorems\<close>



section \<open>An example\<close>

definition queue_inotify :: "(inotify_event list, string) inotify" where
  "queue_inotify =
     \<lparr>in_init = \<lambda>w. (Inr ''i'', w), in_add = \<lambda>_ p _ w. (Inr (int (length p)), w), in_remove = \<lambda>_ _ w. (Inr (), w),
      in_next = \<lambda>_ w. (case w of [] \<Rightarrow> (Inl EAGAIN, []) | ev # evs \<Rightarrow> (Inr ev, evs))\<rparr>"

definition example_watcher :: "string watcher" where
  "example_watcher =
     \<lparr>wt_fd = ''i'', wt_watches = [(1, Watched_Group (statically (Name ''g''))), (2, Watched_SetRoot (Name ''s''))],
      wt_set_groups = []\<rparr>"

definition moved_away :: inotify_event where
  "moved_away = \<lparr>ev_wd = 1, ev_flags = IN_MOVE_SELF\<rparr>"



end
