(* ===== verification/Probe.thy ===== *)
theory Probe
  imports Mountinfo Fsops
begin

text \<open>
  \<open>src/src/probe.rs\<close>: what the kernel supports, whether \<open>/proc\<close> is procfs, and whether mounts
  beneath a target root propagate.  The calls made on purpose with invalid arguments, and the
  reading of files beneath \<open>/proc\<close>, are parameters.
\<close>

section \<open>Features\<close>

datatype feature = F_Available | F_Missing

record ('w, 'fd) probe_calls =
  pc_open_tree :: "('w, unit) sys"
  pc_move_mount :: "('w, unit) sys"
  pc_openat2 :: "('w, unit) sys"
  pc_mount_setattr :: "'w \<Rightarrow> errno \<times> 'w"
  pc_statx :: "string \<Rightarrow> u32 \<Rightarrow> ('w, statx) sys"
  pc_fs_type :: "'fd \<Rightarrow> ('w, u64) sys"
  pc_read :: "string \<Rightarrow> ('w, string) io"

text \<open>ENOSYS is 38.\<close>

definition from_probe_error :: "errno \<Rightarrow> feature" where
  "from_probe_error e = (if e = Errno 38 then F_Missing else F_Available)"

definition is_available :: "feature \<Rightarrow> bool" where
  "is_available f = (f = F_Available)"

definition show_feature :: "feature \<Rightarrow> string" where
  "show_feature f = (case f of F_Available \<Rightarrow> ''ok'' | F_Missing \<Rightarrow> ''missing'')"

record kernel_features =
  kf_open_tree :: feature
  kf_move_mount :: feature
  kf_openat2 :: feature
  kf_mount_setattr :: feature
  kf_statx_mnt_id :: feature
  kf_statx_mount_root :: feature
  kf_statx_mnt_id_unique :: feature

definition required :: "kernel_features \<Rightarrow> (string \<times> feature) list" where
  "required k =
     [(''open_tree'', kf_open_tree k), (''move_mount'', kf_move_mount k), (''openat2'', kf_openat2 k),
      (''mount_setattr'', kf_mount_setattr k), (''statx_mnt_id'', kf_statx_mnt_id k),
      (''statx_mount_root'', kf_statx_mount_root k)]"

definition missing_required :: "kernel_features \<Rightarrow> (string \<times> feature) list" where
  "missing_required k = filter (\<lambda>(_, f). \<not> is_available f) (required k)"

definition unique_mount_ids :: "kernel_features \<Rightarrow> bool" where
  "unique_mount_ids k = is_available (kf_statx_mnt_id_unique k)"

definition probed :: "errno + 'a \<Rightarrow> feature" where
  "probed r = (case r of Inr _ \<Rightarrow> F_Available | Inl e \<Rightarrow> from_probe_error e)"

definition if_set :: "bool \<Rightarrow> feature" where
  "if_set b = (if b then F_Available else F_Missing)"

definition probe_statx :: "('w, 'fd) probe_calls \<Rightarrow> 'w \<Rightarrow> (feature \<times> feature \<times> feature) \<times> 'w" where
  "probe_statx P w =
     (case pc_statx P ''/'' (STATX_BASIC_STATS OR STATX_MNT_ID) w of
        (Inl _, w) \<Rightarrow> ((F_Missing, F_Missing, F_Missing), w)
      | (Inr st, w) \<Rightarrow>
          (case pc_statx P ''/'' STATX_MNT_ID_UNIQUE w of
             (r, w) \<Rightarrow>
               ((if_set (stx_mask st AND STATX_MNT_ID \<noteq> 0),
                 if_set (stx_attributes_mask st AND STATX_ATTR_MOUNT_ROOT = STATX_ATTR_MOUNT_ROOT),
                 (case r of
                    Inr st' \<Rightarrow> if_set (stx_mask st' AND STATX_MNT_ID_UNIQUE \<noteq> 0)
                  | Inl e \<Rightarrow> from_probe_error e)), w)))"

definition probe_kernel :: "('w, 'fd) probe_calls \<Rightarrow> 'w \<Rightarrow> kernel_features \<times> 'w" where
  "probe_kernel P w =
     (case pc_open_tree P w of (tree, w) \<Rightarrow>
      case pc_move_mount P w of (move, w) \<Rightarrow>
      case pc_openat2 P w of (openat, w) \<Rightarrow>
      case pc_mount_setattr P w of (setattr, w) \<Rightarrow>
      case probe_statx P w of ((f_id, f_root, f_uniq), w) \<Rightarrow>
        (\<lparr>kf_open_tree = probed tree, kf_move_mount = probed move, kf_openat2 = probed openat,
          kf_mount_setattr = from_probe_error setattr, kf_statx_mnt_id = f_id,
          kf_statx_mount_root = f_root, kf_statx_mnt_id_unique = f_uniq\<rparr>, w))"

text \<open>\<open>read_to_string\<close> fails on text that is not UTF-8.\<close>

definition seccomp_filter_active :: "('w, 'fd) probe_calls \<Rightarrow> 'w \<Rightarrow> bool \<times> 'w" where
  "seccomp_filter_active P w =
     (case pc_read P ''/proc/self/status'' w of
        (Inl _, w) \<Rightarrow> (False, w)
      | (Inr status, w) \<Rightarrow>
          (is_utf8 status \<and> list_ex (\<lambda>line.
             (case split_once (CHR '':'') line of
                None \<Rightarrow> False | Some (k, v) \<Rightarrow> k = ''Seccomp'' \<and> trim v = ''2''))
             (text_lines status), w))"

definition missing_features_hint :: "bool \<Rightarrow> string" where
  "missing_features_hint seccomp_filtered =
     (if seccomp_filtered then
        ''blocked by this process'' @ [CHR 0x27] @ ''s seccomp filter, or not supported by the kernel (Linux 5.12 or newer is required). Under systemd, check for SystemCallFilter= changes and do not use RestrictSUIDSGID=, which blocks openat2''
      else ''Linux 5.12 or newer is required'')"

section \<open>procfs\<close>

definition PROC_SUPER_MAGIC :: u64 where "PROC_SUPER_MAGIC = 0x9fa0"

definition check_procfs :: "('w, 'fd) probe_calls \<Rightarrow> 'fd \<Rightarrow> ('w, unit) io" where
  "check_procfs P fd =
     bindE (osE (pc_fs_type P fd)) (\<lambda>f_type.
       if f_type = PROC_SUPER_MAGIC then retE ()
       else failE (Custom (''not a procfs filesystem (f_type 0x'' @ show_hex (unat f_type) @ '')'')))"

definition verify_procfs ::
  "('w, 'fd) kernel \<Rightarrow> ('w, 'fd) probe_calls \<Rightarrow> string \<Rightarrow> ('w, 'fd) io" where
  "verify_procfs K P proc_path =
     bindE (osE (k_open K proc_path [O_PATH, O_DIRECTORY, O_CLOEXEC, O_NOFOLLOW])) (\<lambda>fd.
     bindE (check_procfs P fd) (\<lambda>_. retE fd))"

section \<open>Propagation\<close>

datatype propagation_check =
    PC_Shared
  | PC_Private
  | PC_SlaveOnly
  | PC_SharedAndSlave
  | PC_Unbindable
  | PC_Unknown string

definition describe_propagation :: "propagation_check \<Rightarrow> string" where
  "describe_propagation c =
     (case c of
        PC_Shared \<Rightarrow> ''shared''
      | PC_Private \<Rightarrow> ''private (mounts will not reach containers via rslave)''
      | PC_SlaveOnly \<Rightarrow> ''slave only (the daemon appears to run in a non-host mount namespace; mounts will be invisible outside it)''
      | PC_SharedAndSlave \<Rightarrow> ''shared but also a slave (the daemon appears to run in a private mount namespace, for example one created by a systemd option; mounts will not propagate back to the host)''
      | PC_Unbindable \<Rightarrow> ''unbindable (mounts will not reach containers)''
      | PC_Unknown why \<Rightarrow> ''unknown ('' @ why @ '')'')"

definition is_slave :: "propagation_check \<Rightarrow> bool" where
  "is_slave c = (c = PC_SlaveOnly \<or> c = PC_SharedAndSlave)"

definition classify_mount :: "mount_table \<Rightarrow> u64 \<Rightarrow> propagation_check" where
  "classify_mount table mount_id =
     (case map_option mi_propagation (by_id table mount_id) of
        Some (Shared _) \<Rightarrow> PC_Shared
      | Some (SharedAndSlave _ _) \<Rightarrow> PC_SharedAndSlave
      | Some Private \<Rightarrow> PC_Private
      | Some (Slave _) \<Rightarrow> PC_SlaveOnly
      | Some Unbindable \<Rightarrow> PC_Unbindable
      | None \<Rightarrow> PC_Unknown (''mount ID '' @ show_nat (unat mount_id) @ '' not found in mountinfo''))"

definition check_propagation ::
  "('w, 'fd) kernel \<Rightarrow> mount_table \<Rightarrow> 'fd \<Rightarrow> 'w \<Rightarrow> propagation_check \<times> 'w" where
  "check_propagation K table fd w =
     (case k_statx K fd [] [AT_EMPTY_PATH] STATX_MNT_ID w of
        (Inl e, w) \<Rightarrow> (PC_Unknown (k_text K e), w)
      | (Inr st, w) \<Rightarrow>
          (if stx_mask st AND STATX_MNT_ID \<noteq> 0 then classify_mount table (stx_mnt_id st)
           else PC_Unknown ''kernel did not report mount ID'', w))"

definition namespace_inode :: "('w, 'fd) probe_calls \<Rightarrow> string \<Rightarrow> 'w \<Rightarrow> (u32 \<times> u32 \<times> u64) option \<times> 'w" where
  "namespace_inode P path w =
     (case pc_statx P path STATX_INO w of
        (Inl _, w) \<Rightarrow> (None, w)
      | (Inr st, w) \<Rightarrow> (Some (stx_dev_major st, stx_dev_minor st, stx_ino st), w))"

definition same_mount_namespace_as_init :: "('w, 'fd) probe_calls \<Rightarrow> 'w \<Rightarrow> bool option \<times> 'w" where
  "same_mount_namespace_as_init P w =
     (case namespace_inode P ''/proc/self/ns/mnt'' w of
        (None, w) \<Rightarrow> (None, w)
      | (Some own, w) \<Rightarrow>
          (case namespace_inode P ''/proc/1/ns/mnt'' w of
             (None, w) \<Rightarrow> (None, w)
           | (Some init, w) \<Rightarrow> (Some (own = init), w)))"

end
