(* ===== verification/App.thy ===== *)
theory App
  imports Config_Load Privileges_Props Users Probe State_Store Execute_Sink Reconcile Watcher
begin

text \<open>
  \<open>src/src/app.rs\<close> and \<open>src/src/lock.rs\<close>: the startup logic of the daemon and of the command
  line tool.  The system, all the calls and libraries it uses, is one parameter.
\<close>

section \<open>The system\<close>

text \<open>The last two are \<open>str::escape_debug\<close>, which follows tables of Unicode, and the
  \<open>Debug\<close> form of an operation, which that of capability sets (the crate \<open>rustix\<close>) is part of.\<close>

record ('w, 'fd, 'v) system =
  sy_kernel :: "('w, 'fd) kernel"
  sy_files :: "('w, 'fd) host_files"
  sy_creds :: "'w creds"
  sy_probe :: "('w, 'fd) probe_calls"
  sy_inotify :: "('w, 'fd) inotify"
  sy_flock :: "'fd \<Rightarrow> ('w, unit) sys"
  sy_json :: "'v serde_json"
  sy_toml :: "string \<Rightarrow> string + raw_file"
  sy_strftime :: "timestamp \<Rightarrow> string"
  sy_escape_debug :: "string \<Rightarrow> string"
  sy_debug_op :: "op \<Rightarrow> string"

section \<open>The state lock\<close>

definition LOCK_FILE_NAME :: string where "LOCK_FILE_NAME = ''lock''"

datatype lock_error = Lock_Held | Lock_Io io_error

text \<open>The mode is 0640; EWOULDBLOCK is EAGAIN on Linux.\<close>

definition lock_acquire ::
  "('w, 'fd, 'v) system \<Rightarrow> 'fd \<Rightarrow> 'w \<Rightarrow> (lock_error + 'fd) \<times> 'w" where
  "lock_acquire S state_dir =
     bindE (mapErrE (\<lambda>e. Lock_Io (Os e))
              (k_openat (sy_kernel S) state_dir LOCK_FILE_NAME
                 [O_RDWR, O_CREATE, O_CLOEXEC, O_NOFOLLOW] 416)) (\<lambda>fd w.
       case sy_flock S fd w of
         (Inr _, w) \<Rightarrow> (Inr fd, w)
       | (Inl e, w) \<Rightarrow> (Inl (if e = EAGAIN then Lock_Held else Lock_Io (Os e)), w))"

section \<open>Configuration\<close>

record config_source =
  so_file :: "string option"
  so_dir :: "string option"

definition source_options :: "config_source \<Rightarrow> ownership_policy \<Rightarrow> load_options" where
  "source_options src ownership =
     \<lparr>lo_main_file = (case so_file src of Some f \<Rightarrow> f | None \<Rightarrow> lo_main_file default_load_options),
      lo_main_file_required = (so_file src \<noteq> None),
      lo_config_dir = (case so_dir src of Some d \<Rightarrow> d | None \<Rightarrow> lo_config_dir default_load_options),
      lo_config_dir_required = (so_dir src \<noteq> None),
      lo_ownership = ownership, lo_trusted_uid = 0, lo_check_paths = False,
      lo_changes = \<lparr>fc_add = [], fc_remove = []\<rparr>\<rparr>"

datatype app_error =
    App_Config issues
  | App_Procfs io_error
  | App_ProcessState io_error
  | App_User resolve_error
  | App_Plan plan_error
  | App_Apply apply_error
  | App_Features "string list" string
  | App_Paths issues
  | App_Mountinfo "io_error + mi_error"
  | App_Slave "string list"
  | App_StateDir abs_path io_error
  | App_Locked abs_path
  | App_Lock lock_error
  | App_State load_error
  | App_Open open_group_error
  | App_Signals string io_error
  | App_Watch watch_error
  | App_Epoll "string option" errno
  | App_StateDirChanged abs_path abs_path
  | App_Drain errno

definition load_config ::
  "('w, 'fd, 'v) system \<Rightarrow> config_source \<Rightarrow> ownership_policy \<Rightarrow> 'w \<Rightarrow> (app_error + loaded) \<times> 'w" where
  "load_config S src ownership =
     mapErrE App_Config (load (sy_files S) (sy_toml S) (source_options src ownership))"

definition is_error :: "issue \<Rightarrow> bool" where
  "is_error i = (is_severity i = Error)"

definition verify_config_paths ::
  "('w, 'fd, 'v) system \<Rightarrow> config \<Rightarrow> 'w \<Rightarrow> (app_error + unit) \<times> 'w" where
  "verify_config_paths S cfg w =
     (case check_paths (sy_files S) cfg w of
        (is, w) \<Rightarrow>
          let errors = filter is_error is in
          (if errors = [] then Inr () else Inl (App_Paths errors), w))"

section \<open>Privileges and environment\<close>

text \<open>\<open>std::fs::read_to_string\<close> fails on text that is not UTF-8.\<close>

definition read_to_string :: "('w, 'fd, 'v) system \<Rightarrow> string \<Rightarrow> ('w, string) io" where
  "read_to_string S path =
     bindE (pc_read (sy_probe S) path) (\<lambda>bytes.
       if is_utf8 bytes then retE bytes else failE (Custom ''stream did not contain valid UTF-8''))"

text \<open>The service user, if one is configured: root must resolve it, others may fail to.\<close>

definition service_user_of ::
  "('w, 'fd, 'v) system \<Rightarrow> string option \<Rightarrow> bool \<Rightarrow> 'w \<Rightarrow> (app_error + service_user option) \<times> 'w" where
  "service_user_of S user is_root w =
     (case user of
        None \<Rightarrow> (Inr None, w)
      | Some user_name \<Rightarrow>
          (case resolve_user (read_to_string S) user_name w of
             (Inr u, w) \<Rightarrow> (Inr (Some u), w)
           | (Inl e, w) \<Rightarrow> (if is_root then Inl (App_User e) else Inr None, w)))"

definition normalize ::
  "('w, 'fd, 'v) system \<Rightarrow> goal \<Rightarrow> string option \<Rightarrow> bool \<Rightarrow> 'w \<Rightarrow> (app_error + privilege_plan) \<times> 'w" where
  "normalize S goal user allow_root =
     bindE (mapErrE App_Procfs (verify_procfs (sy_kernel S) (sy_probe S) ''/proc'')) (\<lambda>proc.
     bindE (mapErrE App_ProcessState (read_self (sy_kernel S) (sy_creds S) proc)) (\<lambda>st.
     let credentials = credentials_of st; is_root = (0 \<in> set (cr_uids credentials)) in
     bindE (service_user_of S user is_root) (\<lambda>service_user.
     bindE (liftE (map_err App_Plan (plan_privileges credentials
              \<lparr>rq_goal = goal, rq_user = service_user, rq_allow_root = allow_root\<rparr>))) (\<lambda>p.
     bindE (mapErrE App_Apply (apply_plan (sy_kernel S) (sy_creds S) p proc)) (\<lambda>_.
       retE p)))))"

text \<open>The two callers differ in the warnings they log, which are not modelled.\<close>

definition normalize_privileges ::
  "('w, 'fd, 'v) system \<Rightarrow> goal \<Rightarrow> string option \<Rightarrow> bool \<Rightarrow> 'w \<Rightarrow> (app_error + privilege_plan) \<times> 'w" where
  "normalize_privileges S goal user allow_root = normalize S goal user allow_root"

definition drop_to_service_user ::
  "('w, 'fd, 'v) system \<Rightarrow> string option \<Rightarrow> 'w \<Rightarrow> (app_error + privilege_plan) \<times> 'w" where
  "drop_to_service_user S user = normalize S DropAll user True"

record 'fd environment =
  en_features :: kernel_features
  en_proc :: 'fd

definition check_environment ::
  "('w, 'fd, 'v) system \<Rightarrow> 'w \<Rightarrow> (app_error + 'fd environment) \<times> 'w" where
  "check_environment S w =
     (case probe_kernel (sy_probe S) w of
        (features, w) \<Rightarrow>
          if missing_required features \<noteq> [] then
            (case seccomp_filter_active (sy_probe S) w of
               (filtered, w) \<Rightarrow>
                 (Inl (App_Features (map fst (missing_required features))
                         (missing_features_hint filtered)), w))
          else
            bindE (mapErrE App_Procfs (verify_procfs (sy_kernel S) (sy_probe S) ''/proc''))
              (\<lambda>proc. retE \<lparr>en_features = features, en_proc = proc\<rparr>) w)"

section \<open>Propagation of the target roots\<close>

definition propagation_targets :: "'fd runtime \<Rightarrow> (string \<times> abs_path) list" where
  "propagation_targets rt =
     map (\<lambda>g. (show_group_id (gc_name (gr_config g)), gc_target_root (gr_config g)))
       (filter (\<lambda>g. gid_set (gc_name (gr_config g)) = None) (bt_values (rt_groups rt)))
     @ map (\<lambda>st. (set_label (sc_name (sr_config st)), sc_target_root (sr_config st)))
         (bt_values (rt_sets rt))"

definition read_mount_table ::
  "('w, 'fd, 'v) system \<Rightarrow> 'w \<Rightarrow> ((io_error + mi_error) + mount_table) \<times> 'w" where
  "read_mount_table S =
     bindE (mapErrE Inl (pc_read (sy_probe S) ''/proc/self/mountinfo''))
       (\<lambda>content. liftE (map_err Inr (parse_table content)))"

definition check_target ::
  "('w, 'fd, 'v) system \<Rightarrow> mount_table \<Rightarrow> abs_path \<Rightarrow> ('w, 'fd) env
     \<Rightarrow> propagation_check \<times> ('w, 'fd) env" where
  "check_target S table target_root e =
     (case roots_get (sy_kernel S) target_root e of
        (Inl why, e) \<Rightarrow> (PC_Unknown why, e)
      | (Inr fd, e) \<Rightarrow> on_world (check_propagation (sy_kernel S) table fd) e)"

text \<open>The loop over the targets: the checks by name, and the slave roots in order.\<close>

fun check_targets ::
  "('w, 'fd, 'v) system \<Rightarrow> mount_table \<Rightarrow> (string \<times> abs_path) list
     \<Rightarrow> (string, propagation_check) btree \<times> string list \<Rightarrow> ('w, 'fd) env
     \<Rightarrow> ((string, propagation_check) btree \<times> string list) \<times> ('w, 'fd) env" where
  "check_targets S table [] acc e = (acc, e)"
| "check_targets S table ((label, target_root) # ts) (results, slaves) e =
     (case check_target S table target_root e of
        (check, e) \<Rightarrow>
          check_targets S table ts
            (bt_insert label check results, if is_slave check then slaves @ [label] else slaves) e)"

definition check_target_propagation ::
  "('w, 'fd, 'v) system \<Rightarrow> bool \<Rightarrow> ('w, 'fd) open_state
     \<Rightarrow> (app_error + (string, propagation_check) btree) \<times> ('w, 'fd) open_state" where
  "check_target_propagation S allow_slave s =
     (case s of (rt, e) \<Rightarrow>
        (case on_world (read_mount_table S) e of
           (Inl er, e) \<Rightarrow> (Inl (App_Mountinfo er), (rt, e))
         | (Inr table, e) \<Rightarrow>
             (case check_targets S table (propagation_targets rt) ([], []) e of
                ((results, slaves), e) \<Rightarrow>
                  (case on_world (same_mount_namespace_as_init (sy_probe S)) e of
                     (_, e) \<Rightarrow>
                       (if slaves \<noteq> [] \<and> \<not> allow_slave then Inl (App_Slave slaves) else Inr results,
                        (rt, e))))))"

section \<open>Opening the state for writing\<close>

record 'fd state_writer =
  wr_store :: "'fd state_store"
  wr_lock :: 'fd
  wr_state :: state

definition take_lock ::
  "('w, 'fd, 'v) system \<Rightarrow> abs_path \<Rightarrow> 'fd state_store \<Rightarrow> 'w \<Rightarrow> (app_error + 'fd) \<times> 'w" where
  "take_lock S dir store =
     mapErrE (\<lambda>e. case e of Lock_Held \<Rightarrow> App_Locked dir | e \<Rightarrow> App_Lock e)
       (lock_acquire S (sto_dir store))"

definition open_state_for_write ::
  "('w, 'fd, 'v) system \<Rightarrow> config \<Rightarrow> 'w \<Rightarrow> (app_error + 'fd state_writer) \<times> 'w" where
  "open_state_for_write S cfg =
     (let dir = dc_state_dir (cfg_daemon cfg) in
      bindE (mapErrE (App_StateDir dir) (store_open (sy_kernel S) (show_abs_path dir))) (\<lambda>store.
      bindE (take_lock S dir store) (\<lambda>lock w.
        case k_now (sy_kernel S) w of
          (now, w) \<Rightarrow>
            bindE (mapErrE App_State
                     (load_for_write (sy_kernel S) (sy_json S) (sy_strftime S) store now))
              (\<lambda>out. retE \<lparr>wr_store = store, wr_lock = lock, wr_state = into_state out\<rparr>) w)))"

end
