(* ===== verification/Notify.thy ===== *)
theory Notify
  imports Sys
begin

text \<open>
  \<open>src/src/notify.rs\<close>: notifications to the service manager.  Making the socket and its
  address are parameters (the standard library's); sending may fail, which is only logged.
\<close>

section \<open>Notifiers\<close>

record 'fd notifier =
  nf_target :: "('fd \<times> string) option"
  nf_last_status :: string

definition notifier_disabled :: "'fd notifier" where
  "notifier_disabled = \<lparr>nf_target = None, nf_last_status = []\<rparr>"

record ('w, 'fd) notify_calls =
  nc_env :: "'w \<Rightarrow> string option \<times> 'w"
  nc_from_pathname :: "string \<Rightarrow> io_error + string"
  nc_from_abstract_name :: "string \<Rightarrow> io_error + string"
  nc_unbound :: "('w, 'fd) io"
  nc_send_to :: "'fd \<Rightarrow> string \<Rightarrow> string \<Rightarrow> ('w, nat) io"
  nc_monotonic :: "'w \<Rightarrow> (int \<times> int) \<times> 'w"

definition invalid_socket :: io_error where
  "invalid_socket = Custom (''NOTIFY_SOCKET must be an absolute path or begin with '' @ [CHR 0x27, CHR ''@'', CHR 0x27])"

definition socket_address :: "('w, 'fd) notify_calls \<Rightarrow> string \<Rightarrow> io_error + string" where
  "socket_address N v =
     (case v of
        [] \<Rightarrow> Inl invalid_socket
      | c # rest \<Rightarrow>
          if c = CHR ''/'' then nc_from_pathname N v
          else if c = CHR ''@'' then nc_from_abstract_name N rest
          else Inl invalid_socket)"

definition for_socket :: "('w, 'fd) notify_calls \<Rightarrow> string \<Rightarrow> ('w, 'fd notifier) io" where
  "for_socket N v =
     bindE (liftE (socket_address N v)) (\<lambda>addr.
     bindE (nc_unbound N) (\<lambda>socket.
       retE \<lparr>nf_target = Some (socket, addr), nf_last_status = []\<rparr>))"

text \<open>\<open>NOTIFY_SOCKET\<close> of the environment.\<close>

definition from_env :: "('w, 'fd) notify_calls \<Rightarrow> ('w, 'fd notifier) io" where
  "from_env N w =
     (case nc_env N w of
        (None, w) \<Rightarrow> (Inr notifier_disabled, w)
      | (Some v, w) \<Rightarrow> for_socket N v w)"

definition is_enabled :: "'fd notifier \<Rightarrow> bool" where
  "is_enabled n = (nf_target n \<noteq> None)"

section \<open>Messages\<close>

definition one_line :: "string \<Rightarrow> string" where
  "one_line s = map (\<lambda>c. if c = CHR 0x0A \<or> c = CHR 0x0D then CHR '' '' else c) s"

definition ready_message :: "string \<Rightarrow> string" where
  "ready_message status = ''READY=1'' @ [CHR 0x0A] @ ''STATUS='' @ status"

definition reloading_message :: "nat \<Rightarrow> string" where
  "reloading_message usec =
     ''RELOADING=1'' @ [CHR 0x0A] @ ''MONOTONIC_USEC='' @ show_nat usec @ [CHR 0x0A]
     @ ''STATUS=Reloading configuration''"

definition stopping_message :: string where
  "stopping_message = ''STOPPING=1'' @ [CHR 0x0A] @ ''STATUS=Stopping; mounts are preserved''"

definition status_message :: "string \<Rightarrow> string" where
  "status_message status = ''STATUS='' @ status"

definition notify_send :: "('w, 'fd) notify_calls \<Rightarrow> 'fd notifier \<Rightarrow> string \<Rightarrow> 'w \<Rightarrow> 'w" where
  "notify_send N n message w =
     (case nf_target n of
        Some (socket, addr) \<Rightarrow> snd (nc_send_to N socket message addr w)
      | None \<Rightarrow> w)"

definition notify_ready ::
  "('w, 'fd) notify_calls \<Rightarrow> string \<Rightarrow> 'fd notifier \<Rightarrow> 'w \<Rightarrow> 'fd notifier \<times> 'w" where
  "notify_ready N status n w =
     (let status = one_line status in
      (n\<lparr>nf_last_status := status\<rparr>, notify_send N n (ready_message status) w))"

text \<open>The monotonic clock in microseconds; a negative part counts as zero.\<close>

definition notify_reloading ::
  "('w, 'fd) notify_calls \<Rightarrow> 'fd notifier \<Rightarrow> 'w \<Rightarrow> 'w" where
  "notify_reloading N n w =
     (case nc_monotonic N w of
        ((sec, nsec), w) \<Rightarrow>
          notify_send N n (reloading_message (nat sec * 1000000 + nat nsec div 1000)) w)"

definition notify_stopping :: "('w, 'fd) notify_calls \<Rightarrow> 'fd notifier \<Rightarrow> 'w \<Rightarrow> 'w" where
  "notify_stopping N n w = notify_send N n stopping_message w"

definition notify_status ::
  "('w, 'fd) notify_calls \<Rightarrow> string \<Rightarrow> 'fd notifier \<Rightarrow> 'w \<Rightarrow> 'fd notifier \<times> 'w" where
  "notify_status N status n w =
     (let status = one_line status in
      if nf_last_status n \<noteq> status
      then (n\<lparr>nf_last_status := status\<rparr>, notify_send N n (status_message status) w)
      else (n, w))"

text \<open>A status never breaks the protocol's lines: a message has as many lines as it names.\<close>

lemma one_line_no_newline: "CHR 0x0A \<notin> set (one_line s)" "CHR 0x0D \<notin> set (one_line s)"
  by (auto simp: one_line_def)

lemma one_line_idem [simp]: "one_line (one_line s) = one_line s"
  by (induction s) (auto simp: one_line_def)

end
