(* ===== verification/Signals.thy ===== *)
theory Signals
  imports Sys
begin

text \<open>
  \<open>src/src/signals.rs\<close>: signals as a descriptor.  The calls of the C library are parameters; a
  set of signals is the list of those added to the empty set.
\<close>

record ('w, 'fd) signal_calls =
  sg_emptyset :: "('w, nat list) sys"
  sg_addset :: "nat list \<Rightarrow> nat \<Rightarrow> ('w, nat list) sys"
  sg_block :: "nat list \<Rightarrow> ('w, unit) sys"
  sg_signalfd :: "nat list \<Rightarrow> ('w, 'fd) sys"
  sg_read :: "'fd \<Rightarrow> ('w, nat \<times> nat) sys"

definition SIGHUP :: nat where "SIGHUP = 1"
definition SIGINT :: nat where "SIGINT = 2"
definition SIGTERM :: nat where "SIGTERM = 15"

text \<open>The size of \<open>signalfd_siginfo\<close>.\<close>

definition SIGINFO_SIZE :: nat where "SIGINFO_SIZE = 128"

fun add_signals :: "('w, 'fd) signal_calls \<Rightarrow> nat list \<Rightarrow> nat list \<Rightarrow> ('w, nat list) io" where
  "add_signals G [] added = retE added"
| "add_signals G (s # ss) added = bindE (osE (sg_addset G added s)) (\<lambda>added. add_signals G ss added)"

definition signalfd_new :: "('w, 'fd) signal_calls \<Rightarrow> nat list \<Rightarrow> ('w, 'fd) io" where
  "signalfd_new G signals =
     bindE (osE (sg_emptyset G)) (\<lambda>empty.
     bindE (add_signals G signals empty) (\<lambda>blocked.
     bindE (osE (sg_block G blocked)) (\<lambda>_.
       osE (sg_signalfd G blocked))))"

text \<open>What \<open>read\<close> reports: how many bytes were read, and \<open>ssi_signo\<close> of what is there.\<close>

definition signal_read :: "('w, 'fd) signal_calls \<Rightarrow> 'fd \<Rightarrow> ('w, nat option) io" where
  "signal_read G fd w =
     (case sg_read G fd w of
        (Inl e, w) \<Rightarrow> (if e = EAGAIN then Inr None else Inl (Os e), w)
      | (Inr (n, signo), w) \<Rightarrow>
          (if n \<noteq> SIGINFO_SIZE then Inl (Custom ''short read from signalfd'') else Inr (Some signo), w))"

end
