(* ===== verification/Messages.thy ===== *)
theory Messages
  imports App
begin

text \<open>
  The texts people read: configuration issues (\<open>src/src/config.rs\<close>, \<open>src/src/app.rs\<close>) and
  errors (the \<open>Display\<close> of the error types, and the chain of causes \<open>{e:#}\<close> of the crate
  \<open>anyhow\<close> prints).
\<close>

section \<open>Pieces\<close>

abbreviation quoted :: "string \<Rightarrow> string" where
  "quoted s \<equiv> [CHR 0x27] @ s @ [CHR 0x27]"

text \<open>\<open>{:04o}\<close>, \<open>{:#x}\<close> and \<open>{:?}\<close> of numbers.\<close>

fun show_octal :: "nat \<Rightarrow> string" where
  "show_octal n = (if n < 8 then [digit_char n] else show_octal (n div 8) @ [digit_char (n mod 8)])"

declare show_octal.simps [simp del]

definition show_mode :: "nat \<Rightarrow> string" where
  "show_mode n = replicate (4 - length (show_octal n)) (CHR ''0'') @ show_octal n"

definition show_bits :: "'a::len word \<Rightarrow> string" where
  "show_bits x = ''0x'' @ show_hex (unat x)"

definition debug_ids :: "u32 list \<Rightarrow> string" where
  "debug_ids xs = ''['' @ join_with '', '' (map (\<lambda>x. show_nat (unat x)) xs) @ '']''"

section \<open>Issues\<close>

fun show_message :: "(string \<Rightarrow> string) \<Rightarrow> issue_message \<Rightarrow> string" where
  "show_message esc (Msg_Path field e) = field @ '': '' @ show_abs_path_error e"
| "show_message esc (Msg_Template field e) = field @ '': '' @ show_template_error e"
| "show_message esc (Msg_InvalidGroupName e) = ''invalid group name: '' @ show_name_error e"
| "show_message esc (Msg_GroupDefined first) = ''group is already defined in '' @ utf8_lossy first"
| "show_message esc (Msg_InvalidSetName e) = ''invalid group set name: '' @ show_name_error e"
| "show_message esc (Msg_SetDefined first) = ''group set is already defined in '' @ utf8_lossy first"
| "show_message esc Msg_DaemonNotMain =
     ''[daemon] settings are only allowed in the main configuration file''"
| "show_message esc (Msg_InvalidUser user) = ''daemon.user: invalid user name '' @ quoted (esc user)"
| "show_message esc (Msg_ResyncTooLong secs) =
     ''daemon.resync_interval_secs: '' @ show_nat secs @ '' exceeds the maximum of ''
     @ show_nat MAX_RESYNC_INTERVAL_SECS"
| "show_message esc (Msg_InTargetRoot path root other) =
     ''membership directory '' @ show_abs_path path @ '' must not be at or beneath target_root ''
     @ show_abs_path root @ (case other of None \<Rightarrow> [] | Some l \<Rightarrow> '' of group '' @ quoted l)"
| "show_message esc (Msg_Overlap path other l) =
     ''membership directory '' @ show_abs_path path @ '' overlaps membership_root ''
     @ show_abs_path other @ '' of group set '' @ quoted l"
| "show_message esc (Msg_InvalidToml e) = ''invalid TOML: '' @ e"
| "show_message esc Msg_FileMissing = ''file does not exist''"
| "show_message esc (Msg_CannotRead e) = ''cannot read: '' @ e"
| "show_message esc Msg_DirMissing = ''directory does not exist''"
| "show_message esc (Msg_CannotList e) = ''cannot list directory: '' @ e"
| "show_message esc (Msg_CannotRemove n) =
     ''cannot remove '' @ quoted n @ '': no such installed fragment''"
| "show_message esc Msg_NoFiles = ''no configuration files found; no groups are defined''"
| "show_message esc Msg_CandidateName =
     ''a drop-in fragment must be named <name>.toml and must not begin with '' @ quoted ''.''
     @ ''; otherwise the daemon ignores it''"
| "show_message esc (Msg_CandidateTwice n) = ''more than one candidate is named '' @ quoted n"
| "show_message esc (Msg_CannotResolve e) = ''cannot resolve path: '' @ e"
| "show_message esc (Msg_CannotStat what e) = ''cannot stat '' @ what @ '': '' @ e"
| "show_message esc (Msg_Owner what uid trusted) =
     what @ '' is owned by uid '' @ show_nat uid @ '', expected uid '' @ show_nat trusted"
| "show_message esc (Msg_Writable what mode) =
     what @ '' is group- or world-writable (mode '' @ show_mode mode @ '')''"
| "show_message esc (Msg_NotDirectory field path) =
     field @ '': '' @ show_abs_path path @ '' is not a directory''"
| "show_message esc (Msg_PathMissing field path) =
     field @ '': '' @ show_abs_path path @ '' does not exist''"
| "show_message esc (Msg_CannotVerify field path e) =
     field @ '': cannot verify '' @ show_abs_path path @ '': '' @ e"
| "show_message esc (Msg_CannotAccess field path e) =
     field @ '': cannot access '' @ show_abs_path path @ '': '' @ e"

text \<open>\<open>Issue\<close>'s \<open>Display\<close>: the file, the group, the message.\<close>

definition show_issue :: "('w, 'fd, 'v) system \<Rightarrow> issue \<Rightarrow> string" where
  "show_issue S i =
     (case is_file i of None \<Rightarrow> [] | Some file \<Rightarrow> utf8_lossy file @ '': '')
     @ (case is_group i of None \<Rightarrow> [] | Some g \<Rightarrow> ''group '' @ quoted g @ '': '')
     @ show_message (sy_escape_debug S) (is_message i)"

fun show_severity :: "severity \<Rightarrow> string" where
  "show_severity Error = ''error''"
| "show_severity Warning = ''warning''"

definition format_issues :: "('w, 'fd, 'v) system \<Rightarrow> issues \<Rightarrow> string" where
  "format_issues S is =
     join_with [NEWLINE] (map (\<lambda>i. show_severity (is_severity i) @ '': '' @ show_issue S i) is)"

text \<open>\<open>config::LoadError\<close>, and the error \<open>load_config\<close> makes of it.\<close>

definition issue_errors :: "issues \<Rightarrow> issues" where
  "issue_errors is = filter (\<lambda>i. is_severity i = Error) is"

definition show_config_error :: "issues \<Rightarrow> string" where
  "show_config_error is = ''invalid configuration ('' @ show_nat (length (issue_errors is)) @ '' error(s))''"

section \<open>Errors\<close>

fun show_mi_reason :: "mi_reason \<Rightarrow> string" where
  "show_mi_reason NoSeparator = ''missing '' @ quoted ''-'' @ '' separator''"
| "show_mi_reason (TooFewFields n) =
     ''expected at least 6 fields before the separator, found '' @ show_nat n"
| "show_mi_reason (FieldsAfter n) = ''expected 3 fields after the separator, found '' @ show_nat n"
| "show_mi_reason (BadNumber what field) = ''invalid '' @ what @ '' '' @ quoted (display_bytes field)"
| "show_mi_reason (BadDevice device) = ''invalid device number '' @ quoted device"
| "show_mi_reason (BadEscape field) = ''invalid escape sequence in '' @ quoted (display_bytes field)"
| "show_mi_reason (EscapeRange field) = ''escape out of range in '' @ quoted (display_bytes field)"

text \<open>What \<open>MountTable::read_self\<close> fails with.\<close>

definition show_mountinfo_error :: "('w, 'fd) kernel \<Rightarrow> io_error + mi_error \<Rightarrow> string" where
  "show_mountinfo_error K e =
     (case e of
        Inl io \<Rightarrow> show_io_error K io
      | Inr m \<Rightarrow> ''mountinfo line '' @ show_nat (mie_line m) @ '': '' @ show_mi_reason (mie_reason m))"

definition show_resolve_error :: "('w, 'fd) kernel \<Rightarrow> resolve_error \<Rightarrow> string" where
  "show_resolve_error K e =
     (case e of
        User_NotFound user file \<Rightarrow> ''user '' @ quoted user @ '' not found in '' @ file
      | User_Io path src \<Rightarrow> ''cannot read '' @ path @ '': '' @ show_io_error K src)"

fun show_plan_error :: "plan_error \<Rightarrow> string" where
  "show_plan_error MissingSysAdmin =
     ''CAP_SYS_ADMIN is not permitted; run under systemd with AmbientCapabilities=CAP_SYS_ADMIN, ''
     @ ''or apply '' @ quoted ''setcap cap_sys_admin+ep'' @ '' to the binary''"
| "show_plan_error RootWithoutUser =
     ''refusing to run as root: configure daemon.user (or pass --user) so privileges can be ''
     @ ''dropped, or pass --allow-root for development and testing''"
| "show_plan_error (ServiceUserIsRoot user) =
     ''service user '' @ quoted user @ '' has UID 0; choose an unprivileged user''"
| "show_plan_error (CannotSwitchUser user missing) =
     ''cannot switch to user '' @ quoted user @ '': '' @ missing @ '' is not permitted''"

fun show_problem :: "priv_problem \<Rightarrow> string" where
  "show_problem (WrongGids gids expected) =
     ''GIDs '' @ debug_ids gids @ '', expected all '' @ show_nat (unat expected)"
| "show_problem (WrongGroups groups expected) =
     ''supplementary groups '' @ debug_ids groups @ '', expected '' @ debug_ids expected"
| "show_problem (WrongUids uids expected) =
     ''UIDs '' @ debug_ids uids @ '', expected all '' @ show_nat (unat expected)"
| "show_problem (WrongCaps label actual expected) =
     label @ '' capabilities '' @ show_bits actual @ '', expected '' @ show_bits expected"
| "show_problem (Inheritable bits) = ''inheritable capabilities '' @ show_bits bits"
| "show_problem (Ambient bits) = ''ambient capabilities '' @ show_bits bits"
| "show_problem NoNewPrivsUnset = ''no_new_privs is not set''"
| "show_problem (WrongSecureBits actual expected) =
     ''securebits '' @ show_bits actual @ '', expected at least '' @ show_bits expected"
| "show_problem (WrongBounding actual expected) =
     ''bounding set '' @ show_bits actual @ '' exceeds '' @ show_bits expected"

fun show_apply_error :: "('w, 'fd, 'v) system \<Rightarrow> apply_error \<Rightarrow> string" where
  "show_apply_error S (MultiThreaded n) =
     ''cannot normalize privileges: process has '' @ show_nat (unat n) @ '' threads, expected 1''"
| "show_apply_error S (Op_Failed label src) =
     ''privilege operation ''
     @ (case label of ReadState \<Rightarrow> ''read process state'' | Applying x \<Rightarrow> sy_debug_op S x)
     @ '' failed: '' @ show_io_error (sy_kernel S) src"
| "show_apply_error S (Verification ps) =
     ''privileges not as expected after normalization: '' @ join_with ''; '' (map show_problem ps)"

definition show_lock_error :: "('w, 'fd) kernel \<Rightarrow> lock_error \<Rightarrow> string" where
  "show_lock_error K e =
     (case e of
        Lock_Held \<Rightarrow> ''another Byssus process holds the state lock''
      | Lock_Io src \<Rightarrow> ''cannot lock state directory: '' @ show_io_error K src)"

fun show_malformed :: "(string \<Rightarrow> string) \<Rightarrow> malformed \<Rightarrow> string" where
  "show_malformed esc (M_Json e) = e"
| "show_malformed esc M_MissingVersion = ''missing '' @ quoted ''version''"
| "show_malformed esc M_VersionNotUnsigned = quoted ''version'' @ '' is not an unsigned integer''"
| "show_malformed esc (M_InvalidPath key field path) =
     ''record '' @ show_record_key key @ '': invalid '' @ field @ '' path '' @ quoted (esc path)"
| "show_malformed esc (M_Duplicate key) = ''duplicate record for '' @ show_record_key key"

fun show_decode_error :: "(string \<Rightarrow> string) \<Rightarrow> decode_error \<Rightarrow> string" where
  "show_decode_error esc (UnsupportedVersion v) =
     ''unsupported state file version '' @ show_nat v @ '' (this build supports version ''
     @ show_nat STATE_VERSION @ '')''"
| "show_decode_error esc (Malformed why) = ''malformed state file: '' @ show_malformed esc why"

text \<open>\<open>state::LoadError\<close>: the path and the cause.\<close>

definition load_error_cause :: "('w, 'fd, 'v) system \<Rightarrow> load_error \<Rightarrow> string" where
  "load_error_cause S e =
     (case e of
        LE_UnsupportedVersion path src \<Rightarrow> show_decode_error (sy_escape_debug S) src
      | LE_Io path src \<Rightarrow> show_io_error (sy_kernel S) src)"

definition show_load_error :: "('w, 'fd, 'v) system \<Rightarrow> load_error \<Rightarrow> string" where
  "show_load_error S e =
     (case e of LE_UnsupportedVersion path _ \<Rightarrow> path | LE_Io path _ \<Rightarrow> path)
     @ '': '' @ load_error_cause S e"

definition show_open_group_error :: "('w, 'fd) kernel \<Rightarrow> open_group_error \<Rightarrow> string" where
  "show_open_group_error K e =
     show_subject (og_subject e) @ '': cannot open '' @ og_field e @ '' '' @ show_abs_path (og_path e)
     @ '': '' @ show_io_error K (og_source e)"

fun show_watch_error :: "('w, 'fd) kernel \<Rightarrow> watch_error \<Rightarrow> string" where
  "show_watch_error K (Watch_Init e) = k_text K e"
| "show_watch_error K (Watch_Membership path g e) =
     ''cannot watch membership directory '' @ show_abs_path path @ '' of group ''
     @ quoted (show_group_id g) @ '': '' @ k_text K e"
| "show_watch_error K (Watch_SetRoot path st e) =
     ''cannot watch membership_root '' @ show_abs_path path @ '' of group set ''
     @ quoted (as_str st) @ '': '' @ k_text K e"

section \<open>Chains of causes\<close>

text \<open>
  An error and its causes, each with its own text: contexts, and the fields \<open>source\<close> and
  \<open>#[from]\<close> of the error types, which the crate \<open>thiserror\<close> makes causes.
\<close>

fun error_chain :: "('w, 'fd, 'v) system \<Rightarrow> app_error \<Rightarrow> string list" where
  "error_chain S (App_Config is) = [show_config_error is @ [NEWLINE] @ format_issues S is]"
| "error_chain S (App_Procfs e) = [''/proc is not usable'', show_io_error (sy_kernel S) e]"
| "error_chain S (App_ProcessState e) = [''cannot read process state'', show_io_error (sy_kernel S) e]"
| "error_chain S (App_User e) =
     [''cannot resolve service user'', show_resolve_error (sy_kernel S) e]
     @ (case e of User_NotFound _ _ \<Rightarrow> [] | User_Io _ src \<Rightarrow> [show_io_error (sy_kernel S) src])"
| "error_chain S (App_Plan e) = [show_plan_error e]"
| "error_chain S (App_Apply e) =
     [show_apply_error S e]
     @ (case e of Op_Failed _ src \<Rightarrow> [show_io_error (sy_kernel S) src] | _ \<Rightarrow> [])"
| "error_chain S (App_Features names hint) =
     [''required kernel features are unavailable: '' @ join_with '', '' names @ '' ('' @ hint @ '')'']"
| "error_chain S (App_Paths is) = [''invalid configuration paths'' @ [NEWLINE] @ format_issues S is]"
| "error_chain S (App_Mountinfo e) =
     [''cannot read /proc/self/mountinfo'', show_mountinfo_error (sy_kernel S) e]"
| "error_chain S (App_Slave names) =
     [''target roots of groups '' @ join_with '', '' names
      @ '' are slave mounts, so mounts would not propagate back to the host; refusing to start ''
      @ ''(is byssusd in a private mount namespace? Use --allow-slave-namespace to override)'']"
| "error_chain S (App_StateDir dir e) =
     [''cannot open state directory '' @ show_abs_path dir, show_io_error (sy_kernel S) e]"
| "error_chain S (App_Locked dir) =
     [''another Byssus process holds the state lock in '' @ show_abs_path dir
      @ '' (is byssusd running? send it SIGHUP instead)'']"
| "error_chain S (App_Lock e) =
     [show_lock_error (sy_kernel S) e]
     @ (case e of Lock_Held \<Rightarrow> [] | Lock_Io src \<Rightarrow> [show_io_error (sy_kernel S) src])"
| "error_chain S (App_State e) = [show_load_error S e, load_error_cause S e]"
| "error_chain S (App_Open e) =
     [show_open_group_error (sy_kernel S) e, show_io_error (sy_kernel S) (og_source e)]"
| "error_chain S (App_Signals context e) = [context, show_io_error (sy_kernel S) e]"
| "error_chain S (App_Watch e) = [show_watch_error (sy_kernel S) e]"
| "error_chain S (App_Epoll context e) =
     (case context of None \<Rightarrow> [] | Some c \<Rightarrow> [c]) @ [k_text (sy_kernel S) e]"
| "error_chain S (App_StateDirChanged old new) =
     [''daemon.state_dir changed from '' @ show_abs_path old @ '' to '' @ show_abs_path new
      @ ''; restart byssusd to change it'']"
| "error_chain S (App_Drain e) = [''reading inotify events'', k_text (sy_kernel S) e]"

definition show_app_error :: "('w, 'fd, 'v) system \<Rightarrow> app_error \<Rightarrow> string" where
  "show_app_error S e = join_with '': '' (error_chain S e)"

section \<open>A cause is printed twice\<close>

text \<open>
  The texts of these errors end in their cause, and the chain adds it again: what people read
  says why a directory could not be opened, the state not loaded or the lock not taken twice.
\<close>

lemma show_app_error_Cons: "error_chain S e = [x, y] \<Longrightarrow> show_app_error S e = x @ '': '' @ y"
  by (simp add: show_app_error_def)

theorem cause_printed_twice:
  "\<exists>pre. show_app_error S (App_Open e)
      = pre @ '': '' @ show_io_error (sy_kernel S) (og_source e)
        @ '': '' @ show_io_error (sy_kernel S) (og_source e)"
  "\<exists>pre. show_app_error S (App_State er) = pre @ '': '' @ load_error_cause S er @ '': '' @ load_error_cause S er"
  "\<exists>pre. show_app_error S (App_Lock (Lock_Io io))
      = pre @ '': '' @ show_io_error (sy_kernel S) io @ '': '' @ show_io_error (sy_kernel S) io"
proof -
  show "\<exists>pre. show_app_error S (App_Open e)
      = pre @ '': '' @ show_io_error (sy_kernel S) (og_source e)
        @ '': '' @ show_io_error (sy_kernel S) (og_source e)"
    by (rule exI[of _ "show_subject (og_subject e) @ '': cannot open '' @ og_field e @ '' '' @ show_abs_path (og_path e)"])
      (simp add: show_app_error_Cons show_open_group_error_def)
  show "\<exists>pre. show_app_error S (App_State er) = pre @ '': '' @ load_error_cause S er @ '': '' @ load_error_cause S er"
    by (rule exI[of _ "case er of LE_UnsupportedVersion path _ \<Rightarrow> path | LE_Io path _ \<Rightarrow> path"])
      (simp add: show_app_error_Cons show_load_error_def)
  show "\<exists>pre. show_app_error S (App_Lock (Lock_Io io))
      = pre @ '': '' @ show_io_error (sy_kernel S) io @ '': '' @ show_io_error (sy_kernel S) io"
    by (rule exI[of _ "''cannot lock state directory''"]) (simp add: show_app_error_Cons show_lock_error_def)
qed

end
