(* ===== verification/Daemon.thy ===== *)
theory Daemon
  imports Messages Notify Signals Reconcile_Props Watcher_Props
begin

text \<open>
  \<open>src/src/daemon.rs\<close>: startup, the event loop, reload and shutdown.  A daemon's world is the
  one in its reconciler; time is in nanoseconds.  Logging is not modelled.
\<close>

section \<open>State\<close>

record daemon_options =
  op_config :: config_source
  op_user :: "string option"
  op_allow_root :: bool
  op_allow_slave :: bool

definition TOKEN_INOTIFY :: nat where "TOKEN_INOTIFY = 1"
definition TOKEN_SIGNAL :: nat where "TOKEN_SIGNAL = 2"
definition DEBOUNCE :: nat where "DEBOUNCE = 150000000"
definition MAX_DEBOUNCE :: nat where "MAX_DEBOUNCE = 1000000000"
definition MAX_STATUS_NAMES :: nat where "MAX_STATUS_NAMES = 5"

record timespec =
  tv_sec :: int
  tv_nsec :: int

text \<open>
  The calls of the daemon itself: the clock, \<open>epoll\<close> (a descriptor is registered with its
  token, a wait gives the tokens that are ready), and the umask.
\<close>

record ('w, 'fd, 'v) daemon_calls =
  dk_system :: "('w, 'fd, 'v) system"
  dk_notify :: "('w, 'fd) notify_calls"
  dk_signals :: "('w, 'fd) signal_calls"
  dk_instant :: "'w \<Rightarrow> nat \<times> 'w"
  dk_epoll_create :: "('w, 'fd) sys"
  dk_epoll_add :: "'fd \<Rightarrow> 'fd \<Rightarrow> nat \<Rightarrow> ('w, unit) sys"
  dk_epoll_delete :: "'fd \<Rightarrow> 'fd \<Rightarrow> ('w, unit) sys"
  dk_epoll_wait :: "'fd \<Rightarrow> timespec option \<Rightarrow> ('w, nat list) sys"
  dk_umask :: "nat \<Rightarrow> 'w \<Rightarrow> 'w"

text \<open>The runtime, watcher, state and notes of the source are the reconciler's.\<close>

record ('w, 'fd) daemon =
  dm_options :: daemon_options
  dm_config :: config
  dm_reconciler :: "('w, 'fd, 'fd watcher) reconciler"
  dm_store :: "'fd state_store"
  dm_degraded :: degraded
  dm_unique :: bool
  dm_epoll :: 'fd
  dm_next_resync :: "nat option"
  dm_pending :: "(nat \<times> nat) option"
  dm_notifier :: "'fd notifier"
  dm_last_reload_error :: "string option"
  dm_unreadable :: "string list"

definition dm_world :: "('w, 'fd) daemon \<Rightarrow> 'w" where
  "dm_world d = e_world (h_env (rc_host (dm_reconciler d)))"

definition dm_runtime :: "('w, 'fd) daemon \<Rightarrow> 'fd runtime" where
  "dm_runtime d = h_runtime (rc_host (dm_reconciler d))"

definition dm_watcher :: "('w, 'fd) daemon \<Rightarrow> 'fd watcher" where
  "dm_watcher d = h_caller (rc_host (dm_reconciler d))"

definition dm_state :: "('w, 'fd) daemon \<Rightarrow> state" where
  "dm_state d = rc_state (dm_reconciler d)"

definition set_host ::
  "(('w, 'fd, 'fd watcher) host \<Rightarrow> ('w, 'fd, 'fd watcher) host) \<Rightarrow> ('w, 'fd) daemon \<Rightarrow> ('w, 'fd) daemon" where
  "set_host f d =
     d\<lparr>dm_reconciler := (dm_reconciler d)\<lparr>rc_host := f (rc_host (dm_reconciler d))\<rparr>\<rparr>"

definition set_world :: "'w \<Rightarrow> ('w, 'fd) daemon \<Rightarrow> ('w, 'fd) daemon" where
  "set_world w = set_host (\<lambda>h. h\<lparr>h_env := (h_env h)\<lparr>e_world := w\<rparr>\<rparr>)"

text \<open>A call on the world of the daemon.\<close>

definition on_daemon :: "('w \<Rightarrow> 'a \<times> 'w) \<Rightarrow> ('w, 'fd) daemon \<Rightarrow> 'a \<times> ('w, 'fd) daemon" where
  "on_daemon m d = (case m (dm_world d) of (x, w) \<Rightarrow> (x, set_world w d))"

section \<open>The status line\<close>

definition status_text :: "('w, 'fd) daemon \<Rightarrow> string" where
  "status_text d =
     show_nat (length (rt_groups (dm_runtime d))) @ '' group(s), ''
     @ show_nat (state_len (dm_state d)) @ '' mount(s)''
     @ (if degraded_is_empty (dm_degraded d) then []
        else ''; degraded: ''
          @ join_with '', '' (map show_group_id (dg_groups (dm_degraded d))
                             @ map set_label (dg_sets (dm_degraded d))))
     @ (if dm_unreadable d = [] then []
        else ''; unreadable: '' @ join_with '', '' (take MAX_STATUS_NAMES (dm_unreadable d))
          @ (if length (dm_unreadable d) > MAX_STATUS_NAMES
             then '' and '' @ show_nat (length (dm_unreadable d) - MAX_STATUS_NAMES) @ '' more'' else [])
          @ '' (see byssus status)'')
     @ (case dm_last_reload_error d of
          None \<Rightarrow> []
        | Some error \<Rightarrow> ''; last reload failed, running previous configuration: '' @ error)"

definition send_status :: "('w, 'fd, 'v) daemon_calls \<Rightarrow> ('w, 'fd) daemon \<Rightarrow> ('w, 'fd) daemon" where
  "send_status D d =
     (case notify_status (dk_notify D) (status_text d) (dm_notifier d) (dm_world d) of
        (n, w) \<Rightarrow> set_world w (d\<lparr>dm_notifier := n\<rparr>))"

definition send_ready :: "('w, 'fd, 'v) daemon_calls \<Rightarrow> ('w, 'fd) daemon \<Rightarrow> ('w, 'fd) daemon" where
  "send_ready D d =
     (case notify_ready (dk_notify D) (status_text d) (dm_notifier d) (dm_world d) of
        (n, w) \<Rightarrow> set_world w (d\<lparr>dm_notifier := n\<rparr>))"

definition send_reloading :: "('w, 'fd, 'v) daemon_calls \<Rightarrow> ('w, 'fd) daemon \<Rightarrow> ('w, 'fd) daemon" where
  "send_reloading D d = set_world (notify_reloading (dk_notify D) (dm_notifier d) (dm_world d)) d"

section \<open>A pass\<close>

text \<open>What a note of the pass changes: the names that could not be read, or the degraded.\<close>

fun add_note :: "obs_note \<Rightarrow> string list \<times> degraded \<Rightarrow> string list \<times> degraded" where
  "add_note (MembershipUnreadable g _) (un, deg) = (bs_insert (show_group_id g) un, deg)"
| "add_note (SetRootUnreadable st _) (un, deg) = (bs_insert (set_label st) un, deg)"
| "add_note (MembershipDeleted g) (un, deg) = (un, deg\<lparr>dg_groups := bs_insert g (dg_groups deg)\<rparr>)"
| "add_note (SetRootDeleted st) (un, deg) = (un, deg\<lparr>dg_sets := bs_insert st (dg_sets deg)\<rparr>)"
| "add_note _ (un, deg) = (un, deg)"

definition schedule_resync ::
  "('w, 'fd, 'v) daemon_calls \<Rightarrow> ('w, 'fd) daemon \<Rightarrow> ('w, 'fd) daemon" where
  "schedule_resync D d =
     (case dc_resync_interval (cfg_daemon (dm_config d)) of
        None \<Rightarrow> d\<lparr>dm_next_resync := None\<rparr>
      | Some secs \<Rightarrow>
          (case on_daemon (dk_instant D) d of
             (now, d) \<Rightarrow> d\<lparr>dm_next_resync := Some (now + secs * 1000000000)\<rparr>))"

definition daemon_sink :: "('w, 'fd, 'v) daemon_calls \<Rightarrow> ('w, 'fd) daemon \<Rightarrow> 'w sink" where
  "daemon_sink D d = save (sy_kernel (dk_system D)) (sy_json (dk_system D)) (dm_store d)"

text \<open>Before each observation the watcher follows the runtime.\<close>

definition watch_runtime ::
  "('w, 'fd, 'v) daemon_calls \<Rightarrow> ('w, 'fd, 'fd watcher) after_discovery" where
  "watch_runtime D = sync (sy_inotify (dk_system D))"

definition daemon_pass :: "('w, 'fd, 'v) daemon_calls \<Rightarrow> ('w, 'fd) daemon \<Rightarrow> ('w, 'fd) daemon option" where
  "daemon_pass D d =
     (case run_pass (sy_kernel (dk_system D)) (daemon_sink D d) (dm_degraded d) (dm_unique d)
             (watch_runtime D) (dm_reconciler d) of
        None \<Rightarrow> None
      | Some (ps, events, rc) \<Rightarrow>
          (case fold add_note (ob_notes (ps_observed ps)) ([], dm_degraded d) of
             (un, deg) \<Rightarrow>
               Some (send_status D
                 (schedule_resync D
                   (d\<lparr>dm_reconciler := rc, dm_unreadable := un, dm_degraded := deg\<rparr>)))))"

section \<open>Changes\<close>

definition degrade :: "changes \<Rightarrow> degraded \<Rightarrow> degraded" where
  "degrade ch deg =
     deg\<lparr>dg_groups := bs_extend (ch_lost ch) (dg_groups deg),
         dg_sets := bs_extend (ch_lost_sets ch) (dg_sets deg)\<rparr>"

text \<open>The pass is due after a quiet period, but not later than \<open>MAX_DEBOUNCE\<close> after the first
  change.\<close>

definition postpone :: "nat \<Rightarrow> (nat \<times> nat) option \<Rightarrow> nat \<times> nat" where
  "postpone now pending =
     (let first = (case pending of None \<Rightarrow> now | Some (first, _) \<Rightarrow> first)
      in (first, min (now + DEBOUNCE) (first + MAX_DEBOUNCE)))"

definition handle_changes ::
  "('w, 'fd, 'v) daemon_calls \<Rightarrow> changes \<Rightarrow> ('w, 'fd) daemon \<Rightarrow> ('w, 'fd) daemon" where
  "handle_changes D ch d =
     (let d = d\<lparr>dm_degraded := degrade ch (dm_degraded d)\<rparr> in
      if ch_membership ch \<or> ch_overflow ch then
        (case on_daemon (dk_instant D) d of
           (now, d) \<Rightarrow> d\<lparr>dm_pending := Some (postpone now (dm_pending d))\<rparr>)
      else d)"

definition handle_inotify ::
  "('w, 'fd, 'v) daemon_calls \<Rightarrow> ('w, 'fd) daemon \<Rightarrow> ((app_error + unit) \<times> ('w, 'fd) daemon) option" where
  "handle_inotify D d =
     (case drain (sy_inotify (dk_system D)) (dm_watcher d) (dm_world d) of
        None \<Rightarrow> None
      | Some (r, wt, w) \<Rightarrow>
          let d = set_world w (set_host (\<lambda>h. h\<lparr>h_caller := wt\<rparr>) d) in
          (case r of
             Inl e \<Rightarrow> Some (Inl (App_Drain e), d)
           | Inr ch \<Rightarrow> Some (Inr (), handle_changes D ch d)))"

section \<open>Reload\<close>

text \<open>Opening the runtime of a configuration and checking where its target roots are.\<close>

definition open_checked ::
  "('w, 'fd, 'v) system \<Rightarrow> bool \<Rightarrow> config \<Rightarrow> 'w \<Rightarrow> (app_error + ('w, 'fd) open_state) \<times> 'w" where
  "open_checked S allow_slave cfg w =
     (case runtime_open (sy_kernel S) cfg w of
        (Inl er, (rt, e)) \<Rightarrow> (Inl (App_Open er), e_world e)
      | (Inr _, s) \<Rightarrow>
          (case check_target_propagation S allow_slave s of
             (Inl er, (rt, e)) \<Rightarrow> (Inl er, e_world e)
           | (Inr _, s) \<Rightarrow> (Inr s, e_world (snd s))))"

definition prepare_reload ::
  "('w, 'fd, 'v) daemon_calls \<Rightarrow> ('w, 'fd) daemon \<Rightarrow> 'w
     \<Rightarrow> (app_error + config \<times> ('w, 'fd) open_state \<times> 'fd watcher) \<times> 'w" where
  "prepare_reload D d =
     (let S = dk_system D; old = dc_state_dir (cfg_daemon (dm_config d)) in
      bindE (load_config S (op_config (dm_options d)) Enforce) (\<lambda>loaded.
        let cfg = ld_config loaded; new = dc_state_dir (cfg_daemon cfg) in
        if new \<noteq> old then failE (App_StateDirChanged old new)
        else
          bindE (verify_config_paths S cfg) (\<lambda>_.
          bindE (open_checked S (op_allow_slave (dm_options d)) cfg) (\<lambda>opened.
          bindE (mapErrE App_Watch (watcher_new (sy_inotify S) (fst opened))) (\<lambda>wt.
            retE (cfg, opened, wt))))))"

definition swap_watcher ::
  "('w, 'fd, 'v) daemon_calls \<Rightarrow> ('w, 'fd) daemon \<Rightarrow> 'fd watcher \<Rightarrow> 'w \<Rightarrow> (app_error + unit) \<times> 'w" where
  "swap_watcher D d new =
     bindE (mapErrE (App_Epoll (Some ''registering new inotify instance''))
              (dk_epoll_add D (dm_epoll d) (wt_fd new) TOKEN_INOTIFY)) (\<lambda>_.
       mapErrE (App_Epoll (Some ''removing old inotify instance''))
         (dk_epoll_delete D (dm_epoll d) (wt_fd (dm_watcher d))))"

definition first_line :: "string \<Rightarrow> string" where
  "first_line s = (case text_lines s of [] \<Rightarrow> [] | l # _ \<Rightarrow> l)"

definition install ::
  "config \<Rightarrow> ('w, 'fd) open_state \<Rightarrow> 'fd watcher \<Rightarrow> ('w, 'fd) daemon \<Rightarrow> ('w, 'fd) daemon" where
  "install cfg opened wt d =
     (case opened of (rt, e) \<Rightarrow>
        (set_host (\<lambda>h. \<lparr>h_runtime = rt, h_env = e\<lparr>e_world := dm_world d\<rparr>, h_caller = wt\<rparr>) d)
          \<lparr>dm_config := cfg, dm_degraded := default_degraded, dm_last_reload_error := None\<rparr>)"

definition reload_failed ::
  "('w, 'fd, 'v) daemon_calls \<Rightarrow> app_error \<Rightarrow> ('w, 'fd) daemon \<Rightarrow> ('w, 'fd) daemon" where
  "reload_failed D er d = d\<lparr>dm_last_reload_error := Some (first_line (show_app_error (dk_system D) er))\<rparr>"

definition reload :: "('w, 'fd, 'v) daemon_calls \<Rightarrow> ('w, 'fd) daemon \<Rightarrow> bool \<times> ('w, 'fd) daemon" where
  "reload D d =
     (case on_daemon (prepare_reload D d) d of
        (Inl er, d) \<Rightarrow> (False, reload_failed D er d)
      | (Inr (cfg, opened, wt), d) \<Rightarrow>
          (case on_daemon (swap_watcher D d wt) d of
             (Inl er, d) \<Rightarrow> (False, reload_failed D er d)
           | (Inr _, d) \<Rightarrow> (True, install cfg opened wt d)))"

section \<open>The event loop\<close>

text \<open>What a part of a turn ends in: the next part, or the end of the loop.\<close>

datatype 'd turn = Next 'd | Exit "app_error + unit" 'd

definition handle_reload :: "('w, 'fd, 'v) daemon_calls \<Rightarrow> ('w, 'fd) daemon \<Rightarrow> ('w, 'fd) daemon option" where
  "handle_reload D d =
     (case reload D (send_reloading D d) of
        (True, d) \<Rightarrow> map_option (send_ready D) (daemon_pass D (d\<lparr>dm_pending := None\<rparr>))
      | (False, d) \<Rightarrow> Some (send_ready D d))"

text \<open>Signals are read until none is pending; a source that never runs dry is \<open>None\<close>.\<close>

partial_function (option) handle_signals ::
  "('w, 'fd, 'v) daemon_calls \<Rightarrow> 'fd \<Rightarrow> ('w, 'fd) daemon \<Rightarrow> ('w, 'fd) daemon turn option" where
  "handle_signals D sfd d =
     (case on_daemon (signal_read (dk_signals D) sfd) d of
        (Inl er, d) \<Rightarrow> Some (Exit (Inl (App_Signals ''reading signalfd'' er)) d)
      | (Inr None, d) \<Rightarrow> Some (Next d)
      | (Inr (Some s), d) \<Rightarrow>
          if s = SIGHUP then Option.bind (handle_reload D d) (handle_signals D sfd)
          else if s = SIGTERM \<or> s = SIGINT then Some (Exit (Inr ()) d)
          else handle_signals D sfd d)"

definition handle_event ::
  "('w, 'fd, 'v) daemon_calls \<Rightarrow> 'fd \<Rightarrow> nat \<Rightarrow> ('w, 'fd) daemon \<Rightarrow> ('w, 'fd) daemon turn option" where
  "handle_event D sfd token d =
     (if token = TOKEN_SIGNAL then handle_signals D sfd d
      else if token = TOKEN_INOTIFY then
        map_option (\<lambda>(r, d). case r of Inl er \<Rightarrow> Exit (Inl er) d | Inr _ \<Rightarrow> Next d) (handle_inotify D d)
      else Some (Next d))"

fun handle_events ::
  "('w, 'fd, 'v) daemon_calls \<Rightarrow> 'fd \<Rightarrow> nat list \<Rightarrow> ('w, 'fd) daemon \<Rightarrow> ('w, 'fd) daemon turn option" where
  "handle_events D sfd [] d = Some (Next d)"
| "handle_events D sfd (t # ts) d =
     (case handle_event D sfd t d of
        None \<Rightarrow> None
      | Some (Exit r d) \<Rightarrow> Some (Exit r d)
      | Some (Next d) \<Rightarrow> handle_events D sfd ts d)"

definition deadline :: "('w, 'fd) daemon \<Rightarrow> nat option" where
  "deadline d =
     (case (dm_next_resync d, map_option snd (dm_pending d)) of
        (Some r, Some due) \<Rightarrow> Some (min r due)
      | (Some r, None) \<Rightarrow> Some r
      | (None, due) \<Rightarrow> due)"

definition duration_to_timespec :: "nat \<Rightarrow> timespec" where
  "duration_to_timespec ns =
     \<lparr>tv_sec = (let secs = int (ns div 1000000000) in if secs \<le> 2 ^ 63 - 1 then secs else 2 ^ 63 - 1),
      tv_nsec = int (ns mod 1000000000)\<rparr>"

definition wait_timeout ::
  "('w, 'fd, 'v) daemon_calls \<Rightarrow> ('w, 'fd) daemon \<Rightarrow> timespec option \<times> ('w, 'fd) daemon" where
  "wait_timeout D d =
     (case deadline d of
        None \<Rightarrow> (None, d)
      | Some t \<Rightarrow>
          (case on_daemon (dk_instant D) d of
             (now, d) \<Rightarrow> (Some (duration_to_timespec (t - now)), d)))"

definition due_trigger :: "nat \<Rightarrow> ('w, 'fd) daemon \<Rightarrow> trigger option" where
  "due_trigger now d =
     (if (case dm_pending d of Some (_, due) \<Rightarrow> due \<le> now | None \<Rightarrow> False) then Some Inotify
      else if (case dm_next_resync d of Some due \<Rightarrow> due \<le> now | None \<Rightarrow> False) then Some Resync
      else None)"

definition run_due :: "('w, 'fd, 'v) daemon_calls \<Rightarrow> ('w, 'fd) daemon \<Rightarrow> ('w, 'fd) daemon option" where
  "run_due D d =
     (case on_daemon (dk_instant D) d of
        (now, d) \<Rightarrow>
          (case due_trigger now d of
             None \<Rightarrow> Some d
           | Some _ \<Rightarrow> daemon_pass D (d\<lparr>dm_pending := None\<rparr>)))"

text \<open>One turn of the loop; EINTR is 4.\<close>

definition loop_turn ::
  "('w, 'fd, 'v) daemon_calls \<Rightarrow> 'fd \<Rightarrow> ('w, 'fd) daemon \<Rightarrow> ('w, 'fd) daemon turn option" where
  "loop_turn D sfd d =
     (case wait_timeout D d of
        (timeout, d) \<Rightarrow>
          (case on_daemon (dk_epoll_wait D (dm_epoll d) timeout) d of
             (Inl e, d) \<Rightarrow> Some (if e = Errno 4 then Next d else Exit (Inl (App_Epoll (Some ''epoll_wait'') e)) d)
           | (Inr tokens, d) \<Rightarrow>
               (case handle_events D sfd tokens d of
                  None \<Rightarrow> None
                | Some (Exit r d) \<Rightarrow> Some (Exit r d)
                | Some (Next d) \<Rightarrow> map_option Next (run_due D d))))"

partial_function (option) event_loop ::
  "('w, 'fd, 'v) daemon_calls \<Rightarrow> 'fd \<Rightarrow> ('w, 'fd) daemon \<Rightarrow> ((app_error + unit) \<times> ('w, 'fd) daemon) option" where
  "event_loop D sfd d =
     (case loop_turn D sfd d of
        None \<Rightarrow> None
      | Some (Exit r d) \<Rightarrow> Some (r, d)
      | Some (Next d) \<Rightarrow> event_loop D sfd d)"

section \<open>Startup and shutdown\<close>

definition start_notifier :: "('w, 'fd, 'v) daemon_calls \<Rightarrow> 'w \<Rightarrow> 'fd notifier \<times> 'w" where
  "start_notifier D w =
     (case from_env (dk_notify D) w of
        (Inl _, w) \<Rightarrow> (notifier_disabled, w) | (Inr n, w) \<Rightarrow> (n, w))"

text \<open>The watches and signals, and the descriptor the loop waits on.\<close>

definition start_events ::
  "('w, 'fd, 'v) daemon_calls \<Rightarrow> 'fd runtime \<Rightarrow> 'w \<Rightarrow> (app_error + 'fd \<times> 'fd watcher \<times> 'fd) \<times> 'w" where
  "start_events D rt =
     bindE (mapErrE (App_Signals ''cannot set up signal handling'')
              (signalfd_new (dk_signals D) [SIGHUP, SIGTERM, SIGINT])) (\<lambda>sfd.
     bindE (mapErrE App_Watch (watcher_new (sy_inotify (dk_system D)) rt)) (\<lambda>wt.
     bindE (mapErrE (App_Epoll (Some ''epoll_create'')) (dk_epoll_create D)) (\<lambda>ep.
     bindE (mapErrE (App_Epoll None) (dk_epoll_add D ep sfd TOKEN_SIGNAL)) (\<lambda>_.
     bindE (mapErrE (App_Epoll None) (dk_epoll_add D ep (wt_fd wt) TOKEN_INOTIFY)) (\<lambda>_.
       retE (sfd, wt, ep))))))"

definition start_daemon ::
  "daemon_options \<Rightarrow> 'fd notifier \<Rightarrow> config \<Rightarrow> 'fd environment \<Rightarrow> 'fd state_writer \<Rightarrow> ('w, 'fd) open_state
     \<Rightarrow> 'fd watcher \<Rightarrow> 'fd \<Rightarrow> 'w \<Rightarrow> ('w, 'fd) daemon" where
  "start_daemon opts n cfg environment wr opened wt ep w =
     \<lparr>dm_options = opts, dm_config = cfg,
      dm_reconciler = \<lparr>rc_host = \<lparr>h_runtime = fst opened, h_env = (snd opened)\<lparr>e_world := w\<rparr>,
                                   h_caller = wt\<rparr>,
                       rc_state = wr_state wr, rc_notes = []\<rparr>,
      dm_store = wr_store wr, dm_degraded = default_degraded,
      dm_unique = unique_mount_ids (en_features environment), dm_epoll = ep, dm_next_resync = None,
      dm_pending = None, dm_notifier = n, dm_last_reload_error = None, dm_unreadable = []\<rparr>"

definition startup ::
  "('w, 'fd, 'v) daemon_calls \<Rightarrow> daemon_options \<Rightarrow> 'w \<Rightarrow> (app_error + ('w, 'fd) daemon \<times> 'fd) \<times> 'w" where
  "startup D opts w =
     (case start_notifier D w of (n, w) \<Rightarrow>
      (let S = dk_system D in
       bindE (load_config S (op_config opts) Enforce) (\<lambda>loaded w.
         let cfg = ld_config loaded;
             user = (case op_user opts of Some u \<Rightarrow> Some u | None \<Rightarrow> dc_user (cfg_daemon cfg)) in
         bindE (normalize_privileges S KeepSysAdmin user (op_allow_root opts)) (\<lambda>_.
         bindE (check_environment S) (\<lambda>environment.
         bindE (verify_config_paths S cfg) (\<lambda>_.
         bindE (open_state_for_write S cfg) (\<lambda>wr.
         bindE (open_checked S (op_allow_slave opts) cfg) (\<lambda>opened.
         bindE (start_events D (fst opened)) (\<lambda>(sfd, wt, ep) w.
           (Inr (start_daemon opts n cfg environment wr opened wt ep w, sfd), w)))))))
         (dk_umask D 18 w)) w))"

text \<open>From the first pass to the last save.\<close>

definition serve ::
  "('w, 'fd, 'v) daemon_calls \<Rightarrow> 'fd \<Rightarrow> ('w, 'fd) daemon \<Rightarrow> ((app_error + unit) \<times> 'w) option" where
  "serve D sfd d =
     (case daemon_pass D d of
        None \<Rightarrow> None
      | Some d \<Rightarrow>
          (case event_loop D sfd (send_ready D d) of
             None \<Rightarrow> None
           | Some (result, d) \<Rightarrow>
               Some (result, snd (daemon_sink D d (dm_state d)
                       (notify_stopping (dk_notify D) (dm_notifier d) (dm_world d))))))"

definition run :: "('w, 'fd, 'v) daemon_calls \<Rightarrow> daemon_options \<Rightarrow> 'w \<Rightarrow> ((app_error + unit) \<times> 'w) option" where
  "run D opts w =
     (case startup D opts w of
        (Inl er, w) \<Rightarrow> Some (Inl er, w)
      | (Inr (d, sfd), w) \<Rightarrow> serve D sfd d)"

end
