(* ===== verification/Daemon_Props.thy ===== *)
theory Daemon_Props
  imports Daemon Config_Load_Props
begin

text \<open>
  The daemon as a machine: the steps the event loop is made of, what they keep, and what a
  turn, a reload and a startup guarantee.
\<close>

section \<open>Fields\<close>

lemma dm_proj [simp]:
  "dm_world (set_world w d) = w" "dm_runtime (set_world w d) = dm_runtime d"
  "dm_watcher (set_world w d) = dm_watcher d" "dm_state (set_world w d) = dm_state d"
  "dm_options (set_world w d) = dm_options d" "dm_config (set_world w d) = dm_config d"
  "dm_store (set_world w d) = dm_store d" "dm_degraded (set_world w d) = dm_degraded d"
  "dm_unique (set_world w d) = dm_unique d" "dm_epoll (set_world w d) = dm_epoll d"
  "dm_next_resync (set_world w d) = dm_next_resync d" "dm_pending (set_world w d) = dm_pending d"
  "dm_notifier (set_world w d) = dm_notifier d"
  "dm_last_reload_error (set_world w d) = dm_last_reload_error d"
  "dm_unreadable (set_world w d) = dm_unreadable d"
  by (simp_all add: dm_world_def dm_runtime_def dm_watcher_def dm_state_def set_world_def set_host_def)

lemma set_world_twice [simp]: "set_world w (set_world v d) = set_world w d"
  by (simp add: set_world_def set_host_def)

lemma dm_update [simp]:
  "dm_runtime (d\<lparr>dm_pending := p\<rparr>) = dm_runtime d" "dm_state (d\<lparr>dm_pending := p\<rparr>) = dm_state d"
  "dm_watcher (d\<lparr>dm_pending := p\<rparr>) = dm_watcher d" "dm_world (d\<lparr>dm_pending := p\<rparr>) = dm_world d"
  "dm_runtime (d\<lparr>dm_next_resync := r\<rparr>) = dm_runtime d" "dm_state (d\<lparr>dm_next_resync := r\<rparr>) = dm_state d"
  "dm_watcher (d\<lparr>dm_next_resync := r\<rparr>) = dm_watcher d" "dm_world (d\<lparr>dm_next_resync := r\<rparr>) = dm_world d"
  "dm_runtime (d\<lparr>dm_notifier := n\<rparr>) = dm_runtime d" "dm_state (d\<lparr>dm_notifier := n\<rparr>) = dm_state d"
  "dm_watcher (d\<lparr>dm_notifier := n\<rparr>) = dm_watcher d" "dm_world (d\<lparr>dm_notifier := n\<rparr>) = dm_world d"
  "dm_runtime (d\<lparr>dm_degraded := g\<rparr>) = dm_runtime d" "dm_state (d\<lparr>dm_degraded := g\<rparr>) = dm_state d"
  "dm_watcher (d\<lparr>dm_degraded := g\<rparr>) = dm_watcher d" "dm_world (d\<lparr>dm_degraded := g\<rparr>) = dm_world d"
  "dm_runtime (d\<lparr>dm_last_reload_error := e\<rparr>) = dm_runtime d"
  "dm_state (d\<lparr>dm_last_reload_error := e\<rparr>) = dm_state d"
  "dm_watcher (d\<lparr>dm_last_reload_error := e\<rparr>) = dm_watcher d"
  "dm_world (d\<lparr>dm_last_reload_error := e\<rparr>) = dm_world d"
  by (simp_all add: dm_world_def dm_runtime_def dm_watcher_def dm_state_def)

lemma on_daemon_eq: "on_daemon m d = (x, d') \<longleftrightarrow> (\<exists>w. m (dm_world d) = (x, w) \<and> d' = set_world w d)"
  by (auto simp: on_daemon_def split: prod.splits)

section \<open>Steps that only talk\<close>

text \<open>Reading a clock, waiting and notifying change the world and the notifier only.\<close>

definition idles :: "('w, 'fd) daemon \<Rightarrow> ('w, 'fd) daemon \<Rightarrow> bool" where
  "idles d d' = (\<exists>w n. d' = set_world w (d\<lparr>dm_notifier := n\<rparr>))"

lemma idles_refl [simp]: "idles d d"
  unfolding idles_def
  by (rule exI[of _ "dm_world d"], rule exI[of _ "dm_notifier d"])
    (simp add: set_world_def set_host_def dm_world_def)

lemma set_world_notifier [simp]: "(set_world w d)\<lparr>dm_notifier := n\<rparr> = set_world w (d\<lparr>dm_notifier := n\<rparr>)"
  by (simp add: set_world_def set_host_def)

lemma idles_trans: "idles d d' \<Longrightarrow> idles d' d'' \<Longrightarrow> idles d d''"
  unfolding idles_def by clarsimp blast

lemma idles_world [simp]: "idles d (set_world w d)"
  unfolding idles_def by (rule exI[of _ w], rule exI[of _ "dm_notifier d"]) simp

lemma idles_on_daemon: "on_daemon m d = (x, d') \<Longrightarrow> idles d d'"
  by (auto simp: on_daemon_eq)

lemma idles_send [simp]: "idles d (send_status D d)" "idles d (send_ready D d)" "idles d (send_reloading D d)"
proof -
  show "idles d (send_status D d)" "idles d (send_ready D d)"
    unfolding send_status_def send_ready_def by (auto simp: idles_def split: prod.splits)
  show "idles d (send_reloading D d)" unfolding send_reloading_def by simp
qed

lemma idles_same:
  assumes "idles d d'"
  shows "dm_runtime d' = dm_runtime d" "dm_watcher d' = dm_watcher d" "dm_state d' = dm_state d"
    "dm_options d' = dm_options d" "dm_config d' = dm_config d" "dm_store d' = dm_store d"
    "dm_degraded d' = dm_degraded d" "dm_unique d' = dm_unique d" "dm_epoll d' = dm_epoll d"
    "dm_next_resync d' = dm_next_resync d" "dm_pending d' = dm_pending d"
    "dm_last_reload_error d' = dm_last_reload_error d" "dm_unreadable d' = dm_unreadable d"
  using assms by (auto simp: idles_def)

section \<open>The machine\<close>

datatype label = Idle | Changed changes | Reloaded | Refused | Passed

text \<open>The steps: talking, reading changes, a reload that is applied or refused, a pass.\<close>

inductive daemon_step ::
  "('w, 'fd, 'v) daemon_calls \<Rightarrow> ('w, 'fd) daemon \<Rightarrow> label \<Rightarrow> ('w, 'fd) daemon \<Rightarrow> bool"
  for D where
  idle: "idles d d' \<Longrightarrow> daemon_step D d Idle d'"
| unread: "d' = set_world w (set_host (\<lambda>h. h\<lparr>h_caller := wt\<rparr>) d) \<Longrightarrow> daemon_step D d Idle d'"
| changed: "d' = handle_changes D ch (set_world w (set_host (\<lambda>h. h\<lparr>h_caller := wt\<rparr>) d))
     \<Longrightarrow> daemon_step D d (Changed ch) d'"
| reloaded: "reload D d = (True, d') \<Longrightarrow> daemon_step D d Reloaded d'"
| refused: "reload D d = (False, d') \<Longrightarrow> daemon_step D d Refused d'"
| passed: "daemon_pass D (d\<lparr>dm_pending := None\<rparr>) = Some d' \<Longrightarrow> daemon_step D d Passed d'"

inductive_cases idle_stepE: "daemon_step D d Idle d'"
inductive_cases changed_stepE: "daemon_step D d (Changed ch) d'"
inductive_cases reloaded_stepE: "daemon_step D d Reloaded d'"
inductive_cases refused_stepE: "daemon_step D d Refused d'"
inductive_cases passed_stepE: "daemon_step D d Passed d'"

inductive daemon_run ::
  "('w, 'fd, 'v) daemon_calls \<Rightarrow> ('w, 'fd) daemon \<Rightarrow> label list \<Rightarrow> ('w, 'fd) daemon \<Rightarrow> bool"
  for D where
  stop: "daemon_run D d [] d"
| step: "daemon_step D d l d' \<Longrightarrow> daemon_run D d' ls d'' \<Longrightarrow> daemon_run D d (l # ls) d''"

lemma daemon_run_append: "daemon_run D d ls d' \<Longrightarrow> daemon_run D d' ls' d'' \<Longrightarrow> daemon_run D d (ls @ ls') d''"
  by (induction rule: daemon_run.induct) (auto intro: daemon_run.intros)

lemma daemon_run_one: "daemon_step D d l d' \<Longrightarrow> daemon_run D d [l] d'"
  by (auto intro: daemon_run.intros)

definition runs :: "('w, 'fd, 'v) daemon_calls \<Rightarrow> ('w, 'fd) daemon \<Rightarrow> ('w, 'fd) daemon \<Rightarrow> bool" where
  "runs D d d' = (\<exists>ls. daemon_run D d ls d')"

lemma runs_step: "daemon_step D d l d' \<Longrightarrow> runs D d d'"
  unfolding runs_def using daemon_run_one by metis

lemma runs_trans [trans]: "runs D d d' \<Longrightarrow> runs D d' d'' \<Longrightarrow> runs D d d''"
  unfolding runs_def using daemon_run_append by metis

lemma runs_idles: "idles d d' \<Longrightarrow> runs D d d'"
  by (rule runs_step) (rule daemon_step.idle)

section \<open>The loop takes the steps of the machine\<close>

definition turn_runs :: "('w, 'fd, 'v) daemon_calls \<Rightarrow> ('w, 'fd) daemon \<Rightarrow> ('w, 'fd) daemon turn \<Rightarrow> bool" where
  "turn_runs D d t = (case t of Next d' \<Rightarrow> runs D d d' | Exit r d' \<Rightarrow> runs D d d')"

lemma turn_runs_trans: "runs D d d' \<Longrightarrow> turn_runs D d' t \<Longrightarrow> turn_runs D d t"
  by (auto simp: turn_runs_def intro: runs_trans split: turn.splits)

lemma handle_reload_runs: "handle_reload D d = Some d' \<Longrightarrow> runs D d d'"
proof -
  assume h: "handle_reload D d = Some d'"
  let ?d = "send_reloading D d"
  obtain b d1 where r: "reload D ?d = (b, d1)" by fastforce
  have first: "runs D d ?d" by (rule runs_idles) simp
  show ?thesis
  proof (cases b)
    case True
    with h r obtain d2 where p: "daemon_pass D (d1\<lparr>dm_pending := None\<rparr>) = Some d2" "d' = send_ready D d2"
      by (auto simp: handle_reload_def)
    have "runs D ?d d1" using r True by (intro runs_step) (auto intro: daemon_step.reloaded)
    also have "runs D d1 d2" using p(1) by (intro runs_step) (rule daemon_step.passed)
    also have "runs D d2 d'" unfolding p(2) by (rule runs_idles) simp
    finally show ?thesis using first runs_trans by blast
  next
    case False
    with h r have "d' = send_ready D d1" by (simp add: handle_reload_def)
    then have "runs D d1 d'" by (auto intro: runs_idles)
    moreover have "runs D ?d d1" using r False by (intro runs_step) (auto intro: daemon_step.refused)
    ultimately show ?thesis using first runs_trans by metis
  qed
qed

lemma handle_signals_runs: "handle_signals D sfd d = Some t \<Longrightarrow> turn_runs D d t"
proof (erule handle_signals.raw_induct[where P = "\<lambda>D sfd d t. turn_runs D d t", rotated])
  fix rec :: "('a, 'b, 'c) daemon_calls \<Rightarrow> 'b \<Rightarrow> ('a, 'b) daemon \<Rightarrow> ('a, 'b) daemon turn option"
    and D sfd d t
  assume ih: "\<And>D sfd d t. rec D sfd d = Some t \<Longrightarrow> turn_runs D d t"
    and eq: "(case on_daemon (signal_read (dk_signals D) sfd) d of
      (Inl er, d) \<Rightarrow> Some (Exit (Inl (App_Signals ''reading signalfd'' er)) d) | (Inr None, d) \<Rightarrow> Some (Next d)
    | (Inr (Some s), d) \<Rightarrow>
        if s = SIGHUP then Option.bind (handle_reload D d) (rec D sfd)
        else if s = SIGTERM \<or> s = SIGINT then Some (Exit (Inr ()) d) else rec D sfd d) = Some t"
  obtain r d1 where r: "on_daemon (signal_read (dk_signals D) sfd) d = (r, d1)" by fastforce
  then have idle: "runs D d d1" using idles_on_daemon runs_idles by metis
  have "turn_runs D d1 t"
    using eq unfolding r
    by (auto simp: turn_runs_def bind_eq_Some_conv intro: runs_idles
        split: sum.splits option.splits if_splits turn.splits
        dest!: ih handle_reload_runs intro: runs_trans)
  with idle show "turn_runs D d t" by (rule turn_runs_trans)
qed

lemma handle_inotify_runs: "handle_inotify D d = Some (r, d') \<Longrightarrow> runs D d d'"
  by (auto simp: handle_inotify_def Let_def
      intro: runs_step[OF daemon_step.unread] runs_step[OF daemon_step.changed]
      split: option.splits prod.splits sum.splits)

lemma runs_refl [simp]: "runs D d d"
  by (rule runs_idles) simp

lemma handle_event_runs:
  assumes "handle_event D sfd token d = Some t"
  shows "turn_runs D d t"
proof (cases "token = TOKEN_SIGNAL")
  case True
  with assms show ?thesis by (intro handle_signals_runs) (simp add: handle_event_def)
next
  case other: False
  show ?thesis
  proof (cases "token = TOKEN_INOTIFY")
    case True
    with assms other obtain r d' where h: "handle_inotify D d = Some (r, d')"
      and t: "t = (case r of Inl er \<Rightarrow> Exit (Inl er) d' | Inr _ \<Rightarrow> Next d')"
      unfolding handle_event_def by (metis (no_types, lifting) map_option_eq_Some old.prod.case surj_pair)
    show ?thesis using handle_inotify_runs[OF h] t by (cases r) (simp_all add: turn_runs_def)
  next
    case False
    with assms other have "t = Next d" by (simp add: handle_event_def)
    then show ?thesis by (simp add: turn_runs_def)
  qed
qed

lemma handle_events_runs: "handle_events D sfd ts d = Some t \<Longrightarrow> turn_runs D d t"
proof (induction ts arbitrary: d)
  case Nil
  then show ?case by (auto simp: turn_runs_def)
next
  case (Cons x ts)
  then obtain u where u: "handle_event D sfd x d = Some u" by (auto split: option.splits)
  from handle_event_runs[OF u] have first: "turn_runs D d u" .
  show ?case
  proof (cases u)
    case (Next d1)
    then have "turn_runs D d1 t" using Cons u by simp
    moreover have "runs D d d1" using first Next by (simp add: turn_runs_def)
    ultimately show ?thesis by (metis turn_runs_trans)
  next
    case (Exit r d1)
    then show ?thesis using Cons.prems u first by simp
  qed
qed

lemma run_due_runs: "run_due D d = Some d' \<Longrightarrow> runs D d d'"
  by (auto simp: run_due_def split: prod.splits option.splits
      dest!: idles_on_daemon runs_idles intro: runs_trans runs_step[OF daemon_step.passed])

lemma wait_runs:
  assumes "wait_timeout D d = (tm, d1)" "on_daemon (dk_epoll_wait D (dm_epoll d1) tm) d1 = (r, d2)"
  shows "idles d d2" "dm_pending d2 = dm_pending d" "dm_next_resync d2 = dm_next_resync d"
proof -
  have "idles d d1" using assms(1)
    by (auto simp: wait_timeout_def split: option.splits prod.splits intro: idles_on_daemon)
  then show "idles d d2" using idles_on_daemon[OF assms(2)] idles_trans by blast
  then show "dm_pending d2 = dm_pending d" "dm_next_resync d2 = dm_next_resync d"
    by (rule idles_same)+
qed

text \<open>The ways a turn ends.\<close>

lemma loop_turn_cases:
  assumes "loop_turn D sfd d = Some t"
  obtains (interrupted) d1 where "t = Next d1" "idles d d1"
    | (failed) e d1 where "t = Exit (Inl (App_Epoll (Some ''epoll_wait'') e)) d1" "idles d d1"
    | (ended) d1 tokens r d2 where "idles d d1" "handle_events D sfd tokens d1 = Some (Exit r d2)" "t = Exit r d2"
    | (finished) d1 tokens d2 d3 where "idles d d1" "handle_events D sfd tokens d1 = Some (Next d2)"
        "run_due D d2 = Some d3" "t = Next d3"
proof -
  obtain tm d0 where w: "wait_timeout D d = (tm, d0)" by fastforce
  obtain r d1 where r: "on_daemon (dk_epoll_wait D (dm_epoll d0) tm) d0 = (r, d1)" by fastforce
  note idle = wait_runs(1)[OF w r]
  show thesis
  proof (cases r)
    case (Inl e)
    with assms w r have "t = (if e = Errno 4 then Next d1 else Exit (Inl (App_Epoll (Some ''epoll_wait'') e)) d1)"
      by (simp add: loop_turn_def)
    with idle that(1,2) show thesis by (auto split: if_splits)
  next
    case (Inr tokens)
    with assms w r have e: "(case handle_events D sfd tokens d1 of
        None \<Rightarrow> None | Some (Exit r d) \<Rightarrow> Some (Exit r d)
      | Some (Next d) \<Rightarrow> map_option Next (run_due D d)) = Some t"
      by (simp add: loop_turn_def)
    then obtain u where u: "handle_events D sfd tokens d1 = Some u" by (auto split: option.splits)
    show thesis
    proof (cases u)
      case (Next d2)
      with e u obtain d3 where "run_due D d2 = Some d3" "t = Next d3" by auto
      with Next u idle that(4) show thesis by simp
    next
      case (Exit q d2)
      with e u idle that(3) show thesis by auto
    qed
  qed
qed

lemma loop_turn_runs: "loop_turn D sfd d = Some t \<Longrightarrow> turn_runs D d t"
proof (erule loop_turn_cases)
  fix d1 tokens d2 d3
  assume "idles d d1" and h: "handle_events D sfd tokens d1 = Some (Next d2)"
    and "run_due D d2 = Some d3" "t = Next d3"
  moreover have "runs D d1 d2" using handle_events_runs[OF h] by (simp add: turn_runs_def)
  ultimately show "turn_runs D d t"
    by (auto simp: turn_runs_def intro: runs_trans dest: runs_idles run_due_runs)
next
  fix d1 tokens r d2
  assume "idles d d1" and h: "handle_events D sfd tokens d1 = Some (Exit r d2)" and t: "t = Exit r d2"
  have "runs D d1 d2" using handle_events_runs[OF h] by (simp add: turn_runs_def)
  with \<open>idles d d1\<close> show "turn_runs D d t"
    unfolding t turn_runs_def turn.case by (metis runs_idles runs_trans)
qed (auto simp: turn_runs_def intro: runs_idles)

section \<open>What every step keeps\<close>

text \<open>A runtime opened from a valid configuration is valid.\<close>

lemma each_strict_keeps:
  assumes "each_strict f xs s = (Inr (), s')" "P s"
    and "\<And>x s s'. x \<in> set xs \<Longrightarrow> P s \<Longrightarrow> f x s = (Inr (), s') \<Longrightarrow> P s'"
  shows "P s'"
  using assms
proof (induction xs arbitrary: s)
  case (Cons x xs)
  then obtain s1 where "f x s = (Inr (), s1)" "each_strict f xs s1 = (Inr (), s')"
    by (auto simp: bindE_Inr_iff)
  with Cons show ?case by (meson list.set_intros)
qed simp

lemma open_or_same: "open_or subj field path opn (rt, e) = (r, (rt', e')) \<Longrightarrow> rt' = rt"
  by (auto simp: open_or_def split: prod.splits sum.splits)

lemma open_group_Inr:
  assumes "open_group K g (rt, e) = (Inr (), (rt', e'))"
  shows "\<exists>fd. rt' = rt\<lparr>rt_groups := bt_insert (gc_name g) \<lparr>gr_config = g, gr_membership_dir = fd\<rparr> (rt_groups rt)\<rparr>"
  using assms
  by (fastforce simp: open_group_def Let_def bindE_Inr_iff dest!: open_or_same split: prod.splits)

lemma open_set_Inr:
  assumes "open_set K sc (rt, e) = (Inr (), (rt', e'))"
  shows "\<exists>fd. rt' = rt\<lparr>rt_sets := bt_insert (sc_name sc) \<lparr>sr_config = sc, sr_root_dir = fd\<rparr> (rt_sets rt)\<rparr>"
  using assms
  by (fastforce simp: open_set_def Let_def bindE_Inr_iff dest!: open_or_same split: prod.splits)

lemma runtime_open_ok:
  assumes cfg: "config_ok cfg" and run: "runtime_open K cfg w = (Inr u, (rt, e))"
  shows "runtime_ok rt"
proof -
  let ?P = "\<lambda>s. runtime_ok (fst s)"
  let ?s0 = "(default_runtime, \<lparr>e_roots = [], e_world = w\<rparr>)"
  obtain s1 where g: "each_strict (open_group K) (bt_values (cfg_groups cfg)) ?s0 = (Inr (), s1)"
    and st: "each_strict (open_set K) (bt_values (cfg_group_sets cfg)) s1 = (Inr (), (rt, e))"
    using run by (auto simp: runtime_open_def bindE_Inr_iff)
  have "?P ?s0" by (simp add: runtime_ok_def default_runtime_def)
  then have "?P s1"
  proof (rule each_strict_keeps[OF g])
    fix g and s s' :: "('b, 'a) open_state"
    assume "g \<in> set (bt_values (cfg_groups cfg))" and ok: "?P s" and o: "open_group K g s = (Inr (), s')"
    then have "Config_Props.group_ok g" using cfg by (auto simp: config_ok_def bt_values_def)
    moreover obtain fd where "fst s' = (fst s)\<lparr>rt_groups :=
        bt_insert (gc_name g) \<lparr>gr_config = g, gr_membership_dir = fd\<rparr> (rt_groups (fst s))\<rparr>"
      using o open_group_Inr by (metis prod.collapse)
    ultimately show "?P s'" using ok set_bt_insert
      by (fastforce simp: runtime_ok_def intro: bt_wf_insert)
  qed
  then have "?P (rt, e)"
  proof (rule each_strict_keeps[OF st])
    fix sc and s s' :: "('b, 'a) open_state"
    assume "sc \<in> set (bt_values (cfg_group_sets cfg))" and ok: "?P s" and o: "open_set K sc s = (Inr (), s')"
    then have "group_set_ok sc" using cfg by (auto simp: config_ok_def bt_values_def)
    moreover obtain fd where "fst s' = (fst s)\<lparr>rt_sets :=
        bt_insert (sc_name sc) \<lparr>sr_config = sc, sr_root_dir = fd\<rparr> (rt_sets (fst s))\<rparr>"
      using o open_set_Inr by (metis prod.collapse)
    ultimately show "?P s'" using ok set_bt_insert
      by (fastforce simp: runtime_ok_def intro: bt_wf_insert)
  qed
  then show ?thesis by simp
qed

text \<open>The invariant: runtime, state and configuration are valid, and a pending pass is due at
  most \<open>MAX_DEBOUNCE\<close> after its first change.\<close>

definition daemon_inv :: "('w, 'fd) daemon \<Rightarrow> bool" where
  "daemon_inv d =
     (runtime_ok (dm_runtime d) \<and> state_wf (dm_state d) \<and> config_ok (dm_config d)
      \<and> (\<forall>first due. dm_pending d = Some (first, due) \<longrightarrow> due \<le> first + MAX_DEBOUNCE)
      \<and> bs_wf (dg_groups (dm_degraded d)) \<and> bs_wf (dg_sets (dm_degraded d)) \<and> bs_wf (dm_unreadable d))"

lemma daemon_inv_idles: "idles d d' \<Longrightarrow> daemon_inv d' \<longleftrightarrow> daemon_inv d"
  by (simp add: daemon_inv_def idles_same)

text \<open>What a degraded daemon protects: the groups, and the groups of the sets.\<close>

definition protected :: "degraded \<Rightarrow> group_id \<Rightarrow> bool" where
  "protected deg g = (g \<in> set (dg_groups deg) \<or> (\<exists>st. gid_set g = Some st \<and> st \<in> set (dg_sets deg)))"

definition keeps_records :: "degraded \<Rightarrow> state \<Rightarrow> state \<Rightarrow> bool" where
  "keeps_records deg s s' =
     (\<forall>k. (\<forall>r. protected deg (rk_group k) \<and> state_get s k = Some r \<longrightarrow> state_get s' k = Some r)
        \<and> (rk_group k \<in> set (dg_groups deg) \<longrightarrow> state_get s' k = state_get s k))"

definition worse :: "degraded \<Rightarrow> degraded \<Rightarrow> bool" where
  "worse deg deg' = (set (dg_groups deg) \<subseteq> set (dg_groups deg') \<and> set (dg_sets deg) \<subseteq> set (dg_sets deg'))"

lemma keeps_records_refl [simp]: "keeps_records deg s s"
  by (simp add: keeps_records_def)

lemma worse_refl [simp]: "worse deg deg"
  by (simp add: worse_def)

lemma worse_trans: "worse a b \<Longrightarrow> worse b c \<Longrightarrow> worse a c"
  by (auto simp: worse_def)

lemma protected_worse: "worse deg deg' \<Longrightarrow> protected deg g \<Longrightarrow> protected deg' g"
  by (auto simp: protected_def worse_def)

lemma keeps_records_trans:
  "keeps_records deg s s' \<Longrightarrow> worse deg deg' \<Longrightarrow> keeps_records deg' s' s'' \<Longrightarrow> keeps_records deg s s''"
  unfolding keeps_records_def using protected_worse by (metis worse_def subsetD)

lemma add_note_grows:
  "worse (snd x) (snd (add_note nt x))"
  "bs_wf (fst x) \<Longrightarrow> bs_wf (fst (add_note nt x))"
  "bs_wf (dg_groups (snd x)) \<and> bs_wf (dg_sets (snd x))
     \<Longrightarrow> bs_wf (dg_groups (snd (add_note nt x))) \<and> bs_wf (dg_sets (snd (add_note nt x)))"
  by (cases "(nt, x)" rule: add_note.cases; auto simp: worse_def intro: wf_intros)+

lemma add_notes_grow:
  "worse (snd x) (snd (fold add_note nts x))"
  "bs_wf (fst x) \<Longrightarrow> bs_wf (fst (fold add_note nts x))"
  "bs_wf (dg_groups (snd x)) \<and> bs_wf (dg_sets (snd x))
     \<Longrightarrow> bs_wf (dg_groups (snd (fold add_note nts x))) \<and> bs_wf (dg_sets (snd (fold add_note nts x)))"
proof (induction nts arbitrary: x)
  case (Cons nt nts)
  {
    case 1
    show ?case using Cons(1)[of "add_note nt x"] add_note_grows(1)[of x nt] worse_trans
      unfolding fold_simps comp_apply by blast
  next
    case 2
    then show ?case using Cons(2)[of "add_note nt x"] add_note_grows(2)[of x nt] by simp
  next
    case 3
    then show ?case using Cons(3)[of "add_note nt x"] add_note_grows(3)[of x nt] by simp
  }
qed simp_all

text \<open>What no pass and no change touches.\<close>

definition same_setup :: "('w, 'fd) daemon \<Rightarrow> ('w, 'fd) daemon \<Rightarrow> bool" where
  "same_setup d d' =
     (dm_options d' = dm_options d \<and> dm_config d' = dm_config d \<and> dm_store d' = dm_store d
      \<and> dm_unique d' = dm_unique d \<and> dm_epoll d' = dm_epoll d)"

lemma same_setup_refl [simp]: "same_setup d d"
  by (simp add: same_setup_def)

lemma same_setup_trans: "same_setup a b \<Longrightarrow> same_setup b c \<Longrightarrow> same_setup a c"
  by (simp add: same_setup_def)

lemma schedule_resync_same:
  "dm_state (schedule_resync D d) = dm_state d" "dm_runtime (schedule_resync D d) = dm_runtime d"
  "same_setup d (schedule_resync D d)" "dm_degraded (schedule_resync D d) = dm_degraded d"
  "dm_pending (schedule_resync D d) = dm_pending d" "dm_unreadable (schedule_resync D d) = dm_unreadable d"
  "dm_last_reload_error (schedule_resync D d) = dm_last_reload_error d"
  by (auto simp: schedule_resync_def same_setup_def on_daemon_def split: option.splits prod.splits)

lemma daemon_pass_ok:
  assumes inv: "daemon_inv d"
  shows "\<exists>d'. daemon_pass D d = Some d' \<and> daemon_inv d' \<and> same_setup d d' \<and> dm_pending d' = dm_pending d
    \<and> worse (dm_degraded d) (dm_degraded d') \<and> keeps_records (dm_degraded d) (dm_state d) (dm_state d')
    \<and> dm_last_reload_error d' = dm_last_reload_error d"
proof -
  let ?rc = "dm_reconciler d" and ?deg = "dm_degraded d"
  have ok: "runtime_ok (h_runtime (rc_host ?rc))" and wf: "state_wf (rc_state ?rc)"
    using inv by (simp_all add: daemon_inv_def dm_runtime_def dm_state_def)
  obtain ps events rc' rt dy w where run: "run_pass (sy_kernel (dk_system D)) (daemon_sink D d) ?deg
      (dm_unique d) (watch_runtime D) ?rc = Some (ps, events, rc')"
    and rok: "runtime_ok (h_runtime (rc_host rc'))" and swf: "state_wf (rc_state rc')"
    and left: "\<forall>g. left_alone ?deg (rc_state ?rc) dy (set (ob_notes (ps_observed ps))) g \<longrightarrow>
         (\<forall>a\<in>set (map step_action (plan_steps (ps_plan ps))). rk_group (action_key a) \<noteq> g)
         \<and> (\<forall>k. rk_group k = g \<longrightarrow> state_get (rc_state rc') k = state_get (rc_state ?rc) k)"
    using run_pass_ok[OF ok wf, of "sy_kernel (dk_system D)" "daemon_sink D d" ?deg "dm_unique d" "watch_runtime D"]
    by blast
  let ?nts = "ob_notes (ps_observed ps)"
  obtain un deg where n: "fold add_note ?nts ([], ?deg) = (un, deg)" by fastforce
  let ?d1 = "d\<lparr>dm_reconciler := rc', dm_unreadable := un, dm_degraded := deg\<rparr>"
  let ?d2 = "send_status D (schedule_resync D ?d1)"
  have pass: "daemon_pass D d = Some ?d2" using run n by (simp add: daemon_pass_def)
  have idle: "idles (schedule_resync D ?d1) ?d2" by simp
  note same = idles_same[OF idle] schedule_resync_same[where D = D and d = ?d1]
  have keys: "keeps_records ?deg (rc_state ?rc) (rc_state rc')"
    unfolding keeps_records_def
  proof (intro allI conjI impI)
    fix k r
    assume "protected ?deg (rk_group k) \<and> state_get (rc_state ?rc) k = Some r"
    then have p: "protected ?deg (rk_group k)" and r: "state_get (rc_state ?rc) k = Some r" by auto
    have "r \<in> set (records (rc_state ?rc))" "mr_group r = rk_group k"
      using r state_get_key[OF wf r] records_iff[OF wf] rk_group_mr_key by metis+
    then have "left_alone ?deg (rc_state ?rc) dy (set ?nts) (rk_group k)"
      using p unfolding left_alone_def protected_def by blast
    then show "state_get (rc_state rc') k = Some r" using left r by metis
  next
    fix k
    assume "rk_group k \<in> set (dg_groups ?deg)"
    then show "state_get (rc_state rc') k = state_get (rc_state ?rc) k"
      using left unfolding left_alone_def by blast
  qed
  have st: "dm_state ?d1 = rc_state rc'" "dm_runtime ?d1 = h_runtime (rc_host rc')"
    by (simp_all add: dm_state_def dm_runtime_def)
  have deg: "worse ?deg deg" "bs_wf un" "bs_wf (dg_groups deg) \<and> bs_wf (dg_sets deg)"
    using add_notes_grow[of "([], ?deg)" ?nts] n inv by (simp_all add: daemon_inv_def)
  have "daemon_inv ?d2"
    using inv rok swf deg same st unfolding daemon_inv_def same_setup_def by simp
  moreover have "same_setup d ?d2" using same unfolding same_setup_def by simp
  ultimately show ?thesis using pass same st deg keys
    by (intro exI[of _ ?d2]) (simp add: dm_state_def[of d])
qed

lemma handle_changes_same:
  "dm_runtime (handle_changes D ch d) = dm_runtime d" "dm_state (handle_changes D ch d) = dm_state d"
  "same_setup d (handle_changes D ch d)"
  "dm_degraded (handle_changes D ch d) = degrade ch (dm_degraded d)"
  "dm_unreadable (handle_changes D ch d) = dm_unreadable d"
  "dm_last_reload_error (handle_changes D ch d) = dm_last_reload_error d"
  by (auto simp: handle_changes_def same_setup_def Let_def on_daemon_def split: prod.splits)

lemma handle_changes_pending:
  "dm_pending (handle_changes D ch d) =
     (if ch_membership ch \<or> ch_overflow ch
      then Some (postpone (fst (dk_instant D (dm_world d))) (dm_pending d)) else dm_pending d)"
  by (auto simp: handle_changes_def Let_def on_daemon_def split: prod.splits)

lemma postpone_bound: "postpone now p = (first, due) \<Longrightarrow> due \<le> first + MAX_DEBOUNCE"
  by (auto simp: postpone_def Let_def)

lemma worse_degrade [simp]: "worse deg (degrade ch deg)"
  by (auto simp: worse_def degrade_def)

lemma set_caller_same:
  fixes wt :: "'fd watcher" and d :: "('w, 'fd) daemon"
  defines "d' \<equiv> set_host (\<lambda>h. h\<lparr>h_caller := wt\<rparr>) d"
  shows "dm_runtime d' = dm_runtime d" "dm_state d' = dm_state d" "dm_world d' = dm_world d"
    "same_setup d d'" "dm_degraded d' = dm_degraded d" "dm_unreadable d' = dm_unreadable d"
    "dm_pending d' = dm_pending d" "dm_last_reload_error d' = dm_last_reload_error d"
    "dm_watcher d' = wt"
  unfolding d'_def
  by (simp_all add: set_host_def dm_runtime_def dm_state_def dm_world_def dm_watcher_def same_setup_def)

section \<open>Reload\<close>

lemma load_config_ok:
  assumes "load_config S src own w = (Inr ld, w')"
  shows "config_ok (ld_config ld)"
proof -
  have "load (sy_files S) (sy_toml S) (source_options src own) w = (Inr ld, w')"
    using assms by (simp add: load_config_def)
  from load_sources[OF this] obtain sources ld' where
    "load_from_strs (sy_toml S) sources = Inr ld'" "ld_config ld' = ld_config ld" by blast
  with load_from_strs_config show ?thesis by metis
qed

text \<open>The targets a check went over, and what it found.\<close>

definition targets_checked ::
  "('w, 'fd, 'v) system \<Rightarrow> bool \<Rightarrow> 'fd runtime \<Rightarrow> (string, propagation_check) btree \<Rightarrow> bool" where
  "targets_checked S allow_slave rt results =
     ((\<exists>e s'. check_target_propagation S allow_slave (rt, e) = (Inr results, s'))
      \<and> fst ` set results = fst ` set (propagation_targets rt)
      \<and> (\<not> allow_slave \<longrightarrow> (\<forall>(label, check)\<in>set results. \<not> is_slave check)))"

lemma check_targets_Cons:
  assumes "check_targets S table ((label, root) # ts) (results, slaves) e = r"
  obtains check e1 where "check_targets S table ts
    (bt_insert label check results, if is_slave check then slaves @ [label] else slaves) e1 = r"
proof -
  obtain check e1 where c: "check_target S table root e = (check, e1)" by fastforce
  show thesis using assms c by (intro that[of check e1]) simp
qed

lemma check_targets_labels:
  "check_targets S table ts (results, slaves) e = ((results', slaves'), e')
     \<Longrightarrow> fst ` set results' = fst ` set results \<union> fst ` set ts"
proof (induction ts arbitrary: results slaves e)
  case (Cons t ts)
  obtain label root where t: "t = (label, root)" by (cases t)
  from Cons.prems[unfolded t] show ?case
  proof (rule check_targets_Cons)
    fix check e1
    assume "check_targets S table ts
      (bt_insert label check results, if is_slave check then slaves @ [label] else slaves) e1
        = ((results', slaves'), e')"
    from Cons.IH[OF this] t show ?thesis by auto
  qed
qed simp

lemma check_targets_slaves:
  "check_targets S table ts (results, slaves) e = ((results', []), e')
     \<Longrightarrow> slaves = [] \<and> (\<forall>(label, check)\<in>set results'. is_slave check \<longrightarrow> (label, check) \<in> set results)"
proof (induction ts arbitrary: results slaves e)
  case (Cons t ts)
  obtain label root where t: "t = (label, root)" by (cases t)
  from Cons.prems[unfolded t] show ?case
  proof (rule check_targets_Cons)
    fix check e1
    assume "check_targets S table ts
      (bt_insert label check results, if is_slave check then slaves @ [label] else slaves) e1
        = ((results', []), e')"
    from Cons.IH[OF this] set_bt_insert[of label check results] show ?thesis
      by (fastforce split: if_splits)
  qed
qed auto

lemma targets_checked:
  assumes "check_target_propagation S allow (rt, e) = (Inr results, s')"
  shows "targets_checked S allow rt results" "fst s' = rt"
proof -
  obtain table e1 where tb: "on_world (read_mount_table S) e = (Inr table, e1)"
    using assms by (auto simp: check_target_propagation_def split: prod.splits sum.splits)
  obtain res sl e2 where t: "check_targets S table (propagation_targets rt) ([], []) e1 = ((res, sl), e2)"
    by (metis prod.collapse)
  have r: "res = results" "sl = [] \<or> allow" "fst s' = rt"
    using assms tb t by (auto simp: check_target_propagation_def split: prod.splits if_splits)
  from r(3) show "fst s' = rt" .
  have "\<forall>(label, check)\<in>set results. \<not> is_slave check" if "\<not> allow"
    using check_targets_slaves[of S table "propagation_targets rt" "[]" "[]" e1 res e2] t r that by auto
  moreover have "fst ` set results = fst ` set (propagation_targets rt)"
    using check_targets_labels[OF t] r by simp
  ultimately show "targets_checked S allow rt results"
    unfolding targets_checked_def using assms by blast
qed

lemma open_checked_Inr:
  assumes "config_ok cfg" "open_checked S allow cfg w = (Inr opened, w')"
  shows "runtime_ok (fst opened)" "\<exists>results. targets_checked S allow (fst opened) results"
proof -
  obtain u rt e where o: "runtime_open (sy_kernel S) cfg w = (Inr u, (rt, e))"
    and c: "(case check_target_propagation S allow (rt, e) of
        (Inl er, (rt, e)) \<Rightarrow> (Inl er, e_world e) | (Inr _, s) \<Rightarrow> (Inr s, e_world (snd s))) = (Inr opened, w')"
    using assms(2) by (auto simp: open_checked_def split: prod.splits sum.splits)
  then obtain results s where t: "check_target_propagation S allow (rt, e) = (Inr results, s)" "opened = s"
    by (auto split: prod.splits sum.splits)
  from targets_checked[OF t(1)] t(2) runtime_open_ok[OF assms(1) o]
  show "runtime_ok (fst opened)" "\<exists>results. targets_checked S allow (fst opened) results"
    by auto
qed

lemma prepare_reload_Inr:
  assumes "prepare_reload D d w = (Inr (cfg, opened, wt), w')"
  shows "config_ok cfg" "dc_state_dir (cfg_daemon cfg) = dc_state_dir (cfg_daemon (dm_config d))"
    "runtime_ok (fst opened)"
    "\<exists>results. targets_checked (dk_system D) (op_allow_slave (dm_options d)) (fst opened) results"
proof -
  let ?S = "dk_system D"
  obtain ld w1 where l: "load_config ?S (op_config (dm_options d)) Enforce w = (Inr ld, w1)"
    and c: "ld_config ld = cfg" "dc_state_dir (cfg_daemon cfg) = dc_state_dir (cfg_daemon (dm_config d))"
    and "\<exists>w2 w3. open_checked ?S (op_allow_slave (dm_options d)) cfg w2 = (Inr opened, w3)"
    using assms by (auto simp: prepare_reload_def Let_def bindE_Inr_iff split: if_splits)
  then obtain w2 w3 where o: "open_checked ?S (op_allow_slave (dm_options d)) cfg w2 = (Inr opened, w3)"
    by blast
  show cfg: "config_ok cfg" using load_config_ok[OF l] c by simp
  show "dc_state_dir (cfg_daemon cfg) = dc_state_dir (cfg_daemon (dm_config d))" by fact
  show "runtime_ok (fst opened)"
    "\<exists>results. targets_checked ?S (op_allow_slave (dm_options d)) (fst opened) results"
    using open_checked_Inr[OF cfg o] by auto
qed

lemma reload_cases:
  assumes "reload D d = (applied, d')"
  obtains (refused) w msg where "\<not> applied" "d' = (set_world w d)\<lparr>dm_last_reload_error := Some msg\<rparr>"
    | (applied) cfg opened wt w1 w where "applied"
        "prepare_reload D d (dm_world d) = (Inr (cfg, opened, wt), w1)"
        "d' = install cfg opened wt (set_world w d)"
proof -
  obtain r d1 where p: "on_daemon (prepare_reload D d) d = (r, d1)" by fastforce
  show thesis
  proof (cases r)
    case (Inl er)
    with assms p that(1) show thesis by (auto simp: reload_def reload_failed_def on_daemon_eq)
  next
    case (Inr x)
    then obtain cfg opened wt where r: "r = Inr (cfg, opened, wt)" by (cases x) auto
    obtain q d2 where s: "on_daemon (swap_watcher D d1 wt) d1 = (q, d2)" by fastforce
    show thesis
    proof (cases q)
      case (Inl er)
      with assms p r s that(1) show thesis by (auto simp: reload_def reload_failed_def on_daemon_eq)
    next
      case (Inr u)
      obtain w1 w where w: "prepare_reload D d (dm_world d) = (r, w1)" "d2 = set_world w d"
        using p s by (auto simp: on_daemon_eq)
      have "applied" "d' = install cfg opened wt d2"
        using assms p r s Inr by (simp_all add: reload_def)
      then show thesis using w r that(2) by blast
    qed
  qed
qed

lemma install_same:
  "dm_runtime (install cfg opened wt d) = fst opened" "dm_watcher (install cfg opened wt d) = wt"
  "dm_state (install cfg opened wt d) = dm_state d" "dm_config (install cfg opened wt d) = cfg"
  "dm_options (install cfg opened wt d) = dm_options d" "dm_store (install cfg opened wt d) = dm_store d"
  "dm_unique (install cfg opened wt d) = dm_unique d" "dm_epoll (install cfg opened wt d) = dm_epoll d"
  "dm_degraded (install cfg opened wt d) = default_degraded"
  "dm_pending (install cfg opened wt d) = dm_pending d"
  "dm_last_reload_error (install cfg opened wt d) = None"
  "dm_unreadable (install cfg opened wt d) = dm_unreadable d"
  "dm_world (install cfg opened wt d) = dm_world d"
  by (auto simp: install_def set_host_def dm_runtime_def dm_watcher_def dm_state_def dm_world_def
      split: prod.splits)

section \<open>Steps\<close>

lemma daemon_step_keeps:
  assumes "daemon_step D d l d'" "daemon_inv d"
  shows "daemon_inv d' \<and> dm_options d' = dm_options d \<and> dm_store d' = dm_store d
    \<and> (l \<noteq> Reloaded \<longrightarrow> same_setup d d' \<and> worse (dm_degraded d) (dm_degraded d')
         \<and> keeps_records (dm_degraded d) (dm_state d) (dm_state d'))"
  using assms(1)
proof cases
  case idle
  with assms(2) show ?thesis by (simp add: daemon_inv_idles idles_same same_setup_def)
next
  case (unread w wt)
  then show ?thesis using assms(2) set_caller_same[where wt = wt and d = d]
    by (simp add: daemon_inv_def same_setup_def)
next
  case (changed ch w wt)
  let ?d = "set_world w (set_host (\<lambda>h. h\<lparr>h_caller := wt\<rparr>) d)"
  note same = set_caller_same[where wt = wt and d = d] handle_changes_same[where D = D and ch = ch and d = ?d]
  have "due \<le> first + MAX_DEBOUNCE" if "dm_pending d' = Some (first, due)" for first due
    using that assms(2) same postpone_bound unfolding changed(2)
    by (auto simp: handle_changes_pending daemon_inv_def split: if_splits)
  then show ?thesis using assms(2) same unfolding changed(2)
    by (auto simp: daemon_inv_def same_setup_def degrade_def worse_def intro: wf_intros)
next
  case reloaded
  from reloaded(2) show ?thesis
  proof (cases rule: reload_cases)
    case (applied cfg opened wt w1 w)
    from prepare_reload_Inr[OF applied(2)] assms(2) reloaded(1) show ?thesis
      unfolding applied(3) by (simp add: daemon_inv_def install_same default_degraded_def)
  qed simp
next
  case refused
  from refused(2) show ?thesis
  proof (cases rule: reload_cases)
    case (refused w msg)
    with assms(2) show ?thesis by (simp add: daemon_inv_def same_setup_def)
  qed simp
next
  case passed
  have "daemon_inv (d\<lparr>dm_pending := None\<rparr>)" using assms(2) by (simp add: daemon_inv_def)
  from daemon_pass_ok[OF this, of D] passed(2) show ?thesis by (auto simp: same_setup_def)
qed

lemma daemon_run_keeps:
  assumes "daemon_run D d ls d'" "daemon_inv d"
  shows "daemon_inv d' \<and> dm_options d' = dm_options d \<and> dm_store d' = dm_store d
    \<and> (Reloaded \<notin> set ls \<longrightarrow> same_setup d d' \<and> worse (dm_degraded d) (dm_degraded d')
         \<and> keeps_records (dm_degraded d) (dm_state d) (dm_state d'))"
  using assms
proof (induction rule: daemon_run.induct)
  case (step d l d1 ls d2)
  note one = daemon_step_keeps[OF step(1) step.prems]
  note rest = step.IH[OF one[THEN conjunct1]]
  show ?case
    using one rest same_setup_trans worse_trans keeps_records_trans unfolding list.set insert_iff
    by metis
qed simp

lemma event_loop_runs: "event_loop D sfd d = Some (r, d') \<Longrightarrow> runs D d d'"
proof -
  assume "event_loop D sfd d = Some (r, d')"
  then have "runs D d (snd (r, d'))"
  proof (rule event_loop.raw_induct[where P = "\<lambda>D sfd d x. runs D d (snd x)", rotated])
    fix rec :: "('a, 'b, 'c) daemon_calls \<Rightarrow> 'b \<Rightarrow> ('a, 'b) daemon
        \<Rightarrow> ((app_error + unit) \<times> ('a, 'b) daemon) option"
      and D sfd d x
    assume ih: "\<And>D sfd d x. rec D sfd d = Some x \<Longrightarrow> runs D d (snd x)"
      and eq: "(case loop_turn D sfd d of None \<Rightarrow> None | Some (Exit r d) \<Rightarrow> Some (r, d)
          | Some (Next d) \<Rightarrow> rec D sfd d) = Some x"
    then obtain t where t: "loop_turn D sfd d = Some t" by (auto split: option.splits)
    from loop_turn_runs[OF t] eq t show "runs D d (snd x)"
      by (cases t) (auto simp: turn_runs_def dest: ih intro: runs_trans)
  qed
  then show ?thesis by simp
qed

section \<open>Startup\<close>

lemma decode_wf: "decode js bytes = Inr s \<Longrightarrow> state_wf s"
  by (auto simp: decode_Inr_iff decode_records_default intro: wf_intros)

lemma load_corrupt_wf: "load_corrupt K strftime st at why w = (Inr out, w') \<Longrightarrow> state_wf (into_state out)"
  by (auto simp: load_corrupt_def into_state_def bindE_Inr_iff Let_def split: option.splits)

lemma load_inner_wf:
  assumes "load_inner K js strftime st aside w = (Inr out, w')"
  shows "state_wf (into_state out)"
proof -
  obtain r w1 where "k_openat K (sto_dir st) STATE_FILE_NAME [O_RDONLY, O_CLOEXEC, O_NOFOLLOW] 0 w = (r, w1)"
    by fastforce
  note run = assms[unfolded load_inner_def this]
  show ?thesis
  proof (cases r)
    case (Inl e)
    with run show ?thesis by (auto simp: into_state_def split: if_splits)
  next
    case (Inr fd)
    with run obtain bytes w2 where d: "(case decode js bytes of
        Inr s \<Rightarrow> retE (Loaded s)
      | Inl (UnsupportedVersion v) \<Rightarrow> failE (LE_UnsupportedVersion (store_path st) (UnsupportedVersion v))
      | Inl (Malformed why) \<Rightarrow> load_corrupt K strftime st aside why) w2 = (Inr out, w')"
      by (auto simp: bindE_Inr_iff)
    show ?thesis
    proof (cases "decode js bytes")
      case (Inl er)
      with d show ?thesis by (cases er) (auto dest: load_corrupt_wf)
    next
      case (Inr s)
      with d decode_wf[OF Inr] show ?thesis by (simp add: into_state_def)
    qed
  qed
qed

text \<open>The state was read, and is written, under the lock.\<close>

definition read_under_lock ::
  "('w, 'fd, 'v) system \<Rightarrow> 'fd state_store \<Rightarrow> state \<Rightarrow> bool" where
  "read_under_lock S store s =
     (\<exists>w1 lock w2 now w3 out w4. lock_acquire S (sto_dir store) w1 = (Inr lock, w2)
        \<and> k_now (sy_kernel S) w2 = (now, w3)
        \<and> load_for_write (sy_kernel S) (sy_json S) (sy_strftime S) store now w3 = (Inr out, w4)
        \<and> s = into_state out)"

lemma open_state_Inr:
  assumes "open_state_for_write S cfg w = (Inr wr, w')"
  shows "read_under_lock S (wr_store wr) (wr_state wr)" "state_wf (wr_state wr)"
proof -
  let ?K = "sy_kernel S"
  from assms obtain store w1 lock w2 where a: "take_lock S (dc_state_dir (cfg_daemon cfg)) store w1 = (Inr lock, w2)"
    and b: "(case k_now ?K w2 of (now, w) \<Rightarrow>
       bindE (mapErrE App_State (load_for_write ?K (sy_json S) (sy_strftime S) store now))
         (\<lambda>out. retE \<lparr>wr_store = store, wr_lock = lock, wr_state = into_state out\<rparr>) w) = (Inr wr, w')"
    by (auto simp: open_state_for_write_def Let_def bindE_Inr_iff)
  obtain now w3 where n: "k_now ?K w2 = (now, w3)" by fastforce
  with b obtain out where o: "load_for_write ?K (sy_json S) (sy_strftime S) store now w3 = (Inr out, w')"
    and wr: "wr = \<lparr>wr_store = store, wr_lock = lock, wr_state = into_state out\<rparr>"
    by (auto simp: bindE_Inr_iff)
  have "lock_acquire S (sto_dir store) w1 = (Inr lock, w2)" using a by (simp add: take_lock_def)
  with n o show "read_under_lock S (wr_store wr) (wr_state wr)"
    unfolding read_under_lock_def wr state_writer.simps by blast
  show "state_wf (wr_state wr)" using load_inner_wf[OF o[unfolded load_for_write_def]] wr by simp
qed

text \<open>What the process may do, as the kernel reported it after normalization.\<close>

definition only_sys_admin :: "('w, 'fd, 'v) system \<Rightarrow> bool \<Rightarrow> bool" where
  "only_sys_admin S allow_root =
     (\<exists>p proc w1 st w2. apply_plan (sy_kernel S) (sy_creds S) p proc w1 = (Inr st, w2)
        \<and> st_effective st = CAP_SYS_ADMIN \<and> st_permitted st = CAP_SYS_ADMIN
        \<and> st_inheritable st = 0 \<and> st_ambient st = 0 \<and> st_no_new_privs st
        \<and> (\<not> allow_root \<longrightarrow> 0 \<notin> set (st_uids st)))"

lemma read_self_uids:
  assumes "read_self K C proc w = (Inr st, w')"
  shows "\<exists>w1 w2. c_getresuid C w1 = (Inr (st_uids st), w2)"
  using assms unfolding read_self_def bindE_Inr_iff by clarsimp blast

lemma normalize_Inr:
  assumes "normalize S KeepSysAdmin user allow_root w = (Inr p, w')"
    and ids: "\<And>w us w'. c_getresuid (sy_creds S) w = (Inr us, w') \<Longrightarrow> length us = 3"
  shows "only_sys_admin S allow_root"
proof -
  let ?K = "sy_kernel S" and ?C = "sy_creds S"
  have "\<exists>proc w1 st w2 su. read_self ?K ?C proc w1 = (Inr st, w2)
    \<and> plan_privileges (credentials_of st)
        \<lparr>rq_goal = KeepSysAdmin, rq_user = su, rq_allow_root = allow_root\<rparr> = Inr p
    \<and> (\<exists>w3 st' w4. apply_plan ?K ?C p proc w3 = (Inr st', w4))"
    using assms(1) unfolding normalize_def Let_def bindE_Inr_iff liftE_def by clarsimp blast
  then obtain proc w1 st w2 su where
      r: "read_self ?K ?C proc w1 = (Inr st, w2)"
    and pl: "plan_privileges (credentials_of st)
        \<lparr>rq_goal = KeepSysAdmin, rq_user = su, rq_allow_root = allow_root\<rparr> = Inr p"
    and "\<exists>w3 st' w4. apply_plan ?K ?C p proc w3 = (Inr st', w4)"
    by blast
  then obtain w3 st' w4 where ap: "apply_plan ?K ?C p proc w3 = (Inr st', w4)" by blast
  have "length (st_uids st) = 3" using read_self_uids[OF r] ids by blast
  from normalized_facts[OF pl this ap] have "st_effective st' = CAP_SYS_ADMIN \<and> st_permitted st' = CAP_SYS_ADMIN
      \<and> st_inheritable st' = 0 \<and> st_ambient st' = 0 \<and> st_no_new_privs st'
      \<and> (\<not> allow_root \<longrightarrow> 0 \<notin> set (st_uids st'))"
    by (simp add: keep_of_def)
  with ap show ?thesis unfolding only_sys_admin_def by blast
qed

lemma check_environment_Inr:
  "check_environment S w = (Inr en, w') \<Longrightarrow> missing_required (en_features en) = []"
  by (auto simp: check_environment_def bindE_Inr_iff split: prod.splits if_splits)

text \<open>The stages of a startup that succeeds, in the order they ran.\<close>

lemma startup_stages:
  assumes "startup D opts w = (Inr (d, sfd), w')"
  obtains ld user p en wr opened wt ep n v where
    "\<exists>w1 w2. load_config (dk_system D) (op_config opts) Enforce w1 = (Inr ld, w2)"
    "\<exists>w1 w2. normalize (dk_system D) KeepSysAdmin user (op_allow_root opts) w1 = (Inr p, w2)"
    "\<exists>w1 w2. check_environment (dk_system D) w1 = (Inr en, w2)"
    "\<exists>w1 w2. open_state_for_write (dk_system D) (ld_config ld) w1 = (Inr wr, w2)"
    "\<exists>w1 w2. open_checked (dk_system D) (op_allow_slave opts) (ld_config ld) w1 = (Inr opened, w2)"
    "d = start_daemon opts n (ld_config ld) en wr opened wt ep v"
proof -
  let ?S = "dk_system D"
  obtain n w0 where n: "start_notifier D w = (n, w0)" by fastforce
  have "\<exists>ld user p en wr opened wt ep v.
      (\<exists>w1 w2. load_config ?S (op_config opts) Enforce w1 = (Inr ld, w2))
    \<and> (\<exists>w1 w2. normalize ?S KeepSysAdmin user (op_allow_root opts) w1 = (Inr p, w2))
    \<and> (\<exists>w1 w2. check_environment ?S w1 = (Inr en, w2))
    \<and> (\<exists>w1 w2. open_state_for_write ?S (ld_config ld) w1 = (Inr wr, w2))
    \<and> (\<exists>w1 w2. open_checked ?S (op_allow_slave opts) (ld_config ld) w1 = (Inr opened, w2))
    \<and> d = start_daemon opts n (ld_config ld) en wr opened wt ep v"
    using assms n unfolding startup_def normalize_privileges_def
    by (clarsimp simp: Let_def bindE_Inr_iff) blast
  with that show thesis by blast
qed

lemma start_daemon_fields:
  "dm_runtime (start_daemon opts n cfg en wr opened wt ep v) = fst opened"
  "dm_state (start_daemon opts n cfg en wr opened wt ep v) = wr_state wr"
  "dm_config (start_daemon opts n cfg en wr opened wt ep v) = cfg"
  "dm_options (start_daemon opts n cfg en wr opened wt ep v) = opts"
  "dm_store (start_daemon opts n cfg en wr opened wt ep v) = wr_store wr"
  "dm_pending (start_daemon opts n cfg en wr opened wt ep v) = None"
  "dm_degraded (start_daemon opts n cfg en wr opened wt ep v) = default_degraded"
  "dm_unreadable (start_daemon opts n cfg en wr opened wt ep v) = []"
  by (simp_all add: start_daemon_def dm_runtime_def dm_state_def)

lemma startup_facts:
  fixes D :: "('w, 'fd, 'v) daemon_calls"
  assumes "startup D opts w = (Inr (d, sfd), w')"
  shows "daemon_inv d \<and> dm_options d = opts
    \<and> read_under_lock (dk_system D) (dm_store d) (dm_state d)
    \<and> (\<exists>results. targets_checked (dk_system D) (op_allow_slave opts) (dm_runtime d) results)
    \<and> (\<exists>en :: 'fd environment. missing_required (en_features en) = []
          \<and> dm_unique d = unique_mount_ids (en_features en))
    \<and> ((\<forall>w us w'. c_getresuid (sy_creds (dk_system D)) w = (Inr us, w') \<longrightarrow> length us = 3)
        \<longrightarrow> only_sys_admin (dk_system D) (op_allow_root opts))"
proof (rule startup_stages[OF assms])
  let ?S = "dk_system D"
  fix ld user p and en :: "'fd environment" and wr opened wt ep n v
  assume l: "\<exists>w1 w2. load_config ?S (op_config opts) Enforce w1 = (Inr ld, w2)"
    and nm: "\<exists>w1 w2. normalize ?S KeepSysAdmin user (op_allow_root opts) w1 = (Inr p, w2)"
    and ev: "\<exists>w1 w2. check_environment ?S w1 = (Inr en, w2)"
    and o: "\<exists>w1 w2. open_state_for_write ?S (ld_config ld) w1 = (Inr wr, w2)"
    and r: "\<exists>w1 w2. open_checked ?S (op_allow_slave opts) (ld_config ld) w1 = (Inr opened, w2)"
    and d: "d = start_daemon opts n (ld_config ld) en wr opened wt ep v"
  obtain w1 w2 where "load_config ?S (op_config opts) Enforce w1 = (Inr ld, w2)" using l by blast
  note cfg = load_config_ok[OF this]
  obtain w3 w4 where "open_state_for_write ?S (ld_config ld) w3 = (Inr wr, w4)" using o by blast
  note st = open_state_Inr[OF this]
  obtain w5 w6 where "open_checked ?S (op_allow_slave opts) (ld_config ld) w5 = (Inr opened, w6)"
    using r by blast
  note rt = open_checked_Inr[OF cfg this]
  obtain w7 w8 where n: "normalize ?S KeepSysAdmin user (op_allow_root opts) w7 = (Inr p, w8)"
    using nm by blast
  have only: "only_sys_admin ?S (op_allow_root opts)"
    if "\<forall>w us w'. c_getresuid (sy_creds ?S) w = (Inr us, w') \<longrightarrow> length us = 3"
    using normalize_Inr[OF n] that by blast
  have "missing_required (en_features en) = []" using ev by (elim exE) (rule check_environment_Inr)
  moreover have "dm_unique d = unique_mount_ids (en_features en)" by (simp add: d start_daemon_def)
  moreover have "daemon_inv d" using cfg st rt
    by (simp add: daemon_inv_def d start_daemon_fields default_degraded_def)
  moreover have "dm_options d = opts" "dm_store d = wr_store wr" "dm_state d = wr_state wr"
    "dm_runtime d = fst opened"
    by (simp_all add: d start_daemon_fields)
  ultimately show ?thesis using st rt only by (intro conjI) (simp_all, blast)
qed

end
