(* ===== verification/Daemon_Example.thy ===== *)
theory Daemon_Example
  imports Daemon_Props
begin

text \<open>
  A daemon that starts: as a service manager starts it, with the one capability and no
  configuration files, on a system where every call the daemon makes is answered.  Its world
  is the process's credentials.  Nothing but the witnesses uses it.
\<close>

definition example_kernel :: "(process_state, nat) kernel" where
  "example_kernel = status_kernel
     \<lparr>k_open := \<lambda>_ _ w. (Inr 0, w),
      k_openat := \<lambda>_ p _ _ w. (if p = LOCK_FILE_NAME then Inr 2 else Inl ENOENT, w)\<rparr>"

definition no_files :: "(process_state, nat) host_files" where
  "no_files =
     \<lparr>hf_canonicalize = \<lambda>_ w. (Inl (Os ENOENT), w), hf_open_dir = \<lambda>_ w. (Inl (Os ENOENT), w),
      hf_open_file = \<lambda>_ _ w. (Inl ENOENT, w), hf_fstat = \<lambda>_ w. (Inl (Os ENOENT), w),
      hf_stat = \<lambda>_ w. (Inr \<lparr>fm_uid = 0, fm_mode = 0x41ED, fm_type = FT_Directory\<rparr>, w),
      hf_read = \<lambda>_ w. (Inl (Os ENOENT), w),
      hf_list_dir = \<lambda>_ w. (Inl (Os ENOENT), w), hf_show = \<lambda>_. ''error''\<rparr>"

definition example_probe :: "(process_state, nat) probe_calls" where
  "example_probe =
     \<lparr>pc_open_tree = \<lambda>w. (Inl EBUSY, w), pc_move_mount = \<lambda>w. (Inl EBUSY, w),
      pc_openat2 = \<lambda>w. (Inr (), w), pc_mount_setattr = \<lambda>w. (EBUSY, w),
      pc_statx = \<lambda>_ _ w. (Inr (toy_statx False), w), pc_fs_type = \<lambda>_ w. (Inr PROC_SUPER_MAGIC, w),
      pc_read = \<lambda>_ w. (Inr [], w)\<rparr>"

definition example_inotify :: "(process_state, nat) inotify" where
  "example_inotify =
     \<lparr>in_init = \<lambda>w. (Inr 5, w), in_add = \<lambda>_ _ _ w. (Inl ENOENT, w), in_remove = \<lambda>_ _ w. (Inr (), w),
      in_next = \<lambda>_ w. (Inl EAGAIN, w)\<rparr>"

text \<open>\<open>getresuid\<close> always gives three IDs.\<close>

definition three_ids :: "process_state \<Rightarrow> process_state" where
  "three_ids st = (one_thread st)\<lparr>st_uids := take 3 (st_uids st @ [0, 0, 0])\<rparr>"

definition three_creds :: "process_state creds" where
  "three_creds = example_creds
     \<lparr>c_getresuid := \<lambda>st. (Inr (st_uids (three_ids st)), st),
      c_set_res_uid := \<lambda>u st. perform (SetResUid u) (three_ids st)\<rparr>"

lemma perform_three:
  assumes "\<forall>u. x \<noteq> SetResUid u"
  shows "performs three_ids x (perform x)"
proof -
  have "op_permitted x (three_ids st) = op_permitted x st" for st
    by (cases x) (simp_all add: three_ids_def one_thread_def)
  moreover have "three_ids (op_effect x st) = op_effect x (three_ids st)" for st
    using assms by (cases x) (simp_all add: three_ids_def one_thread_def)
  ultimately show ?thesis by (auto simp: performs_def perform_def)
qed

lemma perform_three_uid: "performs three_ids (SetResUid u) (\<lambda>st. perform (SetResUid u) (three_ids st))"
proof -
  have "three_ids (op_effect (SetResUid u) (three_ids st)) = op_effect (SetResUid u) (three_ids st)" for st
    by (simp add: three_ids_def one_thread_def)
  then show ?thesis by (auto simp: performs_def perform_def)
qed

lemma three_creds_linux: "linux_creds three_creds three_ids 63"
proof -
  have "reads_creds three_creds three_ids 63"
    unfolding reads_creds_def by (simp add: three_creds_def example_creds_def three_ids_def one_thread_def known_all)
  moreover have "changes_bounding three_creds three_ids 63" "changes_secure_bits three_creds three_ids"
    unfolding changes_bounding_def changes_secure_bits_def
    by (simp_all add: three_creds_def example_creds_def three_ids_def one_thread_def)
  ultimately show ?thesis
    unfolding linux_creds_def by (simp add: three_creds_def example_creds_def perform_three perform_three_uid)
qed

definition example_system :: "(process_state, nat, state_document) system" where
  "example_system =
     \<lparr>sy_kernel = example_kernel, sy_files = no_files, sy_creds = three_creds,
      sy_probe = example_probe, sy_inotify = example_inotify, sy_flock = \<lambda>_ w. (Inr (), w),
      sy_json = example_json, sy_toml = \<lambda>_. Inl ''no TOML'', sy_strftime = \<lambda>_. ''now'',
      sy_escape_debug = id, sy_debug_op = \<lambda>_. ''operation''\<rparr>"

text \<open>Every wait ends with a signal to terminate; the clock always shows the same time.\<close>

definition example_daemon_calls :: "(process_state, nat, state_document) daemon_calls" where
  "example_daemon_calls =
     \<lparr>dk_system = example_system,
      dk_notify = \<lparr>nc_env = \<lambda>w. (None, w), nc_from_pathname = Inr, nc_from_abstract_name = Inr,
                   nc_unbound = \<lambda>w. (Inr 0, w), nc_send_to = \<lambda>_ _ _ w. (Inr 0, w),
                   nc_monotonic = \<lambda>w. ((0, 0), w)\<rparr>,
      dk_signals = \<lparr>sg_emptyset = \<lambda>w. (Inr [], w), sg_addset = \<lambda>ss s w. (Inr (s # ss), w),
                    sg_block = \<lambda>_ w. (Inr (), w), sg_signalfd = \<lambda>_ w. (Inr 3, w),
                    sg_read = \<lambda>_ w. (Inr (SIGINFO_SIZE, SIGTERM), w)\<rparr>,
      dk_instant = \<lambda>w. (2000000000, w), dk_epoll_create = \<lambda>w. (Inr 4, w),
      dk_epoll_add = \<lambda>_ _ _ w. (Inr (), w), dk_epoll_delete = \<lambda>_ _ w. (Inr (), w),
      dk_epoll_wait = \<lambda>_ _ w. (Inr [TOKEN_SIGNAL], w), dk_umask = \<lambda>_ w. w\<rparr>"

definition example_options :: daemon_options where
  "example_options =
     \<lparr>op_config = \<lparr>so_file = None, so_dir = None\<rparr>, op_user = None, op_allow_root = False,
      op_allow_slave = False\<rparr>"

definition service_process :: process_state where
  "service_process = root_process
     \<lparr>st_uids := [991, 991, 991], st_permitted := CAP_SYS_ADMIN, st_effective := CAP_SYS_ADMIN\<rparr>"

section \<open>The stages of its startup\<close>

definition no_config :: config where
  "no_config = fst (assemble [] [])"

lemma example_config:
  "load_config example_system (op_config example_options) Enforce w =
     (Inr \<lparr>ld_config = no_config, ld_warnings = warn None None Msg_NoFiles []\<rparr>, w)"
  by code_simp

lemma no_config_empty: "cfg_groups no_config = []" "cfg_group_sets no_config = []"
  "cfg_daemon no_config = default_daemon"
  by code_simp+

lemma example_thread: "thread_count example_kernel 0 w = (Inr (st_threads (three_ids w)), w)"
proof -
  have "thread_count example_kernel 0 w = thread_count status_kernel 0 w"
    by (simp add: thread_count_def read_text_def example_kernel_def)
  then show ?thesis by (simp add: one_thread_read three_ids_def)
qed

lemma example_normalize:
  "\<exists>p w. normalize example_system goal None allow service_process = (Inr p, w)"
proof -
  have one: "three_ids service_process = service_process"
    by (simp add: three_ids_def one_thread_def service_process_def root_process_def)
  have proc: "verify_procfs example_kernel example_probe ''/proc'' service_process = (Inr 0, service_process)"
    by (simp add: verify_procfs_def check_procfs_def example_kernel_def example_probe_def bindE_def osE_def
        mapErrE_def retE_def)
  have "reads_creds three_creds three_ids 63" using three_creds_linux by (simp add: linux_creds_def)
  from read_self_works[OF this example_thread, of service_process]
  have self: "read_self example_kernel three_creds 0 service_process = (Inr service_process, service_process)"
    by (simp add: one)
  let ?rq = "\<lparr>rq_goal = goal, rq_user = None, rq_allow_root = allow\<rparr>"
  have "case plan_privileges (credentials_of service_process) ?rq of Inl _ \<Rightarrow> False | Inr _ \<Rightarrow> True"
    by (cases goal; cases allow; simp only:; code_simp)
  then obtain p where plan: "plan_privileges (credentials_of service_process) ?rq = Inr p"
    by (auto split: sum.splits)
  have ok: "st_threads service_process = 1"
    "has_caps (st_permitted service_process) (st_effective service_process)" "securebits_ok service_process"
    "\<forall>u\<in>set (st_uids service_process). u = st_uids service_process ! 1"
    by code_simp+
  obtain w' where "apply_plan example_kernel three_creds p 0 service_process = (Inr (three_ids w'), w')"
    using apply_reaches[OF three_creds_linux example_thread, of service_process ?rq p] plan ok one by auto
  then show ?thesis using proc self plan
    by (simp add: normalize_def bindE_def mapErrE_def retE_def liftE_def
        service_user_of_def example_system_def)
qed

lemma example_environment:
  "\<exists>en. check_environment example_system w = (Inr en, w)"
  by (simp add: check_environment_def probe_kernel_def probe_statx_def probed_def if_set_def
      missing_required_def required_def from_probe_error_def is_available_def verify_procfs_def
      check_procfs_def bindE_def osE_def mapErrE_def retE_def toy_statx_def STATX_MNT_ID_def
      STATX_ATTR_MOUNT_ROOT_def example_system_def example_probe_def example_kernel_def)

lemma example_paths: "verify_config_paths example_system no_config w = (Inr (), w)"
  by (simp add: verify_config_paths_def check_paths_def check_paths_exist_def no_config_empty
      bt_values_def check_dir_def on_files_def example_system_def no_files_def Let_def)

lemma example_state:
  "open_state_for_write example_system no_config w =
     (Inr \<lparr>wr_store = \<lparr>sto_dir = 0, sto_dir_path = show_abs_path DEFAULT_STATE_DIR\<rparr>, wr_lock = 2,
           wr_state = state_default\<rparr>, w)"
  by (simp add: open_state_for_write_def store_open_def take_lock_def lock_acquire_def
      load_for_write_def load_inner_def into_state_def bindE_def osE_def mapErrE_def retE_def
      example_system_def example_kernel_def status_kernel_def no_config_empty default_daemon_def
      LOCK_FILE_NAME_def STATE_FILE_NAME_def)

lemma example_open:
  "open_checked example_system False no_config w = (Inr (default_runtime, \<lparr>e_roots = [], e_world = w\<rparr>), w)"
proof -
  have "parse_table [] = Inr []" by (simp add: parse_table_def)
  then show ?thesis
    by (simp add: open_checked_def runtime_open_def no_config_empty bt_values_def bindE_def retE_def
        check_target_propagation_def on_world_def read_mount_table_def mapErrE_def liftE_def
        propagation_targets_def default_runtime_def same_mount_namespace_as_init_def
        namespace_inode_def example_system_def example_probe_def)
qed

lemma example_events:
  "start_events example_daemon_calls default_runtime w =
     (Inr (3, \<lparr>wt_fd = 5, wt_watches = [], wt_set_groups = []\<rparr>, 4), w)"
  by (simp add: start_events_def signalfd_new_def watcher_new_def sync_def current_dirs_def
      default_runtime_def bt_keys_def bt_extend_def bindE_def osE_def mapErrE_def retE_def Let_def
      example_daemon_calls_def example_system_def example_inotify_def)

definition example_daemon :: "process_state \<Rightarrow> kernel_features \<Rightarrow> (process_state, nat) daemon" where
  "example_daemon w kf = start_daemon example_options notifier_disabled no_config
     \<lparr>en_features = kf, en_proc = 0\<rparr>
     \<lparr>wr_store = \<lparr>sto_dir = 0, sto_dir_path = show_abs_path DEFAULT_STATE_DIR\<rparr>, wr_lock = 2,
      wr_state = state_default\<rparr>
     (default_runtime, \<lparr>e_roots = [], e_world = w\<rparr>)
     \<lparr>wt_fd = 5, wt_watches = [], wt_set_groups = []\<rparr> 4 w"

lemma example_startup:
  "\<exists>w kf. startup example_daemon_calls example_options service_process = (Inr (example_daemon w kf, 3), w)"
proof -
  let ?D = example_daemon_calls
  obtain p w where n: "normalize_privileges example_system KeepSysAdmin None False service_process = (Inr p, w)"
    using example_normalize unfolding normalize_privileges_def by blast
  obtain en where e: "check_environment example_system w = (Inr en, w)" using example_environment by blast
  have D: "dk_system ?D = example_system" "dk_umask ?D 18 v = v"
    "start_notifier ?D v = (notifier_disabled, v)" for v
    by (simp_all add: example_daemon_calls_def start_notifier_def from_env_def)
  have o: "op_user example_options = None" "op_allow_root example_options = False"
    "op_allow_slave example_options = False" "dc_user default_daemon = None"
    by (simp_all add: example_options_def default_daemon_def)
  obtain kf proc where en: "en = \<lparr>en_features = kf, en_proc = proc\<rparr>" by (cases en) auto
  have "startup ?D example_options service_process =
      (Inr (start_daemon example_options notifier_disabled no_config en
        \<lparr>wr_store = \<lparr>sto_dir = 0, sto_dir_path = show_abs_path DEFAULT_STATE_DIR\<rparr>, wr_lock = 2,
         wr_state = state_default\<rparr>
        (default_runtime, \<lparr>e_roots = [], e_world = w\<rparr>)
        \<lparr>wt_fd = 5, wt_watches = [], wt_set_groups = []\<rparr> 4 w, 3), w)"
    by (simp add: startup_def Let_def D o bindE_def example_config no_config_empty n e example_paths
        example_state example_open example_events)
  then show ?thesis unfolding example_daemon_def en start_daemon_def by auto
qed

lemma example_uids:
  "\<forall>w us w'. c_getresuid (sy_creds (dk_system example_daemon_calls)) w = (Inr us, w') \<longrightarrow> length us = 3"
  by (auto simp: example_daemon_calls_def example_system_def three_creds_def three_ids_def min_def
      simp flip: length_0_conv)

section \<open>Its loop\<close>

lemma example_inv: "daemon_inv (example_daemon w kf)"
proof -
  have "config_ok no_config"
    using load_config_ok[OF example_config] by simp
  then show ?thesis
    by (simp add: daemon_inv_def example_daemon_def start_daemon_fields runtime_ok_def default_runtime_def
        default_degraded_def)
qed

text \<open>The daemon waits, reads the signal to terminate, and leaves the loop.\<close>

lemma example_loop:
  assumes "dm_world d = w"
  shows "\<exists>d'. event_loop example_daemon_calls 3 d = Some (Inr (), d')"
proof -
  let ?D = example_daemon_calls
  have read: "signal_read (dk_signals ?D) 3 v = (Inr (Some SIGTERM), v)" for v
    by (simp add: signal_read_def example_daemon_calls_def)
  have handled: "handle_signals ?D 3 e = Some (Exit (Inr ()) (set_world (dm_world e) e))" for e
    by (subst handle_signals.simps) (simp add: on_daemon_def read SIGTERM_def SIGHUP_def)
  have "dk_epoll_wait ?D ep tm v = (Inr [TOKEN_SIGNAL], v)" for ep tm v
    by (simp add: example_daemon_calls_def)
  then have "\<exists>d'. loop_turn ?D 3 d = Some (Exit (Inr ()) d')"
    by (simp add: loop_turn_def on_daemon_def handle_event_def handled split: prod.split)
  then obtain d' where "loop_turn ?D 3 d = Some (Exit (Inr ()) d')" ..
  then show ?thesis by (subst event_loop.simps) simp
qed

end
