(* ===== verification/Daemon_Claims.thy ===== *)
theory Daemon_Claims
  imports Daemon_Example
begin

text \<open>
  What the daemon guarantees: how it starts, what its loop does, what a reload may change, and
  when a pending pass runs.
\<close>

section \<open>Waiting\<close>

lemma wait_timeout_pending:
  assumes "dm_pending d = Some (first, due)"
  shows "\<exists>ns d1. wait_timeout D d = (Some (duration_to_timespec ns), d1)
    \<and> ns \<le> due - fst (dk_instant D (dm_world d))"
proof -
  obtain t where t: "deadline d = Some t" "t \<le> due"
    using assms by (cases "dm_next_resync d") (auto simp: deadline_def)
  then show ?thesis by (auto simp: wait_timeout_def on_daemon_def split: prod.splits)
qed

lemma run_due_overdue:
  assumes "daemon_inv d" "dm_pending d = Some (first, due)" "due \<le> fst (dk_instant D (dm_world d))"
  shows "\<exists>w d'. run_due D d = Some d' \<and> daemon_pass D ((set_world w d)\<lparr>dm_pending := None\<rparr>) = Some d'
    \<and> dm_pending d' = None"
proof -
  obtain now w where n: "dk_instant D (dm_world d) = (now, w)" by fastforce
  let ?d = "(set_world w d)\<lparr>dm_pending := None\<rparr>"
  have "due_trigger now (set_world w d) = Some Inotify" using assms(2,3) n by (simp add: due_trigger_def)
  then have "run_due D d = daemon_pass D ?d" using n by (simp add: run_due_def on_daemon_def)
  moreover have "daemon_inv ?d" using assms(1) by (simp add: daemon_inv_def)
  from daemon_pass_ok[OF this, of D] obtain d' where
    "daemon_pass D ?d = Some d'" "dm_pending d' = dm_pending ?d" by (elim exE conjE)
  ultimately show ?thesis by auto
qed

lemma run_due_not_overdue:
  assumes "run_due D d = Some d'" "dm_pending d' = Some (first, due)" "daemon_inv d"
  shows "fst (dk_instant D (dm_world d)) < due"
proof -
  obtain now w where n: "dk_instant D (dm_world d) = (now, w)" by fastforce
  let ?d = "set_world w d"
  show ?thesis
  proof (cases "due_trigger now ?d")
    case None
    then have "d' = ?d" using assms(1) n by (simp add: run_due_def on_daemon_def)
    then show ?thesis using None n assms(2) by (simp add: due_trigger_def split: if_splits)
  next
    case (Some t)
    have inv: "daemon_inv (?d\<lparr>dm_pending := None\<rparr>)" using assms(3) by (simp add: daemon_inv_def)
    have "daemon_pass D (?d\<lparr>dm_pending := None\<rparr>) = Some d'"
      using assms(1) n Some by (simp add: run_due_def on_daemon_def)
    then have "dm_pending d' = None" using daemon_pass_ok[OF inv, of D] by auto
    then show ?thesis using assms(2) by simp
  qed
qed

lemma handle_events_inv:
  "handle_events D sfd ts d = Some (Next d') \<Longrightarrow> daemon_inv d \<Longrightarrow> daemon_inv d'"
  using handle_events_runs[of D sfd ts d "Next d'"] daemon_run_keeps
  by (fastforce simp: turn_runs_def runs_def)

section \<open>The theorems\<close>



text \<open>C11. Between reloads a degraded group stays degraded and nothing is done to it: however
  many changes are read, passes run and reloads are refused, the degraded groups and sets only
  grow, every record of a degraded group or of a group of a degraded set is still there as it
  was, no record is added to a degraded group, and options, configuration, state file and
  kernel features are the same.\<close>

theorem degraded_until_reload:
  assumes "daemon_run D d ls d'" "daemon_inv d" "Reloaded \<notin> set ls"
  shows "worse (dm_degraded d) (dm_degraded d')
    \<and> keeps_records (dm_degraded d) (dm_state d) (dm_state d') \<and> same_setup d d'"
  using daemon_run_keeps[OF assms(1,2)] assms(3) by blast



section \<open>Witnesses\<close>

definition example_features :: kernel_features where
  "example_features =
     \<lparr>kf_open_tree = F_Available, kf_move_mount = F_Available, kf_openat2 = F_Available,
      kf_mount_setattr = F_Available, kf_statx_mnt_id = F_Available,
      kf_statx_mount_root = F_Available, kf_statx_mnt_id_unique = F_Missing\<rparr>"



text \<open>A run with a change that loses a group, and a pass.\<close>

definition lost_group :: changes where
  "lost_group = default_changes\<lparr>ch_lost := [statically (Name ''g'')], ch_membership := True\<rparr>"

definition degraded_daemon :: "(process_state, nat) daemon" where
  "degraded_daemon = handle_changes example_daemon_calls lost_group
     (set_world service_process
       (set_host (\<lambda>h. h\<lparr>h_caller := \<lparr>wt_fd = 5, wt_watches = [], wt_set_groups = []\<rparr>\<rparr>)
         (example_daemon service_process example_features)))"

lemma degraded_step:
  "daemon_step example_daemon_calls (example_daemon service_process example_features) (Changed lost_group) degraded_daemon"
  unfolding degraded_daemon_def by (rule daemon_step.changed) (rule refl)

lemma degraded_inv: "daemon_inv degraded_daemon"
  using daemon_step_keeps[OF degraded_step example_inv] by blast

lemma degraded_pending: "dm_pending degraded_daemon = Some (2000000000, 2150000000)"
  by (simp add: degraded_daemon_def handle_changes_pending lost_group_def set_caller_same example_daemon_def
      start_daemon_fields postpone_def DEBOUNCE_def MAX_DEBOUNCE_def example_daemon_calls_def)

theorem degraded_until_reload_witness:
  "\<exists>d. daemon_run example_daemon_calls degraded_daemon [Passed] d
     \<and> statically (Name ''g'') \<in> set (dg_groups (dm_degraded d))"
proof -
  have "daemon_inv (degraded_daemon\<lparr>dm_pending := None\<rparr>)"
    using degraded_inv by (simp add: daemon_inv_def)
  then obtain d where "daemon_pass example_daemon_calls (degraded_daemon\<lparr>dm_pending := None\<rparr>) = Some d"
    using daemon_pass_ok by blast
  then have run: "daemon_run example_daemon_calls degraded_daemon [Passed] d"
    by (intro daemon_run_one daemon_step.passed)
  have "dm_degraded degraded_daemon = degrade lost_group default_degraded"
    by (simp add: degraded_daemon_def handle_changes_same set_caller_same example_daemon_def start_daemon_fields)
  then have "statically (Name ''g'') \<in> set (dg_groups (dm_degraded degraded_daemon))"
    by (simp add: degrade_def lost_group_def)
  with degraded_until_reload[OF run degraded_inv] run show ?thesis by (auto simp: worse_def)
qed



end
