(* ===== verification/Log_Lines.thy ===== *)
theory Log_Lines
  imports Reconcile Std_Text
begin

text \<open>
  What the program logs: the lines of \<open>src/src/logging.rs\<close>, and the events of a pass, of
  \<open>src/src/reconcile/mod.rs\<close> and \<open>src/src/reconcile/execute.rs\<close>, as values.  Handing an event
  to the subscriber, and writing its line, is the \<open>tracing\<close> library's.
\<close>

section \<open>Quoting\<close>

text \<open>
  Text is UTF-8.  The control characters are those below the space, delete, and U+0080 to
  U+009F, which are two bytes each; the escape of one of these is its code in hexadecimal.
\<close>

definition is_control_byte :: "char \<Rightarrow> bool" where
  "is_control_byte c = (byte c < 0x20 \<or> byte c = 0x7F)"

definition is_c1 :: "char \<Rightarrow> char \<Rightarrow> bool" where
  "is_c1 c d = (byte c = 0xC2 \<and> 0x80 \<le> byte d \<and> byte d \<le> 0x9F)"

definition escape_control :: "nat \<Rightarrow> string" where
  "escape_control n = [CHR 0x5C] @ ''u{'' @ show_hex n @ ''}''"

definition quote_char :: "char \<Rightarrow> string" where
  "quote_char c =
     (if c = CHR 0x22 then [CHR 0x5C, CHR 0x22]
      else if c = CHR 0x5C then [CHR 0x5C, CHR 0x5C]
      else if c = CHR 0x0A then [CHR 0x5C, CHR ''n'']
      else if c = CHR 0x0D then [CHR 0x5C, CHR ''r'']
      else if c = CHR 0x09 then [CHR 0x5C, CHR ''t'']
      else if is_control_byte c then escape_control (byte c)
      else [c])"

fun quote_body :: "string \<Rightarrow> string" where
  "quote_body [] = []"
| "quote_body [c] = quote_char c"
| "quote_body (c # d # s) =
     (if is_c1 c d then escape_control (byte d) @ quote_body s
      else quote_char c @ quote_body (d # s))"

fun has_c1 :: "string \<Rightarrow> bool" where
  "has_c1 (c # d # s) = (is_c1 c d \<or> has_c1 (d # s))"
| "has_c1 _ = False"

definition needs_quotes :: "string \<Rightarrow> bool" where
  "needs_quotes s =
     (s = [] \<or> list_ex (\<lambda>c. c = CHR '' '' \<or> c = CHR ''='' \<or> c = CHR 0x22 \<or> c = CHR 0x5C
                        \<or> is_control_byte c) s \<or> has_c1 s)"

definition quote :: "string \<Rightarrow> string" where
  "quote s = (if needs_quotes s then [CHR 0x22] @ quote_body s @ [CHR 0x22] else s)"

section \<open>Lines\<close>

datatype log_level = LV_Error | LV_Warn | LV_Info | LV_Debug | LV_Trace

fun show_log_level :: "log_level \<Rightarrow> string" where
  "show_log_level LV_Error = ''error''"
| "show_log_level LV_Warn = ''warn''"
| "show_log_level LV_Info = ''info''"
| "show_log_level LV_Debug = ''debug''"
| "show_log_level LV_Trace = ''trace''"

definition to_ascii_lowercase :: "string \<Rightarrow> string" where
  "to_ascii_lowercase = map (\<lambda>c. if 65 \<le> byte c \<and> byte c \<le> 90 then char_of (byte c + 32) else c)"

definition log_level_parse :: "string \<Rightarrow> string + log_level" where
  "log_level_parse s =
     (let l = to_ascii_lowercase s in
      if l = ''error'' then Inr LV_Error
      else if l = ''warn'' then Inr LV_Warn
      else if l = ''info'' then Inr LV_Info
      else if l = ''debug'' then Inr LV_Debug
      else if l = ''trace'' then Inr LV_Trace
      else Inl (''invalid log level '' @ [CHR 0x27] @ s @ [CHR 0x27]
                @ '' (expected error, warn, info, debug or trace)''))"

text \<open>An event, with its fields in the order they are recorded, as text.\<close>

record log_event =
  le_level :: log_level
  le_fields :: "(string \<times> string) list"

text \<open>\<open>FieldVisitor\<close>: the message apart, the other fields in order.\<close>

definition visit_field ::
  "string \<times> string \<Rightarrow> string option \<times> (string \<times> string) list
     \<Rightarrow> string option \<times> (string \<times> string) list" where
  "visit_field kv acc =
     (if fst kv = ''message'' \<or> fst kv = ''msg'' then (Some (snd kv), snd acc)
      else (fst acc, snd acc @ [kv]))"

definition visited :: "log_event \<Rightarrow> string option \<times> (string \<times> string) list" where
  "visited ev = fold visit_field (le_fields ev) (None, [])"

definition log_field :: "string \<times> string \<Rightarrow> string" where
  "log_field kv = '' '' @ fst kv @ ''='' @ quote (snd kv)"

text \<open>\<open>format_event\<close>, given the text of the time if lines have one.\<close>

definition log_line :: "string option \<Rightarrow> log_event \<Rightarrow> string" where
  "log_line timestamp ev =
     (case timestamp of None \<Rightarrow> [] | Some t \<Rightarrow> ''ts='' @ t @ '' '')
     @ ''level='' @ show_log_level (le_level ev)
     @ (case fst (visited ev) of None \<Rightarrow> [] | Some m \<Rightarrow> '' msg='' @ quote m)
     @ concat (map log_field (snd (visited ev))) @ [NEWLINE]"

text \<open>The variable \<open>JOURNAL_STREAM\<close>, and device and inode of the standard error.\<close>

definition stderr_is_journal :: "string option \<Rightarrow> (nat \<times> nat) option \<Rightarrow> bool" where
  "stderr_is_journal journal_stream stderr =
     (case Option.bind journal_stream (split_once (CHR '':'')) of
        None \<Rightarrow> False
      | Some (d, i) \<Rightarrow>
          (case (parse_uint 64 d, parse_uint 64 i) of
             (Some d, Some i) \<Rightarrow> stderr = Some (d, i)
           | _ \<Rightarrow> False))"

section \<open>The events of a pass\<close>

definition member_fields :: "record_key \<Rightarrow> (string \<times> string) list" where
  "member_fields k = [(''group'', show_group_id (rk_group k)), (''name'', as_str (rk_name k))]"

definition on_trigger :: "trigger \<Rightarrow> string \<times> string" where
  "on_trigger tr = (''trigger'', show_trigger tr)"

fun describe_unmount :: "unmount_reason \<Rightarrow> string" where
  "describe_unmount NotMember = ''member removed''"
| "describe_unmount Relocated = ''member location changed''"
| "describe_unmount (SourceGone e) = ''source unavailable: '' @ e"
| "describe_unmount SourceChanged = ''source directory replaced''"
| "describe_unmount UR_TargetCollision = ''target collides with another member''"
| "describe_unmount AttributesChanged = ''configured mount attributes changed''"
| "describe_unmount AttributesDrifted = ''mount no longer enforces configured attributes''"

fun describe_drop :: "drop_reason \<Rightarrow> string" where
  "describe_drop MountGone = ''nothing mounted at recorded target''"
| "describe_drop ForeignMountAtTarget =
     ''a different mount is at the recorded target; not touching it''"
| "describe_drop (DR_SourceUnavailable e) = ''source unavailable: '' @ e"

text \<open>\<open>mount\<close>, \<open>unmount\<close> and \<open>drop_record\<close> of the executor log what became of the step: done, or
  failed with an error.\<close>

definition mount_event :: "trigger \<Rightarrow> desired_mount \<Rightarrow> string option \<Rightarrow> log_event" where
  "mount_event tr d failure =
     (let fs = [(''op'', ''mount'')] @ member_fields (dm_key d)
           @ [(''source'', show_location (dm_source d)), (''target'', show_location (dm_target d)),
              on_trigger tr] in
      case failure of
        None \<Rightarrow> \<lparr>le_level = LV_Info, le_fields = fs @ [(''result'', ''ok'')]\<rparr>
      | Some e \<Rightarrow> \<lparr>le_level = LV_Error, le_fields = fs @ [(''result'', ''failed''), (''error'', e)]\<rparr>)"

definition unmount_event ::
  "trigger \<Rightarrow> mount_record \<Rightarrow> unmount_reason \<Rightarrow> string option \<Rightarrow> log_event" where
  "unmount_event tr r why failure =
     (let target = (''target'', show_location (target_location r));
          why = (''reason'', describe_unmount why) in
      case failure of
        None \<Rightarrow>
          \<lparr>le_level = LV_Info,
           le_fields = [(''op'', ''unmount'')] @ member_fields (mr_key r)
             @ [(''source'', show_location (source_location r)), target, on_trigger tr,
                (''result'', ''ok''), why]\<rparr>
      | Some e \<Rightarrow>
          \<lparr>le_level = LV_Error,
           le_fields = [(''op'', ''unmount'')] @ member_fields (mr_key r)
             @ [target, on_trigger tr, (''result'', ''failed''), why, (''error'', e)]\<rparr>)"

definition drop_event ::
  "trigger \<Rightarrow> mount_record \<Rightarrow> drop_reason \<Rightarrow> string option \<Rightarrow> log_event" where
  "drop_event tr r why failure =
     (let fs = [(''op'', ''drop_record'')] @ member_fields (mr_key r)
           @ [(''target'', show_location (target_location r)), on_trigger tr];
          why = (''reason'', describe_drop why) in
      case failure of
        None \<Rightarrow> \<lparr>le_level = LV_Warn, le_fields = fs @ [(''result'', ''ok''), why]\<rparr>
      | Some e \<Rightarrow>
          \<lparr>le_level = LV_Error, le_fields = fs @ [(''result'', ''failed''), why, (''error'', e)]\<rparr>)"

fun action_op :: "action \<Rightarrow> string \<times> record_key \<times> location" where
  "action_op (Mount d) = (''mount'', dm_key d, dm_target d)"
| "action_op (Unmount r _) = (''unmount'', mr_key r, target_location r)"
| "action_op (DropRecord r _) = (''drop_record'', mr_key r, target_location r)"

definition skipped_event :: "trigger \<Rightarrow> action \<Rightarrow> log_event" where
  "skipped_event tr a =
     (case action_op a of
        (op, k, target) \<Rightarrow>
          \<lparr>le_level = LV_Warn,
           le_fields = [(''op'', op)] @ member_fields k
             @ [(''target'', show_location target), on_trigger tr, (''result'', ''skipped''),
                (''reason'', ''a prerequisite step did not complete'')]\<rparr>)"

fun run_event :: "trigger \<Rightarrow> action \<Rightarrow> string option \<Rightarrow> log_event" where
  "run_event tr (Mount d) failure = mount_event tr d failure"
| "run_event tr (Unmount r why) failure = unmount_event tr r why failure"
| "run_event tr (DropRecord r why) failure = drop_event tr r why failure"

definition step_event :: "trigger \<Rightarrow> action \<Rightarrow> step_result \<Rightarrow> log_event" where
  "step_event tr a r =
     (case r of
        Skipped \<Rightarrow> skipped_event tr a
      | Done \<Rightarrow> run_event tr a None
      | Failed e \<Rightarrow> run_event tr a (Some e))"

text \<open>One event per step.  (A target directory that cannot be removed is one more line, without
  an effect on the result.)\<close>

definition execution_events :: "trigger \<Rightarrow> plan \<Rightarrow> execution \<Rightarrow> log_event list" where
  "execution_events tr p ex =
     map2 (step_event tr) (map step_action (plan_steps p)) (exec_results ex)"

fun finding_event :: "trigger \<Rightarrow> finding \<Rightarrow> log_event" where
  "finding_event tr (Conflict k target kind) =
     \<lparr>le_level = LV_Warn,
      le_fields = [(''op'', ''conflict'')] @ member_fields k
        @ [(''target'', show_location target), on_trigger tr,
           (''reason'',
            case kind of
              ForeignMount \<Rightarrow>
                ''mount present at target but not recorded in state; not touching foreign mount''
            | TargetReplaced \<Rightarrow> ''mount at target is not the recorded mount; not touching it'')]\<rparr>"
| "finding_event tr (F_SourceUnavailable k source why) =
     \<lparr>le_level = LV_Warn,
      le_fields = [(''op'', ''skip'')] @ member_fields k
        @ [(''source'', show_location source), on_trigger tr, (''reason'', why)]\<rparr>"
| "finding_event tr (F_TargetUnavailable k target why) =
     \<lparr>le_level = LV_Warn,
      le_fields = [(''op'', ''skip'')] @ member_fields k
        @ [(''target'', show_location target), on_trigger tr,
           (''reason'', ''target cannot be inspected: '' @ why)]\<rparr>"
| "finding_event tr (F_TargetCollision target keys kept) =
     \<lparr>le_level = LV_Warn,
      le_fields = [(''op'', ''conflict''), (''target'', show_location target), on_trigger tr,
        (''members'', join_with '','' (map show_record_key keys)),
        (''kept'', case kept of None \<Rightarrow> ''none'' | Some k \<Rightarrow> show_record_key k),
        (''reason'', ''several members resolve to the same target'')]\<rparr>"
| "finding_event tr (RelocationBlocked k old_target) =
     \<lparr>le_level = LV_Warn,
      le_fields = [(''op'', ''skip'')] @ member_fields k
        @ [(''target'', show_location old_target), on_trigger tr,
           (''reason'', ''member moved but its existing mount cannot be verified; not relocating'')]\<rparr>"

definition log_findings :: "finding list \<Rightarrow> trigger \<Rightarrow> log_event list" where
  "log_findings fs tr = map (finding_event tr) fs"

fun log_note :: "obs_note \<Rightarrow> trigger \<Rightarrow> log_event" where
  "log_note (SetEntryRejected st rej) tr =
     \<lparr>le_level = LV_Warn,
      le_fields = [(''op'', ''reject''), (''group'', set_label st), (''name'', display_name rej),
        on_trigger tr, (''reason'', show_reject_reason (reason rej))]\<rparr>"
| "log_note (SetRootDeleted st) tr =
     \<lparr>le_level = LV_Error,
      le_fields = [(''op'', ''degrade''), (''group'', set_label st), on_trigger tr,
        (''msg'', ''group set membership root has been deleted; keeping existing mounts and making no changes to this set until configuration is reloaded'')]\<rparr>"
| "log_note (SetRootUnreadable st e) tr =
     \<lparr>le_level = LV_Error,
      le_fields = [(''op'', ''scan''), (''group'', set_label st), on_trigger tr,
        (''result'', ''failed''), (''error'', e),
        (''msg'', ''group set membership root unreadable; set left unchanged'')]\<rparr>"
| "log_note (Rejected g rej) tr =
     \<lparr>le_level = LV_Warn,
      le_fields = [(''op'', ''reject''), (''group'', show_group_id g), (''name'', display_name rej),
        on_trigger tr, (''reason'', show_reject_reason (reason rej))]\<rparr>"
| "log_note (InterpolationFailed g n field e) tr =
     \<lparr>le_level = LV_Warn,
      le_fields = [(''op'', ''reject''), (''group'', show_group_id g), (''name'', as_str n),
        on_trigger tr, (''reason'', field @ '' template: '' @ show_interpolate_error e)]\<rparr>"
| "log_note (MembershipDeleted g) tr =
     \<lparr>le_level = LV_Error,
      le_fields = [(''op'', ''degrade''), (''group'', show_group_id g), on_trigger tr,
        (''msg'', ''membership directory has been deleted; keeping existing mounts and making no changes to this group until configuration is reloaded'')]\<rparr>"
| "log_note (MembershipUnreadable g e) tr =
     \<lparr>le_level = LV_Error,
      le_fields = [(''op'', ''scan''), (''group'', show_group_id g), on_trigger tr,
        (''result'', ''failed''), (''error'', e),
        (''msg'', ''membership directory unreadable; group left unchanged'')]\<rparr>"

fun log_note_event :: "trigger \<Rightarrow> note_event \<Rightarrow> log_event" where
  "log_note_event tr (Raised nt) = log_note nt tr"
| "log_note_event tr (Cleared g subject) =
     (if subject = [] then
        \<lparr>le_level = LV_Info,
         le_fields = [(''op'', ''scan''), (''group'', g), on_trigger tr, (''result'', ''ok''),
           (''msg'', ''membership directory readable again'')]\<rparr>
      else
        \<lparr>le_level = LV_Info,
         le_fields = [(''op'', ''reject_cleared''), (''group'', g), (''name'', subject),
           on_trigger tr, (''msg'', ''membership entry is no longer rejected'')]\<rparr>)"

definition ignored_event :: "trigger \<Rightarrow> group_id \<times> string list \<Rightarrow> log_event" where
  "ignored_event tr gn =
     \<lparr>le_level = LV_Debug,
      le_fields = [(''op'', ''ignore''), (''group'', show_group_id (fst gn)), on_trigger tr,
        (''count'', show_nat (length (snd gn))), (''names'', join_with '','' (snd gn)),
        (''msg'', ''hidden membership entries ignored'')]\<rparr>"

text \<open>\<open>NoteLog::report\<close>.\<close>

definition report_events :: "trigger \<Rightarrow> observed \<Rightarrow> note_log \<Rightarrow> log_event list \<times> note_log" where
  "report_events tr out active_notes =
     (case note_log_update out active_notes of
        (events, active_notes) \<Rightarrow>
          (map (log_note_event tr) events @ map (ignored_event tr) (ob_ignored out), active_notes))"

end
