(* ===== verification/Log_Props.thy ===== *)
theory Log_Props
  imports Log_Lines
begin

text \<open>
  The lines of the log can be read back: a reference reader of logfmt, and the proof that it
  recovers every field of every event, whatever the names, paths and errors in it hold.
\<close>

section \<open>A reader of logfmt\<close>

definition hex_digit :: "char \<Rightarrow> nat option" where
  "hex_digit c =
     (if is_ascii_digit c then Some (byte c - 48)
      else if 97 \<le> byte c \<and> byte c \<le> 102 then Some (byte c - 87) else None)"

fun hex_value :: "nat \<Rightarrow> string \<Rightarrow> nat option" where
  "hex_value acc [] = Some acc"
| "hex_value acc (c # cs) =
     (case hex_digit c of None \<Rightarrow> None | Some d \<Rightarrow> hex_value (16 * acc + d) cs)"

text \<open>The UTF-8 encoding of a code point below U+00C0 (not U+00A0 and above but where quoted
  text has none).\<close>

definition code_bytes :: "nat \<Rightarrow> string" where
  "code_bytes n = (if n < 0x80 then [char_of n] else [CHR 0xC2, char_of n])"

definition escaped_char :: "char \<Rightarrow> char" where
  "escaped_char e =
     (if e = CHR ''n'' then CHR 0x0A else if e = CHR ''r'' then CHR 0x0D
      else if e = CHR ''t'' then CHR 0x09 else e)"

lemma split_once_length: "split_once c s = Some (a, b) \<Longrightarrow> length b < length s"
  by (auto simp: split_once_Some_iff)

text \<open>The rest of a quoted value, up to its closing quote.\<close>

function read_body :: "string \<Rightarrow> (string \<times> string) option" where
  "read_body [] = None"
| "read_body (c # s) =
     (if c = CHR 0x22 then Some ([], s)
      else if c \<noteq> CHR 0x5C then map_option (\<lambda>(v, r). (c # v, r)) (read_body s)
      else (case s of
              [] \<Rightarrow> None
            | e # t \<Rightarrow>
                if e = CHR ''u'' then
                  (case split_once (CHR ''}'') t of
                     Some (p # hex, rest) \<Rightarrow>
                       if p = CHR ''{'' then
                         (case hex_value 0 hex of
                            None \<Rightarrow> None
                          | Some n \<Rightarrow> map_option (\<lambda>(v, r). (code_bytes n @ v, r)) (read_body rest))
                       else None
                   | _ \<Rightarrow> None)
                else map_option (\<lambda>(v, r). (escaped_char e # v, r)) (read_body t)))"
  by pat_completeness auto

termination
  by (relation "measure length") (auto dest: split_once_length)

definition read_value :: "string \<Rightarrow> (string \<times> string) option" where
  "read_value s =
     (case s of
        [] \<Rightarrow> None
      | c # t \<Rightarrow>
          if c = CHR 0x22 then read_body t
          else Some (takeWhile (\<lambda>c. c \<noteq> CHR '' '') s, dropWhile (\<lambda>c. c \<noteq> CHR '' '') s))"

lemma read_body_length: "read_body s = Some (v, r) \<Longrightarrow> length r < length s"
proof (induction s arbitrary: v r rule: read_body.induct)
  case (2 c s)
  consider "c = CHR 0x22" | "c \<noteq> CHR 0x22" "c \<noteq> CHR 0x5C" | e t where "c = CHR 0x5C" "s = e # t"
    using "2.prems" by (cases s) (auto split: if_splits)
  then show ?case
  proof cases
    case 1
    with "2.prems" show ?thesis by simp
  next
    case 2
    with "2.prems" obtain v' where "read_body s = Some (v', r)" by auto
    with "2.IH"(1)[OF 2] show ?thesis by fastforce
  next
    case (3 e t)
    show ?thesis
    proof (cases "e = CHR ''u''")
      case True
      with 3 "2.prems" obtain hex rest n v' where h: "split_once (CHR ''}'') t = Some (CHR ''{'' # hex, rest)"
        "hex_value 0 hex = Some n" "read_body rest = Some (v', r)"
        by (auto split: option.splits list.splits if_splits)
      have "length r < length rest"
        using "2.IH"(2)[of e t "(CHR ''{'' # hex, rest)" "CHR ''{'' # hex" rest "CHR ''{''" hex n] 3 True h by auto
      with split_once_length[OF h(1)] 3 show ?thesis by simp
    next
      case False
      with 3 "2.prems" obtain v' where "read_body t = Some (v', r)" by auto
      with "2.IH"(3)[of e t] 3 False show ?thesis by fastforce
    qed
  qed
qed simp

lemma read_value_length: "read_value s = Some (v, r) \<Longrightarrow> length r \<le> length s"
proof (cases s)
  case (Cons c t)
  assume "read_value s = Some (v, r)"
  with Cons consider "read_body t = Some (v, r)" | "r = dropWhile (\<lambda>c. c \<noteq> CHR '' '') s"
    by (auto simp: read_value_def split: if_splits)
  then show ?thesis
  proof cases
    case 1
    with read_body_length Cons show ?thesis by fastforce
  qed (simp add: length_dropWhile_le)
qed (simp add: read_value_def)

text \<open>The fields of a line, separated by single spaces.\<close>

function read_fields :: "string \<Rightarrow> (string \<times> string) list option" where
  "read_fields s =
     (case split_once (CHR ''='') s of
        None \<Rightarrow> None
      | Some (k, r) \<Rightarrow>
          (case read_value r of
             None \<Rightarrow> None
           | Some (v, []) \<Rightarrow> Some [(k, v)]
           | Some (v, c # rest) \<Rightarrow>
               if c = CHR '' '' then map_option ((#) (k, v)) (read_fields rest) else None))"
  by pat_completeness auto

termination
  by (relation "measure length") (auto dest!: split_once_length read_value_length)

declare read_fields.simps [simp del]

section \<open>Quoting\<close>

lemma byte_digit: "d < 16 \<Longrightarrow> byte (digit_char d) = (if d < 10 then 48 + d else 87 + d)"
  by (simp add: byte_def digit_char_def)

lemma hex_digit_char: "d < 16 \<Longrightarrow> hex_digit (digit_char d) = Some d"
  by (auto simp: hex_digit_def is_ascii_digit_def byte_digit)

lemma show_hex_byte:
  "n < 256 \<Longrightarrow> show_hex n = (if n < 16 then [digit_char n] else [digit_char (n div 16), digit_char (n mod 16)])"
  by (simp add: show_hex.simps[of n] show_hex.simps[of "n div 16"] less_mult_imp_div_less)

lemma hex_value_show: "n < 256 \<Longrightarrow> hex_value 0 (show_hex n) = Some n"
  by (auto simp: show_hex_byte hex_digit_char less_mult_imp_div_less)

lemma show_hex_ascii:
  assumes "n < 256" "c \<in> set (show_hex n)"
  shows "48 \<le> byte c \<and> byte c \<le> 102"
proof -
  have "n div 16 < 16" using assms(1) by (simp add: less_mult_imp_div_less)
  with assms show ?thesis by (auto simp: show_hex_byte byte_digit split: if_splits)
qed

lemma read_escape:
  assumes "n < 256"
  shows "read_body (escape_control n @ t) = map_option (\<lambda>(v, r). (code_bytes n @ v, r)) (read_body t)"
proof -
  have "CHR ''}'' \<notin> set (show_hex n)" using show_hex_ascii[OF assms, of "CHR ''}''"] by (auto simp: byte_def)
  then have "split_once (CHR ''}'') (CHR ''{'' # show_hex n @ CHR ''}'' # t) = Some (CHR ''{'' # show_hex n, t)"
    by (simp add: split_once_Some_iff)
  then show ?thesis by (simp add: escape_control_def hex_value_show[OF assms])
qed

lemma read_quote_char: "read_body (quote_char c @ t) = map_option (\<lambda>(v, r). (c # v, r)) (read_body t)"
proof -
  consider "is_control_byte c" "c \<notin> {CHR 0x0A, CHR 0x0D, CHR 0x09}"
    | "c \<in> {CHR 0x22, CHR 0x5C, CHR 0x0A, CHR 0x0D, CHR 0x09}"
    | "\<not> is_control_byte c" "c \<notin> {CHR 0x22, CHR 0x5C, CHR 0x0A, CHR 0x0D, CHR 0x09}" by blast
  then show ?thesis
  proof cases
    case 1
    have "c \<noteq> CHR 0x22" "c \<noteq> CHR 0x5C" using 1(1) by (auto simp: is_control_byte_def byte_def)
    then have q: "quote_char c = escape_control (byte c)" using 1 by (simp add: quote_char_def)
    have "code_bytes (byte c) = [c]" using 1(1) by (auto simp: code_bytes_def is_control_byte_def byte_def)
    then show ?thesis unfolding q by (simp add: read_escape)
  next
    case 2
    then show ?thesis by (auto simp: quote_char_def escaped_char_def)
  next
    case 3
    then show ?thesis by (auto simp: quote_char_def)
  qed
qed

lemma read_quote_body: "read_body (quote_body s @ CHR 0x22 # r) = Some (s, r)"
proof (induction s rule: quote_body.induct)
  case (2 c)
  show ?case by (simp add: read_quote_char)
next
  case (3 c d s)
  show ?case
  proof (cases "is_c1 c d")
    case True
    then have "byte c = byte (CHR 0xC2)" "\<not> byte d < 0x80" by (simp_all add: is_c1_def byte_def)
    then have "code_bytes (byte d) = [c, d]" unfolding byte_inject by (simp add: code_bytes_def byte_def)
    with True 3 show ?thesis by (simp add: read_escape)
  next
    case False
    with 3 show ?thesis by (simp add: read_quote_char)
  qed
qed simp

lemma until_space:
  assumes "CHR '' '' \<notin> set s" "r = [] \<or> hd r = CHR '' ''"
  shows "takeWhile (\<lambda>c. c \<noteq> CHR '' '') (s @ r) = s" "dropWhile (\<lambda>c. c \<noteq> CHR '' '') (s @ r) = r"
proof -
  have "takeWhile (\<lambda>c. c \<noteq> CHR '' '') r = []" "dropWhile (\<lambda>c. c \<noteq> CHR '' '') r = r"
    using assms(2) by (cases r; simp)+
  moreover have "\<forall>c\<in>set s. c \<noteq> CHR '' ''" using assms(1) by auto
  ultimately show "takeWhile (\<lambda>c. c \<noteq> CHR '' '') (s @ r) = s"
    "dropWhile (\<lambda>c. c \<noteq> CHR '' '') (s @ r) = r"
    by (simp_all add: takeWhile_append2 dropWhile_append2)
qed

lemma read_quote:
  assumes "r = [] \<or> hd r = CHR '' ''"
  shows "read_value (quote s @ r) = Some (s, r)"
proof (cases "needs_quotes s")
  case True
  then show ?thesis by (simp add: quote_def read_value_def read_quote_body)
next
  case False
  then have s: "s \<noteq> []" "CHR '' '' \<notin> set s" "hd s \<noteq> CHR 0x22"
    by (auto simp: needs_quotes_def list_ex_iff)
  note until_space[OF s(2) assms]
  with False s show ?thesis by (cases s) (simp_all add: quote_def read_value_def)
qed

section \<open>Lines\<close>

definition key_ok :: "string \<Rightarrow> bool" where
  "key_ok k = list_all (\<lambda>c. 0x20 < byte c \<and> byte c < 0x7F \<and> c \<noteq> CHR ''='') k"

definition pair_text :: "string \<times> string \<Rightarrow> string" where
  "pair_text kv = fst kv @ ''='' @ quote (snd kv)"

lemma read_pairs:
  assumes "kvs \<noteq> []" "\<forall>kv\<in>set kvs. key_ok (fst kv)"
  shows "read_fields (join_with '' '' (map pair_text kvs)) = Some kvs"
  using assms
proof (induction kvs)
  case (Cons kv kvs)
  obtain k v where kv: "kv = (k, v)" by (cases kv)
  have k: "CHR ''='' \<notin> set k" using Cons.prems(2) by (auto simp: kv key_ok_def list_all_iff)
  let ?r = "if kvs = [] then [] else CHR '' '' # join_with '' '' (map pair_text kvs)"
  have joined: "join_with '' '' (map pair_text (kv # kvs)) = k @ CHR ''='' # quote v @ ?r"
    by (cases kvs) (simp_all add: kv pair_text_def)
  have split: "split_once (CHR ''='') (k @ CHR ''='' # quote v @ ?r) = Some (k, quote v @ ?r)"
    using k by (simp add: split_once_Some_iff)
  have "read_value (quote v @ ?r) = Some (v, ?r)" by (rule read_quote) simp
  then show ?case
    unfolding joined using Cons split by (subst read_fields.simps) (simp add: kv)
qed simp

text \<open>The fields a line shows: the time, the level, the message, then the others in order.\<close>

definition shown_fields :: "string option \<Rightarrow> log_event \<Rightarrow> (string \<times> string) list" where
  "shown_fields timestamp ev =
     (case timestamp of None \<Rightarrow> [] | Some t \<Rightarrow> [(''ts'', t)])
     @ [(''level'', show_log_level (le_level ev))]
     @ (case fst (visited ev) of None \<Rightarrow> [] | Some m \<Rightarrow> [(''msg'', m)])
     @ filter (\<lambda>kv. fst kv \<noteq> ''message'' \<and> fst kv \<noteq> ''msg'') (le_fields ev)"

lemma visited_others:
  "snd (fold visit_field fs acc) = snd acc @ filter (\<lambda>kv. fst kv \<noteq> ''message'' \<and> fst kv \<noteq> ''msg'') fs"
  by (induction fs arbitrary: acc) (simp_all add: visit_field_def)

lemma pairs_concat: "concat (map log_field kvs) = concat (map ((#) (CHR '' '')) (map pair_text kvs))"
  by (induction kvs) (simp_all add: log_field_def pair_text_def)

lemma join_concat: "join_with '' '' (x # xs) = x @ concat (map ((#) (CHR '' '')) xs)"
  by (induction xs arbitrary: x) simp_all

lemma quote_level: "quote (show_log_level l) = show_log_level l"
  by (cases l) (simp_all add: quote_def needs_quotes_def is_control_byte_def is_c1_def byte_def)

lemma log_line_pairs:
  assumes "\<forall>t. timestamp = Some t \<longrightarrow> quote t = t"
  shows "log_line timestamp ev = join_with '' '' (map pair_text (shown_fields timestamp ev)) @ [NEWLINE]"
proof -
  have "snd (visited ev) = filter (\<lambda>kv. fst kv \<noteq> ''message'' \<and> fst kv \<noteq> ''msg'') (le_fields ev)"
    by (simp add: visited_def visited_others)
  moreover have "pair_text (''level'', show_log_level (le_level ev)) = ''level='' @ show_log_level (le_level ev)"
    by (simp add: pair_text_def quote_level)
  ultimately show ?thesis
    using assms
    by (cases timestamp; cases "fst (visited ev)")
      (simp_all add: log_line_def shown_fields_def join_concat pairs_concat pair_text_def quote_level)
qed

section \<open>Control characters\<close>

definition clean_text :: "string \<Rightarrow> bool" where
  "clean_text s \<longleftrightarrow> (\<forall>c\<in>set s. \<not> is_control_byte c) \<and> \<not> has_c1 s"

lemma has_c1_Cons: "has_c1 (c # s) \<longleftrightarrow> s \<noteq> [] \<and> is_c1 c (hd s) \<or> has_c1 s"
  by (cases s) auto

lemma clean_Nil [simp]: "clean_text []" by (simp add: clean_text_def)

lemma clean_Cons:
  "clean_text (c # s) \<longleftrightarrow> \<not> is_control_byte c \<and> \<not> (s \<noteq> [] \<and> is_c1 c (hd s)) \<and> clean_text s"
  by (auto simp: clean_text_def has_c1_Cons)

lemma clean_ascii_append:
  "\<forall>c\<in>set a. 0x20 \<le> byte c \<and> byte c < 0x7F \<Longrightarrow> clean_text (a @ b) \<longleftrightarrow> clean_text b"
  by (induction a) (auto simp: clean_Cons is_control_byte_def is_c1_def)

lemma clean_append_ascii:
  "clean_text a \<Longrightarrow> clean_text b \<Longrightarrow> b = [] \<or> byte (hd b) < 0x80 \<Longrightarrow> clean_text (a @ b)"
  by (induction a) (auto simp: clean_Cons is_c1_def hd_append)

lemma escape_ascii:
  assumes "n < 256" "c \<in> set (escape_control n)"
  shows "0x20 \<le> byte c \<and> byte c < 0x7F"
proof -
  consider "c \<in> set (show_hex n)" | "c \<in> {CHR 0x5C, CHR ''u'', CHR ''{'', CHR ''}''}"
    using assms(2) by (auto simp: escape_control_def)
  then show ?thesis
    using show_hex_ascii[OF assms(1), of c] by cases (auto simp: byte_def)
qed

lemma quote_char_ascii:
  "quote_char c = [c] \<and> \<not> is_control_byte c \<or> (\<forall>d\<in>set (quote_char c). 0x20 \<le> byte d \<and> byte d < 0x7F)"
  using escape_ascii[OF byte_less_256[of c]] by (auto simp: quote_char_def byte_def)

lemma hd_quote_char: "hd (quote_char c) = c \<or> hd (quote_char c) = CHR 0x5C"
  by (simp add: quote_char_def escape_control_def)

lemma quote_char_nonempty [simp]: "quote_char c \<noteq> []"
  by (simp add: quote_char_def escape_control_def)

lemma hd_quote_body: "s \<noteq> [] \<Longrightarrow> hd (quote_body s) = hd s \<or> hd (quote_body s) = CHR 0x5C"
  by (induction s rule: quote_body.induct) (use hd_quote_char in \<open>auto simp: escape_control_def\<close>)

lemma quote_body_empty [simp]: "quote_body s = [] \<longleftrightarrow> s = []"
  by (induction s rule: quote_body.induct) (auto simp: escape_control_def)

lemma clean_quote_char_append:
  assumes "clean_text t" "t \<noteq> [] \<Longrightarrow> \<not> is_c1 c (hd t)"
  shows "clean_text (quote_char c @ t)"
  using quote_char_ascii[of c]
proof
  assume "quote_char c = [c] \<and> \<not> is_control_byte c"
  with assms show ?thesis by (auto simp: clean_Cons)
qed (use assms in \<open>simp add: clean_ascii_append\<close>)

lemma clean_quote_body: "clean_text (quote_body s)"
proof (induction s rule: quote_body.induct)
  case (2 c)
  show ?case using clean_quote_char_append[of "[]" c] by simp
next
  case (3 c d s)
  show ?case
  proof (cases "is_c1 c d")
    case True
    with 3 escape_ascii[of "byte d"] show ?thesis by (simp add: clean_ascii_append)
  next
    case False
    have "\<not> is_c1 c (hd (quote_body (d # s)))"
      using hd_quote_body[of "d # s"] False by (auto simp: is_c1_def byte_def)
    with 3 False show ?thesis by (simp add: clean_quote_char_append)
  qed
qed simp

lemma clean_quote: "clean_text (quote s)"
proof (cases "needs_quotes s")
  case True
  have "clean_text (quote_body s @ [CHR 0x22])"
    by (rule clean_append_ascii[OF clean_quote_body]) (simp_all add: clean_Cons is_control_byte_def byte_def)
  then show ?thesis using True by (simp add: quote_def clean_Cons is_control_byte_def is_c1_def byte_def)
next
  case False
  then show ?thesis by (auto simp: quote_def needs_quotes_def clean_text_def list_ex_iff)
qed

lemma clean_pair:
  assumes "key_ok (fst kv)"
  shows "clean_text (pair_text kv)"
proof -
  have "\<forall>c\<in>set (fst kv @ ''=''). 0x20 \<le> byte c \<and> byte c < 0x7F"
  proof
    fix c assume "c \<in> set (fst kv @ ''='')"
    then consider "c \<in> set (fst kv)" | "c = CHR ''=''" by auto
    then show "0x20 \<le> byte c \<and> byte c < 0x7F"
      using assms by cases (simp_all add: key_ok_def list_all_iff less_imp_le byte_def[of "CHR ''=''"])
  qed
  then show ?thesis
    using clean_ascii_append[of "fst kv @ ''=''" "quote (snd kv)"] clean_quote by (simp add: pair_text_def)
qed

lemma clean_pairs:
  assumes "\<forall>kv\<in>set kvs. key_ok (fst kv)"
  shows "clean_text (join_with '' '' (map pair_text kvs))"
  using assms
proof (induction kvs)
  case (Cons kv kvs)
  have tail: "clean_text (CHR '' '' # join_with '' '' (map pair_text kvs))"
    using Cons by (simp add: clean_Cons is_control_byte_def is_c1_def byte_def)
  show ?case
  proof (cases kvs)
    case Nil
    with Cons.prems clean_pair show ?thesis by simp
  next
    case (Cons y ys)
    have "clean_text (pair_text kv @ CHR '' '' # join_with '' '' (map pair_text kvs))"
      using clean_pair Cons.prems tail by (intro clean_append_ascii) (simp_all add: byte_def)
    with Cons show ?thesis by simp
  qed
qed simp

lemma log_line_read:
  assumes "\<forall>kv\<in>set (le_fields ev). key_ok (fst kv)" "\<forall>t. timestamp = Some t \<longrightarrow> quote t = t"
  shows "\<exists>l. log_line timestamp ev = l @ [NEWLINE] \<and> clean_text l
    \<and> read_fields l = Some (shown_fields timestamp ev)"
proof -
  have "key_ok ''ts''" "key_ok ''level''" "key_ok ''msg''" by (simp_all add: key_ok_def byte_def)
  then have keys: "\<forall>kv\<in>set (shown_fields timestamp ev). key_ok (fst kv)"
    using assms(1) by (auto simp: shown_fields_def split: option.splits)
  have "shown_fields timestamp ev \<noteq> []" by (simp add: shown_fields_def)
  with read_pairs clean_pairs keys log_line_pairs[OF assms(2)] show ?thesis by blast
qed

section \<open>The events of a pass\<close>

definition event_ok :: "log_event \<Rightarrow> bool" where
  "event_ok ev = (\<forall>kv\<in>set (le_fields ev). key_ok (fst kv))"

lemma key_ok_simps [simp]: "key_ok []" "key_ok (c # k) \<longleftrightarrow> 0x20 < byte c \<and> byte c < 0x7F \<and> c \<noteq> CHR ''='' \<and> key_ok k"
  by (simp_all add: key_ok_def)

lemma fields_ok [simp]: "\<forall>kv\<in>set (member_fields k). key_ok (fst kv)" "key_ok (fst (on_trigger tr))"
  by (simp_all add: member_fields_def on_trigger_def byte_def)

lemma event_ok_simps [simp]:
  "event_ok \<lparr>le_level = l, le_fields = []\<rparr>"
  "event_ok \<lparr>le_level = l, le_fields = kv # fs\<rparr> \<longleftrightarrow> key_ok (fst kv) \<and> event_ok \<lparr>le_level = l, le_fields = fs\<rparr>"
  "event_ok \<lparr>le_level = l, le_fields = fs @ gs\<rparr>
     \<longleftrightarrow> event_ok \<lparr>le_level = l, le_fields = fs\<rparr> \<and> event_ok \<lparr>le_level = l, le_fields = gs\<rparr>"
  "event_ok \<lparr>le_level = l, le_fields = member_fields k\<rparr>"
  by (auto simp: event_ok_def)

lemma run_event_ok: "event_ok (run_event tr a f)"
  by (cases a; cases f) (simp_all add: mount_event_def unmount_event_def drop_event_def Let_def byte_def)

lemma step_event_ok: "event_ok (step_event tr a r)"
  by (cases r) (simp_all add: step_event_def run_event_ok skipped_event_def byte_def split: prod.split)

lemma finding_event_ok: "event_ok (finding_event tr f)"
  by (cases f) (simp_all add: byte_def)

lemma log_note_ok: "event_ok (log_note nt tr)"
  by (cases nt) (simp_all add: byte_def)

lemma log_note_event_ok: "event_ok (log_note_event tr ne)"
  by (cases ne) (simp_all add: log_note_ok byte_def)

lemma ignored_event_ok: "event_ok (ignored_event tr gn)"
  by (simp add: ignored_event_def byte_def)

text \<open>What one pass logs: its notes, its findings, and one event per step.\<close>

definition pass_events ::
  "trigger \<Rightarrow> observed \<Rightarrow> note_log \<Rightarrow> plan \<Rightarrow> execution \<Rightarrow> log_event list" where
  "pass_events tr out active_notes p ex =
     fst (report_events tr out active_notes) @ log_findings (plan_findings p) tr
     @ execution_events tr p ex"

lemma pass_events_ok: "ev \<in> set (pass_events tr out active_notes p ex) \<Longrightarrow> event_ok ev"
  by (auto simp: pass_events_def report_events_def log_findings_def execution_events_def
      log_note_event_ok ignored_event_ok finding_event_ok step_event_ok split: prod.splits)

text \<open>C19. The log cannot be forged by what is logged.  Whatever bytes the names, paths and error
  texts of a pass hold, each of its events is one line: it ends in the only line feed, has no
  other control character (of ASCII or of the range U+0080 to U+009F), and a reader of logfmt
  gets back from it exactly the level, the message and the fields of the event, in order.\<close>

theorem log_lines_exact:
  assumes "ev \<in> set (pass_events tr out active_notes p ex)"
    and "\<forall>t. timestamp = Some t \<longrightarrow> quote t = t"
  shows "\<exists>l. log_line timestamp ev = l @ [NEWLINE] \<and> clean_text l
    \<and> read_fields l = Some (shown_fields timestamp ev)"
  using log_line_read[OF _ assms(2)] pass_events_ok[OF assms(1)] by (simp add: event_ok_def)

text \<open>A step that fails with an error that spells a line of its own.\<close>

definition forged :: string where
  "forged = ''x'' @ [NEWLINE] @ ''level=info op=mount result=ok'' @ [CHR 0xC2, CHR 0x85]"

theorem log_lines_exact_witness:
  "\<exists>l ev. log_line None ev = l @ [NEWLINE] \<and> clean_text l
    \<and> read_fields l = Some (shown_fields None ev) \<and> (''error'', forged) \<in> set (shown_fields None ev)"
proof -
  let ?p = "\<lparr>plan_steps = [\<lparr>step_action = DropRecord example_record MountGone, depends_on = []\<rparr>],
    plan_findings = []\<rparr>"
  let ?ev = "drop_event Cli example_record MountGone (Some forged)"
  have "?ev \<in> set (pass_events Cli (observed_with_frozen []) [] ?p \<lparr>exec_results = [Failed forged]\<rparr>)"
    by (simp add: pass_events_def execution_events_def step_event_def)
  from log_lines_exact[OF this, of None]
  obtain l where "log_line None ?ev = l @ [NEWLINE] \<and> clean_text l
    \<and> read_fields l = Some (shown_fields None ?ev)" by auto
  moreover have "(''error'', forged) \<in> set (shown_fields None ?ev)"
    by (simp add: shown_fields_def drop_event_def Let_def)
  ultimately show ?thesis by blast
qed

end
