(* ===== verification/Report.thy ===== *)
theory Report
  imports Log_Lines
begin

text \<open>
  \<open>src/src/report.rs\<close>: the reports of \<open>byssus status\<close> and \<open>byssus dry-run\<close>, as values and as
  text.  Their JSON form is a library's.
\<close>

section \<open>Levels and members\<close>

datatype level = L_Ok | L_Warn | L_Error

instantiation level :: linorder
begin

fun level_rank :: "level \<Rightarrow> nat" where
  "level_rank L_Ok = 0"
| "level_rank L_Warn = 1"
| "level_rank L_Error = 2"

definition less_eq_level :: "level \<Rightarrow> level \<Rightarrow> bool" where
  "less_eq_level a b \<longleftrightarrow> level_rank a \<le> level_rank b"

definition less_level :: "level \<Rightarrow> level \<Rightarrow> bool" where
  "less_level a b \<longleftrightarrow> level_rank a < level_rank b"

instance
proof
  fix a b :: level
  show "a \<le> b \<Longrightarrow> b \<le> a \<Longrightarrow> a = b"
    by (cases a; cases b) (auto simp: less_eq_level_def)
qed (auto simp: less_eq_level_def less_level_def)

end

fun show_level :: "level \<Rightarrow> string" where
  "show_level L_Ok = ''ok''"
| "show_level L_Warn = ''warn''"
| "show_level L_Error = ''error''"

record check =
  ck_name :: string
  ck_level :: level
  ck_detail :: string

datatype member_state =
    MS_Mounted | MS_WouldMount | MS_WouldRemount | MS_WouldUnmount | MS_StaleRecord | MS_Conflict
  | MS_MountedOwnershipUnknown | MS_SourceUnavailable | MS_TargetUnavailable | MS_Collision
  | MS_RelocationBlocked | MS_GroupUnavailable | MS_Rejected

fun show_member_state :: "member_state \<Rightarrow> string" where
  "show_member_state MS_Mounted = ''mounted''"
| "show_member_state MS_WouldMount = ''would_mount''"
| "show_member_state MS_WouldRemount = ''would_remount''"
| "show_member_state MS_WouldUnmount = ''would_unmount''"
| "show_member_state MS_StaleRecord = ''stale_record''"
| "show_member_state MS_Conflict = ''conflict''"
| "show_member_state MS_MountedOwnershipUnknown = ''mounted_ownership_unknown''"
| "show_member_state MS_SourceUnavailable = ''source_unavailable''"
| "show_member_state MS_TargetUnavailable = ''target_unavailable''"
| "show_member_state MS_Collision = ''collision''"
| "show_member_state MS_RelocationBlocked = ''relocation_blocked''"
| "show_member_state MS_GroupUnavailable = ''group_unavailable''"
| "show_member_state MS_Rejected = ''rejected''"

fun member_level :: "member_state \<Rightarrow> level" where
  "member_level MS_Mounted = L_Ok"
| "member_level MS_WouldMount = L_Ok"
| "member_level MS_WouldRemount = L_Ok"
| "member_level MS_WouldUnmount = L_Ok"
| "member_level MS_StaleRecord = L_Ok"
| "member_level MS_MountedOwnershipUnknown = L_Ok"
| "member_level MS_SourceUnavailable = L_Warn"
| "member_level MS_RelocationBlocked = L_Warn"
| "member_level MS_Rejected = L_Warn"
| "member_level MS_Conflict = L_Error"
| "member_level MS_TargetUnavailable = L_Error"
| "member_level MS_Collision = L_Error"
| "member_level MS_GroupUnavailable = L_Error"

record member_status =
  mb_group :: string
  mb_name :: string
  mb_target :: "string option"
  mb_state :: member_state
  mb_detail :: "string option"

section \<open>Member statuses\<close>

type_synonym statuses = "(record_key, member_status) btree"

definition set_status ::
  "record_key \<Rightarrow> string \<Rightarrow> member_state \<Rightarrow> string option \<Rightarrow> statuses \<Rightarrow> statuses" where
  "set_status key target s detail m =
     bt_insert key
       \<lparr>mb_group = show_group_id (rk_group key), mb_name = as_str (rk_name key),
        mb_target = Some target, mb_state = s, mb_detail = detail\<rparr> m"

definition desired_status :: "desired_mount \<Rightarrow> statuses \<Rightarrow> statuses" where
  "desired_status d = set_status (dm_key d) (show_location (dm_target d)) MS_Mounted None"

definition frozen_status :: "group_id list \<Rightarrow> mount_record \<Rightarrow> statuses \<Rightarrow> statuses" where
  "frozen_status frozen r m =
     (if mr_group r \<in> set frozen
      then set_status (mr_key r) (show_location (target_location r)) MS_GroupUnavailable None m else m)"

text \<open>The loop over the steps, with the records being unmounted so far.\<close>

fun step_status :: "action \<Rightarrow> record_key list \<times> statuses \<Rightarrow> record_key list \<times> statuses" where
  "step_status (Unmount r why) (unmounting, m) =
     (unmounting @ [mr_key r],
      set_status (mr_key r) (show_location (target_location r)) MS_WouldUnmount
        (case why of SourceGone e \<Rightarrow> Some e | _ \<Rightarrow> None) m)"
| "step_status (DropRecord r _) (unmounting, m) =
     (unmounting, set_status (mr_key r) (show_location (target_location r)) MS_StaleRecord None m)"
| "step_status (Mount d) (unmounting, m) =
     (unmounting,
      set_status (dm_key d) (show_location (dm_target d))
        (if dm_key d \<in> set unmounting then MS_WouldRemount else MS_WouldMount) None m)"

fun finding_status :: "bool \<Rightarrow> finding \<Rightarrow> statuses \<Rightarrow> statuses" where
  "finding_status ownership_known (Conflict key target kind) m =
     set_status key (show_location target)
       (if \<not> ownership_known \<and> kind = ForeignMount then MS_MountedOwnershipUnknown else MS_Conflict)
       None m"
| "finding_status ownership_known (F_SourceUnavailable key source why) m =
     set_status key
       (case Option.bind (bt_get m key) mb_target of Some t \<Rightarrow> t | None \<Rightarrow> show_location source)
       MS_SourceUnavailable (Some why) m"
| "finding_status ownership_known (F_TargetUnavailable key target why) m =
     set_status key (show_location target) MS_TargetUnavailable (Some why) m"
| "finding_status ownership_known (F_TargetCollision target keys kept) m =
     fold (\<lambda>key. set_status key (show_location target) MS_Collision
                   (map_option (\<lambda>k. ''target kept by '' @ show_record_key k) kept))
       (filter (\<lambda>k. Some k \<noteq> kept) keys) m"
| "finding_status ownership_known (RelocationBlocked key old_target) m =
     set_status key (show_location old_target) MS_RelocationBlocked None m"

definition apply_findings :: "finding list \<Rightarrow> bool \<Rightarrow> statuses \<Rightarrow> statuses" where
  "apply_findings fs ownership_known = fold (finding_status ownership_known) fs"

text \<open>The entries of rejected members.\<close>

fun note_status :: "obs_note \<Rightarrow> member_status option" where
  "note_status (Rejected g rej) =
     Some \<lparr>mb_group = show_group_id g, mb_name = display_name rej, mb_target = None,
           mb_state = MS_Rejected, mb_detail = Some (show_reject_reason (reason rej))\<rparr>"
| "note_status (InterpolationFailed g n field er) =
     Some \<lparr>mb_group = show_group_id g, mb_name = as_str n, mb_target = None, mb_state = MS_Rejected,
           mb_detail = Some (field @ '' template: '' @ show_interpolate_error er)\<rparr>"
| "note_status (SetEntryRejected st rej) =
     Some \<lparr>mb_group = set_label st, mb_name = display_name rej, mb_target = None,
           mb_state = MS_Rejected, mb_detail = Some (show_reject_reason (reason rej))\<rparr>"
| "note_status _ = None"

definition key_statuses :: "observed \<Rightarrow> plan \<Rightarrow> state \<Rightarrow> bool \<Rightarrow> statuses" where
  "key_statuses out p s ownership_known =
     apply_findings (plan_findings p) ownership_known
       (snd (fold (\<lambda>st. step_status (step_action st)) (plan_steps p)
               ([], fold (frozen_status (ob_frozen out)) (records s)
                      (fold desired_status (ob_desired out) []))))"

definition member_statuses :: "observed \<Rightarrow> plan \<Rightarrow> state \<Rightarrow> bool \<Rightarrow> member_status list" where
  "member_statuses out p s ownership_known =
     sort_key (\<lambda>m. (mb_group m, mb_name m))
       (bt_values (key_statuses out p s ownership_known) @ List.map_filter note_status (ob_notes out))"

section \<open>Group reports\<close>

record group_report =
  rp_name :: string
  rp_status :: level
  rp_membership_dir :: string
  rp_propagation :: string
  rp_members :: nat
  rp_rejected :: nat
  rp_ignored :: nat
  rp_sources_valid :: nat
  rp_sources_missing :: nat
  rp_existing_mounts :: nat
  rp_would_create :: nat
  rp_would_remove :: nat
  rp_conflicts :: nat
  rp_problems :: "string list"

text \<open>The maximum of a non-empty sequence of levels; \<open>Ok\<close> of an empty one.\<close>

definition max_level :: "level list \<Rightarrow> level" where
  "max_level ls = fold max ls L_Ok"

fun rejects_in :: "group_id \<Rightarrow> obs_note \<Rightarrow> bool" where
  "rejects_in g (Rejected h _) = (h = g)"
| "rejects_in g (InterpolationFailed h _ _ _) = (h = g)"
| "rejects_in g _ = False"

fun unreadable_note :: "group_id \<Rightarrow> obs_note \<Rightarrow> string option" where
  "unreadable_note g (MembershipUnreadable h er) = (if h = g then Some er else None)"
| "unreadable_note g (MembershipDeleted h) =
     (if h = g then Some ''directory has been deleted'' else None)"
| "unreadable_note g _ = None"

definition unreadable_in :: "group_id \<Rightarrow> obs_note list \<Rightarrow> string option" where
  "unreadable_in g ns =
     (case List.map_filter (unreadable_note g) ns of [] \<Rightarrow> None | er # _ \<Rightarrow> Some er)"

definition source_valid :: "observed \<Rightarrow> desired_mount \<Rightarrow> bool" where
  "source_valid out d =
     (case bt_get (obs_sources (ob_observations out)) (dm_key d) of Some (Resolved _) \<Rightarrow> True | _ \<Rightarrow> False)"

fun creates_in :: "group_id \<Rightarrow> action \<Rightarrow> bool" where
  "creates_in g (Mount d) = (rk_group (dm_key d) = g)"
| "creates_in g _ = False"

fun removes_in :: "group_id \<Rightarrow> action \<Rightarrow> bool" where
  "removes_in g (Unmount r _) = (mr_group r = g)"
| "removes_in g _ = False"

type_synonym group_extra = "string \<times> level \<times> string list"

definition extra_of :: "(group_id, group_extra) btree \<Rightarrow> group_id \<Rightarrow> group_extra" where
  "extra_of extra g = (case bt_get extra g of Some e \<Rightarrow> e | None \<Rightarrow> (''unknown'', L_Warn, []))"

definition membership_dir_text :: "string \<Rightarrow> bool \<Rightarrow> string option \<Rightarrow> string" where
  "membership_dir_text path inspected unreadable =
     path @ (case unreadable of
               None \<Rightarrow> if inspected then '' (readable)'' else '' (not inspected)''
             | Some _ \<Rightarrow> '' (unreadable)'')"

definition group_status :: "level \<Rightarrow> level \<Rightarrow> bool \<Rightarrow> bool \<Rightarrow> nat \<Rightarrow> level" where
  "group_status members_level prop_level unreadable inspected rejects =
     (let s = (if unreadable \<or> \<not> inspected then L_Error else max members_level prop_level)
      in if 0 < rejects then max s L_Warn else s)"

definition report_group ::
  "observed \<Rightarrow> plan \<Rightarrow> member_status list \<Rightarrow> (group_id, group_extra) btree \<Rightarrow> group_id \<times> string
     \<Rightarrow> group_report" where
  "report_group out p statuses extra = (\<lambda>(g, path).
     (let inspected = bt_contains (ob_members out) g;
          unreadable = unreadable_in g (ob_notes out);
          rejects = length (filter (rejects_in g) (ob_notes out));
          ds = filter (\<lambda>d. rk_group (dm_key d) = g) (ob_desired out);
          acts = map step_action (plan_steps p);
          mine = filter (\<lambda>m. mb_group m = show_group_id g) statuses;
          (propagation, prop_level, problems) = extra_of extra g
      in \<lparr>rp_name = show_group_id g,
          rp_status = group_status (max_level (map (\<lambda>m. member_level (mb_state m)) mine)) prop_level
                        (unreadable \<noteq> None) inspected rejects,
          rp_membership_dir = membership_dir_text path inspected unreadable,
          rp_propagation = propagation,
          rp_members = (case bt_get (ob_members out) g of Some ns \<Rightarrow> length ns | None \<Rightarrow> 0),
          rp_rejected = rejects,
          rp_ignored = (case bt_get (ob_ignored out) g of Some ns \<Rightarrow> length ns | None \<Rightarrow> 0),
          rp_sources_valid = length (filter (source_valid out) ds),
          rp_sources_missing = length (filter (\<lambda>d. \<not> source_valid out d) ds),
          rp_existing_mounts =
            length (filter (\<lambda>m. mb_state m = MS_Mounted \<or> mb_state m = MS_WouldRemount) mine),
          rp_would_create = length (filter (creates_in g) acts),
          rp_would_remove = length (filter (removes_in g) acts),
          rp_conflicts =
            length (filter (\<lambda>m. mb_state m = MS_Conflict \<or> mb_state m = MS_Collision) mine),
          rp_problems =
            problems @ (case unreadable of
                          Some er \<Rightarrow> [''membership directory unreadable: '' @ er] | None \<Rightarrow> [])\<rparr>))"

definition group_reports ::
  "(group_id \<times> string) list \<Rightarrow> observed \<Rightarrow> plan \<Rightarrow> member_status list
     \<Rightarrow> (group_id, group_extra) btree \<Rightarrow> group_report list" where
  "group_reports groups out p statuses extra = map (report_group out p statuses extra) groups"

section \<open>The reports\<close>

record dry_run_report =
  dr_checks :: "check list"
  dr_groups :: "group_report list"
  dr_members :: "member_status list"

definition dry_run_level :: "dry_run_report \<Rightarrow> level" where
  "dry_run_level r = max_level (map ck_level (dr_checks r) @ map rp_status (dr_groups r))"

record status_report =
  sp_state_file :: string
  sp_ownership_known :: bool
  sp_checked_as_uid :: "nat option"
  sp_notes :: "string list"
  sp_unavailable :: "(string, string) btree"
  sp_ignored :: "(string, nat) btree"
  sp_members :: "member_status list"

definition status_level :: "status_report \<Rightarrow> level" where
  "status_level r =
     max_level (map (\<lambda>m. member_level (mb_state m)) (sp_members r)
                @ [if sp_unavailable r = [] then L_Ok else L_Error])"

subsection \<open>As text\<close>

text \<open>A formatted value is padded by its characters, which start at the bytes that do not
  continue one.\<close>

definition starts_char :: "char \<Rightarrow> bool" where
  "starts_char c = (byte c < 0x80 \<or> 0xC0 \<le> byte c)"

definition pad :: "nat \<Rightarrow> string \<Rightarrow> string" where
  "pad width s = s @ replicate (width - length (filter starts_char s)) (CHR '' '')"

definition member_line :: "member_status \<Rightarrow> string" where
  "member_line m =
     mb_group m @ ''/'' @ mb_name m @ ''  state='' @ show_member_state (mb_state m)
     @ (case mb_target m of Some t \<Rightarrow> ''  target='' @ quote t | None \<Rightarrow> [])
     @ (case mb_detail m of Some d \<Rightarrow> ''  detail='' @ quote d | None \<Rightarrow> []) @ [NEWLINE]"

definition render_members :: "member_status list \<Rightarrow> (member_status \<Rightarrow> bool) \<Rightarrow> string" where
  "render_members ms shown =
     (let ms = filter shown ms in if ms = [] then [] else [NEWLINE] @ concat (map member_line ms))"

definition check_line :: "nat \<Rightarrow> check \<Rightarrow> string" where
  "check_line width c =
     pad width (ck_name c) @ '' = '' @ show_level (ck_level c)
     @ (if ck_detail c = [] then [] else '' ('' @ ck_detail c @ '')'') @ [NEWLINE]"

definition group_rows :: "group_report \<Rightarrow> (string \<times> string) list" where
  "group_rows g =
     [(''membership_dir'', rp_membership_dir g), (''propagation'', rp_propagation g),
      (''members'', show_nat (rp_members g)), (''rejected'', show_nat (rp_rejected g)),
      (''ignored'', show_nat (rp_ignored g)), (''sources_valid'', show_nat (rp_sources_valid g)),
      (''sources_missing'', show_nat (rp_sources_missing g)),
      (''existing_mounts'', show_nat (rp_existing_mounts g)),
      (''would_create'', show_nat (rp_would_create g)),
      (''would_remove'', show_nat (rp_would_remove g)), (''conflicts'', show_nat (rp_conflicts g)),
      (''problems'', join_with ''; '' (rp_problems g))]"

definition group_text :: "group_report \<Rightarrow> string" where
  "group_text g =
     [NEWLINE] @ ''group='' @ rp_name g @ ''  status='' @ show_level (rp_status g) @ [NEWLINE]
     @ concat (map (\<lambda>(key, value). ''  '' @ pad 16 key @ '' = '' @ value @ [NEWLINE])
         (filter (\<lambda>(key, value). \<not> (key = ''problems'' \<and> value = [])) (group_rows g)))"

definition dry_run_text :: "dry_run_report \<Rightarrow> string" where
  "dry_run_text r =
     (let width = fold max (map (\<lambda>c. length (ck_name c)) (dr_checks r)) 0 in
      concat (map (check_line width) (dr_checks r)) @ concat (map group_text (dr_groups r))
      @ render_members (dr_members r) (\<lambda>m. mb_state m \<noteq> MS_Mounted))"

definition unavailable_line :: "string \<times> string \<Rightarrow> string" where
  "unavailable_line = (\<lambda>(g, why).
     (if strip_suffix ''/*'' g \<noteq> None then g else g @ ''/*'')
     @ ''  state=group_unavailable  detail='' @ quote why @ [NEWLINE])"

definition ignored_line :: "string \<times> nat \<Rightarrow> string" where
  "ignored_line = (\<lambda>(g, n).
     ''ignored: group '' @ [CHR 0x27] @ g @ [CHR 0x27] @ '': '' @ show_nat n @ '' hidden entr''
     @ (if n = 1 then ''y'' else ''ies'') @ [NEWLINE])"

definition status_report_text :: "status_report \<Rightarrow> string" where
  "status_report_text r =
     ''state_file = '' @ sp_state_file r
     @ (if sp_ownership_known r then [] else '' (unreadable: ownership unknown)'') @ [NEWLINE]
     @ (case sp_checked_as_uid r of
          Some uid \<Rightarrow> ''checked_as_uid = '' @ show_nat uid @ [NEWLINE] | None \<Rightarrow> [])
     @ concat (map (\<lambda>n. ''note: '' @ n @ [NEWLINE]) (sp_notes r))
     @ concat (map ignored_line (sp_ignored r))
     @ (if sp_members r = [] \<and> sp_unavailable r = []
        then [NEWLINE] @ ''no members'' @ [NEWLINE] else [])
     @ (if sp_unavailable r = [] then [] else [NEWLINE])
     @ concat (map unavailable_line (sp_unavailable r)) @ render_members (sp_members r) (\<lambda>_. True)"

end
