(* ===== verification/Report_Props.thy ===== *)
theory Report_Props
  imports Report Plan_Claims
begin

text \<open>What a report says of a member, against the planner's decision table.\<close>

section \<open>The entries that say mounted\<close>

text \<open>The entry of a key, if it says that the member is mounted.\<close>

definition mounted_entry :: "statuses \<Rightarrow> record_key \<Rightarrow> member_status \<Rightarrow> bool" where
  "mounted_entry S k m \<longleftrightarrow> bt_get S k = Some m \<and> mb_state m = MS_Mounted"

definition desired_entry :: "desired_mount \<Rightarrow> member_status" where
  "desired_entry d =
     \<lparr>mb_group = show_group_id (rk_group (dm_key d)), mb_name = as_str (rk_name (dm_key d)),
      mb_target = Some (show_location (dm_target d)), mb_state = MS_Mounted, mb_detail = None\<rparr>"

lemma desired_entry_state [simp]: "mb_state (desired_entry d) = MS_Mounted"
  by (simp add: desired_entry_def)

lemma mounted_set_status:
  "st \<noteq> MS_Mounted \<Longrightarrow>
     mounted_entry (set_status key t st det S) k m \<longleftrightarrow> k \<noteq> key \<and> mounted_entry S k m"
  by (auto simp: mounted_entry_def set_status_def btree_simps)

lemma bt_wf_set_status [wf_intros]: "bt_wf S \<Longrightarrow> bt_wf (set_status key t st det S)"
  unfolding set_status_def by (intro wf_intros)

lemma bt_wf_fold: "(\<And>x m. bt_wf m \<Longrightarrow> bt_wf (f x m)) \<Longrightarrow> bt_wf m \<Longrightarrow> bt_wf (fold f xs m)"
  by (induction xs arbitrary: m) auto

lemma get_desired_statuses:
  assumes "distinct (map dm_key ds)"
  shows "bt_get (fold desired_status ds S) k = Some m \<longleftrightarrow>
     (\<exists>d\<in>set ds. dm_key d = k \<and> m = desired_entry d) \<or> k \<notin> dm_key ` set ds \<and> bt_get S k = Some m"
  using assms
proof (induction ds arbitrary: S)
  case (Cons d ds)
  have "bt_get (desired_status d S) k = (if k = dm_key d then Some (desired_entry d) else bt_get S k)"
    by (simp add: desired_status_def set_status_def desired_entry_def btree_simps)
  with Cons.IH[of "desired_status d S"] Cons.prems show ?case by (auto simp: rev_image_eqI)
qed simp

lemma mounted_frozen:
  "mounted_entry (fold (frozen_status fz) rs S) k m
     \<longleftrightarrow> (\<forall>r\<in>set rs. mr_key r = k \<longrightarrow> mr_group r \<notin> set fz) \<and> mounted_entry S k m"
  by (induction rs arbitrary: S) (auto simp: frozen_status_def mounted_set_status)

lemma mounted_step:
  "mounted_entry (snd (step_status a (u, S))) k m \<longleftrightarrow> k \<noteq> action_key a \<and> mounted_entry S k m"
  by (cases a) (simp_all add: mounted_set_status)

lemma mounted_steps:
  "mounted_entry (snd (fold (\<lambda>st. step_status (step_action st)) sts (u, S))) k m
     \<longleftrightarrow> k \<notin> action_key ` set (map step_action sts) \<and> mounted_entry S k m"
proof (induction sts arbitrary: u S)
  case (Cons st sts)
  obtain u' S' where s: "step_status (step_action st) (u, S) = (u', S')"
    by (cases "step_status (step_action st) (u, S)")
  show ?case using Cons.IH[of u' S'] mounted_step[of "step_action st" u S k m] by (auto simp: s)
qed simp

text \<open>The members a finding is about.\<close>

fun finding_keys :: "finding \<Rightarrow> record_key set" where
  "finding_keys (Conflict key _ _) = {key}"
| "finding_keys (F_SourceUnavailable key _ _) = {key}"
| "finding_keys (F_TargetUnavailable key _ _) = {key}"
| "finding_keys (F_TargetCollision _ keys kept) = {k \<in> set keys. Some k \<noteq> kept}"
| "finding_keys (RelocationBlocked key _) = {key}"

lemma mounted_fold_set:
  "st \<noteq> MS_Mounted \<Longrightarrow> mounted_entry (fold (\<lambda>key. set_status key t st det) ks S) k m
     \<longleftrightarrow> k \<notin> set ks \<and> mounted_entry S k m"
  by (induction ks arbitrary: S) (auto simp: mounted_set_status)

lemma mounted_finding:
  "mounted_entry (finding_status known f S) k m \<longleftrightarrow> k \<notin> finding_keys f \<and> mounted_entry S k m"
  by (cases f) (simp_all add: mounted_set_status mounted_fold_set)

lemma mounted_findings:
  "mounted_entry (apply_findings fs known S) k m
     \<longleftrightarrow> (\<forall>f\<in>set fs. k \<notin> finding_keys f) \<and> mounted_entry S k m"
  unfolding apply_findings_def
  by (induction fs arbitrary: S) (auto simp: mounted_finding)

lemma bt_wf_steps:
  "bt_wf S \<Longrightarrow> bt_wf (snd (fold (\<lambda>st. step_status (step_action st)) sts (u, S)))"
proof (induction sts arbitrary: u S)
  case (Cons st sts)
  then show ?case by (cases "step_action st") (simp_all add: wf_intros)
qed simp

lemma bt_wf_finding: "bt_wf S \<Longrightarrow> bt_wf (finding_status known f S)"
  by (cases f) (auto intro!: wf_intros bt_wf_fold)

lemma key_statuses_wf: "bt_wf (key_statuses out p s known)"
  unfolding key_statuses_def apply_findings_def
  by (intro bt_wf_fold bt_wf_steps bt_wf_finding)
    (auto simp: desired_status_def frozen_status_def intro: wf_intros)

lemma key_statuses_mounted:
  assumes "distinct (map dm_key (ob_desired out))"
  shows "mounted_entry (key_statuses out p s known) k m \<longleftrightarrow>
     (\<forall>f\<in>set (plan_findings p). k \<notin> finding_keys f)
     \<and> k \<notin> action_key ` set (map step_action (plan_steps p))
     \<and> (\<forall>r\<in>set (records s). mr_key r = k \<longrightarrow> mr_group r \<notin> set (ob_frozen out))
     \<and> (\<exists>d\<in>set (ob_desired out). dm_key d = k \<and> m = desired_entry d)"
proof -
  have "mounted_entry (fold desired_status (ob_desired out) []) k m
      \<longleftrightarrow> (\<exists>d\<in>set (ob_desired out). dm_key d = k \<and> m = desired_entry d)"
    unfolding mounted_entry_def get_desired_statuses[OF assms] by auto
  then show ?thesis
    unfolding key_statuses_def mounted_findings mounted_steps mounted_frozen by blast
qed

lemma member_statuses_mounted:
  "m \<in> set (member_statuses out p s known) \<and> mb_state m = MS_Mounted
     \<longleftrightarrow> (\<exists>k. mounted_entry (key_statuses out p s known) k m)"
proof -
  have "mb_state m \<noteq> MS_Mounted" if "note_status nt = Some m" for nt
    using that by (cases nt) auto
  then have silent: "m \<notin> set (List.map_filter note_status (ob_notes out))" if "mb_state m = MS_Mounted"
    using that by (auto simp: List.map_filter_def)
  have "m \<in> set (bt_values (key_statuses out p s known))
      \<longleftrightarrow> (\<exists>k. bt_get (key_statuses out p s known) k = Some m)"
    unfolding bt_get_iff[OF key_statuses_wf] by (force simp: bt_values_def)
  with silent show ?thesis unfolding member_statuses_def mounted_entry_def by auto
qed

section \<open>The members the planner leaves alone\<close>

lemma verdict_steps_key:
  assumes "(a, needs) \<in> set (verdict_steps d (verdict_of i acc d))" "state_wf (pi_state i)"
  shows "action_key a = dm_key d"
proof (cases "phase a = 0")
  case True
  with assms(1) obtain r where "state_get (pi_state i) (dm_key d) = Some r"
    "(\<exists>why. a = Unmount r why) \<or> (\<exists>why. a = DropRecord r why)"
    by (elim verdict_removal) blast+
  with state_get_Some_iff[OF assms(2)] show ?thesis by auto
next
  case False
  with assms(1) show ?thesis by (cases "verdict_of i acc d") auto
qed

lemma verdict_finding_key:
  "f \<in> set (verdict_finding (verdict_of i acc d)) \<Longrightarrow> finding_keys f = {dm_key d}"
  by (auto simp: verdict_of_def recorded_verdict_def unrecorded_verdict_def Let_def
      split: option.splits target_state.splits source_state.splits if_splits)

lemma verdict_touches:
  assumes "verdict_of i acc d \<noteq> Keep" "state_wf (pi_state i)"
  shows "(\<exists>st\<in>set (verdict_steps d (verdict_of i acc d)). action_key (fst st) = dm_key d)
    \<or> (\<exists>f\<in>set (verdict_finding (verdict_of i acc d)). dm_key d \<in> finding_keys f)"
proof (cases "verdict_steps d (verdict_of i acc d)")
  case Nil
  with assms(1) verdict_empty_iff have "verdict_finding (verdict_of i acc d) \<noteq> []" by blast
  then obtain f where "f \<in> set (verdict_finding (verdict_of i acc d))"
    using Nil by (cases "verdict_finding (verdict_of i acc d)") auto
  with verdict_finding_key show ?thesis by blast
next
  case (Cons st rest)
  obtain a needs where "st = (a, needs)" by (cases st)
  with Cons have st: "(a, needs) \<in> set (verdict_steps d (verdict_of i acc d))" by simp
  from verdict_steps_key[OF st assms(2)] st show ?thesis by force
qed

lemma collision_keys:
  assumes "f \<in> set (collision_findings i)"
  obtains l where "f = F_TargetCollision l (map dm_key (sort_key dm_key (contenders i l)))
      (map_option dm_key (winner i l))"
  using assms by (auto simp: collision_findings_eq by_target_iff split: if_splits)

lemma collision_if_lost:
  assumes "d \<in> set (active i)" "winner i (dm_target d) \<noteq> Some d"
  shows "F_TargetCollision (dm_target d) (map dm_key (sort_key dm_key (contenders i (dm_target d))))
      (map_option dm_key (winner i (dm_target d))) \<in> set (collision_findings i)"
    and "d \<in> set (contenders i (dm_target d))"
proof -
  show d: "d \<in> set (contenders i (dm_target d))"
    using assms(1) by (simp add: contenders_active)
  then have "length (contenders i (dm_target d)) \<noteq> 1"
    using assms(2) unfolding length_1_iff by (auto simp: winner_def)
  moreover have "(dm_target d, contenders i (dm_target d)) \<in> set (by_target i)"
    using d by (auto simp: by_target_iff)
  ultimately show "F_TargetCollision (dm_target d)
      (map dm_key (sort_key dm_key (contenders i (dm_target d))))
      (map_option dm_key (winner i (dm_target d))) \<in> set (collision_findings i)"
    unfolding collision_findings_eq by force
qed

text \<open>The plan says nothing of a desired mount exactly when it gets its target and is settled.\<close>

lemma untouched_accepted:
  assumes "distinct (map dm_key (active i))" "d \<in> set (active i)"
    "\<forall>f\<in>set (table_findings i). dm_key d \<notin> finding_keys f"
  shows "bt_get (accepted i) (dm_key d) = Some d"
proof (rule ccontr)
  assume "bt_get (accepted i) (dm_key d) \<noteq> Some d"
  then have lost: "winner i (dm_target d) \<noteq> Some d" using accepted_iff[OF assms(1)] assms(2) by blast
  note c = collision_if_lost[OF assms(2) lost]
  have "Some (dm_key d) \<noteq> map_option dm_key (winner i (dm_target d))"
  proof
    assume "Some (dm_key d) = map_option dm_key (winner i (dm_target d))"
    then obtain d' where w: "winner i (dm_target d) = Some d'" "dm_key d' = dm_key d"
      by (cases "winner i (dm_target d)") auto
    then have "d' \<in> set (active i)" using winner_sound[OF w(1)] by (simp add: active_def)
    with w assms(1,2) have "d' = d" by (auto simp: distinct_map inj_on_def)
    with w lost show False by simp
  qed
  with c assms(3) show False by (force simp: table_findings_def)
qed

lemma untouched_settled:
  assumes "state_wf (pi_state i)" "distinct (map dm_key (active i))" "d \<in> set (active i)"
    and L: "(\<forall>f\<in>set (table_findings i). dm_key d \<notin> finding_keys f)
      \<and> dm_key d \<notin> action_key ` fst ` set (table_steps i)"
  shows "winner i (dm_target d) = Some d
      \<and> (\<exists>r. state_get (pi_state i) (dm_key d) = Some r \<and> settled i d r)"
proof -
  have acc: "bt_get (accepted i) (dm_key d) = Some d"
    using L untouched_accepted[OF assms(2,3)] by blast
  then have "d \<in> set (bt_values (accepted i))"
    by (force simp: bt_values_def in_accepted_iff[symmetric])
  then have sub: "set (verdict_steps d (verdict_of i (accepted i) d)) \<subseteq> set (table_steps i)"
    "set (verdict_finding (verdict_of i (accepted i) d)) \<subseteq> set (table_findings i)"
    by (auto simp: table_steps_def table_findings_def)
  have "verdict_of i (accepted i) d = Keep"
  proof (rule ccontr)
    assume "verdict_of i (accepted i) d \<noteq> Keep"
    from verdict_touches[OF this assms(1)] sub L show False by force
  qed
  with acc show ?thesis using accepted_sound(4) by (simp add: verdict_Keep_iff)
qed

text \<open>The other way: a settled member that holds its target is in no finding and no step.\<close>

lemma settled_stays:
  assumes "state_wf (pi_state i)" "bt_get (accepted i) (dm_key d) = Some d"
    and "state_get (pi_state i) (dm_key d) = Some r0" "settled i d r0"
    and "r \<in> set (records (pi_state i))" "mr_key r = dm_key d"
  shows "\<not> departs i (accepted i) r"
proof -
  have "state_get (pi_state i) (dm_key d) = Some r" using records_iff[OF assms(1), of r] assms(5,6) by simp
  with assms(3,4) have "record_matches_desired r d" by (simp add: settled_def)
  with assms(2,6) show ?thesis by (simp add: departs_def)
qed

lemma winner_no_collision:
  assumes "distinct (map dm_key (active i))" "d \<in> set (active i)" "winner i (dm_target d) = Some d"
    and c: "f \<in> set (collision_findings i)"
  shows "dm_key d \<notin> finding_keys f"
proof
  assume k: "dm_key d \<in> finding_keys f"
  obtain l where f: "f = F_TargetCollision l (map dm_key (sort_key dm_key (contenders i l)))
    (map_option dm_key (winner i l))" using c by (rule collision_keys)
  with k obtain d' where d': "d' \<in> set (contenders i l)" "dm_key d' = dm_key d" by auto
  then have "d' \<in> set (active i)" "dm_target d' = l" by (auto simp: contenders_active)
  with d' assms(1,2) have "dm_target d = l" by (auto simp: distinct_map inj_on_def)
  with assms(3) k f show False by simp
qed

lemma keep_not_in_step:
  assumes "state_wf (pi_state i)" "bt_get (accepted i) (dm_key d) = Some d"
    and keep: "verdict_of i (accepted i) d = Keep"
    and stays: "\<And>r. r \<in> set (records (pi_state i)) \<Longrightarrow> mr_key r = dm_key d \<Longrightarrow> \<not> departs i (accepted i) r"
    and row: "(a, needs) \<in> set (table_steps i)"
  shows "action_key a \<noteq> dm_key d"
  using row
proof (cases rule: table_cases)
  case (departing r)
  then show ?thesis using stays[of r] departure_key[of i "accepted i" r a] by auto
next
  case (member d')
  show ?thesis
  proof
    assume "action_key a = dm_key d"
    with verdict_steps_key[OF member(2) assms(1)] have "d' = d" using member(1) assms(2) by simp
    with member(2) keep show False by simp
  qed
qed

lemma settled_untouched:
  assumes "state_wf (pi_state i)" "distinct (map dm_key (active i))" "d \<in> set (active i)"
    and R: "winner i (dm_target d) = Some d"
      "state_get (pi_state i) (dm_key d) = Some r0" "settled i d r0"
  shows "(\<forall>f\<in>set (table_findings i). dm_key d \<notin> finding_keys f)
      \<and> dm_key d \<notin> action_key ` fst ` set (table_steps i)"
proof -
  have acc: "bt_get (accepted i) (dm_key d) = Some d"
    using R(1) accepted_iff[OF assms(2)] assms(3) by blast
  have keep: "verdict_of i (accepted i) d = Keep" using R(2,3) by (simp add: verdict_Keep_iff)
  note stays = settled_stays[OF assms(1) acc R(2,3)]
  have "dm_key d \<notin> action_key ` fst ` set (table_steps i)"
    using keep_not_in_step[OF assms(1) acc keep stays] by force
  moreover have "dm_key d \<notin> finding_keys f" if "f \<in> set (collision_findings i)" for f
    using winner_no_collision[OF assms(2,3) R(1) that] .
  moreover have "dm_key d \<notin> finding_keys f"
    if "f \<in> set (departure_finding i r)" "r \<in> set (departing_records i)" for f r
    using that stays[of r]
    by (auto simp: departing_records_def departure_finding_def split: target_state.splits)
  moreover have "dm_key d \<notin> finding_keys f"
    if f: "f \<in> set (verdict_finding (verdict_of i (accepted i) d'))" and "d' \<in> set (bt_values (accepted i))"
    for f d'
  proof
    assume "dm_key d \<in> finding_keys f"
    then have key: "dm_key d' = dm_key d" using verdict_finding_key[OF f] by simp
    have "bt_get (accepted i) (dm_key d') = Some d'"
      using that(2) accepted_sound(1)[of i] by (auto simp: bt_values_def in_accepted_iff)
    then have "d' = d" using acc key by (metis option.inject)
    with f keep show False by simp
  qed
  ultimately show ?thesis by (auto simp: table_findings_def)
qed

lemma untouched_iff:
  assumes "state_wf (pi_state i)" "distinct (map dm_key (active i))" "d \<in> set (active i)"
  shows "(\<forall>f\<in>set (table_findings i). dm_key d \<notin> finding_keys f)
      \<and> dm_key d \<notin> action_key ` fst ` set (table_steps i)
    \<longleftrightarrow> winner i (dm_target d) = Some d
      \<and> (\<exists>r. state_get (pi_state i) (dm_key d) = Some r \<and> settled i d r)"
  using untouched_settled[OF assms] settled_untouched[OF assms] by blast

section \<open>The report\<close>

lemma mounted_statuses:
  assumes "state_wf s" "make_plan (plan_input_of out s) = Some p"
    and ds: "distinct (map dm_key (ob_desired out))"
    and fr: "\<forall>d\<in>set (ob_desired out). rk_group (dm_key d) \<notin> set (ob_frozen out)"
  shows "m \<in> set (member_statuses out p s known) \<and> mb_state m = MS_Mounted \<longleftrightarrow>
     (\<exists>d\<in>set (ob_desired out). m = desired_entry d
        \<and> winner (plan_input_of out s) (dm_target d) = Some d
        \<and> (\<exists>r. state_get s (dm_key d) = Some r \<and> settled (plan_input_of out s) d r))"
proof -
  let ?i = "plan_input_of out s"
  have i: "pi_state ?i = s" "active ?i = ob_desired out"
    using fr by (simp_all add: plan_input_of_def active_def is_frozen_def)
  have wf: "state_wf (pi_state ?i)" using assms(1) i by simp
  have acts: "set (map step_action (plan_steps p)) = fst ` set (table_steps ?i)"
    unfolding plan_actions(1)[OF wf assms(2)] using phase_cases by auto
  have frozen: "mr_group r \<notin> set (ob_frozen out)" if "mr_key r = dm_key d" "d \<in> set (ob_desired out)"
    for r d using fr that rk_group_mr_key[of r] by auto
  have "m \<in> set (member_statuses out p s known) \<and> mb_state m = MS_Mounted \<longleftrightarrow>
      (\<exists>d\<in>set (ob_desired out). m = desired_entry d
         \<and> (\<forall>f\<in>set (table_findings ?i). dm_key d \<notin> finding_keys f)
         \<and> dm_key d \<notin> action_key ` fst ` set (table_steps ?i))"
    unfolding member_statuses_mounted key_statuses_mounted[OF ds] acts
      plan_actions(2)[OF wf assms(2)] using frozen by blast
  also have "\<dots> \<longleftrightarrow> (\<exists>d\<in>set (ob_desired out). m = desired_entry d \<and> winner ?i (dm_target d) = Some d
        \<and> (\<exists>r. state_get s (dm_key d) = Some r \<and> settled ?i d r))"
    using untouched_iff[OF wf, unfolded i, OF ds] by auto
  finally show ?thesis .
qed

text \<open>C15. A report tells the truth about mounts: for the observations and plan of a pass, the
  entries that say mounted are exactly those of the desired members that get their target,
  are recorded there, and are settled there: the source is the recorded directory, the target
  was observed to hold the recorded mount, and its attributes are the configured ones.  Every
  entry says this once, and the entries are sorted by group and name.\<close>

theorem status_mounted_iff:
  assumes "state_wf s" "make_plan (plan_input_of out s) = Some p"
    "distinct (map dm_key (ob_desired out))"
    "\<forall>d\<in>set (ob_desired out). rk_group (dm_key d) \<notin> set (ob_frozen out)"
  shows "{m \<in> set (member_statuses out p s known). mb_state m = MS_Mounted} =
     desired_entry ` {d \<in> set (ob_desired out).
       winner (plan_input_of out s) (dm_target d) = Some d
       \<and> (\<exists>r. state_get s (dm_key d) = Some r \<and> settled (plan_input_of out s) d r)}
    \<and> distinct (map fst (key_statuses out p s known))
    \<and> sorted (map (\<lambda>m. (mb_group m, mb_name m)) (member_statuses out p s known))"
  using mounted_statuses[OF assms] bt_wf_distinct[OF key_statuses_wf]
  by (auto simp: member_statuses_def)

definition settled_observed :: observed where
  "settled_observed =
     (observed_with_frozen [])\<lparr>ob_desired := pi_desired settled_input,
        ob_observations := pi_observations settled_input\<rparr>"

theorem status_mounted_iff_witness:
  "{m \<in> set (member_statuses settled_observed \<lparr>plan_steps = [], plan_findings = []\<rparr> example_state True).
      mb_state m = MS_Mounted} \<noteq> {}"
proof -
  have input: "plan_input_of settled_observed example_state = settled_input"
    by (simp add: plan_input_of_def settled_observed_def settled_input_def observed_with_frozen_def)
  have p: "make_plan settled_input = Some \<lparr>plan_steps = [], plan_findings = []\<rparr>" by code_simp
  let ?d = "hd (pi_desired settled_input)"
  have d: "?d \<in> set (ob_desired settled_observed)"
    by (simp add: settled_observed_def settled_input_def)
  have w: "winner settled_input (dm_target ?d) = Some ?d" by code_simp
  have r: "state_get example_state (dm_key ?d) = Some example_record" by code_simp
  have s: "settled settled_input ?d example_record" by code_simp
  have "{m \<in> set (member_statuses settled_observed \<lparr>plan_steps = [], plan_findings = []\<rparr>
        example_state True). mb_state m = MS_Mounted} =
     desired_entry ` {d \<in> set (ob_desired settled_observed).
       winner settled_input (dm_target d) = Some d
       \<and> (\<exists>r. state_get example_state (dm_key d) = Some r \<and> settled settled_input d r)}"
    by (rule status_mounted_iff[where out = settled_observed and s = example_state, unfolded input,
          THEN conjunct1, OF _ p])
      (simp_all add: example_state_def state_wf_def bt_wf_def settled_observed_def
        settled_input_def observed_with_frozen_def)
  then show ?thesis using d w r s by auto
qed

end
