(* ===== verification/Tool.thy ===== *)
theory Tool
  imports Messages Report
begin

text \<open>
  \<open>src/src/bin/byssus.rs\<close>: the commands of the command line tool, from the configuration to
  the report that is printed and the exit code.  Parsing the command line, printing and the
  JSON form of the reports are libraries'.
\<close>

section \<open>Results\<close>

datatype exit_code = Exit_Success | Exit_Failure

definition exit_for :: "level \<Rightarrow> exit_code" where
  "exit_for l = (if l = L_Error then Exit_Failure else Exit_Success)"

text \<open>The system; the umask is set for a pass.\<close>

record ('w, 'fd, 'v) tool =
  to_system :: "('w, 'fd, 'v) system"
  to_umask :: "nat \<Rightarrow> 'w \<Rightarrow> 'w"

abbreviation to_kernel :: "('w, 'fd, 'v) tool \<Rightarrow> ('w, 'fd) kernel" where
  "to_kernel T \<equiv> sy_kernel (to_system T)"

text \<open>What a command fails with: an error of startup, perhaps in a context, or of saving.\<close>

datatype tool_error =
    Tool_App app_error
  | Tool_Context string app_error
  | Tool_Save io_error

definition show_tool_error :: "('w, 'fd, 'v) system \<Rightarrow> tool_error \<Rightarrow> string" where
  "show_tool_error S e =
     (case e of
        Tool_App er \<Rightarrow> show_app_error S er
      | Tool_Context context er \<Rightarrow> join_with '': '' (context # error_chain S er)
      | Tool_Save er \<Rightarrow> ''cannot write state file: '' @ show_io_error (sy_kernel S) er)"

type_synonym ('w, 'r) command = "'w \<Rightarrow> ((tool_error + 'r \<times> exit_code) \<times> 'w) option"

definition ROOT_WITHOUT_USER_WARNING :: string where
  "ROOT_WITHOUT_USER_WARNING =
     ''checks ran as root because daemon.user is not set, so access problems for the daemon''
     @ [CHR 0x27] @ ''s service user (for example an unreadable membership or source directory) ''
     @ ''are not detected; set daemon.user = '' @ [CHR 0x22] @ ''byssus'' @ [CHR 0x22]
     @ '' in the main configuration''"

section \<open>What the commands share\<close>

fun degraded_subject :: "subject \<Rightarrow> degraded \<Rightarrow> degraded" where
  "degraded_subject (Subject_Group g) deg = deg\<lparr>dg_groups := bs_insert g (dg_groups deg)\<rparr>"
| "degraded_subject (Subject_Set st) deg = deg\<lparr>dg_sets := bs_insert st (dg_sets deg)\<rparr>"

definition degraded_from :: "open_group_error list \<Rightarrow> degraded" where
  "degraded_from errors = fold (\<lambda>e. degraded_subject (og_subject e)) errors default_degraded"

text \<open>The state, whether ownership is known, notes, and the path of the state file.\<close>

definition load_state_read_only ::
  "('w, 'fd, 'v) tool \<Rightarrow> config \<Rightarrow> 'w \<Rightarrow> (state \<times> bool \<times> string list \<times> string) \<times> 'w" where
  "load_state_read_only T cfg w =
     (let S = to_system T; K = sy_kernel S;
          dir = show_abs_path (dc_state_dir (cfg_daemon cfg));
          path = path_join dir STATE_FILE_NAME in
      (case store_open K dir w of
         (Inl e, w) \<Rightarrow>
           ((state_default, False,
             [''cannot open state directory '' @ dir @ '': '' @ show_io_error K e
              @ (if permission_denied e
                 then '' (join the byssus group or run as root to read state)'' else [])], path), w)
       | (Inr store, w) \<Rightarrow>
           (case load_read_only K (sy_json S) (sy_strftime S) store w of
              (Inr (Loaded s), w) \<Rightarrow> ((s, True, [], path), w)
            | (Inr Missing, w) \<Rightarrow> ((state_default, True, [''no state file yet''], path), w)
            | (Inr (Corrupt why _), w) \<Rightarrow>
                ((state_default, False, [''state file is corrupt: '' @ show_malformed (sy_escape_debug S) why], path), w)
            | (Inl e, w) \<Rightarrow>
                ((state_default, False,
                  [case e of
                     LE_Io _ src \<Rightarrow>
                       if permission_denied src
                       then ''cannot read state file: '' @ show_io_error K src
                         @ '' (join the byssus group or run as root)''
                       else show_load_error S e
                   | _ \<Rightarrow> show_load_error S e], path), w))))"

text \<open>A report observes once, without following the runtime with watches.\<close>

definition observe_once ::
  "('w, 'fd, 'v) tool \<Rightarrow> state \<Rightarrow> degraded \<Rightarrow> bool \<Rightarrow> ('w, 'fd) open_state
     \<Rightarrow> (observed \<times> plan \<times> ('w, 'fd) open_state) option" where
  "observe_once T s deg unique opened =
     (case discover_and_observe (to_kernel T) s deg unique (\<lambda>rt c w. (c, w))
             \<lparr>h_runtime = fst opened, h_env = snd opened, h_caller = ()\<rparr> of
        None \<Rightarrow> None
      | Some (out, h) \<Rightarrow>
          map_option (\<lambda>p. (out, p, h_runtime h, h_env h)) (make_plan (plan_input_of out s)))"

section \<open>byssus status\<close>

text \<open>The user access is checked as, or a note why the current user is.\<close>

definition status_user ::
  "('w, 'fd, 'v) tool \<Rightarrow> config \<Rightarrow> 'w \<Rightarrow> (tool_error + nat option \<times> string list) \<times> 'w" where
  "status_user T cfg w =
     (case drop_to_service_user (to_system T) (dc_user (cfg_daemon cfg)) w of
        (Inr p, w) \<Rightarrow>
          (Inr (Some (unat (pp_uid p)),
                if pp_uid p = 0 then [ROOT_WITHOUT_USER_WARNING] else []), w)
      | (Inl e, w) \<Rightarrow>
          bindE (mapErrE (Tool_Context ''cannot drop capabilities'') (drop_to_service_user (to_system T) None))
            (\<lambda>_. retE (None, [show_app_error (to_system T) e @ ''; showing access as the current user''])) w)"

definition open_failure :: "('w, 'fd) kernel \<Rightarrow> open_group_error \<Rightarrow> string \<times> string" where
  "open_failure K e =
     (case og_subject e of Subject_Group g \<Rightarrow> show_group_id g | Subject_Set st \<Rightarrow> set_label st,
      ''cannot open '' @ og_field e @ '' '' @ show_abs_path (og_path e) @ '': ''
      @ show_io_error K (og_source e))"

fun unavailable_note :: "obs_note \<Rightarrow> (string \<times> string) option" where
  "unavailable_note (SetRootDeleted st) = Some (set_label st, ''membership root has been deleted'')"
| "unavailable_note (SetRootUnreadable st er) =
     Some (set_label st, ''membership root unreadable: '' @ er)"
| "unavailable_note (MembershipDeleted g) =
     Some (show_group_id g, ''membership directory has been deleted'')"
| "unavailable_note (MembershipUnreadable g er) =
     Some (show_group_id g, ''membership directory unreadable: '' @ er)"
| "unavailable_note _ = None"

definition tool_status ::
  "('w, 'fd, 'v) tool \<Rightarrow> config_source \<Rightarrow> ('w, status_report) command" where
  "tool_status T src w =
     (case load_config (to_system T) src Warn w of
        (Inl e, w) \<Rightarrow> Some (Inl (Tool_App e), w)
      | (Inr ld, w) \<Rightarrow>
          let cfg = ld_config ld in
          (case status_user T cfg w of
             (Inl e, w) \<Rightarrow> Some (Inl e, w)
           | (Inr (uid, user_notes), w) \<Rightarrow>
               (case load_state_read_only T cfg w of ((s, known, state_notes, path), w) \<Rightarrow>
               (case runtime_open_lenient (to_kernel T) cfg w of (errors, rt, e) \<Rightarrow>
               (case on_world (probe_kernel (sy_probe (to_system T))) e of (features, e) \<Rightarrow>
               (case observe_once T s (degraded_from errors) (unique_mount_ids features) (rt, e) of
                  None \<Rightarrow> None
                | Some (out, p, rt, e) \<Rightarrow>
                    let report =
                      \<lparr>sp_state_file = path, sp_ownership_known = known, sp_checked_as_uid = uid,
                       sp_notes = user_notes @ state_notes,
                       sp_unavailable =
                         bt_extend (List.map_filter unavailable_note (ob_notes out))
                           (bt_extend (map (open_failure (to_kernel T)) errors) []),
                       sp_ignored =
                         bt_extend (map (\<lambda>(g, ns). (show_group_id g, length ns)) (ob_ignored out)) [],
                       sp_members = member_statuses out p s known\<rparr>
                    in Some (Inr (report, exit_for (status_level report)), e_world e)))))))"

section \<open>byssus dry-run\<close>

definition new_check :: "string \<Rightarrow> level \<Rightarrow> string \<Rightarrow> check" where
  "new_check n l d = \<lparr>ck_name = n, ck_level = l, ck_detail = d\<rparr>"

definition level_of :: "severity \<Rightarrow> level" where
  "level_of s = (case s of Error \<Rightarrow> L_Error | Warning \<Rightarrow> L_Warn)"

definition issue_check :: "('w, 'fd, 'v) tool \<Rightarrow> string \<Rightarrow> issue \<Rightarrow> check" where
  "issue_check T n i = new_check n (level_of (is_severity i)) (show_issue (to_system T) i)"

definition feature_check ::
  "('w, 'fd, 'v) tool \<Rightarrow> bool \<Rightarrow> string \<times> feature \<Rightarrow> 'w \<Rightarrow> check \<times> 'w" where
  "feature_check T needed nf w =
     (case nf of (n, f) \<Rightarrow>
        let n = ''kernel.'' @ n in
        if is_available f then (new_check n L_Ok [], w)
        else if needed then
          (case seccomp_filter_active (sy_probe (to_system T)) w of
             (filtered, w) \<Rightarrow>
               (new_check n L_Error (''unavailable: '' @ missing_features_hint filtered), w))
        else (new_check n L_Ok ''not supported; reusable mount IDs plus device and inode are used'', w))"

fun feature_checks ::
  "('w, 'fd, 'v) tool \<Rightarrow> (string \<times> feature) list \<Rightarrow> 'w \<Rightarrow> check list \<times> 'w" where
  "feature_checks T [] w = ([], w)"
| "feature_checks T (nf # nfs) w =
     (case feature_check T True nf w of
        (c, w) \<Rightarrow> (case feature_checks T nfs w of (cs, w) \<Rightarrow> (c # cs, w)))"

definition config_checks :: "('w, 'fd, 'v) tool \<Rightarrow> loaded \<Rightarrow> check list" where
  "config_checks T ld =
     (let cfg = ld_config ld in
      if ld_warnings ld = [] then
        [new_check ''config'' L_Ok
           (show_nat (length (cfg_files cfg)) @ '' file(s), '' @ show_nat (length (cfg_groups cfg))
            @ '' group(s), '' @ show_nat (length (cfg_group_sets cfg)) @ '' group set(s)'')]
      else map (\<lambda>i. new_check ''config'' L_Warn (show_issue (to_system T) i)) (ld_warnings ld))"

definition privileges_check ::
  "('w, 'fd, 'v) tool \<Rightarrow> config \<Rightarrow> 'w \<Rightarrow> (tool_error + check) \<times> 'w" where
  "privileges_check T cfg w =
     (case drop_to_service_user (to_system T) (dc_user (cfg_daemon cfg)) w of
        (Inr p, w) \<Rightarrow>
          (Inr (if pp_uid p = 0 then new_check ''privileges'' L_Warn ROOT_WITHOUT_USER_WARNING
                else new_check ''privileges'' L_Ok
                       (''checks run as uid '' @ show_nat (unat (pp_uid p))
                        @ '' with no capabilities'')), w)
      | (Inl e, w) \<Rightarrow>
          bindE (mapErrE (Tool_Context ''cannot drop capabilities'') (drop_to_service_user (to_system T) None))
            (\<lambda>_. retE (new_check ''privileges'' L_Error (show_app_error (to_system T) e))) w)"

definition procfs_check :: "('w, 'fd, 'v) tool \<Rightarrow> 'w \<Rightarrow> check \<times> 'w" where
  "procfs_check T w =
     (case verify_procfs (to_kernel T) (sy_probe (to_system T)) ''/proc'' w of
        (Inr _, w) \<Rightarrow> (new_check ''procfs'' L_Ok ''/proc'', w)
      | (Inl e, w) \<Rightarrow> (new_check ''procfs'' L_Error (show_io_error (to_kernel T) e), w))"

definition path_checks :: "('w, 'fd, 'v) tool \<Rightarrow> config \<Rightarrow> 'w \<Rightarrow> check list \<times> 'w" where
  "path_checks T cfg w =
     (case check_paths (sy_files (to_system T)) cfg w of
        (is, w) \<Rightarrow>
          (if is = [] then [new_check ''config.paths'' L_Ok []]
           else map (issue_check T ''config.paths'') is, w))"

definition state_check :: "state \<Rightarrow> bool \<Rightarrow> string list \<Rightarrow> string \<Rightarrow> check" where
  "state_check s known ns path =
     new_check ''state'' (if known then L_Ok else L_Warn)
       (if ns = [] then path @ '' ('' @ show_nat (state_len s) @ '' record(s))''
        else path @ '': '' @ join_with ''; '' ns)"

text \<open>Failures to open: a group's goes to its summary, a set's is a check.\<close>

fun add_open_failure ::
  "('w, 'fd) kernel \<Rightarrow> open_group_error \<Rightarrow> (group_id, group_extra) btree \<times> check list
     \<Rightarrow> (group_id, group_extra) btree \<times> check list" where
  "add_open_failure K e (extra, checks) =
     (case og_subject e of
        Subject_Group g \<Rightarrow>
          (bt_insert g (''unknown'', L_Error, [show_open_group_error K e]) extra, checks)
      | Subject_Set st \<Rightarrow>
          (extra, checks @ [new_check (''group_set.'' @ as_str st) L_Error (show_open_group_error K e)]))"

fun propagation_level :: "propagation_check \<Rightarrow> level" where
  "propagation_level PC_Shared = L_Ok"
| "propagation_level PC_Private = L_Warn"
| "propagation_level PC_Unbindable = L_Warn"
| "propagation_level (PC_Unknown _) = L_Warn"
| "propagation_level PC_SlaveOnly = L_Error"
| "propagation_level PC_SharedAndSlave = L_Error"

fun propagation_levels ::
  "('w, 'fd, 'v) system \<Rightarrow> mount_table \<Rightarrow> (string \<times> abs_path) list
     \<Rightarrow> (string, string \<times> level) btree \<Rightarrow> ('w, 'fd) env
     \<Rightarrow> (string, string \<times> level) btree \<times> ('w, 'fd) env" where
  "propagation_levels S table [] m e = (m, e)"
| "propagation_levels S table ((label, target_root) # ts) m e =
     (case check_target S table target_root e of
        (c, e) \<Rightarrow>
          propagation_levels S table ts
            (bt_insert label (describe_propagation c, propagation_level c) m) e)"

definition set_check ::
  "'fd runtime \<Rightarrow> observed \<Rightarrow> (string, string \<times> level) btree \<Rightarrow> 'fd set_runtime \<Rightarrow> check" where
  "set_check rt out props st =
     (let cfg = sr_config st;
          (description, l) =
            (case bt_get props (set_label (sc_name cfg)) of Some dl \<Rightarrow> dl | None \<Rightarrow> (''unknown'', L_Warn))
      in new_check (''group_set.'' @ as_str (sc_name cfg))
           (if sc_name cfg \<in> set (ob_scanned_sets out) then max l L_Ok else L_Error)
           (''membership_root '' @ show_abs_path (sc_membership_root cfg) @ ''; ''
            @ show_nat (length (filter (\<lambda>g. gid_set g = Some (sc_name cfg)) (bt_keys (rt_groups rt))))
            @ '' group(s); propagation '' @ description))"

definition group_propagation ::
  "(string, string \<times> level) btree \<Rightarrow> group_id \<Rightarrow> (group_id, group_extra) btree
     \<Rightarrow> (group_id, group_extra) btree" where
  "group_propagation props g extra =
     (case bt_get props (case gid_set g of None \<Rightarrow> show_group_id g | Some st \<Rightarrow> set_label st) of
        None \<Rightarrow> extra
      | Some (description, l) \<Rightarrow>
          if bt_contains extra g then extra else bt_insert g (description, l, []) extra)"

definition reported_groups :: "config \<Rightarrow> 'fd runtime \<Rightarrow> (group_id \<times> string) list" where
  "reported_groups cfg rt =
     map (\<lambda>g. (gc_name g, show_abs_path (gc_membership g)))
       (bt_values (cfg_groups cfg)
        @ filter (\<lambda>g. gid_set (gc_name g) \<noteq> None) (map gr_config (bt_values (rt_groups rt))))"

text \<open>From the opened runtime on: propagation, observation and the plan.\<close>

definition dry_run_opened ::
  "('w, 'fd, 'v) tool \<Rightarrow> config \<Rightarrow> kernel_features \<Rightarrow> state \<Rightarrow> bool \<Rightarrow> check list
     \<Rightarrow> open_group_error list \<Rightarrow> ('w, 'fd) open_state
     \<Rightarrow> ((tool_error + dry_run_report \<times> exit_code) \<times> 'w) option" where
  "dry_run_opened T cfg features s known checks errors opened =
     (case opened of (rt, e) \<Rightarrow>
      case fold (add_open_failure (to_kernel T)) errors ([], checks) of (extra, checks) \<Rightarrow>
      (case on_world (read_mount_table (to_system T)) e of
         (Inl er, e) \<Rightarrow> Some (Inl (Tool_App (App_Mountinfo er)), e_world e)
       | (Inr table, e) \<Rightarrow>
           (case propagation_levels (to_system T) table (propagation_targets rt) [] e of (props, e) \<Rightarrow>
           (case observe_once T s (degraded_from errors) (unique_mount_ids features) (rt, e) of
              None \<Rightarrow> None
            | Some (out, p, rt, e) \<Rightarrow>
                let checks = checks @ map (set_check rt out props) (bt_values (rt_sets rt));
                    extra = fold (group_propagation props) (bt_keys (rt_groups rt)) extra;
                    members = member_statuses out p s known;
                    report =
                      \<lparr>dr_checks = checks,
                       dr_groups = group_reports (reported_groups cfg rt) out p members extra,
                       dr_members = members\<rparr>
                in Some (Inr (report, exit_for (dry_run_level report)), e_world e)))))"

definition tool_dry_run ::
  "('w, 'fd, 'v) tool \<Rightarrow> config_source \<Rightarrow> ('w, dry_run_report) command" where
  "tool_dry_run T src w =
     (let S = to_system T in
      case load (sy_files S) (sy_toml S) (source_options src Warn) w of
        (Inl is, w) \<Rightarrow>
          Some (Inr (\<lparr>dr_checks = map (issue_check T ''config'') is, dr_groups = [], dr_members = []\<rparr>,
                     Exit_Failure), w)
      | (Inr ld, w) \<Rightarrow>
          let cfg = ld_config ld in
          (case privileges_check T cfg w of
             (Inl e, w) \<Rightarrow> Some (Inl e, w)
           | (Inr priv, w) \<Rightarrow>
               (case probe_kernel (sy_probe S) w of (features, w) \<Rightarrow>
                case feature_checks T (required features) w of (needed, w) \<Rightarrow>
                case feature_check T False (''statx_mnt_id_unique'', kf_statx_mnt_id_unique features) w of
                  (unique, w) \<Rightarrow>
                case procfs_check T w of (procfs, w) \<Rightarrow>
                case path_checks T cfg w of (paths, w) \<Rightarrow>
                case load_state_read_only T cfg w of ((s, known, ns, path), w) \<Rightarrow>
                case runtime_open_lenient (to_kernel T) cfg w of (errors, opened) \<Rightarrow>
                  dry_run_opened T cfg features s known
                    (config_checks T ld @ [priv] @ needed @ [unique, procfs] @ paths
                     @ [state_check s known ns path])
                    errors opened)))"

section \<open>byssus reconcile\<close>

text \<open>The pass, what it reports, and the state saved whatever happened.\<close>

definition reconcile_once ::
  "('w, 'fd, 'v) tool \<Rightarrow> config_source \<Rightarrow> string option \<Rightarrow> bool \<Rightarrow> bool \<Rightarrow> ('w, pass) command" where
  "reconcile_once T src user_arg allow_root allow_slave w =
     (let S = to_system T; K = sy_kernel S in
      case bindE (load_config S src Enforce) (\<lambda>ld w.
             let cfg = ld_config ld;
                 user = (case user_arg of Some u \<Rightarrow> Some u | None \<Rightarrow> dc_user (cfg_daemon cfg)) in
             bindE (normalize_privileges S KeepSysAdmin user allow_root) (\<lambda>_.
             bindE (check_environment S) (\<lambda>environment.
             bindE (verify_config_paths S cfg) (\<lambda>_.
             bindE (open_state_for_write S cfg) (\<lambda>wr.
             bindE (mapErrE App_Open (\<lambda>w. case runtime_open K cfg w of
                      (Inl er, s) \<Rightarrow> (Inl er, e_world (snd s))
                    | (Inr _, s) \<Rightarrow> (Inr s, e_world (snd s)))) (\<lambda>(rt, e) w.
               case check_target_propagation S allow_slave (rt, e\<lparr>e_world := w\<rparr>) of
                 (Inl er, s) \<Rightarrow> (Inl er, e_world (snd s))
               | (Inr _, s) \<Rightarrow> (Inr (environment, wr, s), e_world (snd s))))))) (to_umask T 18 w)) w of
        (Inl e, w) \<Rightarrow> Some (Inl (Tool_App e), w)
      | (Inr (environment, wr, (rt, e)), w) \<Rightarrow>
          (case run_pass K (save K (sy_json S) (wr_store wr)) default_degraded
                  (unique_mount_ids (en_features environment)) (\<lambda>rt c w. (c, w))
                  \<lparr>rc_host = \<lparr>h_runtime = rt, h_env = e\<lparr>e_world := w\<rparr>, h_caller = ()\<rparr>,
                   rc_state = wr_state wr, rc_notes = []\<rparr> of
             None \<Rightarrow> None
           | Some (ps, events, rc) \<Rightarrow>
               (case save K (sy_json S) (wr_store wr) (rc_state rc) (e_world (h_env (rc_host rc))) of
                  (Inl er, w) \<Rightarrow> Some (Inl (Tool_Save er), w)
                | (Inr _, w) \<Rightarrow>
                    Some (Inr (ps, if failures (ps_execution ps) = 0 then Exit_Success
                                   else Exit_Failure), w))))"

section \<open>byssus check\<close>

record check_report =
  cr_valid :: bool
  cr_checked_as_uid :: "nat option"
  cr_files :: "string list"
  cr_groups :: "string list"
  cr_errors :: "string list"
  cr_warnings :: "string list"

definition check_report_text :: "check_report \<Rightarrow> string" where
  "check_report_text r =
     (let entries = (\<lambda>label xs. concat (map (\<lambda>x. label @ x @ [NEWLINE]) xs)) in
      entries ''file: '' (cr_files r) @ entries ''group: '' (cr_groups r)
      @ entries ''warning: '' (cr_warnings r) @ entries ''error: '' (cr_errors r)
      @ ''result: ''
      @ (if cr_valid r then ''valid (a reload would accept this configuration)''
         else ''invalid (a reload would keep the previous configuration)'') @ [NEWLINE])"

definition add_error :: "string \<Rightarrow> check_report \<Rightarrow> check_report" where
  "add_error m r = r\<lparr>cr_errors := cr_errors r @ [m]\<rparr>"

definition add_warning :: "string \<Rightarrow> check_report \<Rightarrow> check_report" where
  "add_warning m r = r\<lparr>cr_warnings := cr_warnings r @ [m]\<rparr>"

definition add_issue :: "('w, 'fd, 'v) tool \<Rightarrow> issue \<Rightarrow> check_report \<Rightarrow> check_report" where
  "add_issue T i = (if is_severity i = Error then add_error else add_warning) (show_issue (to_system T) i)"

fun report_note :: "obs_note \<Rightarrow> check_report \<Rightarrow> check_report" where
  "report_note (SetRootDeleted st) =
     add_error (''group set '' @ quoted (as_str st) @ '': membership root has been deleted'')"
| "report_note (SetRootUnreadable st er) =
     add_error (''group set '' @ quoted (as_str st) @ '': cannot read membership root: '' @ er)"
| "report_note (MembershipUnreadable g er) =
     add_warning (''group '' @ quoted (show_group_id g) @ '': cannot open membership directory: '' @ er)"
| "report_note (SetEntryRejected st rej) =
     add_warning (''group set '' @ quoted (as_str st) @ '': entry '' @ quoted (display_name rej)
       @ '' rejected: '' @ show_reject_reason (reason rej))"
| "report_note _ = (\<lambda>r. r)"

definition report_discovery :: "obs_note list \<Rightarrow> check_report \<Rightarrow> check_report" where
  "report_discovery ns = fold report_note ns"

definition finish_check :: "check_report \<Rightarrow> check_report \<times> exit_code" where
  "finish_check r =
     (r\<lparr>cr_valid := cr_errors r = []\<rparr>,
      if cr_errors r = [] then Exit_Success else Exit_Failure)"

definition propagation_result ::
  "bool \<Rightarrow> string \<Rightarrow> abs_path \<Rightarrow> propagation_check \<Rightarrow> check_report \<Rightarrow> check_report" where
  "propagation_result allow_slave label target_root c =
     (let m = ''group '' @ quoted label @ '': target root '' @ show_abs_path target_root @ '' is ''
              @ describe_propagation c in
      if c = PC_Shared then (\<lambda>r. r)
      else if is_slave c \<and> \<not> allow_slave then add_error m else add_warning m)"

fun report_propagation ::
  "('w, 'fd, 'v) system \<Rightarrow> bool \<Rightarrow> mount_table \<Rightarrow> (string \<times> abs_path) list \<Rightarrow> check_report
     \<Rightarrow> ('w, 'fd) env \<Rightarrow> check_report \<times> ('w, 'fd) env" where
  "report_propagation S allow_slave table [] r e = (r, e)"
| "report_propagation S allow_slave table ((label, target_root) # ts) r e =
     (case check_target S table target_root e of
        (c, e) \<Rightarrow>
          report_propagation S allow_slave table ts
            (propagation_result allow_slave label target_root c r) e)"

text \<open>The watcher, the membership roots and the propagation of an opened runtime.\<close>

definition watch_result :: "('w, 'fd, 'v) tool \<Rightarrow> 'fd runtime \<Rightarrow> check_report \<Rightarrow> 'w \<Rightarrow> check_report \<times> 'w" where
  "watch_result T rt r w =
     (case watcher_new (sy_inotify (to_system T)) rt w of
        (Inl er, w) \<Rightarrow> (add_error (show_watch_error (to_kernel T) er) r, w)
      | (Inr _, w) \<Rightarrow> (r, w))"

definition check_opened ::
  "('w, 'fd, 'v) tool \<Rightarrow> bool \<Rightarrow> check_report \<Rightarrow> ('w, 'fd) open_state
     \<Rightarrow> ((tool_error + check_report \<times> exit_code) \<times> 'w) option" where
  "check_opened T allow_slave r opened =
     (case opened of (rt, e) \<Rightarrow>
      case on_world (watch_result T rt r) e of (r, e) \<Rightarrow>
      (case discover (to_kernel T) [] rt (e_world e) of
         None \<Rightarrow> None
       | Some ((rt, d), w) \<Rightarrow>
           let r = report_discovery (dy_notes d) r; e = e\<lparr>e_world := w\<rparr> in
           (case on_world (read_mount_table (to_system T)) e of
              (Inl er, e) \<Rightarrow> Some (Inl (Tool_App (App_Mountinfo er)), e_world e)
            | (Inr table, e) \<Rightarrow>
                (case report_propagation (to_system T) allow_slave table (propagation_targets rt) r e of
                   (r, e) \<Rightarrow> Some (Inr (finish_check r), e_world e)))))"

definition checked_config :: "('w, 'fd, 'v) tool \<Rightarrow> loaded \<Rightarrow> check_report" where
  "checked_config T ld =
     (let cfg = ld_config ld in
      \<lparr>cr_valid = False, cr_checked_as_uid = None, cr_files = map utf8_lossy (cfg_files cfg),
       cr_groups = map as_str (bt_keys (cfg_groups cfg)) @ map set_label (bt_keys (cfg_group_sets cfg)),
       cr_errors = [], cr_warnings = map (show_issue (to_system T)) (ld_warnings ld)\<rparr>)"

definition checked_as :: "privilege_plan \<Rightarrow> check_report \<Rightarrow> check_report" where
  "checked_as p r =
     (let r = r\<lparr>cr_checked_as_uid := Some (unat (pp_uid p))\<rparr> in
      if pp_uid p = 0 then add_warning ROOT_WITHOUT_USER_WARNING r else r)"

definition tool_check ::
  "('w, 'fd, 'v) tool \<Rightarrow> config_source \<Rightarrow> fragment_changes \<Rightarrow> bool \<Rightarrow> ('w, check_report) command" where
  "tool_check T src changes allow_slave w =
     (let S = to_system T in
      case load (sy_files S) (sy_toml S) ((source_options src Enforce)\<lparr>lo_changes := changes\<rparr>) w of
        (Inl is, w) \<Rightarrow>
          Some (Inr (finish_check (fold (add_issue T) is
                  \<lparr>cr_valid = False, cr_checked_as_uid = None, cr_files = [], cr_groups = [],
                   cr_errors = [], cr_warnings = []\<rparr>)), w)
      | (Inr ld, w) \<Rightarrow>
          let cfg = ld_config ld in
          (case drop_to_service_user S (dc_user (cfg_daemon cfg)) w of
             (Inl e, w) \<Rightarrow> Some (Inl (Tool_Context ''cannot drop privileges for checking'' e), w)
           | (Inr p, w) \<Rightarrow>
               (case check_paths (sy_files S) cfg w of
                  (is, w) \<Rightarrow>
                    let r = fold (add_issue T) is (checked_as p (checked_config T ld)) in
                    if cr_errors r \<noteq> [] then Some (Inr (finish_check r), w)
                    else
                      (case runtime_open (sy_kernel S) cfg w of
                         (Inl er, opened) \<Rightarrow>
                           Some (Inr (finish_check (add_error (show_open_group_error (sy_kernel S) er) r)),
                                 e_world (snd opened))
                       | (Inr _, opened) \<Rightarrow> check_opened T allow_slave r opened))))"

end
