(* ===== verification/Tool_Props.thy ===== *)
theory Tool_Props
  imports Tool Daemon_Claims
begin

text \<open>
  What the answers of the command line tool mean: a configuration that \<open>byssus check\<close> calls
  valid is one that a reload accepts.
\<close>

section \<open>The same answers\<close>

text \<open>A call that gives the same answer in every world.\<close>

definition steady :: "('w \<Rightarrow> 'a \<times> 'w) \<Rightarrow> bool" where
  "steady m \<longleftrightarrow> (\<forall>w w'. fst (m w) = fst (m w'))"

lemma steadyE:
  assumes "steady m" "m w = (x, w1)"
  obtains w2 where "m v = (x, w2)"
proof -
  have "fst (m v) = x" using assms unfolding steady_def by (metis fst_conv)
  then show thesis by (intro that[of "snd (m v)"]) auto
qed

definition open_answer ::
  "('w, 'fd) kernel \<Rightarrow> config \<Rightarrow> 'w
     \<Rightarrow> ((open_group_error + unit) \<times> 'fd runtime \<times> (abs_path, 'fd) btree) \<times> 'w" where
  "open_answer K cfg w = (case runtime_open K cfg w of (r, rt, e) \<Rightarrow> ((r, rt, e_roots e), e_world e))"

definition watch_answer :: "('w, 'fd) inotify \<Rightarrow> 'fd runtime \<Rightarrow> 'w \<Rightarrow> bool \<times> 'w" where
  "watch_answer N rt w = (case watcher_new N rt w of (r, w) \<Rightarrow> (\<exists>wt. r = Inr wt, w))"

text \<open>Nothing that the check and the reload look at changes between them: the configuration
  files, the directories, the mount table, and whether the directories can be watched.\<close>

definition unchanged :: "('w, 'fd, 'v) system \<Rightarrow> config_source \<Rightarrow> bool" where
  "unchanged S src \<longleftrightarrow>
     steady (load (sy_files S) (sy_toml S) (source_options src Enforce))
     \<and> (\<forall>path. steady (open_root (sy_kernel S) path))
     \<and> (\<forall>table fd. steady (check_propagation (sy_kernel S) table fd))
     \<and> steady (read_mount_table S)
     \<and> (\<forall>w ld w'. load (sy_files S) (sy_toml S) (source_options src Enforce) w = (Inr ld, w') \<longrightarrow>
          steady (check_paths (sy_files S) (ld_config ld))
          \<and> steady (open_answer (sy_kernel S) (ld_config ld))
          \<and> (\<forall>v opened. runtime_open (sy_kernel S) (ld_config ld) v = (Inr (), opened) \<longrightarrow>
               steady (watch_answer (sy_inotify S) (fst opened))))"

section \<open>The errors of a check\<close>

lemma errors_add [simp]:
  "cr_errors (add_error m r) = cr_errors r @ [m]" "cr_errors (add_warning m r) = cr_errors r"
  by (simp_all add: add_error_def add_warning_def)

lemma errors_issues:
  "cr_errors (fold (add_issue T) is r) = cr_errors r @ map (show_issue (to_system T)) (filter is_error is)"
  by (induction "is" arbitrary: r) (auto simp: add_issue_def is_error_def)

lemma errors_note: "cr_errors (report_note nt r) = [] \<Longrightarrow> cr_errors r = []"
  by (cases nt) auto

lemma errors_discovery: "cr_errors (report_discovery ns r) = [] \<Longrightarrow> cr_errors r = []"
  unfolding report_discovery_def
proof (induction ns arbitrary: r)
  case (Cons nt ns)
  from Cons.IH[of "report_note nt r"] Cons.prems errors_note[of nt r] show ?case by simp
qed simp

lemma errors_result:
  "cr_errors (propagation_result allow label root c r) = [] \<longleftrightarrow>
     cr_errors r = [] \<and> (is_slave c \<longrightarrow> allow)"
  by (auto simp: propagation_result_def Let_def is_slave_def)

lemma errors_watch: "watch_result T rt r w = (r', w') \<Longrightarrow> cr_errors r' = [] \<Longrightarrow>
    cr_errors r = [] \<and> (\<exists>wt. watcher_new (sy_inotify (to_system T)) rt w = (Inr wt, w'))"
  by (auto simp: watch_result_def split: prod.splits sum.splits)

section \<open>Propagation\<close>

lemma steady_check_target:
  assumes "unchanged S src" "e_roots e1 = e_roots e2" "check_target S table root e1 = (c, f1)"
  obtains f2 where "check_target S table root e2 = (c, f2)" "e_roots f1 = e_roots f2"
proof (cases "bt_get (e_roots e1) root")
  case None
  obtain x w1 where o1: "open_root (sy_kernel S) (show_abs_path root) (e_world e1) = (x, w1)" by fastforce
  have "steady (open_root (sy_kernel S) (show_abs_path root))" using assms(1) by (simp add: unchanged_def)
  then obtain w2 where o2: "open_root (sy_kernel S) (show_abs_path root) (e_world e2) = (x, w2)"
    using o1 by (rule steadyE)
  show thesis
  proof (cases x)
    case (Inl er)
    with None assms o1 o2 show thesis
      by (intro that[of "e2\<lparr>e_world := w2\<rparr>"]) (auto simp: check_target_def roots_get_def)
  next
    case (Inr fd)
    obtain c' v1 where p1: "check_propagation (sy_kernel S) table fd w1 = (c', v1)" by fastforce
    have "steady (check_propagation (sy_kernel S) table fd)" using assms(1) by (simp add: unchanged_def)
    then obtain v2 where p2: "check_propagation (sy_kernel S) table fd w2 = (c', v2)"
      using p1 by (rule steadyE)
    show thesis
      using None Inr assms o1 o2 p1 p2
      by (intro that[of "e2\<lparr>e_roots := bt_insert root fd (e_roots e2), e_world := v2\<rparr>"])
        (auto simp: check_target_def roots_get_def on_world_def)
  qed
next
  case (Some fd)
  obtain c' v1 where p1: "check_propagation (sy_kernel S) table fd (e_world e1) = (c', v1)" by fastforce
  have "steady (check_propagation (sy_kernel S) table fd)" using assms(1) by (simp add: unchanged_def)
  then obtain v2 where p2: "check_propagation (sy_kernel S) table fd (e_world e2) = (c', v2)"
    using p1 by (rule steadyE)
  show thesis
    using Some assms p1 p2
    by (intro that[of "e2\<lparr>e_world := v2\<rparr>"]) (auto simp: check_target_def roots_get_def on_world_def)
qed

lemma errors_propagation:
  assumes "report_propagation S allow table ts r e1 = (r', e1')" "cr_errors r' = []"
    "unchanged S src" "e_roots e1 = e_roots e2"
  shows "cr_errors r = [] \<and> (\<not> allow \<longrightarrow> snd (fst (check_targets S table ts (res, sl) e2)) = sl)"
  using assms
proof (induction ts arbitrary: r e1 e2 res sl)
  case (Cons t ts)
  obtain label root where t: "t = (label, root)" by (cases t)
  obtain c f1 where c1: "check_target S table root e1 = (c, f1)" by fastforce
  obtain f2 where c2: "check_target S table root e2 = (c, f2)" and f: "e_roots f1 = e_roots f2"
    using steady_check_target[OF Cons.prems(3,4) c1] by blast
  have "report_propagation S allow table ts (propagation_result allow label root c r) f1 = (r', e1')"
    using Cons.prems(1) by (simp add: t c1)
  note IH = Cons.IH[OF this Cons.prems(2,3) f]
  have ok: "cr_errors r = [] \<and> (is_slave c \<longrightarrow> allow)" using IH errors_result by blast
  have "check_targets S table (t # ts) (res, sl) e2 = check_targets S table ts
      (bt_insert label c res, if is_slave c then sl @ [label] else sl) f2"
    by (simp add: t c2)
  with IH ok show ?case by auto
qed auto

lemma errors_grow:
  "report_propagation S allow table ts r e = (r', e') \<Longrightarrow> cr_errors r' = [] \<Longrightarrow> cr_errors r = []"
proof (induction S allow table ts r e rule: report_propagation.induct)
  case (2 S allow table label root ts r e)
  obtain c f where c: "check_target S table root e = (c, f)" by fastforce
  from "2.IH"[OF c[symmetric]] "2.prems" c errors_result show ?case by simp
qed simp

lemma static_groups:
  assumes "runtime_ok rt"
  shows "filter (\<lambda>g. gid_set (gc_name (gr_config g)) = None) (bt_values (rt_groups rt))
    = bt_values (bt_retain (\<lambda>gid _. gid_set gid = None) (rt_groups rt))"
proof -
  have "filter (\<lambda>g. gid_set (gc_name (gr_config g)) = None) (map snd m)
      = map snd (filter (\<lambda>(k, v). gid_set k = None) m)"
    if "\<forall>(gid, g)\<in>set m. gc_name (gr_config g) = gid" for m :: "(group_id \<times> 'a group_runtime) list"
    using that by (induction m) auto
  then show ?thesis using assms by (force simp: runtime_ok_def bt_values_def bt_retain_def)
qed

lemma discovered_targets:
  assumes "runtime_ok rt" "discovery_ok rt (rt', d)"
  shows "propagation_targets rt' = propagation_targets rt"
proof -
  have ok: "runtime_ok rt'" "rt_sets rt' = rt_sets rt"
    "\<forall>gid. gid_set gid = None \<longrightarrow> bt_get (rt_groups rt') gid = bt_get (rt_groups rt) gid"
    using assms(2) by (auto simp: discovery_ok_def)
  have get: "bt_get (bt_retain (\<lambda>gid _. gid_set gid = None) m) gid
      = (if gid_set gid = None then bt_get m gid else None)" for m :: "(group_id, 'a group_runtime) btree" and gid
    unfolding bt_get_def bt_retain_def by (induction m) auto
  have "bt_retain (\<lambda>gid _. gid_set gid = None) (rt_groups rt')
      = bt_retain (\<lambda>gid _. gid_set gid = None) (rt_groups rt)"
    using assms(1) ok by (intro bt_ext bt_wf_retain) (auto simp: runtime_ok_def get)
  then show ?thesis
    unfolding propagation_targets_def static_groups[OF assms(1)] static_groups[OF ok(1)] ok(2) by simp
qed

section \<open>A valid check\<close>

lemma load_Inl: "load F toml lo w = (Inl is, w') \<Longrightarrow> filter is_error is \<noteq> []"
  by (auto simp: load_def Let_def has_errors_def is_error_def filter_empty_conv list_ex_iff split: prod.splits if_splits)

lemma finish_success: "finish_check r = (r', Exit_Success) \<Longrightarrow> cr_errors r = []"
  by (auto simp: finish_check_def split: if_splits)

text \<open>The part of a check after the configuration was opened, when it finds nothing wrong.\<close>

definition opened_well ::
  "('w, 'fd, 'v) tool \<Rightarrow> bool \<Rightarrow> ('w, 'fd) open_state \<Rightarrow> bool" where
  "opened_well T allow opened \<longleftrightarrow>
     (\<exists>v v' wt. watcher_new (sy_inotify (to_system T)) (fst opened) v = (Inr wt, v'))
     \<and> (\<exists>v v' rt' d table v2 v3 r0 r1 f.
          discover (to_kernel T) [] (fst opened) v = Some ((rt', d), v')
          \<and> read_mount_table (to_system T) v2 = (Inr table, v3)
          \<and> report_propagation (to_system T) allow table (propagation_targets rt') r0
              ((snd opened)\<lparr>e_world := v3\<rparr>) = (r1, f) \<and> cr_errors r1 = [])"

lemma check_opened_success:
  assumes "check_opened T allow r0 opened = Some (Inr (r, Exit_Success), w')"
  shows "opened_well T allow opened"
proof -
  obtain rt e where o: "opened = (rt, e)" by fastforce
  obtain r1 w1 where wr: "watch_result T rt r0 (e_world e) = (r1, w1)" by fastforce
  obtain rt' d w2 where d: "discover (to_kernel T) [] rt w1 = Some ((rt', d), w2)"
    using assms o wr by (auto simp: check_opened_def on_world_def split: option.splits)
  let ?r2 = "report_discovery (dy_notes d) r1"
  obtain table w3 where t: "read_mount_table (to_system T) w2 = (Inr table, w3)"
    using assms o wr d
    by (auto simp: check_opened_def on_world_def Let_def split: prod.splits sum.splits)
  obtain r3 f where p: "report_propagation (to_system T) allow table (propagation_targets rt') ?r2
      (e\<lparr>e_world := w3\<rparr>) = (r3, f)" by fastforce
  have "finish_check r3 = (r, Exit_Success)"
    using assms o wr d t p by (simp add: check_opened_def on_world_def Let_def)
  then have errs: "cr_errors r3 = []" by (rule finish_success)
  have "cr_errors ?r2 = []" using errors_grow[OF p errs] .
  then have "cr_errors r1 = []" by (rule errors_discovery)
  with errors_watch[OF wr] obtain wt where "watcher_new (sy_inotify (to_system T)) rt (e_world e) = (Inr wt, w1)"
    by blast
  with d t p errs show ?thesis unfolding opened_well_def o fst_conv snd_conv by blast
qed

lemma tool_check_stages:
  assumes "tool_check T src changes allow w = Some (Inr (r, Exit_Success), w')"
  shows "\<exists>ld w1 p w2 is w3 opened.
    load (sy_files (to_system T)) (sy_toml (to_system T))
      ((source_options src Enforce)\<lparr>lo_changes := changes\<rparr>) w = (Inr ld, w1)
    \<and> drop_to_service_user (to_system T) (dc_user (cfg_daemon (ld_config ld))) w1 = (Inr p, w2)
    \<and> check_paths (sy_files (to_system T)) (ld_config ld) w2 = (is, w3) \<and> filter is_error is = []
    \<and> runtime_open (to_kernel T) (ld_config ld) w3 = (Inr (), opened) \<and> opened_well T allow opened"
proof -
  let ?S = "to_system T"
  obtain x w1 where l: "load (sy_files ?S) (sy_toml ?S)
      ((source_options src Enforce)\<lparr>lo_changes := changes\<rparr>) w = (x, w1)" by fastforce
  show ?thesis
  proof (cases x)
    case (Inl "is")
    with load_Inl l have e: "filter is_error is \<noteq> []" by metis
    let ?r = "fold (add_issue T) is \<lparr>cr_valid = False, cr_checked_as_uid = None, cr_files = [],
        cr_groups = [], cr_errors = [], cr_warnings = []\<rparr>"
    have "finish_check ?r = (r, Exit_Success)"
      using assms by (simp add: tool_check_def Let_def l Inl)
    from finish_success[OF this] e show ?thesis by (simp add: errors_issues)
  next
    case (Inr ld)
    let ?cfg = "ld_config ld"
    obtain y w2 where dr: "drop_to_service_user ?S (dc_user (cfg_daemon ?cfg)) w1 = (y, w2)" by fastforce
    obtain p where y: "y = Inr p"
      using assms by (cases y) (simp_all add: tool_check_def Let_def l Inr dr)
    obtain "is" w3 where ps: "check_paths (sy_files ?S) ?cfg w2 = (is, w3)" by fastforce
    let ?r = "fold (add_issue T) is (checked_as p (checked_config T ld))"
    have run: "(if cr_errors ?r \<noteq> [] then Some (Inr (finish_check ?r), w3)
        else (case runtime_open (sy_kernel ?S) ?cfg w3 of
           (Inl er, opened) \<Rightarrow>
             Some (Inr (finish_check (add_error (show_open_group_error (sy_kernel ?S) er) ?r)),
                   e_world (snd opened))
         | (Inr _, opened) \<Rightarrow> check_opened T allow ?r opened)) = Some (Inr (r, Exit_Success), w')"
      using assms by (simp add: tool_check_def Let_def l Inr dr y ps)
    have e: "cr_errors ?r = []"
    proof (rule ccontr)
      assume "cr_errors ?r \<noteq> []"
      with run have "finish_check ?r = (r, Exit_Success)" by simp
      from finish_success[OF this] \<open>cr_errors ?r \<noteq> []\<close> show False by simp
    qed
    obtain z opened where o: "runtime_open (sy_kernel ?S) ?cfg w3 = (z, opened)"
      by (cases "runtime_open (sy_kernel ?S) ?cfg w3") blast
    have "z = Inr () \<and> check_opened T allow ?r opened = Some (Inr (r, Exit_Success), w')"
    proof (cases z)
      case (Inl er)
      with run e o have "finish_check (add_error (show_open_group_error (sy_kernel ?S) er) ?r)
          = (r, Exit_Success)" by simp
      from finish_success[OF this] show ?thesis by simp
    qed (use run e o in simp)
    then have z: "z = Inr ()"
      and co: "check_opened T allow ?r opened = Some (Inr (r, Exit_Success), w')" by simp_all
    have "opened_well T allow opened" by (rule check_opened_success[OF co])
    moreover have "filter is_error is = []" using e by (simp add: errors_issues)
    ultimately show ?thesis using l Inr dr y ps o z by blast
  qed
qed

section \<open>The reload\<close>

lemma unchanged_opened:
  assumes "steady (open_answer (sy_kernel S) cfg)" "runtime_open (sy_kernel S) cfg w = (Inr (), (rt, e))"
  obtains e' where "runtime_open (sy_kernel S) cfg v = (Inr (), (rt, e'))" "e_roots e' = e_roots e"
proof -
  have "open_answer (sy_kernel S) cfg w = ((Inr (), rt, e_roots e), e_world e)"
    by (simp add: open_answer_def assms(2))
  with assms(1) obtain w2 where "open_answer (sy_kernel S) cfg v = ((Inr (), rt, e_roots e), w2)"
    by (metis steadyE)
  then show thesis by (auto simp: open_answer_def intro: that split: prod.splits)
qed

lemma reload_opens:
  assumes un: "unchanged (to_system T) src" "steady (open_answer (to_kernel T) cfg)" and ok: "config_ok cfg"
    and op: "runtime_open (to_kernel T) cfg w = (Inr (), opened)" and well: "opened_well T allow opened"
  shows "\<exists>opened' v'. open_checked (to_system T) allow cfg v = (Inr opened', v')
    \<and> fst opened' = fst opened"
proof -
  let ?S = "to_system T"
  obtain rt e where o: "opened = (rt, e)" by fastforce
  obtain w1 w1' rt' d table w2 w3 r0 r1 f where
    d: "discover (to_kernel T) [] rt w1 = Some ((rt', d), w1')"
    and t: "read_mount_table ?S w2 = (Inr table, w3)"
    and p: "report_propagation ?S allow table (propagation_targets rt') r0 (e\<lparr>e_world := w3\<rparr>) = (r1, f)"
      "cr_errors r1 = []"
    using well unfolding opened_well_def o by auto
  have rt: "runtime_ok rt" using runtime_open_ok[OF ok op[unfolded o]] .
  have "discovery_ok rt (rt', d)" using discover_ok[OF rt, of "to_kernel T" "[]" w1] d by auto
  note targets = discovered_targets[OF rt this]
  obtain e2 where o2: "runtime_open (to_kernel T) cfg v = (Inr (), (rt, e2))" "e_roots e2 = e_roots e"
    using unchanged_opened[OF un(2), of w rt e v] op o by blast
  have "steady (read_mount_table ?S)" using un(1) by (simp add: unchanged_def)
  then obtain v3 where t2: "read_mount_table ?S (e_world e2) = (Inr table, v3)" using t by (rule steadyE)
  obtain res sl e3 where ct: "check_targets ?S table (propagation_targets rt) ([], []) (e2\<lparr>e_world := v3\<rparr>)
      = ((res, sl), e3)" by (metis prod.collapse)
  have "\<not> allow \<longrightarrow> sl = []"
    using errors_propagation[OF p(1)[unfolded targets] p(2) un(1), of "e2\<lparr>e_world := v3\<rparr>" "[]" "[]"] o2(2) ct
    by simp
  then show ?thesis
    using o2 t2 ct o
    by (auto simp: open_checked_def check_target_propagation_def on_world_def split: prod.splits)
qed

lemma tool_check_valid:
  assumes "tool_check T src changes allow w = Some (Inr (r, Exit_Success), w')"
  shows "cr_valid r \<and> cr_errors r = []"
proof -
  have fin: "cr_valid r1 \<and> cr_errors r1 = []" if "finish_check r0 = (r1, Exit_Success)" for r0 r1
    using that by (auto simp: finish_check_def split: if_splits)
  have opened: "cr_valid r \<and> cr_errors r = []"
    if "check_opened T allow r0 opened = Some (Inr (r, Exit_Success), w')" for r0 opened
    using that fin by (auto simp: check_opened_def Let_def split: prod.splits option.splits sum.splits)
  from assms show ?thesis
    unfolding tool_check_def Let_def
    by (auto split: prod.splits sum.splits if_splits dest: fin opened)
qed

lemma check_reloads:
  assumes chk: "tool_check T src \<lparr>fc_add = [], fc_remove = []\<rparr> allow w = Some (Inr (r, Exit_Success), w')"
    and un: "unchanged (to_system T) src"
    and D: "dk_system D = to_system T" "op_config (dm_options d) = src"
      "op_allow_slave (dm_options d) = allow"
  shows "\<exists>ld. (\<forall>v. \<exists>v'. load_config (to_system T) src Enforce v = (Inr ld, v'))
    \<and> (dc_state_dir (cfg_daemon (ld_config ld)) = dc_state_dir (cfg_daemon (dm_config d)) \<longrightarrow>
         (\<forall>v. \<exists>opened wt v'. prepare_reload D d v = (Inr (ld_config ld, opened, wt), v')))"
proof -
  let ?S = "to_system T"
  have src: "(source_options src Enforce)\<lparr>lo_changes := \<lparr>fc_add = [], fc_remove = []\<rparr>\<rparr>
      = source_options src Enforce"
    by (simp add: source_options_def)
  obtain ld w1 w2 "is" w3 opened where
    l: "load (sy_files ?S) (sy_toml ?S) (source_options src Enforce) w = (Inr ld, w1)"
    and ps: "check_paths (sy_files ?S) (ld_config ld) w2 = (is, w3)" "filter is_error is = []"
    and op: "runtime_open (to_kernel T) (ld_config ld) w3 = (Inr (), opened)" "opened_well T allow opened"
    using tool_check_stages[OF chk] unfolding src by blast
  have st: "steady (load (sy_files ?S) (sy_toml ?S) (source_options src Enforce))"
    "steady (check_paths (sy_files ?S) (ld_config ld))"
    "steady (open_answer (to_kernel T) (ld_config ld))"
    "steady (watch_answer (sy_inotify ?S) (fst opened))"
    using un l op(1) unfolding unchanged_def by blast+
  have load: "\<exists>v'. load_config ?S src Enforce v = (Inr ld, v')" for v
    using steadyE[OF st(1) l, of v] by (metis load_config_def mapErrE_Inr_iff)
  have ok: "config_ok (ld_config ld)" using load[of w] by (elim exE) (rule load_config_ok)
  have paths: "\<exists>v'. verify_config_paths ?S (ld_config ld) v = (Inr (), v')" for v
    using steadyE[OF st(2) ps(1), of v] ps(2) by (fastforce simp: verify_config_paths_def)
  obtain v0 v0' wt0 where "watcher_new (sy_inotify ?S) (fst opened) v0 = (Inr wt0, v0')"
    using op(2) unfolding opened_well_def by blast
  then have "watch_answer (sy_inotify ?S) (fst opened) v0 = (True, v0')" by (simp add: watch_answer_def)
  then have watch: "\<exists>wt v'. watcher_new (sy_inotify ?S) (fst opened) v = (Inr wt, v')" for v
    using steadyE[OF st(4), of v0 True v0' v] by (fastforce simp: watch_answer_def split: prod.splits)
  have "\<exists>op2 wt v'. prepare_reload D d v = (Inr (ld_config ld, op2, wt), v')"
    if dir: "dc_state_dir (cfg_daemon (ld_config ld)) = dc_state_dir (cfg_daemon (dm_config d))" for v
  proof -
    obtain v1 where 1: "load_config ?S src Enforce v = (Inr ld, v1)" using load by blast
    obtain v2 where 2: "verify_config_paths ?S (ld_config ld) v1 = (Inr (), v2)" using paths by blast
    obtain op2 v3 where 3: "open_checked ?S allow (ld_config ld) v2 = (Inr op2, v3)" "fst op2 = fst opened"
      using reload_opens[OF un st(3) ok op, of v2] by blast
    obtain wt v4 where 4: "watcher_new (sy_inotify ?S) (fst op2) v3 = (Inr wt, v4)"
      using watch 3(2) by metis
    show ?thesis
      using 1 2 3(1) 4 D dir
      by (simp add: prepare_reload_def Let_def bindE_def mapErrE_def retE_def)
  qed
  with load show ?thesis by blast
qed


section \<open>A witness\<close>

definition example_tool :: "(process_state, nat, state_document) tool" where
  "example_tool =
     \<lparr>to_system = example_system, to_umask = \<lambda>_ w. w\<rparr>"

lemma example_tool_system [simp]: "to_system example_tool = example_system"
  by (simp add: example_tool_def)

abbreviation example_source :: config_source where
  "example_source \<equiv> op_config example_options"

lemma tool_example_load:
  "load (sy_files example_system) (sy_toml example_system) (source_options example_source Enforce) w
     = (Inr \<lparr>ld_config = no_config, ld_warnings = warn None None Msg_NoFiles []\<rparr>, w)"
  using example_config[of w] by (simp add: load_config_def)

lemma example_check_paths: "check_paths (sy_files example_system) no_config w = ([], w)"
  by (simp add: check_paths_def check_paths_exist_def no_config_empty
      bt_values_def check_dir_def on_files_def example_system_def no_files_def Let_def)

lemma example_runtime_open:
  "runtime_open (sy_kernel example_system) no_config w = (Inr (), default_runtime, \<lparr>e_roots = [], e_world = w\<rparr>)"
  by (simp add: runtime_open_def no_config_empty bt_values_def bindE_def retE_def)

lemma example_mounts: "read_mount_table example_system w = (Inr [], w)"
proof -
  have "parse_table [] = Inr []" by (simp add: parse_table_def)
  then show ?thesis
    by (simp add: read_mount_table_def bindE_def mapErrE_def liftE_def example_system_def example_probe_def)
qed

lemma example_watcher:
  "watcher_new (sy_inotify example_system) default_runtime w
     = (Inr \<lparr>wt_fd = 5, wt_watches = [], wt_set_groups = []\<rparr>, w)"
  by (simp add: watcher_new_def sync_def current_dirs_def default_runtime_def bt_keys_def bt_extend_def
      bindE_def mapErrE_def retE_def Let_def example_system_def example_inotify_def)

lemma example_unchanged: "unchanged example_system example_source"
proof -
  have "steady (open_root (sy_kernel example_system) path)" for path
    by (simp add: steady_def open_root_def osE_def mapErrE_def example_system_def example_kernel_def)
  moreover have "steady (check_propagation (sy_kernel example_system) table fd)" for table fd
    by (simp add: steady_def check_propagation_def example_system_def example_kernel_def status_kernel_def)
  ultimately show ?thesis
    by (auto simp: unchanged_def steady_def tool_example_load example_mounts example_check_paths open_answer_def
        example_runtime_open watch_answer_def example_watcher)
qed

lemma example_check:
  "\<exists>r w'. tool_check example_tool example_source \<lparr>fc_add = [], fc_remove = []\<rparr> False service_process
     = Some (Inr (r, Exit_Success), w')"
proof -
  have src: "(source_options example_source Enforce)\<lparr>lo_changes := \<lparr>fc_add = [], fc_remove = []\<rparr>\<rparr>
      = source_options example_source Enforce"
    by (simp add: source_options_def)
  obtain p w where dr: "drop_to_service_user example_system None service_process = (Inr p, w)"
    using example_normalize[of DropAll True] unfolding drop_to_service_user_def by blast
  have dis: "discover K [] default_runtime w = Some ((default_runtime, default_discovery), w)" for K w
    by (simp add: discover_def default_runtime_def bt_retain_def)
  have tgt: "propagation_targets default_runtime = []"
    by (simp add: propagation_targets_def default_runtime_def bt_values_def)
  have no: "dy_notes default_discovery = []" by (simp add: default_discovery_def)
  have wr: "watch_result example_tool default_runtime r w = (r, w)" for r w
    by (simp add: watch_result_def example_watcher)
  have opened: "\<exists>r' w'. check_opened example_tool False r (default_runtime, e) = Some (Inr (r', Exit_Success), w')"
    if "cr_errors r = []" for r e
    using that
    by (simp add: check_opened_def on_world_def dis tgt no wr example_mounts report_discovery_def finish_check_def)
  have "cr_errors (checked_as p (checked_config example_tool ld)) = []" for ld
    by (simp add: checked_as_def checked_config_def Let_def)
  with opened dr show ?thesis
    by (simp add: tool_check_def Let_def src tool_example_load no_config_empty default_daemon_def
        example_check_paths example_runtime_open)
qed


end
