(* ===== verification/Reads_Only.thy ===== *)
theory Reads_Only
  imports Tool
begin

text \<open>
  Code that only looks.  A view is any function of the world (the mounts, the names and
  contents of files, or both); an operation keeps a view when the view is the same in the
  world it leaves.  Every operation below is built from calls that look, so it keeps every
  view that those calls keep.
\<close>

section \<open>Keeping a view\<close>

definition looks :: "('s \<Rightarrow> 'x) \<Rightarrow> ('s \<Rightarrow> 'r \<times> 's) \<Rightarrow> bool" where
  "looks v m \<longleftrightarrow> (\<forall>s r s'. m s = (r, s') \<longrightarrow> v s' = v s)"

text \<open>For code that may panic or not return.\<close>

definition looks_if_returns :: "('s \<Rightarrow> 'x) \<Rightarrow> ('s \<Rightarrow> ('r \<times> 's) option) \<Rightarrow> bool" where
  "looks_if_returns v m \<longleftrightarrow> (\<forall>s r s'. m s = Some (r, s') \<longrightarrow> v s' = v s)"

named_theorems keeping "how operations that keep a view compose"

lemma looksD: "looks v m \<Longrightarrow> m s = (r, s') \<Longrightarrow> v s' = v s"
  by (simp add: looks_def)

lemma looks_if_returnsD: "looks_if_returns v m \<Longrightarrow> m s = Some (r, s') \<Longrightarrow> v s' = v s"
  by (simp add: looks_if_returns_def)

lemma looks_value [keeping]: "looks v (\<lambda>s. (x, s))"
  by (simp add: looks_def)

lemma looks_retE [keeping]: "looks v (retE x)" "looks v (failE e)" "looks v (liftE r)"
  by (simp_all add: looks_def retE_def failE_def liftE_def)

lemma looks_then [keeping]:
  "looks v m \<Longrightarrow> (\<And>r. looks v (k r)) \<Longrightarrow> looks v (\<lambda>s. case m s of (r, s') \<Rightarrow> k r s')"
  by (fastforce simp: looks_def split: prod.splits)

lemma looks_bindE [keeping]:
  "looks v m \<Longrightarrow> (\<And>x. looks v (f x)) \<Longrightarrow> looks v (bindE m f)"
  by (fastforce simp: looks_def bindE_def split: prod.splits sum.splits)

lemma looks_mapErrE [keeping]: "looks v m \<Longrightarrow> looks v (mapErrE f m)" "looks v n \<Longrightarrow> looks v (osE n)"
  by (auto simp: looks_def mapErrE_def osE_def split: prod.splits)

lemma looks_sum [keeping]:
  "(\<And>e. looks v (f e)) \<Longrightarrow> (\<And>x. looks v (g x)) \<Longrightarrow>
     looks v (\<lambda>s. case r of Inl e \<Rightarrow> f e s | Inr x \<Rightarrow> g x s)"
  by (cases r) simp_all

lemma looks_option [keeping]:
  "looks v f \<Longrightarrow> (\<And>x. looks v (g x)) \<Longrightarrow> looks v (\<lambda>s. case r of None \<Rightarrow> f s | Some x \<Rightarrow> g x s)"
  by (cases r) simp_all

lemma looks_pair [keeping]:
  "(\<And>a b. looks v (f a b)) \<Longrightarrow> looks v (\<lambda>s. case r of (a, b) \<Rightarrow> f a b s)"
  by (cases r) simp

lemma looks_If [keeping]: "looks v f \<Longrightarrow> looks v g \<Longrightarrow> looks v (\<lambda>s. if b then f s else g s)"
  by (cases b) simp_all

lemma looks_cases:
  "(\<And>x. looks v (f x)) \<Longrightarrow> looks v g \<Longrightarrow> looks v (case r of None \<Rightarrow> g | Some x \<Rightarrow> f x)"
  "looks v g \<Longrightarrow> looks v h \<Longrightarrow> looks v (if b then g else h)"
  "(\<And>x y. looks v (p x y)) \<Longrightarrow> looks v (case q of (x, y) \<Rightarrow> p x y)"
  "looks v g \<Longrightarrow> (\<And>x xs. looks v (l x xs)) \<Longrightarrow> looks v (case ys of [] \<Rightarrow> g | x # xs \<Rightarrow> l x xs)"
  by ((cases r; simp), simp, (cases q; simp), (cases ys; simp))

lemmas [keeping] = looks_cases

section \<open>Calls that look\<close>

definition looking_flags :: "oflag list \<Rightarrow> bool" where
  "looking_flags fl \<longleftrightarrow> set fl \<inter> {O_WRONLY, O_RDWR, O_CREATE, O_TRUNC} = {}"

definition looking_kernel :: "('w \<Rightarrow> 'x) \<Rightarrow> ('w, 'fd) kernel \<Rightarrow> bool" where
  "looking_kernel v K \<longleftrightarrow>
     (\<forall>path fl. looking_flags fl \<longrightarrow> looks v (k_open K path fl))
     \<and> (\<forall>d path fl mode. looking_flags fl \<longrightarrow> looks v (k_openat K d path fl mode))
     \<and> (\<forall>d path fl how. looking_flags fl \<longrightarrow> looks v (k_openat2 K d path fl how))
     \<and> (\<forall>d path fl bits. looks v (k_statx K d path fl bits))
     \<and> (\<forall>d. looks v (k_fstatvfs K d)) \<and> (\<forall>d. looks v (k_read_dir K d))
     \<and> (\<forall>d. looks v (k_read_to_end K d))"

definition looking_files :: "('w \<Rightarrow> 'x) \<Rightarrow> ('w, 'fd) host_files \<Rightarrow> bool" where
  "looking_files v F \<longleftrightarrow>
     (\<forall>path. looks v (hf_canonicalize F path)) \<and> (\<forall>path. looks v (hf_open_dir F path))
     \<and> (\<forall>d path. looks v (hf_open_file F d path)) \<and> (\<forall>fd. looks v (hf_fstat F fd))
     \<and> (\<forall>path. looks v (hf_stat F path)) \<and> (\<forall>fd. looks v (hf_read F fd))
     \<and> (\<forall>path. looks v (hf_list_dir F path))"

text \<open>The probes are calls with arguments that make them fail; inotify watches and credentials
  are the process's own.\<close>

definition looking_probes :: "('w \<Rightarrow> 'x) \<Rightarrow> ('w, 'fd) probe_calls \<Rightarrow> bool" where
  "looking_probes v P \<longleftrightarrow>
     looks v (pc_open_tree P) \<and> looks v (pc_move_mount P) \<and> looks v (pc_openat2 P)
     \<and> looks v (pc_mount_setattr P) \<and> (\<forall>path bits. looks v (pc_statx P path bits))
     \<and> (\<forall>fd. looks v (pc_fs_type P fd)) \<and> (\<forall>path. looks v (pc_read P path))"

definition own_inotify :: "('w \<Rightarrow> 'x) \<Rightarrow> ('w, 'fd) inotify \<Rightarrow> bool" where
  "own_inotify v N \<longleftrightarrow>
     looks v (in_init N) \<and> (\<forall>fd path bits. looks v (in_add N fd path bits))
     \<and> (\<forall>fd d. looks v (in_remove N fd d))"

definition own_creds :: "('w \<Rightarrow> 'x) \<Rightarrow> 'w creds \<Rightarrow> bool" where
  "own_creds v C \<longleftrightarrow>
     looks v (c_capabilities C) \<and> looks v (c_getresuid C) \<and> looks v (c_getresgid C)
     \<and> looks v (c_getgroups C) \<and> (\<forall>n. looks v (c_in_bounding C n)) \<and> (\<forall>n. looks v (c_in_ambient C n))
     \<and> looks v (c_no_new_privs C) \<and> looks v (c_secure_bits C) \<and> looks v (c_clear_ambient C)
     \<and> (\<forall>s. looks v (c_set_caps C s)) \<and> (\<forall>n. looks v (c_drop_bounding C n))
     \<and> (\<forall>n. looks v (c_set_secure_bits C n)) \<and> (\<forall>b. looks v (c_set_keep_caps C b))
     \<and> (\<forall>gs. looks v (c_set_groups C gs)) \<and> (\<forall>g. looks v (c_set_res_gid C g))
     \<and> (\<forall>u. looks v (c_set_res_uid C u)) \<and> looks v (c_set_no_new_privs C)"

definition looking_system :: "('w \<Rightarrow> 'x) \<Rightarrow> ('w, 'fd, 'v) system \<Rightarrow> bool" where
  "looking_system v S \<longleftrightarrow>
     looking_kernel v (sy_kernel S) \<and> looking_files v (sy_files S) \<and> looking_probes v (sy_probe S)
     \<and> own_inotify v (sy_inotify S) \<and> own_creds v (sy_creds S)"

lemma looking_systemD [keeping]:
  "looking_system v S \<Longrightarrow> looking_kernel v (sy_kernel S)"
  "looking_system v S \<Longrightarrow> looking_files v (sy_files S)"
  "looking_system v S \<Longrightarrow> looking_probes v (sy_probe S)"
  "looking_system v S \<Longrightarrow> own_inotify v (sy_inotify S)"
  "looking_system v S \<Longrightarrow> own_creds v (sy_creds S)"
  by (simp_all add: looking_system_def)

lemma looking_kernelD [keeping]:
  assumes "looking_kernel v K"
  shows "looking_flags fl \<Longrightarrow> looks v (k_open K path fl)"
    "looking_flags fl \<Longrightarrow> looks v (k_openat K d path fl mode)"
    "looking_flags fl \<Longrightarrow> looks v (k_openat2 K d path fl how)"
    "looks v (k_statx K d path how_at bits)" "looks v (k_fstatvfs K d)" "looks v (k_read_dir K d)"
    "looks v (k_read_to_end K d)"
  using assms by (simp_all add: looking_kernel_def)

lemma looking_flags_used [keeping]:
  "looking_flags [O_PATH, O_DIRECTORY, O_CLOEXEC]" "looking_flags [O_RDONLY, O_DIRECTORY, O_CLOEXEC]"
  "looking_flags [O_PATH, O_DIRECTORY, O_CLOEXEC, O_NOFOLLOW]" "looking_flags [O_RDONLY, O_CLOEXEC]"
  "looking_flags [O_RDONLY, O_CLOEXEC, O_NOFOLLOW]"
  by (simp_all add: looking_flags_def)

section \<open>Lookups and scans\<close>

lemma looks_retry: "looks v opn \<Longrightarrow> looks v (retry_eagain_from n opn)"
proof -
  assume k: "looks v opn"
  have "v w' = v w" if "retry_eagain_from n opn w = (r, w')" for w r w'
    using k that
  proof (induction n opn w rule: retry_eagain_from.induct)
    case (1 n opn w)
    then show ?case
      unfolding retry_eagain_from.simps[of n opn w]
      by (auto dest: looksD split: prod.splits sum.splits if_splits)
  qed
  then show ?thesis by (simp add: looks_def)
qed

lemma looks_resolve_dir [keeping]: "looking_kernel v K \<Longrightarrow> looks v (resolve_dir K root path)"
  unfolding resolve_dir_def retry_eagain_def by (intro looks_retry keeping)

lemma looks_retry_eagain [keeping]: "looks v opn \<Longrightarrow> looks v (retry_eagain opn)"
  unfolding retry_eagain_def by (rule looks_retry)

lemma looks_open_root [keeping]:
  "looking_kernel v K \<Longrightarrow> looks v (open_root K path)"
  "looking_kernel v K \<Longrightarrow> looks v (open_dir_for_reading K path)"
  unfolding open_root_def open_dir_for_reading_def by (intro keeping; assumption)+

lemma looks_stats [keeping]:
  "looking_kernel v K \<Longrightarrow> looks v (fd_dev_ino K fd)"
  "looking_kernel v K \<Longrightarrow> looks v (is_deleted K fd)"
  unfolding fd_dev_ino_def is_deleted_def by (intro keeping; assumption)+

lemma looks_scan_entries: "looking_kernel v K \<Longrightarrow> looks v (scan_entries K dir es acc)"
proof (induction es arbitrary: acc)
  case (Cons e es)
  then show ?case by (cases e) (auto intro!: keeping)
qed (auto intro: keeping)

lemma looks_scan_membership [keeping]: "looking_kernel v K \<Longrightarrow> looks v (scan_membership K dir)"
  unfolding scan_membership_def by (intro keeping looks_scan_entries)

section \<open>Mounts\<close>

lemma looks_read_identity [keeping]: "looking_kernel v K \<Longrightarrow> looks v (read_identity K fd u)"
  unfolding read_identity_def by (intro keeping; assumption)

lemma looks_mount_stats [keeping]:
  "looking_kernel v K \<Longrightarrow> looks v (observe_attrs K fd)"
  "looking_kernel v K \<Longrightarrow> looks v (is_mount_root K fd)"
  unfolding observe_attrs_def is_mount_root_def by (intro keeping; assumption)+

lemma looks_inspect_fd [keeping]: "looking_kernel v K \<Longrightarrow> looks v (inspect_fd K fd u)"
  unfolding inspect_fd_def by (intro keeping; assumption)

lemma looks_inspect [keeping]: "looking_kernel v K \<Longrightarrow> looks v (inspect K root path u)"
  unfolding inspect_def by (intro keeping; assumption)

section \<open>The environment of a pass\<close>

text \<open>The views of an environment, and of a runtime being opened, are those of its world.\<close>

abbreviation in_env :: "('w \<Rightarrow> 'x) \<Rightarrow> ('w, 'fd) env \<Rightarrow> 'x" where
  "in_env v e \<equiv> v (e_world e)"

abbreviation in_opened :: "('w \<Rightarrow> 'x) \<Rightarrow> ('w, 'fd) open_state \<Rightarrow> 'x" where
  "in_opened v s \<equiv> v (e_world (snd s))"

lemma looks_on_world [keeping]: "looks v m \<Longrightarrow> looks (in_env v) (on_world m)"
  by (auto simp: looks_def on_world_def split: prod.splits)

lemma looks_roots_get [keeping]:
  assumes "looking_kernel v K"
  shows "looks (in_env v) (roots_get K root)"
  using looksD[OF looks_open_root(1)[OF assms]]
  by (fastforce simp: looks_def roots_get_def split: option.splits prod.splits sum.splits)

lemma looks_open_or [keeping]:
  "(\<And>path. looks v (opn path)) \<Longrightarrow> looks (in_opened v) (open_or subj field path opn)"
  by (fastforce simp: looks_def open_or_def on_world_def split: prod.splits sum.splits)

lemma looks_open_last:
  "looks (in_opened v) (\<lambda>s. case s of (rt, e) \<Rightarrow> (r, (f rt, roots_insert a b (roots_insert c d e))))"
  by (auto simp: looks_def roots_insert_def)

lemma looks_opens [keeping]:
  "looking_kernel v K \<Longrightarrow> looks (in_opened v) (open_group K g)"
  "looking_kernel v K \<Longrightarrow> looks (in_opened v) (open_set K sc)"
  unfolding open_group_def open_set_def Let_def by (intro keeping looks_open_last; assumption)+

lemma looks_each [keeping]:
  "(\<And>x. looks v (f x)) \<Longrightarrow> looks v (each_strict f xs)"
  "(\<And>x. looks v (g x)) \<Longrightarrow> looks v (each_lenient g xs)"
proof -
  show "(\<And>x. looks v (f x)) \<Longrightarrow> looks v (each_strict f xs)"
    by (induction xs) (auto intro: keeping)
  show "(\<And>x. looks v (g x)) \<Longrightarrow> looks v (each_lenient g xs)"
    by (induction xs) (fastforce simp: looks_def split: prod.splits sum.splits)+
qed

lemma runtime_open_keeps:
  assumes "looking_kernel v K" "runtime_open K cfg w = (r, s)"
  shows "in_opened v s = v w"
proof -
  have "looks (in_opened v) (bindE (each_strict (open_group K) (bt_values (cfg_groups cfg)))
      (\<lambda>_. each_strict (open_set K) (bt_values (cfg_group_sets cfg))))"
    by (intro keeping assms(1))
  from looksD[OF this assms(2)[unfolded runtime_open_def]] show ?thesis by simp
qed

lemma runtime_open_lenient_keeps:
  assumes "looking_kernel v K" "runtime_open_lenient K cfg w = (es, s)"
  shows "in_opened v s = v w"
proof -
  have "looks (in_opened v) (each_lenient (open_group K) (bt_values (cfg_groups cfg)))"
    "looks (in_opened v) (each_lenient (open_set K) (bt_values (cfg_group_sets cfg)))"
    by (intro keeping assms(1))+
  with assms(2) show ?thesis
    by (fastforce simp: runtime_open_lenient_def dest: looksD split: prod.splits)
qed

section \<open>Discovery and observation\<close>

lemma looks_classify_set_entry [keeping]: "looking_kernel v K \<Longrightarrow> looks v (classify_set_entry K dir n)"
  unfolding classify_set_entry_def by (intro keeping; assumption)

text \<open>Code that may panic composes in the same way.\<close>

lemma looks_opt_value [keeping]:
  "looks_if_returns v (\<lambda>s. None)" "looks_if_returns v (\<lambda>s. Some (x, s))"
  by (simp_all add: looks_if_returns_def)

lemma looks_opt_then [keeping]:
  "looks v m \<Longrightarrow> (\<And>r. looks_if_returns v (k r)) \<Longrightarrow>
     looks_if_returns v (\<lambda>s. case m s of (r, s') \<Rightarrow> k r s')"
  by (fastforce simp: looks_def looks_if_returns_def split: prod.splits)

lemma looks_opt_bind [keeping]:
  "looks_if_returns v p \<Longrightarrow> (\<And>r. looks_if_returns v (k r)) \<Longrightarrow>
     looks_if_returns v (\<lambda>s. case p s of None \<Rightarrow> None | Some (r, s') \<Rightarrow> k r s')"
  by (fastforce simp: looks_if_returns_def split: option.splits)

lemma looks_opt_map [keeping]:
  "looks_if_returns v p \<Longrightarrow> (\<And>r. looks v (\<lambda>s. k (r, s))) \<Longrightarrow> looks_if_returns v (\<lambda>s. map_option k (p s))"
  by (fastforce simp: looks_if_returns_def looks_def)

lemma looks_opt_pure [keeping]: "looks_if_returns v (\<lambda>s. map_option (\<lambda>x. (f x, s)) r)"
  by (auto simp: looks_if_returns_def)

lemma looks_opt_cases [keeping]:
  "(\<And>e. looks_if_returns v (f e)) \<Longrightarrow> (\<And>x. looks_if_returns v (g x)) \<Longrightarrow>
     looks_if_returns v (\<lambda>s. case r of Inl e \<Rightarrow> f e s | Inr x \<Rightarrow> g x s)"
  "looks_if_returns v h \<Longrightarrow> (\<And>x. looks_if_returns v (k x)) \<Longrightarrow>
     looks_if_returns v (\<lambda>s. case opt of None \<Rightarrow> h s | Some x \<Rightarrow> k x s)"
  "(\<And>x y. looks_if_returns v (p x y)) \<Longrightarrow> looks_if_returns v (\<lambda>s. case q of (x, y) \<Rightarrow> p x y s)"
  "looks_if_returns v h \<Longrightarrow> looks_if_returns v i \<Longrightarrow> looks_if_returns v (\<lambda>s. if b then h s else i s)"
  by ((cases r; simp), (cases opt; simp), (cases q; simp), (cases b; simp))

lemma looks_opt_ext: "(\<And>s. f s = g s) \<Longrightarrow> looks_if_returns v g \<Longrightarrow> looks_if_returns v f"
  by (simp add: looks_if_returns_def)

lemma scan_set_entries_looks:
  assumes K: "looking_kernel v K"
    and level: "\<And>dir pre scan. looks_if_returns v (scan_level n K st dir pre scan)"
  shows "looks_if_returns v (scan_set_entries n K st dir pre es scan)"
proof (induction es arbitrary: scan)
  case Nil
  then show ?case by (intro looks_opt_ext[OF scan_set_entries.simps(1)] keeping)
next
  case (Cons e es)
  show ?case
  proof (cases e)
    case (Inl er)
    then show ?thesis by (auto intro!: looks_opt_ext[OF scan_set_entries.simps(2)] keeping)
  next
    case (Inr bytes)
    show ?thesis
      unfolding Inr
      by (intro looks_opt_ext[OF scan_set_entries.simps(3)[unfolded Let_def]] keeping Cons level K)
  qed
qed

lemma scan_level_looks:
  assumes K: "looking_kernel v K"
  shows "looks_if_returns v (scan_level n K st dir pre scan)"
proof (induction n arbitrary: dir pre scan)
  case 0
  then show ?case by (intro looks_opt_ext[OF scan_level.simps(1)] keeping)
next
  case (Suc n)
  then show ?case
    by (intro looks_opt_ext[OF scan_level.simps(2)] keeping scan_set_entries_looks K)
qed

lemma looks_discover_set [keeping]:
  "looking_kernel v K \<Longrightarrow> looks_if_returns v (discover_set K st)"
  unfolding discover_set_def by (intro keeping scan_level_looks; assumption)

lemma looks_discover [keeping]:
  assumes "looking_kernel v K"
  shows "looks_if_returns v (discover K skip rt)"
proof -
  have "looks_if_returns v (discover_sets K skip sets rd)" for sets rd
  proof (induction sets arbitrary: rd)
    case (Cons s sets)
    obtain st x where s: "s = (st, x)" by fastforce
    show ?case
      unfolding s by (intro looks_opt_ext[OF discover_sets.simps(2)] keeping Cons assms)
  qed (intro looks_opt_ext[OF discover_sets.simps(1)] keeping)
  then show ?thesis unfolding discover_def Let_def by simp
qed

lemma looks_observe_group:
  "looking_kernel v K \<Longrightarrow> looks_if_returns v (observe_group K deg e out)"
  unfolding observe_group_def by (intro keeping; assumption)

lemma looks_observe_groups [keeping]:
  assumes "looking_kernel v K"
  shows "looks_if_returns v (observe_groups K deg es out)"
proof (induction es arbitrary: out)
  case (Cons e es)
  then show ?case
    by (intro looks_opt_ext[OF observe_groups.simps(2)] keeping looks_observe_group assms)
qed (intro looks_opt_ext[OF observe_groups.simps(1)] keeping)

lemma looks_observe_one [keeping]:
  "looking_kernel v K \<Longrightarrow> looks (in_env v) (observe_source K d)"
  "looking_kernel v K \<Longrightarrow> looks (in_env v) (observe_target K u l)"
  unfolding observe_source_def observe_target_def Let_def by (intro keeping; assumption)+

lemma looks_ext: "(\<And>s. f s = g s) \<Longrightarrow> looks v g \<Longrightarrow> looks v f"
  by (simp add: looks_def)

lemma looks_observe_loops [keeping]:
  assumes K: "looking_kernel v K"
  shows "looks (in_env v) (observe_sources K ds m)" "looks (in_env v) (observe_targets K u ls n)"
proof -
  show "looks (in_env v) (observe_sources K ds m)"
    by (induction ds arbitrary: m)
      (auto intro!: looks_ext[OF observe_sources.simps(1)] looks_ext[OF observe_sources.simps(2)] keeping K)
  show "looks (in_env v) (observe_targets K u ls n)"
    by (induction ls arbitrary: n)
      (auto intro!: looks_ext[OF observe_targets.simps(1)] looks_ext[OF observe_targets.simps(2)] keeping K)
qed

lemma looks_observe_kernel [keeping]:
  "looking_kernel v K \<Longrightarrow> looks (in_env v) (observe_kernel K s u out)"
  unfolding observe_kernel_def by (intro keeping; assumption)

lemma observe_keeps:
  assumes K: "looking_kernel v K" and "observe K rt s deg u e = Some (out, e')"
  shows "in_env v e' = in_env v e"
  using assms(2) looks_if_returnsD[OF looks_observe_groups[OF K]] looksD[OF looks_observe_kernel[OF K]]
  by (fastforce simp: observe_def split: option.splits)

lemma observe_once_keeps:
  assumes K: "looking_kernel v (to_kernel T)"
    and run: "observe_once T s deg u opened = Some (out, p, opened')"
  shows "in_opened v opened' = in_opened v opened"
proof -
  obtain rt d w out' where
    d: "discover (to_kernel T) (dg_sets deg) (fst opened) (e_world (snd opened)) = Some ((rt, d), w)"
    and o: "observe (to_kernel T) rt s (frozen_groups deg d s) u ((snd opened)\<lparr>e_world := w\<rparr>) = Some (out', snd opened')"
    using run
    by (fastforce simp: observe_once_def discover_and_observe_def run_after_def Let_def
        split: option.splits prod.splits)
  show ?thesis
    using observe_keeps[OF K o] looks_if_returnsD[OF looks_discover[OF K] d] by simp
qed

end
