(* ===== verification/Reads_Host.thy ===== *)
theory Reads_Host
  imports Reads_Only
begin

text \<open>
  The rest of the code that only looks: probing, credentials and users, the loading of the
  configuration, watches, the state file read without writing.
\<close>

section \<open>Probing\<close>

lemma looking_probesD [keeping]:
  assumes "looking_probes v P"
  shows "looks v (pc_open_tree P)" "looks v (pc_move_mount P)" "looks v (pc_openat2 P)"
    "looks v (pc_mount_setattr P)" "looks v (pc_statx P path bits)" "looks v (pc_fs_type P fd)"
    "looks v (pc_read P path)"
  using assms by (simp_all add: looking_probes_def)

lemma looks_probes [keeping]:
  "looking_probes v P \<Longrightarrow> looks v (probe_statx P)"
  "looking_probes v P \<Longrightarrow> looks v (seccomp_filter_active P)"
  "looking_probes v P \<Longrightarrow> looks v (check_procfs P fd)"
  unfolding probe_statx_def seccomp_filter_active_def check_procfs_def by (intro keeping; assumption)+

lemma looks_probe_kernel [keeping]: "looking_probes v P \<Longrightarrow> looks v (probe_kernel P)"
  unfolding probe_kernel_def by (intro keeping; assumption)

lemma looks_verify_procfs [keeping]:
  "looking_kernel v K \<Longrightarrow> looking_probes v P \<Longrightarrow> looks v (verify_procfs K P path)"
  unfolding verify_procfs_def by (intro keeping; assumption)

lemma looks_check_propagation [keeping]: "looking_kernel v K \<Longrightarrow> looks v (check_propagation K table fd)"
  unfolding check_propagation_def by (intro keeping; assumption)

section \<open>Credentials and users\<close>

lemma own_credsD [keeping]:
  assumes "own_creds v C"
  shows "looks v (c_capabilities C)" "looks v (c_getresuid C)" "looks v (c_getresgid C)"
    "looks v (c_getgroups C)" "looks v (c_in_bounding C n)" "looks v (c_in_ambient C n)"
    "looks v (c_no_new_privs C)" "looks v (c_secure_bits C)" "looks v (c_clear_ambient C)"
    "looks v (c_set_caps C sets)" "looks v (c_drop_bounding C n)" "looks v (c_set_secure_bits C bits)"
    "looks v (c_set_keep_caps C b)" "looks v (c_set_groups C gs)" "looks v (c_set_res_gid C g)"
    "looks v (c_set_res_uid C u)" "looks v (c_set_no_new_privs C)"
  using assms by (simp_all add: own_creds_def)

lemma looks_read_set [keeping]: "(\<And>n. looks v (f n)) \<Longrightarrow> looks v (read_set f)"
proof -
  assume f: "\<And>n. looks v (f n)"
  have "read_set_from f ns bits w = (r, w') \<Longrightarrow> v w' = v w" for ns bits w and r :: "io_error + u64" and w'
    by (induction ns arbitrary: bits w)
      (auto dest: looksD[OF f] split: prod.splits sum.splits bool.splits if_splits)
  then show ?thesis by (simp add: read_set_def looks_def)
qed

lemma looks_thread_count [keeping]: "looking_kernel v K \<Longrightarrow> looks v (thread_count K proc)"
  unfolding thread_count_def read_text_def by (intro keeping; assumption)

lemma looks_read_self [keeping]:
  "looking_kernel v K \<Longrightarrow> own_creds v C \<Longrightarrow> looks v (read_self K C proc)"
  unfolding read_self_def by (intro keeping; assumption)

lemma looks_each_bit [keeping]: "(\<And>n. looks v (f n)) \<Longrightarrow> looks v (each_bit f ns)"
  by (induction ns) (auto intro!: keeping)

lemma looks_apply_op [keeping]: "own_creds v C \<Longrightarrow> looks v (apply_op C x)"
  by (cases x) (auto simp: drop_bounding_except_def Let_def intro!: keeping)

lemma looks_apply_ops [keeping]: "own_creds v C \<Longrightarrow> looks v (apply_ops C xs)"
  by (induction xs) (auto intro!: keeping)

lemma looks_apply_plan [keeping]:
  "looking_kernel v K \<Longrightarrow> own_creds v C \<Longrightarrow> looks v (apply_plan K C p proc)"
  unfolding apply_plan_def Let_def by (intro keeping; assumption)

lemma looks_resolve_user [keeping]: "(\<And>path. looks v (f path)) \<Longrightarrow> looks v (resolve_user f n)"
  unfolding resolve_user_def resolve_from_def Let_def by (intro keeping; assumption?)

section \<open>Configuration\<close>

lemma looking_filesD [keeping]:
  assumes "looking_files v F"
  shows "looks v (hf_canonicalize F path)" "looks v (hf_open_dir F path)" "looks v (hf_open_file F d path)"
    "looks v (hf_fstat F fd)" "looks v (hf_stat F path)" "looks v (hf_read F fd)"
    "looks v (hf_list_dir F path)"
  using assms by (simp_all add: looking_files_def)

text \<open>Code that also collects issues.\<close>

abbreviation in_issues :: "('w \<Rightarrow> 'x) \<Rightarrow> issues \<times> 'w \<Rightarrow> 'x" where
  "in_issues v s \<equiv> v (snd s)"

lemma looks_on_files [keeping]: "looks v m \<Longrightarrow> looks (in_issues v) (on_files m)"
  by (auto simp: looks_def on_files_def split: prod.splits)

lemma looks_issue [keeping]:
  "looks (in_issues v) (\<lambda>s. case s of (is, w) \<Rightarrow> (r is, (f is, w)))"
  by (auto simp: looks_def)

lemma looks_check_meta [keeping]: "looks (in_issues v) (check_meta path lo what meta)"
  by (auto simp: looks_def check_meta_def)

lemma looks_read_opened [keeping]:
  "looking_files v F \<Longrightarrow> looks (in_issues v) (read_opened F path lo b parent d file)"
  unfolding read_opened_def by (intro keeping; assumption)

lemma looks_read_checked [keeping]:
  "looking_files v F \<Longrightarrow> looks (in_issues v) (read_checked F path lo b)"
  unfolding read_checked_def by (intro keeping; assumption)

lemma looks_list_fragments [keeping]: "looking_files v F \<Longrightarrow> looks v (list_fragments F dir)"
  unfolding list_fragments_def by (intro keeping; assumption)

lemma looks_sources [keeping]:
  "looking_files v F \<Longrightarrow> looks (in_issues v) (read_main F lo)"
  "looking_files v F \<Longrightarrow> looks (in_issues v) (installed_fragments F lo)"
  unfolding read_main_def installed_fragments_def Let_def by (intro keeping; assumption)+

lemma looks_read_fragments [keeping]:
  assumes F: "looking_files v F"
  shows "looks (in_issues v) (read_fragments F lo fs)"
proof (induction fs)
  case (Cons f fs)
  obtain path b where f: "f = (path, b)" by fastforce
  have on: "looks (in_issues v) (\<lambda>s. case s of (is, w) \<Rightarrow> read_fragments F lo fs (g is, w))" for g
    using looksD[OF Cons] by (auto simp: looks_def)
  show ?case
    unfolding f by (intro looks_ext[OF read_fragments.simps(2)] keeping on Cons F)
qed (intro looks_ext[OF read_fragments.simps(1)] keeping)

lemma check_ownership_keeps:
  assumes F: "looking_files v F"
  shows "v (snd (check_ownership F path lo b s)) = v (snd s)"
proof -
  have st: "v (snd (stat_ownership F path lo resolved p s)) = v (snd s)" for resolved p s
    using looksD[OF looking_filesD(5)[OF F], of p]
    by (cases s) (auto simp: stat_ownership_def on_files_def Let_def split: prod.splits sum.splits)
  have fold: "v (snd (fold (stat_ownership F path lo resolved) ps s)) = v (snd s)" for resolved ps s
    by (induction ps arbitrary: s) (simp_all add: st)
  show ?thesis
    using looksD[OF looking_filesD(1)[OF F], of path "snd s"]
    by (cases s) (auto simp: check_ownership_def on_files_def Let_def fold st split: prod.splits sum.splits)
qed

lemma looks_read_sources [keeping]:
  assumes F: "looking_files v F"
  shows "looks (in_issues v) (read_sources F lo)"
proof -
  have "v (snd s') = v (snd s)" if run: "read_sources F lo s = (r, s')" for s r s'
  proof -
    obtain main iss w where m: "read_main F lo s = (main, (iss, w))" by (metis prod.collapse)
    obtain names iss2 where n: "validate_candidates (lo_changes lo) iss = (names, iss2)" by fastforce
    obtain inst iss3 w3 where i: "installed_fragments F lo (iss2, w) = (inst, (iss3, w3))"
      by (metis prod.collapse)
    let ?arg = "(check_removals lo inst iss3, w3)"
    obtain fr s4 where f: "read_fragments F lo (fragments_of (lo_changes lo) names inst) ?arg = (fr, s4)"
      by (metis surj_pair)
    have "v (snd s') = v (snd s4)" using run m n i f check_ownership_keeps[OF F] by (cases s4) (auto simp: read_sources_def split: if_splits)
    then show ?thesis
      using looksD[OF looks_sources(1)[OF F] m] looksD[OF looks_sources(2)[OF F] i]
        looksD[OF looks_read_fragments[OF F] f] by simp
  qed
  then show ?thesis by (simp add: looks_def)
qed

lemma check_paths_exist_keeps:
  assumes F: "looking_files v F"
  shows "v (snd (check_paths_exist F cfg s)) = v (snd s)"
proof -
  have one: "v (snd (check_dir F origin grp fp s)) = v (snd s)" for origin grp fp s
    using looksD[OF looking_filesD(5)[OF F], of "show_abs_path (snd fp)" "snd s"]
    by (cases s; cases fp) (auto simp: check_dir_def on_files_def split: prod.splits sum.splits)
  have folds: "v (snd (fold (\<lambda>g. fold (check_dir F (o1 g) (g1 g)) (ps g)) gs s)) = v (snd s)"
    for o1 g1 ps and gs :: "'z list" and s
  proof (induction gs arbitrary: s)
    case (Cons g gs)
    have "v (snd (fold (check_dir F (o1 g) (g1 g)) xs s)) = v (snd s)" for xs s
      by (induction xs arbitrary: s) (simp_all add: one)
    with Cons show ?case by simp
  qed simp
  show ?thesis unfolding check_paths_exist_def Let_def folds one ..
qed

lemma looks_load [keeping]:
  assumes F: "looking_files v F"
  shows "looks v (load F toml lo)"
proof -
  have "v w' = v w" if "load F toml lo w = (r, w')" for w r w'
  proof -
    obtain srcs iss w1 where s: "read_sources F lo ([], w) = (srcs, (iss, w1))" by (metis prod.collapse)
    have "v w' = v w1"
      using that check_paths_exist_keeps[OF F]
      by (auto simp: load_def s Let_def split: prod.splits if_splits) (metis snd_conv)+
    then show ?thesis using looksD[OF looks_read_sources[OF F] s] by simp
  qed
  then show ?thesis by (simp add: looks_def)
qed

lemma looks_check_paths [keeping]: "looking_files v F \<Longrightarrow> looks v (check_paths F cfg)"
  unfolding check_paths_def looks_def using check_paths_exist_keeps[of v F cfg] by (metis snd_conv)

section \<open>Watches\<close>

lemma own_inotifyD [keeping]:
  assumes "own_inotify v N"
  shows "looks v (in_init N)" "looks v (in_add N fd path bits)" "looks v (in_remove N fd d)"
  using assms by (simp_all add: own_inotify_def)

lemma looks_sync [keeping]:
  assumes N: "own_inotify v N"
  shows "looks v (sync N rt wt)"
proof -
  have rel: "v (snd (release N d s)) = v (snd s)" for d s
    using looksD[OF own_inotifyD(3)[OF N] prod.collapse[symmetric]]
    by (cases s) (auto simp: release_def split: option.splits watched.splits)
  have gone: "v (snd (sync_gone N g s)) = v (snd s)" for g s
    by (cases s) (auto simp: sync_gone_def rel split: option.splits)
  have one: "v (snd (sync_one N (gid, path) (wt, w))) = v w" for gid path wt w
  proof -
    obtain r w1 where a: "in_add N (wt_fd wt) (show_abs_path path) (MEMBERSHIP_EVENTS OR IN_DONT_FOLLOW) w = (r, w1)"
      by fastforce
    have as: "v (snd (watch_as d g s)) = v (snd s)" for d g and s :: "'c watcher \<times> 'a"
      by (cases s) (simp add: watch_as_def)
    have "v (snd (sync_one N (gid, path) (wt, w))) = v w1"
      by (simp add: sync_one_def a gone as rel Let_def split: sum.split option.split)
    then show ?thesis using looksD[OF own_inotifyD(2)[OF N] a] by simp
  qed
  have "v (snd (fold (sync_gone N) gs s)) = v (snd s)" for gs s
    by (induction gs arbitrary: s) (simp_all add: gone)
  moreover have "v (snd (fold (sync_one N) ps s)) = v (snd s)" for ps s
    by (induction ps arbitrary: s) (simp, metis fold_simps(2) one prod.collapse)
  ultimately show ?thesis by (simp add: looks_def sync_def Let_def) (metis snd_conv)
qed

lemma looks_add_watches [keeping]:
  assumes N: "own_inotify v N"
  shows "looks v (add_group_watches N gs wt)" "looks v (add_set_watches N ss wt)"
proof -
  have "add_group_watches N gs wt w = (r, w') \<Longrightarrow> v w' = v w" for wt w r w'
    using looksD[OF own_inotifyD(2)[OF N]]
    by (induction gs arbitrary: wt w) (fastforce simp: Let_def split: prod.splits sum.splits)+
  then show "looks v (add_group_watches N gs wt)" by (simp add: looks_def)
  have "add_set_watches N ss wt w = (r, w') \<Longrightarrow> v w' = v w" for wt w r w'
    using looksD[OF own_inotifyD(2)[OF N]]
    by (induction ss arbitrary: wt w) (fastforce simp: Let_def split: prod.splits sum.splits)+
  then show "looks v (add_set_watches N ss wt)" by (simp add: looks_def)
qed

lemma looks_watcher_new [keeping]: "own_inotify v N \<Longrightarrow> looks v (watcher_new N rt)"
  unfolding watcher_new_def by (intro keeping; assumption)

section \<open>The state file, read without writing\<close>

lemma looks_store_open [keeping]: "looking_kernel v K \<Longrightarrow> looks v (store_open K dir)"
  unfolding store_open_def by (intro keeping; assumption)

lemma looks_load_read_only [keeping]: "looking_kernel v K \<Longrightarrow> looks v (load_read_only K js strftime st)"
proof -
  assume K: "looking_kernel v K"
  have "looks v (load_corrupt K strftime st None why)" for why
    unfolding load_corrupt_def by (simp add: keeping)
  then have "looks v (case decode js bytes of Inl (UnsupportedVersion u) \<Rightarrow> failE (LE_UnsupportedVersion p (UnsupportedVersion u))
      | Inl (Malformed why) \<Rightarrow> load_corrupt K strftime st None why | Inr s \<Rightarrow> retE (Loaded s))" for bytes p
    by (auto split: sum.split decode_error.split intro: keeping)
  then show ?thesis
    unfolding load_read_only_def load_inner_def by (intro keeping K)
qed

end
