(* ===== verification/Tool_Reads.thy ===== *)
theory Tool_Reads
  imports Reads_Host Tool_Props
begin

text \<open>
  The commands that inspect: \<open>byssus status\<close>, \<open>dry-run\<close> and \<open>check\<close> always come to an end with
  a report or an error, and change nothing.
\<close>

section \<open>Startup without a lock\<close>

lemma looks_load_config [keeping]:
  "looking_system v S \<Longrightarrow> looks v (load_config S src own)"
  unfolding load_config_def by (intro keeping; assumption)

lemma looks_service_user [keeping]:
  "looking_system v S \<Longrightarrow> looks v (service_user_of S user b)"
  unfolding service_user_of_def read_to_string_def by (intro keeping; assumption)

lemma looks_drop [keeping]:
  "looking_system v S \<Longrightarrow> looks v (drop_to_service_user S user)"
  unfolding drop_to_service_user_def normalize_def Let_def by (intro keeping; assumption)

lemma looks_mount_table [keeping]:
  "looking_system v S \<Longrightarrow> looks v (read_mount_table S)"
  unfolding read_mount_table_def by (intro keeping; assumption)

lemma looks_check_target [keeping]:
  "looking_system v S \<Longrightarrow> looks (in_env v) (check_target S table root)"
  unfolding check_target_def by (intro keeping; assumption)

section \<open>Stages of the commands\<close>

lemma looks_outcome:
  "(\<And>s. looks v (f s)) \<Longrightarrow> looks v g \<Longrightarrow> (\<And>why aside. looks v (h why aside)) \<Longrightarrow>
     looks v (\<lambda>w. case out of Loaded s \<Rightarrow> f s w | Missing \<Rightarrow> g w | Corrupt why aside \<Rightarrow> h why aside w)"
  by (cases out) simp_all

lemma looks_load_state [keeping]:
  "looking_system v (to_system T) \<Longrightarrow> looks v (load_state_read_only T cfg)"
  unfolding load_state_read_only_def Let_def by (intro keeping looks_outcome; assumption)

lemma looks_user_stages [keeping]:
  "looking_system v (to_system T) \<Longrightarrow> looks v (status_user T cfg)"
  "looking_system v (to_system T) \<Longrightarrow> looks v (privileges_check T cfg)"
  unfolding status_user_def privileges_check_def by (intro keeping; assumption)+

lemma looks_checks [keeping]:
  "looking_system v (to_system T) \<Longrightarrow> looks v (procfs_check T)"
  "looking_system v (to_system T) \<Longrightarrow> looks v (path_checks T cfg)"
  "looking_system v (to_system T) \<Longrightarrow> looks v (feature_check T b nf)"
  unfolding procfs_check_def path_checks_def feature_check_def Let_def by (intro keeping; assumption)+

lemma looks_feature_checks [keeping]:
  "looking_system v (to_system T) \<Longrightarrow> looks v (feature_checks T nfs)"
proof (induction nfs)
  case (Cons nf nfs)
  then show ?case by (intro looks_ext[OF feature_checks.simps(2)] keeping; simp)
qed (intro looks_ext[OF feature_checks.simps(1)] keeping)

lemma looks_propagation [keeping]:
  assumes S: "looking_system v S"
  shows "looks (in_env v) (propagation_levels S table ts m)"
    "looks (in_env v) (report_propagation S allow table ts r)"
proof -
  show "looks (in_env v) (propagation_levels S table ts m)"
    by (induction ts arbitrary: m)
      (auto intro!: looks_ext[OF propagation_levels.simps(1)] looks_ext[OF propagation_levels.simps(2)] keeping S)
  show "looks (in_env v) (report_propagation S allow table ts r)"
    by (induction ts arbitrary: r)
      (auto intro!: looks_ext[OF report_propagation.simps(1)] looks_ext[OF report_propagation.simps(2)] keeping S)
qed

lemma looks_watch_result [keeping]:
  "looking_system v (to_system T) \<Longrightarrow> looks v (watch_result T rt r)"
  unfolding watch_result_def by (intro keeping; assumption)

section \<open>No panic\<close>

lemma each_lenient_keeps:
  assumes "each_lenient f xs s = (es, s')" "P s"
    and "\<And>x s r s'. x \<in> set xs \<Longrightarrow> P s \<Longrightarrow> f x s = (r, s') \<Longrightarrow> P s'"
  shows "P s'"
  using assms
proof (induction xs arbitrary: s es)
  case (Cons x xs)
  obtain r s1 where f: "f x s = (r, s1)" by fastforce
  obtain es1 where "each_lenient f xs s1 = (es1, s')"
    using Cons.prems(1) f by (auto split: sum.splits prod.splits)
  moreover have "P s1" by (rule Cons.prems(3)[OF _ Cons.prems(2) f]) simp
  ultimately show ?case using Cons.IH Cons.prems(3) by (meson list.set_intros(2))
qed simp

lemma open_group_runtime:
  assumes "open_group K g (rt, e) = (r, (rt', e'))"
  shows "rt' = rt \<or> (\<exists>fd. rt' = rt\<lparr>rt_groups :=
    bt_insert (gc_name g) \<lparr>gr_config = g, gr_membership_dir = fd\<rparr> (rt_groups rt)\<rparr>)"
proof (cases r)
  case (Inr u)
  then show ?thesis using open_group_Inr assms by (metis old.unit.exhaust)
next
  case (Inl er)
  then show ?thesis
    using assms by (auto simp: open_group_def Let_def bindE_Inl_iff dest!: open_or_same split: prod.splits)
qed

lemma open_set_runtime:
  assumes "open_set K sc (rt, e) = (r, (rt', e'))"
  shows "rt' = rt \<or> (\<exists>fd. rt' = rt\<lparr>rt_sets :=
    bt_insert (sc_name sc) \<lparr>sr_config = sc, sr_root_dir = fd\<rparr> (rt_sets rt)\<rparr>)"
proof (cases r)
  case (Inr u)
  then show ?thesis using open_set_Inr assms by (metis old.unit.exhaust)
next
  case (Inl er)
  then show ?thesis
    using assms by (auto simp: open_set_def Let_def bindE_Inl_iff dest!: open_or_same split: prod.splits)
qed

lemma runtime_open_lenient_ok:
  assumes cfg: "config_ok cfg" and run: "runtime_open_lenient K cfg w = (es, (rt, e))"
  shows "runtime_ok rt"
proof -
  let ?P = "\<lambda>s. runtime_ok (fst s)"
  let ?s0 = "(default_runtime, \<lparr>e_roots = [], e_world = w\<rparr>)"
  obtain es1 s1 es2 where g: "each_lenient (open_group K) (bt_values (cfg_groups cfg)) ?s0 = (es1, s1)"
    and st: "each_lenient (open_set K) (bt_values (cfg_group_sets cfg)) s1 = (es2, (rt, e))"
    using run by (auto simp: runtime_open_lenient_def split: prod.splits)
  have "?P ?s0" by (simp add: runtime_ok_def default_runtime_def)
  then have "?P s1"
  proof (rule each_lenient_keeps[OF g])
    fix g r and s s' :: "('b, 'a) open_state"
    assume "g \<in> set (bt_values (cfg_groups cfg))" and ok: "?P s" and o: "open_group K g s = (r, s')"
    then have "Config_Props.group_ok g" using cfg by (auto simp: config_ok_def bt_values_def)
    then show "?P s'"
      using ok open_group_runtime[of K g "fst s" "snd s" r "fst s'" "snd s'"] o set_bt_insert
      by (fastforce simp: runtime_ok_def intro: bt_wf_insert)
  qed
  then have "?P (rt, e)"
  proof (rule each_lenient_keeps[OF st])
    fix sc r and s s' :: "('b, 'a) open_state"
    assume "sc \<in> set (bt_values (cfg_group_sets cfg))" and ok: "?P s" and o: "open_set K sc s = (r, s')"
    then have "group_set_ok sc" using cfg by (auto simp: config_ok_def bt_values_def)
    then show "?P s'"
      using ok open_set_runtime[of K sc "fst s" "snd s" r "fst s'" "snd s'"] o set_bt_insert
      by (fastforce simp: runtime_ok_def intro: bt_wf_insert)
  qed
  then show ?thesis by simp
qed

lemma load_state_wf: "load_state_read_only T cfg w = ((s, known, ns, path), w') \<Longrightarrow> state_wf s"
  by (auto simp: load_state_read_only_def Let_def load_read_only_def into_state_def
      dest!: load_inner_wf split: prod.splits sum.splits load_outcome.splits if_splits)

lemma observe_once_total:
  assumes "runtime_ok (fst opened)" "state_wf s"
  shows "\<exists>out p opened'. observe_once T s deg u opened = Some (out, p, opened')"
proof -
  let ?h = "\<lparr>h_runtime = fst opened, h_env = snd opened, h_caller = ()\<rparr>"
  obtain out h where d: "discover_and_observe (to_kernel T) s deg u (\<lambda>rt c w. (c, w)) ?h = Some (out, h)"
    using discover_and_observe_ok[of ?h "to_kernel T" s deg u "\<lambda>rt c w. (c, w)"] assms(1) by auto
  obtain p where "make_plan (plan_input_of out s) = Some p"
    using make_plan_Some[of "plan_input_of out s"] assms(2) by (auto simp: plan_input_of_def)
  with d show ?thesis by (simp add: observe_once_def)
qed

lemma load_ok: "load F toml lo w = (Inr ld, w') \<Longrightarrow> config_ok (ld_config ld)"
  using load_sources load_from_strs_config by metis

section \<open>The commands\<close>

text \<open>A command that returns, in a world whose view is \<open>x\<close>; a stage of it; its cases.\<close>

definition returns_at :: "('w \<Rightarrow> 'x) \<Rightarrow> 'x \<Rightarrow> ('a \<times> 'w) option \<Rightarrow> bool" where
  "returns_at v x r \<longleftrightarrow> (\<exists>a w'. r = Some (a, w') \<and> v w' = x)"

lemma at_value: "v w = x \<Longrightarrow> returns_at v x (Some (a, w))"
  by (simp add: returns_at_def)

lemma at_stage:
  assumes "looks u m" "u s = x"
    and "\<And>r s'. m s = (r, s') \<Longrightarrow> u s' = x \<Longrightarrow> returns_at v x (k r s')"
  shows "returns_at v x (case m s of (r, s') \<Rightarrow> k r s')"
  using assms looksD[OF assms(1)] by (metis old.prod.case surj_pair)

lemma at_cases:
  "(\<And>e. r = Inl e \<Longrightarrow> returns_at v x (f e)) \<Longrightarrow> (\<And>y. r = Inr y \<Longrightarrow> returns_at v x (g y)) \<Longrightarrow>
     returns_at v x (case r of Inl e \<Rightarrow> f e | Inr y \<Rightarrow> g y)"
  "(\<And>a b. q = (a, b) \<Longrightarrow> returns_at v x (h a b)) \<Longrightarrow> returns_at v x (case q of (a, b) \<Rightarrow> h a b)"
  "(c \<Longrightarrow> returns_at v x l) \<Longrightarrow> (\<not> c \<Longrightarrow> returns_at v x m) \<Longrightarrow> returns_at v x (if c then l else m)"
  by ((cases r; simp), (cases q; simp), (cases c; simp))

lemma at_open:
  assumes "looking_kernel v K" "v w = x"
    and "\<And>es rt e. runtime_open_lenient K cfg w = (es, (rt, e)) \<Longrightarrow> in_env v e = x
      \<Longrightarrow> returns_at v x (k es (rt, e))"
  shows "returns_at v x (case runtime_open_lenient K cfg w of (es, opened) \<Rightarrow> k es opened)"
proof -
  obtain es rt e where o: "runtime_open_lenient K cfg w = (es, (rt, e))" by (metis surj_pair)
  then show ?thesis using assms(2,3) runtime_open_lenient_keeps[OF assms(1) o] by simp
qed

lemma at_pair: "returns_at v x (h a b) \<Longrightarrow> returns_at v x (case (a, b) of (a, b) \<Rightarrow> h a b)"
  by simp

text \<open>Observing, after the configuration was loaded, the state read and the runtime opened.\<close>

lemma at_observe:
  assumes K: "looking_kernel v (to_kernel T)" and env: "in_env v e = x"
    and cfg: "config_ok cfg" and s: "load_state_read_only T cfg' w2 = ((s, known, ns, path), w3)"
    and o: "runtime_open_lenient (to_kernel T) cfg w4 = (es, (rt, e0))"
    and k: "\<And>out p rt' e'. in_env v e' = x \<Longrightarrow> returns_at v x (k out p rt' e')"
  shows "returns_at v x (case observe_once T s deg u (rt, e) of
      None \<Rightarrow> None | Some (out, p, rt', e') \<Rightarrow> k out p rt' e')"
proof -
  obtain out p rt' e' where ob: "observe_once T s deg u (rt, e) = Some (out, p, (rt', e'))"
    using observe_once_total[of "(rt, e)" s] runtime_open_lenient_ok[OF cfg o] load_state_wf[OF s] by fastforce
  have "in_env v e' = x" using observe_once_keeps[OF K ob] env by simp
  with k ob show ?thesis by simp
qed

lemma status_keeps:
  assumes S: "looking_system v (to_system T)"
  shows "returns_at v (v w) (tool_status T src w)"
  unfolding tool_status_def Let_def
  by (intro at_stage[OF looks_load_config[OF S]] at_stage[OF looks_user_stages(1)[OF S]]
      at_stage[OF looks_load_state[OF S]] at_open[OF looking_systemD(1)[OF S]]
      at_stage[OF looks_on_world[OF looks_probe_kernel[OF looking_systemD(3)[OF S]]]]
      at_observe[OF looking_systemD(1)[OF S] _ load_config_ok] at_pair at_cases at_value refl; (hypsubst_thin; assumption)?)

lemma dry_run_keeps:
  assumes S: "looking_system v (to_system T)"
  shows "returns_at v (v w) (tool_dry_run T src w)"
  unfolding tool_dry_run_def dry_run_opened_def Let_def
  by (intro at_stage[OF looks_load[OF looking_systemD(2)[OF S]]] at_stage[OF looks_user_stages(2)[OF S]]
      at_stage[OF looks_probe_kernel[OF looking_systemD(3)[OF S]]] at_stage[OF looks_feature_checks[OF S]]
      at_stage[OF looks_checks(1)[OF S]] at_stage[OF looks_checks(2)[OF S]]
      at_stage[OF looks_checks(3)[OF S]]
      at_stage[OF looks_load_state[OF S]] at_open[OF looking_systemD(1)[OF S]]
      at_stage[OF looks_on_world[OF looks_mount_table[OF S]]] at_stage[OF looks_propagation(1)[OF S]]
      at_observe[OF looking_systemD(1)[OF S] _ load_ok] at_pair at_cases at_value refl; (hypsubst_thin; assumption)?)

lemma check_opened_keeps:
  assumes S: "looking_system v (to_system T)" and rt: "runtime_ok (fst opened)"
  shows "returns_at v (in_opened v opened) (check_opened T allow r opened)"
proof -
  obtain rt e where o: "opened = (rt, e)" by fastforce
  have disc: "returns_at v x (case discover (to_kernel T) [] rt w of None \<Rightarrow> None | Some ((rt, d), w) \<Rightarrow> k rt d w)"
    if "v w = x" "\<And>rt d w'. v w' = x \<Longrightarrow> returns_at v x (k rt d w')" for w x k
  proof -
    obtain rt' d w' where "discover (to_kernel T) [] rt w = Some ((rt', d), w')"
      using discover_ok[of rt "to_kernel T" "[]" w] rt o by auto
    with that looks_if_returnsD[OF looks_discover[OF looking_systemD(1)[OF S]] this] show ?thesis by simp
  qed
  show ?thesis
    unfolding check_opened_def o Let_def
    by (intro at_pair at_stage[OF looks_on_world[OF looks_watch_result[OF S]]] disc
        at_stage[OF looks_on_world[OF looks_mount_table[OF S]]] at_stage[OF looks_propagation(2)[OF S]]
        at_cases at_value refl; simp)
qed

lemma check_keeps:
  assumes S: "looking_system v (to_system T)"
  shows "returns_at v (v w) (tool_check T src changes allow w)"
proof -
  note K = looking_systemD(1)[OF S]
  have opn: "returns_at v x (case runtime_open (to_kernel T) (ld_config ld) w of
      (Inl er, opened) \<Rightarrow> Some (Inr (f er), e_world (snd opened)) | (Inr _, opened) \<Rightarrow> check_opened T allow r opened)"
    if "load F toml lo w0 = (Inr ld, w1)" "v w = x" for F toml lo w0 w1 ld w x f r
  proof -
    obtain z opened where o: "runtime_open (to_kernel T) (ld_config ld) w = (z, opened)" by (metis surj_pair)
    have x: "in_opened v opened = x" using runtime_open_keeps[OF K o] that(2) by simp
    show ?thesis
    proof (cases z)
      case (Inl er)
      with o x show ?thesis by (simp add: at_value)
    next
      case (Inr u)
      with o have "runtime_ok (fst opened)" using runtime_open_ok[OF load_ok[OF that(1)]] by (metis prod.collapse)
      with check_opened_keeps[OF S this] o x Inr show ?thesis by simp
    qed
  qed
  show ?thesis
    unfolding tool_check_def Let_def
    by (intro at_stage[OF looks_load[OF looking_systemD(2)[OF S]]] at_stage[OF looks_drop[OF S]]
        at_stage[OF looks_check_paths[OF looking_systemD(2)[OF S]]] opn at_cases at_value refl;
        (hypsubst_thin; assumption)?)
qed

text \<open>C17. The commands that inspect change nothing, and always come to an end with a report or an
  error.  Take any view of the world (which mounts there are, which names directories have,
  what files hold) that is kept by the calls that look: opening without creating, truncating
  or writing, reading, \<open>stat\<close>, the probes with invalid arguments, and the calls on the
  process's own credentials and watches.  Then \<open>status\<close>, \<open>dry-run\<close> and \<open>check\<close> keep it,
  whatever mounting, unmounting, creating, removing, renaming and writing would do: on no
  path, not of an error either, do they make such a call.  None of them panics, whatever the
  configuration, the state file and the directories hold.\<close>

theorem inspecting_changes_nothing:
  assumes "looking_system view (to_system T)"
  shows "(\<exists>r w'. tool_status T src w = Some (r, w') \<and> view w' = view w)
    \<and> (\<exists>r w'. tool_dry_run T src w = Some (r, w') \<and> view w' = view w)
    \<and> (\<exists>r w'. tool_check T src changes allow w = Some (r, w') \<and> view w' = view w)"
  using status_keeps[OF assms] dry_run_keeps[OF assms] check_keeps[OF assms]
  unfolding returns_at_def by blast

text \<open>On the toy kernel, where mounting, unmounting and writing change the world, the whole world
  is kept.\<close>

definition toy_files :: "(toy, string) host_files" where
  "toy_files =
     \<lparr>hf_canonicalize = \<lambda>_ w. (Inl (Os ENOENT), w), hf_open_dir = \<lambda>_ w. (Inl (Os ENOENT), w),
      hf_open_file = \<lambda>_ _ w. (Inl ENOENT, w), hf_fstat = \<lambda>_ w. (Inl (Os ENOENT), w),
      hf_stat = \<lambda>_ w. (Inr \<lparr>fm_uid = 0, fm_mode = 0x41ED, fm_type = FT_Directory\<rparr>, w),
      hf_read = \<lambda>_ w. (Inl (Os ENOENT), w),
      hf_list_dir = \<lambda>_ w. (Inl (Os ENOENT), w), hf_show = \<lambda>_. ''error''\<rparr>"

definition toy_creds :: "toy creds" where
  "toy_creds =
     \<lparr>c_capabilities = \<lambda>w. (Inr \<lparr>cs_effective = 0, cs_permitted = 0, cs_inheritable = 0\<rparr>, w),
      c_getresuid = \<lambda>w. (Inr [991, 991, 991], w), c_getresgid = \<lambda>w. (Inr [992, 992, 992], w),
      c_getgroups = \<lambda>w. (Inr [], w), c_in_bounding = \<lambda>_ w. (Inr False, w),
      c_in_ambient = \<lambda>_ w. (Inr False, w), c_no_new_privs = \<lambda>w. (Inr True, w),
      c_secure_bits = \<lambda>w. (Inr 0, w), c_clear_ambient = \<lambda>w. (Inr (), w),
      c_set_caps = \<lambda>_ w. (Inr (), w), c_drop_bounding = \<lambda>_ w. (Inr (), w),
      c_set_secure_bits = \<lambda>_ w. (Inr (), w), c_set_keep_caps = \<lambda>_ w. (Inr (), w),
      c_set_groups = \<lambda>_ w. (Inr (), w), c_set_res_gid = \<lambda>_ w. (Inr (), w),
      c_set_res_uid = \<lambda>_ w. (Inr (), w), c_set_no_new_privs = \<lambda>w. (Inr (), w)\<rparr>"

definition toy_tool :: "(toy, string, state_document) tool" where
  "toy_tool =
     \<lparr>to_system =
        \<lparr>sy_kernel = toy_kernel, sy_files = toy_files, sy_creds = toy_creds,
         sy_probe =
           \<lparr>pc_open_tree = \<lambda>w. (Inl EBUSY, w), pc_move_mount = \<lambda>w. (Inl EBUSY, w),
            pc_openat2 = \<lambda>w. (Inr (), w), pc_mount_setattr = \<lambda>w. (EBUSY, w),
            pc_statx = \<lambda>_ _ w. (Inr (toy_statx False), w), pc_fs_type = \<lambda>_ w. (Inr PROC_SUPER_MAGIC, w),
            pc_read = \<lambda>_ w. (Inr [], w)\<rparr>,
         sy_inotify =
           \<lparr>in_init = \<lambda>w. (Inr ''inotify'', w), in_add = \<lambda>_ _ _ w. (Inl ENOENT, w),
            in_remove = \<lambda>_ _ w. (Inr (), w), in_next = \<lambda>_ w. (Inl EAGAIN, w)\<rparr>,
         sy_flock = \<lambda>_ w. (Inr (), w), sy_json = example_json, sy_toml = \<lambda>_. Inl ''no TOML'',
         sy_strftime = \<lambda>_. ''now'', sy_escape_debug = id, sy_debug_op = \<lambda>_. ''operation''\<rparr>,
      to_umask = \<lambda>_ w. w\<rparr>"

theorem inspecting_changes_nothing_witness:
  "\<exists>r. tool_dry_run toy_tool \<lparr>so_file = None, so_dir = None\<rparr> (toy_world True) = Some (r, toy_world True)"
proof -
  have "looking_kernel id toy_kernel"
    by (simp add: looking_kernel_def looks_def toy_kernel_def looking_flags_def split: option.split)
  then have "looking_system id (to_system toy_tool)"
    by (simp add: looking_system_def looking_files_def looking_probes_def own_inotify_def own_creds_def looks_def
        toy_tool_def toy_files_def toy_creds_def)
  from inspecting_changes_nothing[OF this, of "\<lparr>so_file = None, so_dir = None\<rparr>" "toy_world True"]
  show ?thesis by auto
qed

end
