(* ===== verification/Front_Ends.thy ===== *)
theory Front_Ends
  imports Tool_Props
begin

text \<open>
  \<open>src/src/cli.rs\<close>, \<open>src/src/bin/byssusd.rs\<close> and the \<open>main\<close> of \<open>src/src/bin/byssus.rs\<close>: from the
  arguments to the exit status.  What the crate \<open>clap\<close> makes of the arguments, the JSON form of a
  report, the subscriber of the crate \<open>tracing\<close> and writing to the standard streams are
  parameters.  A panic is \<open>None\<close>.
\<close>

section \<open>Arguments\<close>

record daemon_cli =
  dl_config :: "string option"
  dl_config_dir :: "string option"
  dl_log_level :: log_level
  dl_user :: "string option"
  dl_allow_root :: bool
  dl_allow_slave_namespace :: bool

record config_args =
  ca_config :: "string option"
  ca_config_dir :: "string option"

definition args_source :: "config_args \<Rightarrow> config_source" where
  "args_source a = \<lparr>so_file = ca_config a, so_dir = ca_config_dir a\<rparr>"

datatype format = Fmt_Text | Fmt_Json

record privilege_args =
  pa_user :: "string option"
  pa_allow_root :: bool
  pa_allow_slave_namespace :: bool

datatype tool_command =
    Cmd_Status format
  | Cmd_DryRun format
  | Cmd_Reconcile privilege_args
  | Cmd_Check "string list" "string list" bool format
  | Cmd_Version

record tool_cli =
  tc_config :: config_args
  tc_log_level :: "log_level option"
  tc_command :: tool_command

section \<open>The process\<close>

text \<open>
  \<open>clap\<close> gives the arguments as a value, or an exit status after it has said why.  The report
  as JSON may fail to serialize; a write to a standard stream that fails is a panic.
\<close>

record 'w process =
  pr_args :: "string list"
  pr_parse_daemon :: "string list \<Rightarrow> nat + daemon_cli"
  pr_parse_tool :: "string list \<Rightarrow> nat + tool_cli"
  pr_status_json :: "status_report \<Rightarrow> string + string"
  pr_dry_run_json :: "dry_run_report \<Rightarrow> string + string"
  pr_check_json :: "check_report \<Rightarrow> string + string"
  pr_print :: "string \<Rightarrow> 'w \<Rightarrow> 'w option"
  pr_eprint :: "string \<Rightarrow> 'w \<Rightarrow> 'w option"
  pr_journal_stream :: "'w \<Rightarrow> string option"
  pr_stderr_id :: "'w \<Rightarrow> (nat \<times> nat) option"
  pr_subscribe :: "log_level \<Rightarrow> bool \<Rightarrow> 'w \<Rightarrow> 'w"
  pr_log :: "log_event \<Rightarrow> 'w \<Rightarrow> 'w"
  pr_version :: string

text \<open>\<open>logging::init\<close>: lines have timestamps unless the journal adds its own.\<close>

definition logging_init :: "'w process \<Rightarrow> log_level \<Rightarrow> 'w \<Rightarrow> 'w" where
  "logging_init P level w =
     pr_subscribe P level (\<not> stderr_is_journal (pr_journal_stream P w) (pr_stderr_id P w)) w"

fun exit_status :: "exit_code \<Rightarrow> nat" where
  "exit_status Exit_Success = 0"
| "exit_status Exit_Failure = 1"

section \<open>byssusd\<close>

definition options_of :: "daemon_cli \<Rightarrow> daemon_options" where
  "options_of cli =
     \<lparr>op_config = \<lparr>so_file = dl_config cli, so_dir = dl_config_dir cli\<rparr>, op_user = dl_user cli,
      op_allow_root = dl_allow_root cli, op_allow_slave = dl_allow_slave_namespace cli\<rparr>"

definition daemon_main ::
  "'w process \<Rightarrow> ('w, 'fd, 'v) daemon_calls \<Rightarrow> 'w \<Rightarrow> (nat \<times> 'w) option" where
  "daemon_main P D w =
     (case pr_parse_daemon P (pr_args P) of
        Inl status \<Rightarrow> Some (status, w)
      | Inr cli \<Rightarrow>
          (case run D (options_of cli) (logging_init P (dl_log_level cli) w) of
             None \<Rightarrow> None
           | Some (Inr _, w) \<Rightarrow> Some (exit_status Exit_Success, w)
           | Some (Inl e, w) \<Rightarrow>
               Some (exit_status Exit_Failure,
                     pr_log P \<lparr>le_level = LV_Error,
                               le_fields = [(''msg'', ''byssusd failed''),
                                            (''error'', show_app_error (dk_system D) e)]\<rparr> w)))"

section \<open>byssus\<close>

definition default_level :: "tool_command \<Rightarrow> log_level" where
  "default_level c = (case c of Cmd_Reconcile _ \<Rightarrow> LV_Info | _ \<Rightarrow> LV_Warn)"

definition print_report ::
  "'w process \<Rightarrow> format \<Rightarrow> string \<Rightarrow> string + string \<Rightarrow> 'w \<Rightarrow> ((string + unit) \<times> 'w) option" where
  "print_report P fmt txt json w =
     (case fmt of
        Fmt_Text \<Rightarrow> map_option (\<lambda>w. (Inr (), w)) (pr_print P txt w)
      | Fmt_Json \<Rightarrow>
          (case json of
             Inl e \<Rightarrow> Some (Inl e, w)
           | Inr s \<Rightarrow> map_option (\<lambda>w. (Inr (), w)) (pr_print P (s @ [NEWLINE]) w)))"

text \<open>A command that prints its report and gives the exit code it decided on.\<close>

definition reporting ::
  "'w process \<Rightarrow> ('w, 'fd, 'v) system \<Rightarrow> format \<Rightarrow> ('r \<Rightarrow> string) \<Rightarrow> ('r \<Rightarrow> string + string)
     \<Rightarrow> ((tool_error + 'r \<times> exit_code) \<times> 'w) option \<Rightarrow> ((string + exit_code) \<times> 'w) option" where
  "reporting P S fmt to_text to_json outcome =
     (case outcome of
        None \<Rightarrow> None
      | Some (Inl e, w) \<Rightarrow> Some (Inl (show_tool_error S e), w)
      | Some (Inr (report, code), w) \<Rightarrow>
          (case print_report P fmt (to_text report) (to_json report) w of
             None \<Rightarrow> None
           | Some (Inl e, w) \<Rightarrow> Some (Inl e, w)
           | Some (Inr _, w) \<Rightarrow> Some (Inr code, w)))"

definition run_command ::
  "'w process \<Rightarrow> ('w, 'fd, 'v) tool \<Rightarrow> config_source \<Rightarrow> tool_command \<Rightarrow> 'w
     \<Rightarrow> ((string + exit_code) \<times> 'w) option" where
  "run_command P T src c w =
     (let S = to_system T in
      case c of
        Cmd_Version \<Rightarrow>
          map_option (\<lambda>w. (Inr Exit_Success, w)) (pr_print P (''byssus '' @ pr_version P @ [NEWLINE]) w)
      | Cmd_Status fmt \<Rightarrow> reporting P S fmt status_report_text (pr_status_json P) (tool_status T src w)
      | Cmd_Check add remove allow_slave fmt \<Rightarrow>
          reporting P S fmt check_report_text (pr_check_json P)
            (tool_check T src \<lparr>fc_add = add, fc_remove = remove\<rparr> allow_slave w)
      | Cmd_DryRun fmt \<Rightarrow> reporting P S fmt dry_run_text (pr_dry_run_json P) (tool_dry_run T src w)
      | Cmd_Reconcile args \<Rightarrow>
          (case reconcile_once T src (pa_user args) (pa_allow_root args) (pa_allow_slave_namespace args) w of
             None \<Rightarrow> None
           | Some (Inl e, w) \<Rightarrow> Some (Inl (show_tool_error S e), w)
           | Some (Inr (_, code), w) \<Rightarrow> Some (Inr code, w)))"

definition tool_main :: "'w process \<Rightarrow> ('w, 'fd, 'v) tool \<Rightarrow> 'w \<Rightarrow> (nat \<times> 'w) option" where
  "tool_main P T w =
     (case pr_parse_tool P (pr_args P) of
        Inl status \<Rightarrow> Some (status, w)
      | Inr cli \<Rightarrow>
          let level = (case tc_log_level cli of Some l \<Rightarrow> l | None \<Rightarrow> default_level (tc_command cli)) in
          (case run_command P T (args_source (tc_config cli)) (tc_command cli) (logging_init P level w) of
             None \<Rightarrow> None
           | Some (Inr code, w) \<Rightarrow> Some (exit_status code, w)
           | Some (Inl e, w) \<Rightarrow>
               map_option (\<lambda>w. (exit_status Exit_Failure, w)) (pr_eprint P (''byssus: '' @ e @ [NEWLINE]) w)))"

end
