(* ===== verification/Front_Props.thy ===== *)
theory Front_Props
  imports Front_Ends
begin

text \<open>
  What the exit status of the command line tool says.
\<close>

section \<open>Levels\<close>

lemma max_Error_iff: "max a b = L_Error \<longleftrightarrow> a = L_Error \<or> b = L_Error"
  by (cases a; cases b) (simp_all add: max_def less_eq_level_def)

lemma max_level_Error_iff: "max_level ls = L_Error \<longleftrightarrow> L_Error \<in> set ls"
proof -
  have "fold max ls a = L_Error \<longleftrightarrow> a = L_Error \<or> L_Error \<in> set ls" for a
    by (induction ls arbitrary: a) (auto simp: max_Error_iff)
  then show ?thesis by (simp add: max_level_def)
qed

lemma exit_for_iff [simp]: "exit_for l = Exit_Success \<longleftrightarrow> l \<noteq> L_Error"
  by (simp add: exit_for_def)

text \<open>What a report that counts as success says.\<close>

definition status_clean :: "status_report \<Rightarrow> bool" where
  "status_clean r \<longleftrightarrow>
     (\<forall>m\<in>set (sp_members r). member_level (mb_state m) \<noteq> L_Error) \<and> sp_unavailable r = []"

definition dry_run_clean :: "dry_run_report \<Rightarrow> bool" where
  "dry_run_clean r \<longleftrightarrow>
     (\<forall>c\<in>set (dr_checks r). ck_level c \<noteq> L_Error) \<and> (\<forall>g\<in>set (dr_groups r). rp_status g \<noteq> L_Error)"

lemma status_level_iff: "status_level r \<noteq> L_Error \<longleftrightarrow> status_clean r"
  by (auto simp: status_level_def status_clean_def max_level_Error_iff image_iff eq_commute[of L_Error])

lemma dry_run_level_iff: "dry_run_level r \<noteq> L_Error \<longleftrightarrow> dry_run_clean r"
  by (auto simp: dry_run_level_def dry_run_clean_def max_level_Error_iff image_iff eq_commute[of L_Error])

section \<open>The codes of the commands\<close>

lemma status_code:
  "tool_status T src w = Some (Inr (r, code), w') \<Longrightarrow> code = Exit_Success \<longleftrightarrow> status_clean r"
  by (auto simp: tool_status_def Let_def status_level_iff[symmetric]
      split: prod.splits sum.splits option.splits)

lemma dry_run_opened_code:
  "dry_run_opened T cfg f s known checks errors opened = Some (Inr (r, code), w')
    \<Longrightarrow> code = Exit_Success \<longleftrightarrow> dry_run_clean r"
  by (auto simp: dry_run_opened_def Let_def dry_run_level_iff[symmetric]
      split: prod.splits sum.splits option.splits)

lemma dry_run_code:
  assumes "tool_dry_run T src w = Some (Inr (r, code), w')"
  shows "code = Exit_Success \<longleftrightarrow> dry_run_clean r"
proof -
  let ?S = "to_system T"
  obtain l w1 where l: "load (sy_files ?S) (sy_toml ?S) (source_options src Warn) w = (l, w1)" by fastforce
  show ?thesis
  proof (cases l)
    case (Inl iss)
    then obtain i where i: "i \<in> set iss" "is_severity i = Error"
      using load_Inl[OF l[unfolded Inl]] by (auto simp: filter_empty_conv is_error_def)
    have "ck_level (issue_check T ''config'' i) = L_Error"
      using i(2) by (simp add: issue_check_def new_check_def level_of_def)
    then have "\<not> dry_run_clean \<lparr>dr_checks = map (issue_check T ''config'') iss, dr_groups = [], dr_members = []\<rparr>"
      using i(1) by (auto simp: dry_run_clean_def)
    with assms l Inl show ?thesis by (auto simp: tool_dry_run_def)
  next
    case (Inr ld)
    with assms l show ?thesis
      by (auto simp: tool_dry_run_def Let_def split: prod.splits sum.splits dest: dry_run_opened_code)
  qed
qed

lemma finish_code: "finish_check r = (r', code) \<Longrightarrow> code = Exit_Success \<longleftrightarrow> cr_errors r' = [] \<and> cr_valid r'"
  by (auto simp: finish_check_def split: if_splits)

lemma check_opened_code:
  "check_opened T allow r0 opened = Some (Inr (r, code), w')
    \<Longrightarrow> code = Exit_Success \<longleftrightarrow> cr_errors r = [] \<and> cr_valid r"
  by (auto simp: check_opened_def Let_def split: prod.splits sum.splits option.splits dest!: finish_code)

lemma check_code:
  assumes "tool_check T src changes allow w = Some (Inr (r, code), w')"
  shows "code = Exit_Success \<longleftrightarrow> cr_errors r = [] \<and> cr_valid r"
  using assms unfolding tool_check_def Let_def
  by (auto split: prod.splits sum.splits if_splits dest!: finish_code check_opened_code)

lemma reconcile_code:
  "reconcile_once T src user allow_root allow_slave w = Some (Inr (ps, code), w')
    \<Longrightarrow> code = Exit_Success \<longleftrightarrow> failures (ps_execution ps) = 0"
  unfolding reconcile_once_def Let_def
  by (auto split: prod.splits sum.splits option.splits if_splits)

section \<open>The exit status\<close>

text \<open>
  What the command did, when it counts as success.  The report is the one that went to the
  standard output, as text or as JSON.
\<close>

definition printed ::
  "'w process \<Rightarrow> format \<Rightarrow> ('r \<Rightarrow> string) \<Rightarrow> ('r \<Rightarrow> string + string) \<Rightarrow> 'r \<Rightarrow> 'w \<Rightarrow> 'w \<Rightarrow> bool" where
  "printed P fmt to_text to_json report w w' \<longleftrightarrow>
     (case fmt of
        Fmt_Text \<Rightarrow> pr_print P (to_text report) w = Some w'
      | Fmt_Json \<Rightarrow> (\<exists>s. to_json report = Inr s \<and> pr_print P (s @ [NEWLINE]) w = Some w'))"

definition succeeded ::
  "'w process \<Rightarrow> ('w, 'fd, 'v) tool \<Rightarrow> config_source \<Rightarrow> tool_command \<Rightarrow> 'w \<Rightarrow> 'w \<Rightarrow> bool" where
  "succeeded P T src c w w' \<longleftrightarrow>
     (case c of
        Cmd_Status fmt \<Rightarrow>
          \<exists>r code v. tool_status T src w = Some (Inr (r, code), v) \<and> status_clean r
            \<and> printed P fmt status_report_text (pr_status_json P) r v w'
      | Cmd_DryRun fmt \<Rightarrow>
          \<exists>r code v. tool_dry_run T src w = Some (Inr (r, code), v) \<and> dry_run_clean r
            \<and> printed P fmt dry_run_text (pr_dry_run_json P) r v w'
      | Cmd_Check add remove allow fmt \<Rightarrow>
          \<exists>r code v. tool_check T src \<lparr>fc_add = add, fc_remove = remove\<rparr> allow w = Some (Inr (r, code), v)
            \<and> cr_errors r = [] \<and> cr_valid r
            \<and> printed P fmt check_report_text (pr_check_json P) r v w'
      | Cmd_Reconcile a \<Rightarrow>
          \<exists>ps code. reconcile_once T src (pa_user a) (pa_allow_root a) (pa_allow_slave_namespace a) w
              = Some (Inr (ps, code), w') \<and> failures (ps_execution ps) = 0
      | Cmd_Version \<Rightarrow> pr_print P (''byssus '' @ pr_version P @ [NEWLINE]) w = Some w')"

lemma reporting_success:
  "reporting P S fmt to_text to_json outcome = Some (Inr Exit_Success, w') \<longleftrightarrow>
     (\<exists>r v. outcome = Some (Inr (r, Exit_Success), v) \<and> printed P fmt to_text to_json r v w')"
  unfolding reporting_def print_report_def printed_def
  by (cases fmt) (auto split: option.splits prod.splits sum.splits)

lemma run_command_success:
  "run_command P T src c w = Some (Inr Exit_Success, w') \<longleftrightarrow> succeeded P T src c w w'"
proof (cases c)
  case (Cmd_Status fmt)
  then show ?thesis by (auto simp: run_command_def succeeded_def reporting_success dest: status_code)
next
  case (Cmd_DryRun fmt)
  then show ?thesis by (auto simp: run_command_def succeeded_def reporting_success dest: dry_run_code)
next
  case (Cmd_Reconcile a)
  then show ?thesis
    by (auto simp: run_command_def succeeded_def dest: reconcile_code split: option.splits prod.splits sum.splits)
next
  case (Cmd_Check add remove allow fmt)
  then show ?thesis by (auto simp: run_command_def succeeded_def reporting_success dest: check_code)
next
  case Cmd_Version
  then show ?thesis by (auto simp: run_command_def succeeded_def)
qed

text \<open>C18. 
  C0.  The exit status of the tool, once its arguments were understood and unless it panics, is
  0 or 1.  It is 0 exactly when the command did all it was asked: \<open>status\<close>, \<open>dry-run\<close> and \<open>check\<close>
  printed their whole report, and the report says nothing at level error (no member in such a
  state and no group whose state could not be read; no check and no group of the plan; no error of
  the check); \<open>reconcile\<close> ran a pass without a failed operation; \<open>version\<close> was printed.
\<close>

theorem tool_exit_status:
  assumes "pr_parse_tool P (pr_args P) = Inr cli"
    and "tool_main P T w = Some (status, w')"
    and "level = (case tc_log_level cli of Some l \<Rightarrow> l | None \<Rightarrow> default_level (tc_command cli))"
  shows "status \<le> 1 \<and> (status = 0 \<longleftrightarrow>
      succeeded P T (args_source (tc_config cli)) (tc_command cli) (logging_init P level w) w')"
proof -
  have m: "(case run_command P T (args_source (tc_config cli)) (tc_command cli) (logging_init P level w) of
             None \<Rightarrow> None
           | Some (Inr code, w) \<Rightarrow> Some (exit_status code, w)
           | Some (Inl e, w) \<Rightarrow>
               map_option (\<lambda>w. (exit_status Exit_Failure, w)) (pr_eprint P (''byssus: '' @ e @ [NEWLINE]) w))
         = Some (status, w')"
    using assms by (simp add: tool_main_def)
  have code: "exit_status x = 0 \<longleftrightarrow> x = Exit_Success" "exit_status x \<le> 1" for x
    by (cases x; simp)+
  have "status \<le> 1" using m code by (auto split: option.splits prod.splits sum.splits)
  moreover have "status = 0 \<longleftrightarrow>
      succeeded P T (args_source (tc_config cli)) (tc_command cli) (logging_init P level w) w'"
    using m unfolding run_command_success[symmetric]
    by (auto simp: code split: option.splits prod.splits sum.splits)
  ultimately show ?thesis by blast
qed

text \<open>The theorem on \<open>byssus check\<close> with nothing configured, writing to streams that swallow all.\<close>

definition example_shell :: "process_state process" where
  "example_shell = \<lparr>
     pr_args = [''byssus'', ''check''],
     pr_parse_daemon = \<lambda>_. Inl 2,
     pr_parse_tool = \<lambda>_. Inr \<lparr>
       tc_config = \<lparr>ca_config = so_file example_source, ca_config_dir = so_dir example_source\<rparr>,
       tc_log_level = None, tc_command = Cmd_Check [] [] False Fmt_Text\<rparr>,
     pr_status_json = \<lambda>_. Inl ''no JSON'', pr_dry_run_json = \<lambda>_. Inl ''no JSON'',
     pr_check_json = \<lambda>_. Inl ''no JSON'',
     pr_print = \<lambda>_ w. Some w, pr_eprint = \<lambda>_ w. Some w,
     pr_journal_stream = \<lambda>_. None, pr_stderr_id = \<lambda>_. None,
     pr_subscribe = \<lambda>_ _ w. w, pr_log = \<lambda>_ w. w, pr_version = ''0''\<rparr>"

theorem tool_exit_status_witness:
  "\<exists>w. tool_main example_shell example_tool service_process = Some (0, w)
     \<and> succeeded example_shell example_tool example_source (Cmd_Check [] [] False Fmt_Text) service_process w"
proof -
  obtain r w where c: "tool_check example_tool example_source \<lparr>fc_add = [], fc_remove = []\<rparr> False
      service_process = Some (Inr (r, Exit_Success), w)"
    using example_check by blast
  have src: "args_source \<lparr>ca_config = so_file example_source, ca_config_dir = so_dir example_source\<rparr>
      = example_source"
    by (simp add: args_source_def)
  have log: "logging_init example_shell l w = w" for l w
    by (simp add: logging_init_def example_shell_def)
  let ?cli = "\<lparr>tc_config = \<lparr>ca_config = so_file example_source, ca_config_dir = so_dir example_source\<rparr>,
    tc_log_level = None, tc_command = Cmd_Check [] [] False Fmt_Text\<rparr>"
  have shell: "pr_parse_tool example_shell a = Inr ?cli" "pr_print example_shell t w = Some w" for a t w
    by (simp_all add: example_shell_def)
  have m: "tool_main example_shell example_tool service_process = Some (0, w)"
    by (simp add: tool_main_def shell src log run_command_def c reporting_def print_report_def)
  from tool_exit_status[OF shell(1) m refl] m show ?thesis
    by (simp add: src log)
qed

end
